(* ===== verification/PawsPrelude.thy ===== *)
theory PawsPrelude
  imports Main "HOL-Library.Word"
begin

text \<open>
  What the component theories share: names for the machine integers and byte strings of the
  Rust sources, the parts of the Rust standard library the sources call (big- and little-endian
  conversions, \<open>copy_from_slice\<close>, ASCII case folding, \<open>str::trim\<close>, UTF-8 validation,
  \<open>Iterator::min_by_key\<close>, the association list that stands for a \<open>HashMap\<close>), the outcome of
  code that may panic, and the collections of simplification rules the component proofs use.
\<close>

unbundle bit_operations_syntax

named_theorems byte_simps "reading and writing bytes of a buffer"
named_theorems str_simps "byte strings and Rust string operations"

type_synonym byte = "8 word"
type_synonym u16 = "16 word"
type_synonym u32 = "32 word"
type_synonym u64 = "64 word"

subsection \<open>Panics\<close>

text \<open>
  \<open>Panic\<close> is an index out of range or a failed \<open>copy_from_slice\<close>; \<open>Ret\<close> is a normal return.
\<close>

datatype 'a outcome = Panic | Ret 'a

definition obind :: "'a outcome \<Rightarrow> ('a \<Rightarrow> 'b outcome) \<Rightarrow> 'b outcome" where
  "obind m f = (case m of Panic \<Rightarrow> Panic | Ret a \<Rightarrow> f a)"

lemma obind_simps [simp]: "obind (Ret a) f = f a" "obind Panic f = Panic"
  by (simp_all add: obind_def)

subsection \<open>Bytes and integers\<close>

definition be16 :: "byte \<Rightarrow> byte \<Rightarrow> u16" where
  "be16 hi lo = word_of_nat (unat hi * 256 + unat lo)"

definition be32 :: "byte \<Rightarrow> byte \<Rightarrow> byte \<Rightarrow> byte \<Rightarrow> u32" where
  "be32 a b c d = word_of_nat (((unat a * 256 + unat b) * 256 + unat c) * 256 + unat d)"

definition be16_bytes :: "u16 \<Rightarrow> byte list" where
  "be16_bytes w = [word_of_nat (unat w div 256), word_of_nat (unat w)]"

definition be32_bytes :: "u32 \<Rightarrow> byte list" where
  "be32_bytes w = [word_of_nat (unat w div 16777216), word_of_nat (unat w div 65536),
                   word_of_nat (unat w div 256), word_of_nat (unat w)]"

text \<open>\<open>to_le_bytes\<close> and its inverse for any width, least significant byte first.\<close>

fun le_bytes :: "nat \<Rightarrow> nat \<Rightarrow> byte list" where
  "le_bytes 0 v = []"
| "le_bytes (Suc n) v = word_of_nat v # le_bytes n (v div 256)"

fun le_nat :: "byte list \<Rightarrow> nat" where
  "le_nat [] = 0"
| "le_nat (b # bs) = unat b + 256 * le_nat bs"

lemma unat_byte_less [simp]: "unat (b :: byte) < 256"
proof -
  have "unat b < 2 ^ LENGTH(8)" by (rule unsigned_less)
  then show ?thesis by simp
qed

lemma unat_u16_less [simp]: "unat (w :: u16) < 65536"
proof -
  have "unat w < 2 ^ LENGTH(16)" by (rule unsigned_less)
  then show ?thesis by simp
qed

lemma unat_byte_of_nat [byte_simps]: "unat (word_of_nat n :: byte) = n mod 256"
  by (simp add: unat_of_nat)

lemma unat_u16_of_nat [byte_simps]: "unat (word_of_nat n :: u16) = n mod 65536"
  by (simp add: unat_of_nat)

lemma unat_u32_of_nat [byte_simps]: "unat (word_of_nat n :: u32) = n mod 4294967296"
  by (simp add: unat_of_nat)

lemma length_le_bytes [simp]: "length (le_bytes n v) = n"
  by (induction n arbitrary: v) auto

lemma le_nat_le_bytes [simp]: "le_nat (le_bytes n v) = v mod 256 ^ n"
proof (induction n arbitrary: v)
  case 0
  then show ?case by simp
next
  case (Suc n)
  have "le_nat (le_bytes (Suc n) v) = v mod 256 + 256 * ((v div 256) mod 256 ^ n)"
    using Suc by (simp add: unat_byte_of_nat)
  also have "\<dots> = v mod 256 ^ Suc n"
    by (simp add: mod_mult2_eq [of v 256 "256 ^ n"])
  finally show ?case .
qed

lemma length_be16_bytes [simp]: "length (be16_bytes w) = 2"
  by (simp add: be16_bytes_def)

lemma length_be32_bytes [simp]: "length (be32_bytes w) = 4"
  by (simp add: be32_bytes_def)

lemma be16_be16_bytes [byte_simps]: "be16 (be16_bytes w ! 0) (be16_bytes w ! Suc 0) = w"
proof -
  have "unat w div 256 < 256" using unat_u16_less [of w] by (simp add: less_mult_imp_div_less)
  then have eq: "unat w div 256 mod 256 * 256 + unat w mod 256 = unat w" by simp
  have "be16 (be16_bytes w ! 0) (be16_bytes w ! Suc 0)
      = word_of_nat (unat w div 256 mod 256 * 256 + unat w mod 256)"
    unfolding be16_def be16_bytes_def nth_Cons_0 nth_Cons_Suc unat_byte_of_nat ..
  then show ?thesis unfolding eq by simp
qed

lemma unat_be16 [byte_simps]: "unat (be16 a b) = unat a * 256 + unat b"
proof -
  have "unat a * 256 + unat b < 65536"
    using unat_byte_less [of a] unat_byte_less [of b] by linarith
  then show ?thesis unfolding be16_def unat_u16_of_nat by (rule mod_less)
qed

subsection \<open>Buffers\<close>

text \<open>\<open>buf[i..i + ys.len()].copy_from_slice(ys)\<close>, for a range inside the buffer.\<close>

definition copy_at :: "nat \<Rightarrow> 'a list \<Rightarrow> 'a list \<Rightarrow> 'a list" where
  "copy_at i ys xs = take i xs @ ys @ drop (i + length ys) xs"

text \<open>\<open>&buf[i..j]\<close>.\<close>

definition slice :: "nat \<Rightarrow> nat \<Rightarrow> 'a list \<Rightarrow> 'a list" where
  "slice i j xs = take (j - i) (drop i xs)"

lemma length_copy_at [simp]:
  "i + length ys \<le> length xs \<Longrightarrow> length (copy_at i ys xs) = length xs"
  by (simp add: copy_at_def)

lemma nth_copy_at [byte_simps]:
  assumes "i + length ys \<le> length xs"
  shows "copy_at i ys xs ! k =
    (if i \<le> k \<and> k < i + length ys then ys ! (k - i) else xs ! k)"
proof -
  have ri: "min (length xs) i = i" using assms by simp
  consider "k < i" | "i \<le> k" "k < i + length ys" | "i + length ys \<le> k" by linarith
  then show ?thesis
  proof cases
    case 1
    then show ?thesis using ri by (simp add: copy_at_def nth_append)
  next
    case 2
    then have "k - i < length ys" by simp
    with 2 ri show ?thesis by (simp add: copy_at_def nth_append)
  next
    case 3
    then have "\<not> k - i < length ys" and "i + length ys + (k - i - length ys) = k" by auto
    with 3 show ?thesis
      using ri assms by (simp add: copy_at_def nth_append not_less add.assoc)
  qed
qed

lemma length_slice [simp]: "j \<le> length xs \<Longrightarrow> length (slice i j xs) = j - i"
  by (simp add: slice_def)

lemma nth_slice [byte_simps]: "j \<le> length xs \<Longrightarrow> k < j - i \<Longrightarrow> slice i j xs ! k = xs ! (i + k)"
  by (simp add: slice_def)

lemma slice_nth_eq:
  assumes "j \<le> length xs" "j \<le> length ys" "\<And>k. i \<le> k \<Longrightarrow> k < j \<Longrightarrow> xs ! k = ys ! k"
  shows "slice i j xs = slice i j ys"
  using assms by (intro nth_equalityI) (auto simp: nth_slice)

lemma slice_copy_at_same:
  assumes "i + length ys \<le> length xs"
  shows "slice i (i + length ys) (copy_at i ys xs) = ys"
  using assms by (simp add: slice_def copy_at_def)

subsection \<open>Strings\<close>

text \<open>
  A Rust \<open>String\<close> is its UTF-8 bytes; the model writes them as the characters of a HOL
  \<open>string\<close>, one per byte.
\<close>

definition bytes_str :: "byte list \<Rightarrow> string" where
  "bytes_str bs = map (\<lambda>b. char_of (unat b)) bs"

definition str_bytes :: "string \<Rightarrow> byte list" where
  "str_bytes s = map (\<lambda>c. word_of_nat (of_char c)) s"

lemma str_bytes_bytes_str [simp]: "str_bytes (bytes_str bs) = bs"
  by (simp add: str_bytes_def bytes_str_def comp_def)

lemma bytes_str_str_bytes [simp]: "bytes_str (str_bytes s) = s"
  by (simp add: str_bytes_def bytes_str_def comp_def unat_byte_of_nat)

lemma length_bytes_str [simp]: "length (bytes_str bs) = length bs"
  by (simp add: bytes_str_def)

lemma length_str_bytes [simp]: "length (str_bytes s) = length s"
  by (simp add: str_bytes_def)

definition ascii_lower :: "char \<Rightarrow> char" where
  "ascii_lower c = (if 65 \<le> (of_char c :: nat) \<and> (of_char c :: nat) \<le> 90
                    then char_of ((of_char c :: nat) + 32) else c)"

definition ascii_upper :: "char \<Rightarrow> char" where
  "ascii_upper c = (if 97 \<le> (of_char c :: nat) \<and> (of_char c :: nat) \<le> 122
                    then char_of ((of_char c :: nat) - 32) else c)"

definition to_ascii_lowercase :: "string \<Rightarrow> string" where
  "to_ascii_lowercase s = map ascii_lower s"

definition to_ascii_uppercase :: "string \<Rightarrow> string" where
  "to_ascii_uppercase s = map ascii_upper s"

definition is_ascii_alphanumeric :: "char \<Rightarrow> bool" where
  "is_ascii_alphanumeric c \<longleftrightarrow> (let n = (of_char c :: nat) in
     (48 \<le> n \<and> n \<le> 57) \<or> (65 \<le> n \<and> n \<le> 90) \<or> (97 \<le> n \<and> n \<le> 122))"

definition eq_ignore_ascii_case :: "string \<Rightarrow> string \<Rightarrow> bool" where
  "eq_ignore_ascii_case a b \<longleftrightarrow> to_ascii_lowercase a = to_ascii_lowercase b"

lemma ascii_lower_idem [simp]: "ascii_lower (ascii_lower c) = ascii_lower c"
proof (cases "65 \<le> (of_char c :: nat) \<and> (of_char c :: nat) \<le> 90")
  case True
  then have "(of_char (char_of ((of_char c :: nat) + 32) :: char) :: nat) = of_char c + 32"
    by simp
  with True show ?thesis by (simp add: ascii_lower_def)
next
  case False
  then have "ascii_lower c = c" by (auto simp: ascii_lower_def)
  then show ?thesis by simp
qed

lemma to_ascii_lowercase_idem [simp]: "to_ascii_lowercase (to_ascii_lowercase s) = to_ascii_lowercase s"
  by (simp add: to_ascii_lowercase_def)

lemma length_to_ascii_lowercase [simp]: "length (to_ascii_lowercase s) = length s"
  by (simp add: to_ascii_lowercase_def)

lemma to_ascii_lowercase_empty [simp]: "to_ascii_lowercase s = [] \<longleftrightarrow> s = []"
  by (simp add: to_ascii_lowercase_def)

lemma eq_ignore_ascii_case_refl [simp]: "eq_ignore_ascii_case s s"
  by (simp add: eq_ignore_ascii_case_def)

lemma eq_ignore_ascii_case_sym: "eq_ignore_ascii_case a b \<longleftrightarrow> eq_ignore_ascii_case b a"
  by (auto simp: eq_ignore_ascii_case_def)

lemma eq_ignore_ascii_case_trans:
  "eq_ignore_ascii_case a b \<Longrightarrow> eq_ignore_ascii_case b c \<Longrightarrow> eq_ignore_ascii_case a c"
  by (simp add: eq_ignore_ascii_case_def)

text \<open>\<open>str::contains\<close> with a string pattern.\<close>

fun str_contains :: "string \<Rightarrow> string \<Rightarrow> bool" where
  "str_contains hay needle =
     (take (length needle) hay = needle
      \<or> (case hay of [] \<Rightarrow> False | _ # rest \<Rightarrow> str_contains rest needle))"

declare str_contains.simps [simp del]

lemma str_contains_empty [simp]: "str_contains hay []"
  by (simp add: str_contains.simps)

lemma str_contains_iff: "str_contains hay needle \<longleftrightarrow> (\<exists>a b. hay = a @ needle @ b)"
proof (induction hay)
  case Nil
  then show ?case by (auto simp: str_contains.simps)
next
  case (Cons c hay)
  have "take (length needle) (c # hay) = needle \<longleftrightarrow> (\<exists>b. c # hay = needle @ b)"
    by (metis append_eq_conv_conj append_take_drop_id)
  moreover have "(\<exists>a b. c # hay = a @ needle @ b) \<longleftrightarrow>
      (\<exists>b. c # hay = needle @ b) \<or> (\<exists>a b. hay = a @ needle @ b)"
  proof
    assume "\<exists>a b. c # hay = a @ needle @ b"
    then obtain a b where "c # hay = a @ needle @ b" by blast
    then show "(\<exists>b. c # hay = needle @ b) \<or> (\<exists>a b. hay = a @ needle @ b)"
      by (cases a) auto
  next
    assume "(\<exists>b. c # hay = needle @ b) \<or> (\<exists>a b. hay = a @ needle @ b)"
    then show "\<exists>a b. c # hay = a @ needle @ b"
      by (metis append_Cons append_Nil)
  qed
  ultimately show ?case using Cons by (simp add: str_contains.simps [of "c # hay"])
qed

text \<open>
  \<open>str::trim\<close> removes the characters with the Unicode property \<open>White_Space\<close>; these are their
  UTF-8 encodings.
\<close>

definition white_space :: "string list" where
  "white_space = map (map char_of)
     ([[9], [10], [11], [12], [13], [32], [194, 133], [194, 160], [225, 154, 128],
       [226, 128, 128], [226, 128, 129], [226, 128, 130], [226, 128, 131], [226, 128, 132],
       [226, 128, 133], [226, 128, 134], [226, 128, 135], [226, 128, 136], [226, 128, 137],
       [226, 128, 138], [226, 128, 168], [226, 128, 169], [226, 128, 175], [226, 129, 159],
       [227, 128, 128]] :: nat list list)"

fun strip_prefix_of :: "string list \<Rightarrow> string \<Rightarrow> string option" where
  "strip_prefix_of [] s = None"
| "strip_prefix_of (p # ps) s =
     (if p \<noteq> [] \<and> take (length p) s = p then Some (drop (length p) s) else strip_prefix_of ps s)"

lemma strip_prefix_of_shorter: "strip_prefix_of ps s = Some t \<Longrightarrow> length t < length s"
proof (induction ps)
  case Nil
  then show ?case by simp
next
  case (Cons p ps)
  show ?case
  proof (cases "p \<noteq> [] \<and> take (length p) s = p")
    case True
    then have "length (take (length p) s) = length p" by simp
    then have "length p \<le> length s" by simp
    moreover have "0 < length p" using True by simp
    moreover have "t = drop (length p) s" using True Cons.prems by simp
    ultimately show ?thesis by (simp del: length_greater_0_conv)
  next
    case False
    then have "strip_prefix_of ps s = Some t" using Cons.prems by (auto split: if_splits)
    then show ?thesis by (rule Cons.IH)
  qed
qed

function trim_start_with :: "string list \<Rightarrow> string \<Rightarrow> string" where
  "trim_start_with ps s = (case strip_prefix_of ps s of None \<Rightarrow> s | Some t \<Rightarrow> trim_start_with ps t)"
  by pat_completeness auto
termination
  by (relation "measure (\<lambda>(ps, s). length s)") (auto dest: strip_prefix_of_shorter)

declare trim_start_with.simps [simp del]

definition str_trim_start :: "string \<Rightarrow> string" where
  "str_trim_start s = trim_start_with white_space s"

definition str_trim_end :: "string \<Rightarrow> string" where
  "str_trim_end s = rev (trim_start_with (map rev white_space) (rev s))"

definition str_trim :: "string \<Rightarrow> string" where
  "str_trim s = str_trim_end (str_trim_start s)"

lemma strip_prefix_of_trim_start_with [simp]:
  "strip_prefix_of ps (trim_start_with ps s) = None"
proof (induction ps s rule: trim_start_with.induct)
  case (1 ps s)
  then show ?case
    by (subst trim_start_with.simps) (auto split: option.splits)
qed

lemma trim_start_with_fixed: "strip_prefix_of ps s = None \<Longrightarrow> trim_start_with ps s = s"
  by (simp add: trim_start_with.simps)

lemma trim_start_with_suffix: "\<exists>p. s = p @ trim_start_with ps s"
proof (induction ps s rule: trim_start_with.induct)
  case (1 ps s)
  show ?case
  proof (cases "strip_prefix_of ps s")
    case None
    then show ?thesis by (simp add: trim_start_with_fixed)
  next
    case (Some t)
    then obtain p where "t = p @ trim_start_with ps t" using 1 by blast
    moreover have "\<exists>q. s = q @ t"
      using Some by (induction ps) (auto split: if_splits, metis append_take_drop_id)
    ultimately have "\<exists>p. s = p @ trim_start_with ps t" by (metis append.assoc)
    then show ?thesis using Some by (simp add: trim_start_with.simps [of ps s])
  qed
qed

lemma strip_prefix_of_None_iff: "strip_prefix_of ps s = None \<longleftrightarrow> (\<forall>p \<in> set ps. p = [] \<or> take (length p) s \<noteq> p)"
  by (induction ps) auto

lemma strip_prefix_of_prefix: "strip_prefix_of ps (a @ b) = None \<Longrightarrow> strip_prefix_of ps a = None"
  unfolding strip_prefix_of_None_iff by (metis append_take_drop_id append.assoc append_eq_conv_conj)

lemma str_trim_idem [simp]: "str_trim (str_trim s) = str_trim s"
proof -
  let ?t = "str_trim_start s"
  obtain q where q: "rev ?t = q @ rev (str_trim_end ?t)"
    using trim_start_with_suffix [of "rev ?t" "map rev white_space"] by (auto simp: str_trim_end_def)
  then have "?t = str_trim_end ?t @ rev q" by (metis rev_append rev_rev_ident)
  moreover have "strip_prefix_of white_space ?t = None" by (simp add: str_trim_start_def)
  ultimately have "strip_prefix_of white_space (str_trim_end ?t) = None"
    by (metis strip_prefix_of_prefix)
  then have "str_trim_start (str_trim_end ?t) = str_trim_end ?t"
    by (simp add: str_trim_start_def trim_start_with_fixed)
  moreover have "str_trim_end (str_trim_end ?t) = str_trim_end ?t"
    by (simp add: str_trim_end_def trim_start_with_fixed)
  ultimately show ?thesis by (simp add: str_trim_def)
qed

lemma str_trim_empty [simp]: "str_trim [] = []"
  by (simp add: str_trim_def str_trim_end_def str_trim_start_def trim_start_with.simps
      white_space_def)

text \<open>Trimming leaves a string alone that starts and ends with a printable ASCII character.\<close>

definition printable :: "char \<Rightarrow> bool" where
  "printable c \<longleftrightarrow> 32 < (of_char c :: nat) \<and> (of_char c :: nat) < 127"

lemma strip_prefix_of_None_hd: "\<forall>p \<in> set ps. p = [] \<or> hd p \<noteq> c \<Longrightarrow> strip_prefix_of ps (c # s) = None"
proof (induction ps)
  case (Cons p ps)
  then show ?case by (cases p) auto
qed simp

lemma printable_not_white:
  assumes "printable c" "p \<in> set white_space"
  shows "hd p \<noteq> c \<and> last p \<noteq> c \<and> p \<noteq> []"
proof -
  have "p \<noteq> [] \<and> \<not> printable (hd p) \<and> \<not> printable (last p)"
    using assms(2) unfolding white_space_def by (auto simp: printable_def)
  with assms(1) show ?thesis by auto
qed

lemma str_trim_id [str_simps]:
  assumes "s \<noteq> []" "printable (hd s)" "printable (last s)"
  shows "str_trim s = s"
proof -
  obtain c r where s: "s = c # r" using assms(1) by (cases s) auto
  obtain d q where d: "rev s = d # q" using assms(1) by (cases "rev s") auto
  have "last s = d" using d by (metis last_rev hd_rev list.sel(1) rev_rev_ident)
  then have "strip_prefix_of (map rev white_space) (d # q) = None"
    using assms(3) printable_not_white by (intro strip_prefix_of_None_hd) (fastforce simp: hd_rev)
  then have e: "str_trim_end s = s"
    unfolding str_trim_end_def d by (simp add: trim_start_with_fixed) (metis d rev_rev_ident rev.simps(2))
  have "strip_prefix_of white_space (c # r) = None"
    using assms(2) s printable_not_white by (intro strip_prefix_of_None_hd) fastforce
  then have "str_trim_start s = s" by (simp add: str_trim_start_def s trim_start_with_fixed)
  then show ?thesis using e by (simp add: str_trim_def)
qed

subsection \<open>Splitting\<close>

text \<open>\<open>str::split\<close> on one ASCII character, and \<open>str::lines\<close>.\<close>

fun split_on :: "char \<Rightarrow> string \<Rightarrow> string list" where
  "split_on c [] = [[]]"
| "split_on c (x # xs) =
     (if x = c then [] # split_on c xs
      else (case split_on c xs of [] \<Rightarrow> [[x]] | w # ws \<Rightarrow> (x # w) # ws))"

lemma split_on_free: "c \<notin> set s \<Longrightarrow> split_on c s = [s]"
  by (induction s) auto

lemma split_on_append: "c \<notin> set s \<Longrightarrow> split_on c (s @ c # t) = s # split_on c t"
  by (induction s) auto

lemma split_on_no_sep: "w \<in> set (split_on c s) \<Longrightarrow> c \<notin> set w"
  by (induction s arbitrary: w) (auto split: list.splits if_splits)

lemma split_on_not_Nil [simp]: "split_on c s \<noteq> []"
  by (induction s) (auto split: list.splits)

definition strip_cr :: "string \<Rightarrow> string" where
  "strip_cr s = (if s \<noteq> [] \<and> last s = CHR 0x0D then butlast s else s)"

definition str_lines :: "string \<Rightarrow> string list" where
  "str_lines s = (let parts = split_on (CHR 0x0A) s in
     map strip_cr (butlast parts) @ (if last parts = [] then [] else [last parts]))"

subsection \<open>UTF-8 validation\<close>

text \<open>\<open>std::str::from_utf8\<close> accepts exactly the well-formed sequences of the Unicode standard.\<close>

definition utf8_cont :: "byte \<Rightarrow> bool" where
  "utf8_cont b \<longleftrightarrow> 128 \<le> unat b \<and> unat b \<le> 191"

fun utf8_valid :: "byte list \<Rightarrow> bool" where
  "utf8_valid [] \<longleftrightarrow> True"
| "utf8_valid (b # bs) \<longleftrightarrow>
    (if unat b < 128 then utf8_valid bs
     else if 194 \<le> unat b \<and> unat b \<le> 223 then
       (case bs of c # r \<Rightarrow> utf8_cont c \<and> utf8_valid r | _ \<Rightarrow> False)
     else if 224 \<le> unat b \<and> unat b \<le> 239 then
       (case bs of c # d # r \<Rightarrow> utf8_cont c \<and> utf8_cont d
           \<and> (unat b = 224 \<longrightarrow> 160 \<le> unat c) \<and> (unat b = 237 \<longrightarrow> unat c \<le> 159) \<and> utf8_valid r
        | _ \<Rightarrow> False)
     else if 240 \<le> unat b \<and> unat b \<le> 244 then
       (case bs of c # d # e # r \<Rightarrow> utf8_cont c \<and> utf8_cont d \<and> utf8_cont e
           \<and> (unat b = 240 \<longrightarrow> 144 \<le> unat c) \<and> (unat b = 244 \<longrightarrow> unat c \<le> 143) \<and> utf8_valid r
        | _ \<Rightarrow> False)
     else False)"

definition from_utf8 :: "byte list \<Rightarrow> string option" where
  "from_utf8 bs = (if utf8_valid bs then Some (bytes_str bs) else None)"

lemma from_utf8_Some: "from_utf8 bs = Some s \<Longrightarrow> s = bytes_str bs \<and> utf8_valid bs"
  by (simp add: from_utf8_def split: if_splits)

lemma from_utf8_ascii: "\<forall>b \<in> set bs. unat b < 128 \<Longrightarrow> from_utf8 bs = Some (bytes_str bs)"
  by (simp add: from_utf8_def) (induction bs, auto)

text \<open>\<open>labels.join(".")\<close>.\<close>

fun join_with :: "string \<Rightarrow> string list \<Rightarrow> string" where
  "join_with sep [] = []"
| "join_with sep [x] = x"
| "join_with sep (x # y # ys) = x @ sep @ join_with sep (y # ys)"

subsection \<open>Saturating arithmetic on 64-bit counters\<close>

definition u64_max :: nat where
  "u64_max = 18446744073709551615"

definition sat_add64 :: "nat \<Rightarrow> nat \<Rightarrow> nat" where
  "sat_add64 a b = min (a + b) u64_max"

lemma sat_add64_le [simp]: "sat_add64 a b \<le> u64_max"
  by (simp add: sat_add64_def)

lemma sat_add64_ge: "a \<le> u64_max \<Longrightarrow> a \<le> sat_add64 a b"
  by (simp add: sat_add64_def)

definition u128_max :: nat where "u128_max = 2 ^ 128 - 1"

definition sat_add128 :: "nat \<Rightarrow> nat \<Rightarrow> nat" where "sat_add128 a b = min (a + b) u128_max"

definition clamp :: "nat \<Rightarrow> nat \<Rightarrow> nat \<Rightarrow> nat" where
  "clamp lo hi x = (if x < lo then lo else if hi < x then hi else x)"

lemma clamp_bounds: "lo \<le> hi \<Longrightarrow> lo \<le> clamp lo hi x \<and> clamp lo hi x \<le> hi"
  by (simp add: clamp_def)

subsection \<open>Hash maps\<close>

text \<open>
  A \<open>HashMap\<close> is an association list with distinct keys; its order is the unspecified iteration
  order of the map, over which the lemmas quantify. \<open>amap_put\<close> replaces the value of a present key
  in place and adds a new key at the end.
\<close>

definition amap_ok :: "('k \<times> 'v) list \<Rightarrow> bool" where
  "amap_ok m \<longleftrightarrow> distinct (map fst m)"

fun amap_put :: "'k \<Rightarrow> 'v \<Rightarrow> ('k \<times> 'v) list \<Rightarrow> ('k \<times> 'v) list" where
  "amap_put k v [] = [(k, v)]"
| "amap_put k v ((k', v') # m) = (if k = k' then (k, v) # m else (k', v') # amap_put k v m)"

definition amap_del :: "'k \<Rightarrow> ('k \<times> 'v) list \<Rightarrow> ('k \<times> 'v) list" where
  "amap_del k m = filter (\<lambda>(k', v). k' \<noteq> k) m"

lemma map_of_amap_put [simp]: "map_of (amap_put k v m) = (map_of m)(k \<mapsto> v)"
  by (induction m) auto

lemma keys_amap_put [simp]: "fst ` set (amap_put k v m) = insert k (fst ` set m)"
proof (induction m)
  case (Cons p m)
  then show ?case by (cases p) auto
qed simp

lemma amap_ok_put [intro]: "amap_ok m \<Longrightarrow> amap_ok (amap_put k v m)"
proof (induction m)
  case (Cons p m)
  have "fst p \<noteq> k \<Longrightarrow> fst p \<notin> fst ` set (amap_put k v m)"
    using Cons.prems by (simp add: amap_ok_def)
  with Cons show ?case by (cases p) (auto simp: amap_ok_def)
qed (simp add: amap_ok_def)

lemma length_amap_put:
  "length (amap_put k v m) = (if k \<in> fst ` set m then length m else Suc (length m))"
proof (induction m)
  case (Cons p m)
  then show ?case by (cases p) simp
qed simp

lemma set_amap_put: "set (amap_put k v m) \<subseteq> insert (k, v) (set m)"
proof (induction m)
  case (Cons p m)
  then show ?case by (cases p) auto
qed simp

lemma amap_put_all:
  "\<forall>(j, w) \<in> set m. P j w \<Longrightarrow> P k v \<Longrightarrow> \<forall>(j, w) \<in> set (amap_put k v m). P j w"
  using set_amap_put [of k v m] by fast

lemma map_of_amap_del [simp]: "map_of (amap_del k m) = (map_of m)(k := None)"
  by (induction m) (auto simp: amap_del_def)

lemma map_fst_filter_key: "map fst (filter (\<lambda>(k, v). P k) m) = filter P (map fst m)"
  by (induction m) auto

lemma amap_ok_filter [intro]: "amap_ok m \<Longrightarrow> amap_ok (filter P m)"
  by (induction m) (auto simp: amap_ok_def image_def)

lemma amap_ok_del [intro]: "amap_ok m \<Longrightarrow> amap_ok (amap_del k m)"
  by (simp add: amap_del_def amap_ok_filter)

lemma length_amap_del_less: "k \<in> fst ` set m \<Longrightarrow> length (amap_del k m) < length m"
  by (auto simp: amap_del_def intro: length_filter_less)

lemma map_of_eq_None_key: "map_of m k = None \<longleftrightarrow> k \<notin> fst ` set m"
  by (rule map_of_eq_None_iff)

lemma map_of_filter_val:
  "amap_ok m \<Longrightarrow> map_of (filter (\<lambda>p. P (snd p)) m) k =
     (case map_of m k of None \<Rightarrow> None | Some v \<Rightarrow> if P v then Some v else None)"
proof (induction m)
  case (Cons p m)
  obtain k' v where p: "p = (k', v)" by (cases p)
  have ok: "amap_ok m" and fresh: "map_of m k' = None"
    using Cons.prems by (auto simp: amap_ok_def p map_of_eq_None_iff)
  show ?case using Cons.IH [OF ok] fresh by (cases "k = k'") (auto simp: p)
qed simp

text \<open>\<open>Iterator::min_by_key\<close>: the first element with the least key.\<close>

fun min_by_key :: "('a \<Rightarrow> nat) \<Rightarrow> 'a list \<Rightarrow> 'a option" where
  "min_by_key f [] = None"
| "min_by_key f (x # xs) =
     (case min_by_key f xs of None \<Rightarrow> Some x | Some y \<Rightarrow> if f x \<le> f y then Some x else Some y)"

lemma min_by_key_None [simp]: "min_by_key f xs = None \<longleftrightarrow> xs = []"
  by (cases xs) (auto split: option.splits)

lemma min_by_key_Some: "min_by_key f xs = Some x \<Longrightarrow> x \<in> set xs \<and> (\<forall>y \<in> set xs. f x \<le> f y)"
proof (induction xs arbitrary: x)
  case Nil
  then show ?case by simp
next
  case (Cons a xs)
  show ?case
  proof (cases "min_by_key f xs")
    case None
    then show ?thesis using Cons.prems by simp
  next
    case (Some y)
    then show ?thesis using Cons.prems Cons.IH [OF Some] by (auto split: if_splits)
  qed
qed

subsection \<open>Files that are replaced as a whole\<close>

text \<open>
  The contract of a writer that goes through a temporary file and a rename: whatever call of it
  fails, a reader finds the value from before or the new value, and after a success the new one.
\<close>

locale replaceable_file =
  fixes load :: "'n \<Rightarrow> 'v"
    and save :: "'i \<Rightarrow> 'r \<Rightarrow> 'n \<Rightarrow> 'n \<times> ('e + unit)"
    and shown :: "'r \<Rightarrow> 'v"
    and storable :: "'r \<Rightarrow> bool"
  assumes save_atomic: "storable r \<Longrightarrow> fst (save i r n) = n \<or> load (fst (save i r n)) = shown r"
    and save_ok: "storable r \<Longrightarrow> snd (save i r n) = Inr () \<Longrightarrow> load (fst (save i r n)) = shown r"
begin

lemma save_preserves:
  "storable r \<Longrightarrow> P (load n) \<Longrightarrow> P (shown r) \<Longrightarrow> P (load (fst (save i r n)))"
  using save_atomic [of r i n] by auto

text \<open>A failed attempt that is repeated with success leaves the new value.\<close>

lemma save_retry:
  "storable r \<Longrightarrow> snd (save i' r (fst (save i r n))) = Inr () \<Longrightarrow>
     load (fst (save i' r (fst (save i r n)))) = shown r"
  by (rule save_ok)

lemma save_sequence:
  assumes "\<forall>(i, r) \<in> set ws. storable r"
  shows "load (fold (\<lambda>(i, r) n. fst (save i r n)) ws n) \<in> insert (load n) (shown ` snd ` set ws)"
  using assms
proof (induction ws arbitrary: n)
  case (Cons w ws)
  obtain i r where w: "w = (i, r)" by (cases w)
  have "load (fst (save i r n)) \<in> {load n, shown r}"
    using Cons.prems save_atomic [of r i n] by (auto simp: w)
  then show ?case using Cons.IH [of "fst (save i r n)"] Cons.prems by (auto simp: w)
qed simp

end

end
