(* ===== verification/PawsModel.thy ===== *)
theory PawsModel
  imports PawsPrelude
begin

text \<open>
  The shared data of \<open>crates/paws_model/src/lib.rs\<close>: the error type, the enumerations with their
  string forms, the port configuration with its validation, and the records the other components
  work on. A \<open>Result\<close> is a sum, \<open>Inl\<close> the error. Records that only travel between the components
  as a whole (diagnostics, about page) are left out.
\<close>

datatype paws_error =
    InvalidMode string
  | InvalidJson string
  | VpnNotRunning
  | ProfileNotFound string
  | RuleNotFound string
  | StaleConfigRevision nat nat
  | StaleResourceRevision nat nat
  | MissingCallback string
  | Core string
  | Io string

type_synonym 'a presult = "paws_error + 'a"

definition rbind :: "'a presult \<Rightarrow> ('a \<Rightarrow> 'b presult) \<Rightarrow> 'b presult" where
  "rbind m f = (case m of Inl e \<Rightarrow> Inl e | Inr a \<Rightarrow> f a)"

lemma rbind_simps [simp]: "rbind (Inl e) f = Inl e" "rbind (Inr a) f = f a"
  by (simp_all add: rbind_def)

lemma rbind_Inr: "rbind m f = Inr b \<longleftrightarrow> (\<exists>a. m = Inr a \<and> f a = Inr b)"
  by (cases m) auto

text \<open>A value between single quotes, as the messages print it.\<close>

definition quoted :: "string \<Rightarrow> string" where
  "quoted s = [CHR 0x27] @ s @ [CHR 0x27]"

text \<open>\<open>Option::transpose\<close> and \<open>collect\<close> into a \<open>Result\<close>: the first error wins.\<close>

definition transpose_result :: "'a presult option \<Rightarrow> 'a option presult" where
  "transpose_result r = (case r of None \<Rightarrow> Inr None | Some m \<Rightarrow> rbind m (\<lambda>a. Inr (Some a)))"

fun collect_results :: "'a presult list \<Rightarrow> 'a list presult" where
  "collect_results [] = Inr []"
| "collect_results (m # ms) = rbind m (\<lambda>a. rbind (collect_results ms) (\<lambda>as. Inr (a # as)))"

lemma transpose_result_simps [simp]:
  "transpose_result None = Inr None"
  "transpose_result (Some (Inr a)) = Inr (Some a)"
  "transpose_result (Some (Inl e)) = Inl e"
  by (simp_all add: transpose_result_def)

lemma collect_results_Inr [simp]: "collect_results (map Inr xs) = Inr xs"
  by (induction xs) simp_all

lemma collect_results_map_Inr: "collect_results (map (\<lambda>x. Inr (f x)) xs) = Inr (map f xs)"
  by (induction xs) simp_all

subsection \<open>Decimal numbers, as \<open>format!\<close> prints them\<close>

fun decimal :: "nat \<Rightarrow> string" where
  "decimal n = (if n < 10 then [char_of (48 + n)]
                else decimal (n div 10) @ [char_of (48 + n mod 10)])"

declare decimal.simps [simp del]

lemma digit_chars:
  "char_of (48 :: nat) = CHR ''0''" "char_of (49 :: nat) = CHR ''1''" "char_of (50 :: nat) = CHR ''2''"
  "char_of (51 :: nat) = CHR ''3''" "char_of (52 :: nat) = CHR ''4''" "char_of (53 :: nat) = CHR ''5''"
  "char_of (54 :: nat) = CHR ''6''" "char_of (55 :: nat) = CHR ''7''" "char_of (56 :: nat) = CHR ''8''"
  "char_of (57 :: nat) = CHR ''9''"
  by code_simp+

subsection \<open>Modes, engines and stacks\<close>

datatype runtime_mode = Rule | Global | Direct

fun runtime_mode_as_str :: "runtime_mode \<Rightarrow> string" where
  "runtime_mode_as_str Rule = ''rule''"
| "runtime_mode_as_str Global = ''global''"
| "runtime_mode_as_str Direct = ''direct''"

definition runtime_mode_try_from :: "string \<Rightarrow> runtime_mode presult" where
  "runtime_mode_try_from value =
    (if value = ''rule'' then Inr Rule
     else if value = ''global'' then Inr Global
     else if value = ''direct'' then Inr Direct
     else Inl (InvalidMode value))"

datatype vpn_engine = Auto | Meow | Mihomo | SingBox

fun vpn_engine_as_str :: "vpn_engine \<Rightarrow> string" where
  "vpn_engine_as_str Auto = ''auto''"
| "vpn_engine_as_str Meow = ''meow''"
| "vpn_engine_as_str Mihomo = ''mihomo''"
| "vpn_engine_as_str SingBox = ''sing-box''"

definition vpn_engine_try_from :: "string \<Rightarrow> vpn_engine presult" where
  "vpn_engine_try_from value =
    (let v = to_ascii_lowercase (str_trim value) in
     if v = ''auto'' then Inr Auto
     else if v \<in> {''meow'', ''meow-rs'', ''rust''} then Inr Meow
     else if v \<in> {''mihomo'', ''compatibility''} then Inr Mihomo
     else if v \<in> {''sing-box'', ''singbox'', ''sing''} then Inr SingBox
     else Inl (Core (''unsupported VPN engine: '' @ v)))"

datatype vpn_stack = Smoltcp | Lwip

fun vpn_stack_as_str :: "vpn_stack \<Rightarrow> string" where
  "vpn_stack_as_str Smoltcp = ''netstack-smoltcp''"
| "vpn_stack_as_str Lwip = ''lwip''"

definition vpn_stack_try_from :: "string \<Rightarrow> vpn_stack presult" where
  "vpn_stack_try_from value =
    (let v = to_ascii_lowercase (str_trim value) in
     if v \<in> {''netstack-smoltcp'', ''smoltcp''} then Inr Smoltcp
     else if v = ''lwip'' then Inr Lwip
     else Inl (Core (''unsupported VPN network stack: '' @ v)))"

subsection \<open>Ports\<close>

record network_port_config =
  mixed_port :: u16
  controller_port :: u16
  mixed_enabled :: bool
  controller_enabled :: bool

definition DEFAULT_MIXED_PORT :: u16 where "DEFAULT_MIXED_PORT = 7890"
definition DEFAULT_CONTROLLER_PORT :: u16 where "DEFAULT_CONTROLLER_PORT = 9090"
definition MIN_PORT :: u16 where "MIN_PORT = 1024"

definition network_port_config_default :: network_port_config where
  "network_port_config_default = \<lparr>mixed_port = DEFAULT_MIXED_PORT,
     controller_port = DEFAULT_CONTROLLER_PORT, mixed_enabled = False, controller_enabled = False\<rparr>"

definition network_port_config_validate :: "network_port_config \<Rightarrow> network_port_config presult" where
  "network_port_config_validate c =
    (if mixed_port c < MIN_PORT \<or> controller_port c < MIN_PORT then
       Inl (Core (''network ports must be between '' @ decimal (unat MIN_PORT) @ '' and 65535''))
     else if mixed_port c = controller_port c then
       Inl (Core ''mixed proxy port and controller port must be different'')
     else Inr c)"

subsection \<open>The records\<close>

record vpn_options =
  engine :: vpn_engine
  trusted_applications :: "string list"
  blocked_applications :: "string list"
  addresses :: "string list"
  mtu :: u16
  ipv6 :: bool
  system_proxy :: bool
  dns_hijacking :: bool
  allow_bypass :: bool
  stack :: string
  routes :: "string list"
  dns_addresses :: "string list"
  dns_servers :: "string list"
  dns_fallbacks :: "string list"
  dns_nameserver_policy :: "(string \<times> string list) list"

definition DEFAULT_CHINA_DNS_SERVERS :: "string list" where
  "DEFAULT_CHINA_DNS_SERVERS = [''223.5.5.5'', ''119.29.29.29'']"

definition DEFAULT_GLOBAL_DNS_FALLBACKS :: "string list" where
  "DEFAULT_GLOBAL_DNS_FALLBACKS = [''1.1.1.1'', ''8.8.8.8'']"

definition vpn_options_default :: vpn_options where
  "vpn_options_default = \<lparr>
     engine = Auto, trusted_applications = [], blocked_applications = [],
     addresses = [''172.19.0.1/30''], mtu = 1500, ipv6 = False, system_proxy = False,
     dns_hijacking = True, allow_bypass = False, stack = vpn_stack_as_str Smoltcp,
     routes = [''0.0.0.0/0''], dns_addresses = [''172.19.0.2''],
     dns_servers = DEFAULT_CHINA_DNS_SERVERS, dns_fallbacks = DEFAULT_GLOBAL_DNS_FALLBACKS,
     dns_nameserver_policy = [(''geosite:cn'', DEFAULT_CHINA_DNS_SERVERS),
                              (''geosite:geolocation-!cn'', DEFAULT_GLOBAL_DNS_FALLBACKS)]\<rparr>"

record proxy_item =
  pi_name :: string
  pi_proxy_type :: string
  pi_delay_ms :: "nat option"
  pi_selected :: bool

record proxy_group =
  pg_name :: string
  pg_group_type :: string
  pg_selected :: "string option"
  pg_fixed :: "string option"
  pg_proxies :: "proxy_item list"

record subscription_user_info =
  ui_upload_bytes :: nat
  ui_download_bytes :: nat
  ui_total_bytes :: "nat option"
  ui_expire_at :: "string option"

record subscription_metadata =
  md_title :: "string option"
  md_update_interval_hours :: "nat option"
  md_web_page_url :: "string option"
  md_support_url :: "string option"

record rule_summary =
  rs_id :: string
  rs_profile_id :: string
  rs_line :: string
  rs_enabled :: bool
  rs_order :: nat
  rs_source :: string

datatype manual_rule_match_kind = Domain | DomainSuffix | IpCidr

fun rule_type :: "manual_rule_match_kind \<Rightarrow> bool \<Rightarrow> string" where
  "rule_type Domain v6 = ''DOMAIN''"
| "rule_type DomainSuffix v6 = ''DOMAIN-SUFFIX''"
| "rule_type IpCidr v6 = (if v6 then ''IP-CIDR6'' else ''IP-CIDR'')"

record manual_rule_spec =
  mrs_match_kind :: manual_rule_match_kind
  mrs_value :: string
  mrs_target :: string

datatype manual_rule_mutation_kind = Added | Updated | Reenabled | Unchanged

record manual_rule_mutation =
  mrm_rule_id :: string
  mrm_line :: string
  mrm_kind :: manual_rule_mutation_kind
  mrm_replaced_line :: "string option"
  mrm_removed_duplicates :: nat

subsection \<open>What the string forms promise\<close>

lemma runtime_mode_round_trip [simp]: "runtime_mode_try_from (runtime_mode_as_str m) = Inr m"
  by (cases m) (simp_all add: runtime_mode_try_from_def)

lemma runtime_mode_try_from_Inr: "runtime_mode_try_from s = Inr m \<longleftrightarrow> s = runtime_mode_as_str m"
  by (cases m) (auto simp: runtime_mode_try_from_def)

lemma vpn_engine_round_trip [simp]: "vpn_engine_try_from (vpn_engine_as_str e) = Inr e"
  by (cases e) (simp_all add: vpn_engine_try_from_def str_simps printable_def
      to_ascii_lowercase_def ascii_lower_def)

lemma vpn_stack_round_trip [simp]: "vpn_stack_try_from (vpn_stack_as_str s) = Inr s"
  by (cases s) (simp_all add: vpn_stack_try_from_def str_simps printable_def
      to_ascii_lowercase_def ascii_lower_def)

lemma network_port_config_validate_Inr:
  "network_port_config_validate c = Inr d \<longleftrightarrow>
     d = c \<and> 1024 \<le> unat (mixed_port c) \<and> 1024 \<le> unat (controller_port c) \<and>
     mixed_port c \<noteq> controller_port c"
  by (auto simp: network_port_config_validate_def MIN_PORT_def word_less_nat_alt)

lemma network_port_config_default_valid:
  "network_port_config_validate network_port_config_default = Inr network_port_config_default"
  by (simp add: network_port_config_validate_Inr network_port_config_default_def
      DEFAULT_MIXED_PORT_def DEFAULT_CONTROLLER_PORT_def)

end
