(* ===== verification/TunSession.thy ===== *)
theory TunSession
  imports PawsModel
begin

text \<open>
  \<open>TunSession\<close> of \<open>crates/paws_vpn/src/lib.rs\<close>: starting and stopping the packet worker, and what
  the worker publishes when it ends. An operation holds the async operation lock from its first
  step to its last, the workers run beside it, and every access to one of the mutexes or atomics is
  a step of its own, so the relation \<open>step\<close> has every interleaving of the code. The file descriptor
  calls, the scheduler and the packet loop are choices of the environment. Generations are natural
  numbers: the code counts them in 64 bits, two for each start, which no run exhausts.
\<close>

datatype vpn_lifecycle = Stopped | Running int nat | Failed nat string

text \<open>
  A worker runs \<open>run_netstack_vpn\<close>, then publishes its error, then announces its exit on the watch
  channel, and is done: only then does its join handle resolve.
\<close>

datatype phase = Working | Publishing string | Announcing string | Done

datatype goal = ToStop | ToStart int vpn_options

text \<open>The points of \<open>start\<close> and \<open>stop_locked\<close> between two accesses to shared state.\<close>

datatype pc =
    Idle
  | Invalidate goal
  | TakeTask goal
  | AwaitWorker nat goal
  | ClearState goal
  | ClearOptions goal
  | Duplicate int vpn_options
  | NextGeneration int vpn_options
  | SetRunning int vpn_options nat
  | SetOptions vpn_options nat
  | Spawn nat
  | StoreTask nat

record session =
  ss_state :: vpn_lifecycle
  ss_options :: "vpn_options option"
  ss_task :: "nat option"
  ss_generation :: nat
  ss_exit :: "(nat \<times> string) option"
  ss_pc :: pc
  ss_workers :: "(nat \<times> phase) list"

definition session_default :: session where
  "session_default = \<lparr>ss_state = Stopped, ss_options = None, ss_task = None, ss_generation = 0,
     ss_exit = None, ss_pc = Idle, ss_workers = []\<rparr>"

text \<open>The checks of \<open>start\<close> before it takes the lock.\<close>

definition start_request :: "int \<Rightarrow> vpn_options \<Rightarrow> vpn_stack presult" where
  "start_request fd options =
    (if fd < 0 then Inl (Core (''invalid tun fd: -'' @ decimal (nat (- fd))))
     else vpn_stack_try_from (stack options))"

definition after_stop :: "goal \<Rightarrow> pc" where
  "after_stop g = (case g of ToStop \<Rightarrow> Idle | ToStart fd options \<Rightarrow> Duplicate fd options)"

text \<open>\<open>publish_task_exit\<close>, one critical section of the state mutex.\<close>

definition publish_task_exit :: "nat \<Rightarrow> string \<Rightarrow> session \<Rightarrow> session" where
  "publish_task_exit generation error s =
    (case ss_state s of
       Running fd active \<Rightarrow>
         if ss_generation s = generation \<and> active = generation
         then s\<lparr>ss_state := Failed generation error, ss_options := None\<rparr> else s
     | _ \<Rightarrow> s)"

definition exit_message :: "string option outcome \<Rightarrow> string" where
  "exit_message result =
    (case result of
       Ret None \<Rightarrow> ''VPN packet worker exited unexpectedly''
     | Ret (Some error) \<Rightarrow> ''VPN packet worker failed: '' @ error
     | Panic \<Rightarrow> ''VPN packet worker panicked'')"

definition set_worker :: "nat \<Rightarrow> phase \<Rightarrow> session \<Rightarrow> session" where
  "set_worker g p s = s\<lparr>ss_workers := amap_put g p (ss_workers s)\<rparr>"

inductive step :: "session \<Rightarrow> session \<Rightarrow> bool" where
  begin_stop: "ss_pc s = Idle \<Longrightarrow> step s (s\<lparr>ss_pc := Invalidate ToStop\<rparr>)"
| begin_start: "ss_pc s = Idle \<Longrightarrow> start_request fd options = Inr k \<Longrightarrow>
     step s (s\<lparr>ss_pc := Invalidate (ToStart fd options)\<rparr>)"
| invalidate: "ss_pc s = Invalidate g \<Longrightarrow>
     step s (s\<lparr>ss_generation := ss_generation s + 1, ss_pc := TakeTask g\<rparr>)"
| take_none: "ss_pc s = TakeTask g \<Longrightarrow> ss_task s = None \<Longrightarrow> step s (s\<lparr>ss_pc := ClearState g\<rparr>)"
| take_some: "ss_pc s = TakeTask g \<Longrightarrow> ss_task s = Some w \<Longrightarrow>
     step s (s\<lparr>ss_task := None, ss_pc := AwaitWorker w g\<rparr>)"
| joined: "ss_pc s = AwaitWorker w g \<Longrightarrow> map_of (ss_workers s) w = Some Done \<Longrightarrow>
     step s (s\<lparr>ss_pc := ClearState g\<rparr>)"
| clear_state: "ss_pc s = ClearState g \<Longrightarrow>
     step s (s\<lparr>ss_state := Stopped, ss_pc := ClearOptions g\<rparr>)"
| clear_options: "ss_pc s = ClearOptions g \<Longrightarrow>
     step s (s\<lparr>ss_options := None, ss_pc := after_stop g\<rparr>)"
| duplicate_failed: "ss_pc s = Duplicate fd options \<Longrightarrow> step s (s\<lparr>ss_pc := Idle\<rparr>)"
| duplicate: "ss_pc s = Duplicate fd options \<Longrightarrow> step s (s\<lparr>ss_pc := NextGeneration fd options\<rparr>)"
| next_generation: "ss_pc s = NextGeneration fd options \<Longrightarrow>
     step s (s\<lparr>ss_generation := ss_generation s + 1,
               ss_pc := SetRunning fd options (ss_generation s + 1)\<rparr>)"
| set_running: "ss_pc s = SetRunning fd options g \<Longrightarrow>
     step s (s\<lparr>ss_state := Running fd g, ss_pc := SetOptions options g\<rparr>)"
| set_options: "ss_pc s = SetOptions options g \<Longrightarrow>
     step s (s\<lparr>ss_options := Some options, ss_pc := Spawn g\<rparr>)"
| spawn: "ss_pc s = Spawn g \<Longrightarrow> step s ((set_worker g Working s)\<lparr>ss_pc := StoreTask g\<rparr>)"
| store_task: "ss_pc s = StoreTask g \<Longrightarrow> step s (s\<lparr>ss_task := Some g, ss_pc := Idle\<rparr>)"
| worker_exit: "map_of (ss_workers s) g = Some Working \<Longrightarrow>
     step s (set_worker g (Publishing (exit_message result)) s)"
| worker_publish: "map_of (ss_workers s) g = Some (Publishing e) \<Longrightarrow>
     step s (set_worker g (Announcing e) (publish_task_exit g e s))"
| worker_announce: "map_of (ss_workers s) g = Some (Announcing e) \<Longrightarrow>
     step s (set_worker g Done (s\<lparr>ss_exit := Some (g, e)\<rparr>))"

inductive reach :: "session \<Rightarrow> bool" where
  initial: "reach session_default"
| stepped: "reach s \<Longrightarrow> step s s' \<Longrightarrow> reach s'"

subsection \<open>The observers\<close>

definition is_running :: "session \<Rightarrow> bool" where
  "is_running s = (case ss_state s of Running fd g \<Rightarrow> g = ss_generation s | _ \<Rightarrow> False)"

definition session_fd :: "session \<Rightarrow> int option" where
  "session_fd s =
    (case ss_state s of
       Stopped \<Rightarrow> None
     | Running fd g \<Rightarrow> if g = ss_generation s then Some fd else None
     | Failed _ _ \<Rightarrow> None)"

datatype await_result = Observed string | Superseded | Wait

text \<open>One look of \<open>await_exit\<close> at the watch channel.\<close>

definition await_exit :: "nat \<Rightarrow> session \<Rightarrow> await_result" where
  "await_exit generation s =
    (case ss_exit s of
       None \<Rightarrow> Wait
     | Some (g, e) \<Rightarrow>
         if g = generation then Observed e else if generation < g then Superseded else Wait)"

subsection \<open>The invariant\<close>

text \<open>The worker an operation or the task slot is responsible for.\<close>

definition tracked :: "session \<Rightarrow> nat option" where
  "tracked s = (case ss_pc s of
     AwaitWorker w g \<Rightarrow> Some w
   | StoreTask g \<Rightarrow> Some g
   | _ \<Rightarrow> ss_task s)"

text \<open>
  Workers: a worker that is not done is the tracked one, so there is at most one; the tracked worker
  exists and is the newest; the watch channel holds the exit of the newest worker that is done.
\<close>

definition workers_ok :: "session \<Rightarrow> bool" where
  "workers_ok s \<longleftrightarrow> amap_ok (ss_workers s) \<and>
     (\<forall>g p. map_of (ss_workers s) g = Some p \<longrightarrow> g \<le> ss_generation s \<and> (p \<noteq> Done \<longrightarrow> tracked s = Some g)) \<and>
     (\<forall>g. tracked s = Some g \<longrightarrow> (\<exists>p. map_of (ss_workers s) g = Some p) \<and>
          (\<forall>k p. map_of (ss_workers s) k = Some p \<longrightarrow> k \<le> g))"

definition exit_ok :: "session \<Rightarrow> bool" where
  "exit_ok s \<longleftrightarrow>
     (\<forall>g e. ss_exit s = Some (g, e) \<longrightarrow> map_of (ss_workers s) g = Some Done) \<and>
     (\<forall>g. map_of (ss_workers s) g = Some Done \<longrightarrow> (\<exists>h e. ss_exit s = Some (h, e) \<and> g \<le> h))"

text \<open>What the published state says at each point of the running operation.\<close>

definition settled :: "session \<Rightarrow> bool" where
  "settled s = (case ss_state s of
     Stopped \<Rightarrow> ss_options s = None \<and> tracked s = None
   | Running fd g \<Rightarrow> g = ss_generation s \<and> ss_options s \<noteq> None \<and> tracked s = Some g \<and>
       (\<exists>p. map_of (ss_workers s) g = Some p \<and> (p = Working \<or> (\<exists>e. p = Publishing e)))
   | Failed g e \<Rightarrow> ss_options s = None \<and> tracked s = Some g \<and>
       (map_of (ss_workers s) g = Some (Announcing e) \<or>
        map_of (ss_workers s) g = Some Done \<and> ss_exit s = Some (g, e)))"

definition outdated :: "session \<Rightarrow> bool" where
  "outdated s \<longleftrightarrow> (\<forall>g p. map_of (ss_workers s) g = Some p \<longrightarrow> g < ss_generation s) \<and>
     (\<forall>fd g. ss_state s = Running fd g \<longrightarrow> g < ss_generation s)"

definition fresh :: "nat \<Rightarrow> session \<Rightarrow> bool" where
  "fresh g s \<longleftrightarrow> g = ss_generation s \<and> map_of (ss_workers s) g = None \<and> ss_task s = None"

definition state_ok :: "session \<Rightarrow> bool" where
  "state_ok s = (case ss_pc s of
     Idle \<Rightarrow> settled s
   | Invalidate _ \<Rightarrow> settled s
   | TakeTask _ \<Rightarrow> outdated s
   | AwaitWorker _ _ \<Rightarrow> outdated s \<and> ss_task s = None
   | ClearState _ \<Rightarrow> outdated s \<and> ss_task s = None
   | ClearOptions _ \<Rightarrow> outdated s \<and> ss_state s = Stopped \<and> ss_task s = None
   | Duplicate _ _ \<Rightarrow> outdated s \<and> ss_state s = Stopped \<and> ss_options s = None \<and> ss_task s = None
   | NextGeneration _ _ \<Rightarrow>
       outdated s \<and> ss_state s = Stopped \<and> ss_options s = None \<and> ss_task s = None
   | SetRunning _ _ g \<Rightarrow> fresh g s \<and> ss_state s = Stopped \<and> ss_options s = None
   | SetOptions _ g \<Rightarrow> fresh g s \<and> (\<exists>fd. ss_state s = Running fd g)
   | Spawn g \<Rightarrow> fresh g s \<and> (\<exists>fd. ss_state s = Running fd g) \<and> ss_options s \<noteq> None
   | StoreTask g \<Rightarrow> settled s \<and> ss_task s = None \<and> g = ss_generation s)"

definition session_inv :: "session \<Rightarrow> bool" where
  "session_inv s \<longleftrightarrow> workers_ok s \<and> exit_ok s \<and> state_ok s"

lemma session_inv_default: "session_inv session_default"
  by (simp add: session_inv_def workers_ok_def exit_ok_def state_ok_def settled_def
      session_default_def tracked_def amap_ok_def)

lemma publish_same [simp]:
  "ss_pc (publish_task_exit g e s) = ss_pc s" "ss_task (publish_task_exit g e s) = ss_task s"
  "ss_workers (publish_task_exit g e s) = ss_workers s"
  "ss_generation (publish_task_exit g e s) = ss_generation s"
  "ss_exit (publish_task_exit g e s) = ss_exit s"
  by (simp_all add: publish_task_exit_def split: vpn_lifecycle.splits)

lemma set_worker_simps [simp]:
  "ss_pc (set_worker g p s) = ss_pc s" "ss_task (set_worker g p s) = ss_task s"
  "ss_state (set_worker g p s) = ss_state s" "ss_options (set_worker g p s) = ss_options s"
  "ss_generation (set_worker g p s) = ss_generation s" "ss_exit (set_worker g p s) = ss_exit s"
  "ss_workers (set_worker g p s) = amap_put g p (ss_workers s)"
  by (simp_all add: set_worker_def)

lemma tracked_cong:
  "ss_pc s = ss_pc t \<Longrightarrow> ss_task s = ss_task t \<Longrightarrow> tracked s = tracked t"
  by (cases "ss_pc t") (simp_all add: tracked_def)

lemma live_tracked:
  "session_inv s \<Longrightarrow> map_of (ss_workers s) g = Some p \<Longrightarrow> p \<noteq> Done \<Longrightarrow> tracked s = Some g"
  by (simp add: session_inv_def workers_ok_def)

lemmas session_defs = session_inv_def workers_ok_def exit_ok_def state_ok_def settled_def
  outdated_def fresh_def tracked_def

lemma workers_ok_phase:
  assumes ok: "workers_ok s" and t: "tracked s = Some g"
    and s': "tracked s' = tracked s" "ss_generation s' = ss_generation s"
      "ss_workers s' = amap_put g p (ss_workers s)"
  shows "workers_ok s'"
proof -
  have here: "\<exists>q. map_of (ss_workers s) g = Some q" and top: "map_of (ss_workers s) k = Some q \<Longrightarrow> k \<le> g"
    and le: "map_of (ss_workers s) k = Some q \<Longrightarrow> k \<le> ss_generation s"
    and live: "map_of (ss_workers s) k = Some q \<Longrightarrow> q \<noteq> Done \<Longrightarrow> tracked s = Some k" for k q
    using ok t unfolding workers_ok_def by blast+
  have "amap_ok (ss_workers s')" using ok s' by (simp add: workers_ok_def amap_ok_put)
  moreover have "k \<le> ss_generation s' \<and> k \<le> g \<and> (q \<noteq> Done \<longrightarrow> tracked s' = Some k)"
    if "map_of (ss_workers s') k = Some q" for k q
    using that here le top live [of k q] t unfolding s' by (cases "k = g") auto
  ultimately show ?thesis using t s' unfolding workers_ok_def by auto
qed

lemma fresh_None: "state_ok s \<Longrightarrow> ss_pc s = Spawn g \<Longrightarrow> map_of (ss_workers s) g = None"
  by (auto simp: state_ok_def fresh_def)

lemma workers_ok_step:
  assumes "step s s'" "session_inv s"
  shows "workers_ok s'"
  using assms(1)
proof (cases rule: step.cases)
  case (take_none g)
  then show ?thesis using assms by (auto simp: session_defs)
next
  case (spawn g)
  then show ?thesis using assms(2) fresh_None [OF _ spawn(2)]
    by (auto simp: session_defs amap_ok_put split: if_splits)
next
  case (worker_exit g result)
  then have "tracked s = Some g" using assms live_tracked by blast
  moreover have "tracked s' = tracked s" using worker_exit by (intro tracked_cong) simp_all
  ultimately show ?thesis using worker_exit assms(2)
    by (intro workers_ok_phase [of s g s']) (simp_all add: session_inv_def)
next
  case (worker_publish g e)
  then have "tracked s = Some g" using assms live_tracked by blast
  moreover have "tracked s' = tracked s" using worker_publish by (intro tracked_cong) simp_all
  ultimately show ?thesis using worker_publish assms(2)
    by (intro workers_ok_phase [of s g s']) (simp_all add: session_inv_def)
next
  case (worker_announce g e)
  then have "tracked s = Some g" using assms live_tracked by blast
  moreover have "tracked s' = tracked s" using worker_announce by (intro tracked_cong) simp_all
  ultimately show ?thesis using worker_announce assms(2)
    by (intro workers_ok_phase [of s g s']) (simp_all add: session_inv_def)
next
  case (clear_options g)
  then show ?thesis using assms(2) by (cases g) (auto simp: session_defs after_stop_def)
next
  case (joined w g)
  have "p = Done" if "map_of (ss_workers s) k = Some p" for k p
    using live_tracked [OF assms(2) that] that joined(2,3) by (cases "p = Done") (auto simp: tracked_def)
  then show ?thesis using assms(2) joined by (auto simp: session_defs)
next
  case (invalidate g)
  then show ?thesis using assms(2) by (auto simp: session_inv_def workers_ok_def tracked_def le_SucI)
qed (use assms(2) in \<open>auto simp: session_defs\<close>)

lemma exit_ok_step:
  assumes "step s s'" "session_inv s"
  shows "exit_ok s'"
  using assms(1)
proof (cases rule: step.cases)
  case (spawn g)
  have "map_of (ss_workers s) g = None"
    using assms(2) spawn(2) by (simp add: session_inv_def fresh_None)
  then show ?thesis using spawn assms(2) by (auto simp: session_inv_def exit_ok_def)
next
  case (worker_exit g result)
  then show ?thesis using assms(2) by (auto simp: session_inv_def exit_ok_def)
next
  case (worker_publish g e)
  then show ?thesis using assms(2) by (auto simp: session_inv_def exit_ok_def)
next
  case (worker_announce g e)
  then have "tracked s = Some g" using assms live_tracked by blast
  then have "\<forall>k p. map_of (ss_workers s) k = Some p \<longrightarrow> k \<le> g"
    using assms(2) by (simp add: session_inv_def workers_ok_def)
  then show ?thesis using worker_announce assms(2) by (auto simp: session_inv_def exit_ok_def)
qed (use assms(2) in \<open>auto simp: session_inv_def exit_ok_def\<close>)

text \<open>What a worker may still change once a later operation has invalidated its generation.\<close>

lemma publish_superseded:
  "g \<noteq> ss_generation s \<Longrightarrow> publish_task_exit g e s = s"
  by (simp add: publish_task_exit_def split: vpn_lifecycle.splits)

lemma settled_worker:
  assumes "session_inv s" "settled s" "map_of (ss_workers s) g = Some p" "p \<noteq> Done"
  shows "(case ss_state s of Stopped \<Rightarrow> False
    | Running fd h \<Rightarrow> h = g \<and> g = ss_generation s \<and> (p = Working \<or> (\<exists>e. p = Publishing e))
    | Failed h e \<Rightarrow> h = g \<and> p = Announcing e)"
proof -
  have "tracked s = Some g" using assms by (simp add: live_tracked)
  then show ?thesis using assms(2-4) by (auto simp: settled_def split: vpn_lifecycle.splits)
qed

lemma settled_phase:
  assumes "settled s" "settled_before = tracked s" "tracked s' = tracked s"
    and "ss_generation s' = ss_generation s" "ss_options s' = ss_options s" "ss_state s' = ss_state s"
    and "ss_exit s' = ss_exit s" "ss_workers s' = amap_put g (Publishing e) (ss_workers s)"
    and "map_of (ss_workers s) g = Some Working" "tracked s = Some g"
  shows "settled s'"
  using assms by (auto simp: settled_def split: vpn_lifecycle.splits)

lemma settled_cong:
  "tracked s' = tracked s \<Longrightarrow> ss_state s' = ss_state s \<Longrightarrow> ss_options s' = ss_options s \<Longrightarrow>
   ss_workers s' = ss_workers s \<Longrightarrow> ss_generation s' = ss_generation s \<Longrightarrow> ss_exit s' = ss_exit s \<Longrightarrow>
   settled s' = settled s"
  by (cases "ss_state s") (simp_all add: settled_def)

lemma settled_publish:
  assumes "settled s" "tracked s' = tracked s" "tracked s = Some g"
    and "map_of (ss_workers s) g = Some (Publishing e)"
    and "s' = set_worker g (Announcing e) (publish_task_exit g e s)"
  shows "settled s'"
  using assms by (auto simp: settled_def publish_task_exit_def split: vpn_lifecycle.splits)

lemma settled_announce:
  assumes "settled s" "tracked s' = tracked s" "tracked s = Some g"
    and "map_of (ss_workers s) g = Some (Announcing e)"
    and "s' = set_worker g Done (s\<lparr>ss_exit := Some (g, e)\<rparr>)"
  shows "settled s'"
  using assms by (auto simp: settled_def split: vpn_lifecycle.splits)

text \<open>A worker step keeps every condition of the points at which a later operation has begun.\<close>

lemma state_ok_worker:
  assumes inv: "session_inv s" and live: "map_of (ss_workers s) g = Some p" "p \<noteq> Done"
    and s': "ss_pc s' = ss_pc s" "ss_task s' = ss_task s" "ss_generation s' = ss_generation s"
      "ss_workers s' = amap_put g q (ss_workers s)"
    and kept: "g \<noteq> ss_generation s \<Longrightarrow> ss_state s' = ss_state s \<and> ss_options s' = ss_options s"
    and settles: "settled s \<Longrightarrow> settled s'"
  shows "state_ok s'"
proof -
  have t: "tracked s = Some g" using inv live by (simp add: live_tracked)
  have ok: "state_ok s" using inv by (simp add: session_inv_def)
  have out: "outdated s \<Longrightarrow> outdated s'"
  proof -
    assume o: "outdated s"
    then have "g < ss_generation s" using live by (auto simp: outdated_def)
    then show "outdated s'" using o s' kept live by (auto simp: outdated_def)
  qed
  have lt: "outdated s \<Longrightarrow> g \<noteq> ss_generation s" using live by (auto simp: outdated_def)
  show ?thesis
  proof (cases "ss_pc s")
    case (SetRunning fd ops h)
    then show ?thesis using ok t by (simp add: state_ok_def fresh_def tracked_def)
  next
    case (SetOptions ops h)
    then show ?thesis using ok t by (simp add: state_ok_def fresh_def tracked_def)
  next
    case (Spawn h)
    then show ?thesis using ok t by (simp add: state_ok_def fresh_def tracked_def)
  qed (use ok s' out lt kept settles in \<open>simp_all add: state_ok_def\<close>)
qed

lemma state_ok_step:
  assumes "step s s'" "session_inv s"
  shows "state_ok s'"
  using assms(1)
proof (cases rule: step.cases)
  case (worker_exit g result)
  have t: "tracked s = Some g" "tracked s' = tracked s"
    using live_tracked [OF assms(2) worker_exit(2)] tracked_cong [of s' s] by (simp_all add: worker_exit(1))
  show ?thesis
    by (rule state_ok_worker [OF assms(2) worker_exit(2)])
      (use worker_exit t settled_phase [of s "tracked s" s' g "exit_message result"] in simp_all)
next
  case (worker_publish g e)
  have t: "tracked s = Some g" "tracked s' = tracked s"
    using live_tracked [OF assms(2) worker_publish(2)] tracked_cong [of s' s] by (simp_all add: worker_publish(1))
  show ?thesis
    by (rule state_ok_worker [OF assms(2) worker_publish(2)])
      (use worker_publish t settled_publish [of s s' g e] publish_superseded in simp_all)
next
  case (worker_announce g e)
  have t: "tracked s = Some g" "tracked s' = tracked s"
    using live_tracked [OF assms(2) worker_announce(2)] tracked_cong [of s' s] by (simp_all add: worker_announce(1))
  show ?thesis
    by (rule state_ok_worker [OF assms(2) worker_announce(2)])
      (use worker_announce t settled_announce [of s s' g e] in simp_all)
next
  case (clear_options g)
  then show ?thesis using assms(2)
    by (cases g) (auto simp: session_defs after_stop_def)
next
  case begin_stop
  then have "settled s' = settled s" by (intro settled_cong) (simp_all add: tracked_def)
  then show ?thesis using assms(2) begin_stop by (simp add: session_inv_def state_ok_def)
next
  case (begin_start fd options k)
  then have "settled s' = settled s" by (intro settled_cong) (simp_all add: tracked_def)
  then show ?thesis using assms(2) begin_start by (simp add: session_inv_def state_ok_def)
next
  case (spawn g)
  then show ?thesis using assms(2) by (auto simp: session_inv_def state_ok_def settled_def fresh_def tracked_def)
next
  case (store_task g)
  then have "tracked s' = tracked s" by (simp add: tracked_def)
  then have "settled s' = settled s" by (intro settled_cong) (simp_all add: store_task(1))
  then show ?thesis using assms(2) store_task by (simp add: session_inv_def state_ok_def)
next
  case (next_generation fd options)
  then have "map_of (ss_workers s) (Suc (ss_generation s)) = None"
    using assms(2) unfolding session_inv_def workers_ok_def
    by (metis not_None_eq Suc_n_not_le_n)
  then show ?thesis using next_generation assms(2) by (simp add: session_inv_def state_ok_def fresh_def)
next
  case (invalidate g)
  then show ?thesis using assms(2)
    by (auto simp: session_inv_def workers_ok_def state_ok_def settled_def outdated_def less_Suc_eq_le)
next
  case (take_none g)
  then show ?thesis using assms(2) by (simp add: session_inv_def state_ok_def outdated_def)
next
  case (take_some g w)
  then show ?thesis using assms(2) by (simp add: session_inv_def state_ok_def outdated_def)
next
  case (joined w g)
  then show ?thesis using assms(2) by (simp add: session_inv_def state_ok_def outdated_def)
qed (use assms(2) in \<open>auto simp: session_defs\<close>)

lemma session_inv_step: "step s s' \<Longrightarrow> session_inv s \<Longrightarrow> session_inv s'"
  unfolding session_inv_def [of s'] by (intro conjI workers_ok_step exit_ok_step state_ok_step)

lemma session_inv_reach: "reach s \<Longrightarrow> session_inv s"
  by (induction rule: reach.induct) (auto intro: session_inv_default session_inv_step)

subsection \<open>An operation always completes\<close>

text \<open>
  From every reachable state some finite run ends the operation in progress: a running operation has
  a next step, or waits for a worker that can still run to its end.
\<close>

definition pc_rank :: "pc \<Rightarrow> nat" where
  "pc_rank p = (case p of Idle \<Rightarrow> 0 | StoreTask _ \<Rightarrow> 1 | Spawn _ \<Rightarrow> 2 | SetOptions _ _ \<Rightarrow> 3
     | SetRunning _ _ _ \<Rightarrow> 4 | NextGeneration _ _ \<Rightarrow> 5 | Duplicate _ _ \<Rightarrow> 6 | ClearOptions _ \<Rightarrow> 7
     | ClearState _ \<Rightarrow> 8 | AwaitWorker _ _ \<Rightarrow> 9 | TakeTask _ \<Rightarrow> 10 | Invalidate _ \<Rightarrow> 11)"

fun phase_rank :: "phase option \<Rightarrow> nat" where
  "phase_rank None = 0"
| "phase_rank (Some Working) = 3"
| "phase_rank (Some (Publishing e)) = 2"
| "phase_rank (Some (Announcing e)) = 1"
| "phase_rank (Some Done) = 0"

definition remaining :: "session \<Rightarrow> nat" where
  "remaining s = 4 * pc_rank (ss_pc s) +
     (case ss_pc s of AwaitWorker w g \<Rightarrow> phase_rank (map_of (ss_workers s) w) | _ \<Rightarrow> 0)"

lemma phase_rank_le: "phase_rank p \<le> 3"
  by (cases p rule: phase_rank.cases) simp_all

lemma await_progress:
  assumes "session_inv s" "ss_pc s = AwaitWorker w g"
  shows "\<exists>s'. step s s' \<and> remaining s' < remaining s"
proof -
  obtain p where p: "map_of (ss_workers s) w = Some p"
    using assms by (auto simp: session_inv_def workers_ok_def tracked_def)
  show ?thesis
  proof (cases p)
    case Working
    then have "step s (set_worker w (Publishing (exit_message Panic)) s)" using p by (intro worker_exit) simp
    then show ?thesis using p Working assms(2) by (intro exI conjI) (auto simp: remaining_def)
  next
    case (Publishing e)
    then have "step s (set_worker w (Announcing e) (publish_task_exit w e s))"
      using p by (intro worker_publish) simp
    then show ?thesis using p Publishing assms(2) by (intro exI conjI) (auto simp: remaining_def)
  next
    case (Announcing e)
    then have "step s (set_worker w Done (s\<lparr>ss_exit := Some (w, e)\<rparr>))"
      using p by (intro worker_announce) simp
    then show ?thesis using p Announcing assms(2) by (intro exI conjI) (auto simp: remaining_def)
  next
    case Done
    then have "step s (s\<lparr>ss_pc := ClearState g\<rparr>)" using p assms(2) by (intro joined) simp_all
    then show ?thesis using assms(2) by (intro exI conjI) (auto simp: remaining_def pc_rank_def)
  qed
qed

lemma after_stop_rank: "pc_rank (after_stop g) \<le> 6 \<and> (\<forall>w h. after_stop g \<noteq> AwaitWorker w h)"
  by (cases g) (simp_all add: after_stop_def pc_rank_def)

lemma step_towards_idle:
  assumes "session_inv s" "ss_pc s \<noteq> Idle"
  shows "\<exists>s'. step s s' \<and> remaining s' < remaining s"
proof (cases "ss_pc s")
  case (AwaitWorker w g)
  then show ?thesis using assms(1) await_progress by blast
next
  case (Invalidate g)
  show ?thesis by (intro exI conjI, rule invalidate [OF Invalidate])
    (simp add: remaining_def pc_rank_def Invalidate)
next
  case (TakeTask g)
  show ?thesis
  proof (cases "ss_task s")
    case None
    show ?thesis by (intro exI conjI, rule take_none [OF TakeTask None])
      (simp add: remaining_def pc_rank_def TakeTask)
  next
    case (Some w)
    have "remaining (s\<lparr>ss_task := None, ss_pc := AwaitWorker w g\<rparr>) < remaining s"
      using phase_rank_le [of "map_of (ss_workers s) w"] TakeTask
      by (simp add: remaining_def pc_rank_def)
    then show ?thesis using take_some [OF TakeTask Some] by blast
  qed
next
  case (ClearState g)
  show ?thesis by (intro exI conjI, rule clear_state [OF ClearState])
    (simp add: remaining_def pc_rank_def ClearState)
next
  case (ClearOptions g)
  have "remaining (s\<lparr>ss_options := None, ss_pc := after_stop g\<rparr>) < remaining s"
    using after_stop_rank [of g] ClearOptions
    by (auto simp: remaining_def pc_rank_def [of "ClearOptions g"] split: pc.splits)
  then show ?thesis using clear_options [OF ClearOptions] by blast
next
  case (Duplicate fd options)
  show ?thesis by (intro exI conjI, rule duplicate [OF Duplicate])
    (simp add: remaining_def pc_rank_def Duplicate)
next
  case (NextGeneration fd options)
  show ?thesis by (intro exI conjI, rule next_generation [OF NextGeneration])
    (simp add: remaining_def pc_rank_def NextGeneration)
next
  case (SetRunning fd options g)
  show ?thesis by (intro exI conjI, rule set_running [OF SetRunning])
    (simp add: remaining_def pc_rank_def SetRunning)
next
  case (SetOptions options g)
  show ?thesis by (intro exI conjI, rule set_options [OF SetOptions])
    (simp add: remaining_def pc_rank_def SetOptions)
next
  case (Spawn g)
  show ?thesis by (intro exI conjI, rule spawn [OF Spawn]) (simp add: remaining_def pc_rank_def Spawn)
next
  case (StoreTask g)
  show ?thesis by (intro exI conjI, rule store_task [OF StoreTask])
    (simp add: remaining_def pc_rank_def StoreTask)
qed (use assms(2) in simp)

lemma operation_completes_inv:
  assumes "session_inv s"
  shows "\<exists>s'. step\<^sup>*\<^sup>* s s' \<and> ss_pc s' = Idle"
  using assms
proof (induction "remaining s" arbitrary: s rule: less_induct)
  case less
  show ?case
  proof (cases "ss_pc s = Idle")
    case False
    then obtain t where t: "step s t" "remaining t < remaining s"
      using step_towards_idle less.prems by blast
    then obtain s' where "step\<^sup>*\<^sup>* t s'" "ss_pc s' = Idle"
      using less.hyps session_inv_step less.prems by blast
    then show ?thesis using t(1) by (meson converse_rtranclp_into_rtranclp)
  qed blast
qed

text \<open>A run that starts the worker and stops it again.\<close>

lemma vpn_options_default_request: "\<exists>k. start_request 3 vpn_options_default = Inr k"
  by (simp add: start_request_def vpn_options_default_def vpn_stack_try_from_def str_simps printable_def
      to_ascii_lowercase_def ascii_lower_def)

definition run_state :: "vpn_lifecycle \<Rightarrow> vpn_options option \<Rightarrow> nat option \<Rightarrow> nat \<Rightarrow> (nat \<times> string) option \<Rightarrow>
    pc \<Rightarrow> (nat \<times> phase) list \<Rightarrow> session" where
  "run_state st op ta gen ex p ws = \<lparr>ss_state = st, ss_options = op, ss_task = ta, ss_generation = gen,
     ss_exit = ex, ss_pc = p, ss_workers = ws\<rparr>"

lemma reach_step: "reach s \<Longrightarrow> step s s' \<Longrightarrow> s' = t \<Longrightarrow> reach t"
  using reach.stepped by blast

lemmas run_simps = run_state_def after_stop_def set_worker_def publish_task_exit_def exit_message_def

lemma stopped_run:
  "\<exists>s. reach s \<and> ss_pc s = Idle \<and> ss_state s = Stopped \<and> map_of (ss_workers s) 2 = Some Done"
proof -
  let ?o = vpn_options_default and ?g = "ToStart 3 vpn_options_default"
  let ?e = "''VPN packet worker exited unexpectedly''"
  obtain k where k: "start_request 3 ?o = Inr k" using vpn_options_default_request by blast
  have r0: "reach (run_state Stopped None None 0 None Idle [])"
    using reach.initial by (simp add: run_state_def session_default_def)
  have r1: "reach (run_state Stopped None None 0 None (Invalidate ?g) [])"
    by (rule reach_step [OF r0 begin_start [OF _ k]]) (simp_all add: run_simps)
  have r2: "reach (run_state Stopped None None 1 None (TakeTask ?g) [])"
    by (rule reach_step [OF r1 invalidate [where g = "?g"]]) (simp_all add: run_simps)
  have r3: "reach (run_state Stopped None None 1 None (ClearState ?g) [])"
    by (rule reach_step [OF r2 take_none [where g = "?g"]]) (simp_all add: run_simps)
  have r4: "reach (run_state Stopped None None 1 None (ClearOptions ?g) [])"
    by (rule reach_step [OF r3 clear_state [where g = "?g"]]) (simp_all add: run_simps)
  have r5: "reach (run_state Stopped None None 1 None (Duplicate 3 ?o) [])"
    by (rule reach_step [OF r4 clear_options [where g = "?g"]]) (simp_all add: run_simps)
  have r6: "reach (run_state Stopped None None 1 None (NextGeneration 3 ?o) [])"
    by (rule reach_step [OF r5 duplicate [where fd = 3 and options = ?o]]) (simp_all add: run_simps)
  have r7: "reach (run_state Stopped None None 2 None (SetRunning 3 ?o 2) [])"
    by (rule reach_step [OF r6 next_generation [where fd = 3 and options = ?o]]) (simp_all add: run_simps)
  have r8: "reach (run_state (Running 3 2) None None 2 None (SetOptions ?o 2) [])"
    by (rule reach_step [OF r7 set_running [where fd = 3 and options = ?o and g = 2]]) (simp_all add: run_simps)
  have r9: "reach (run_state (Running 3 2) (Some ?o) None 2 None (Spawn 2) [])"
    by (rule reach_step [OF r8 set_options [where options = ?o and g = 2]]) (simp_all add: run_simps)
  have r10: "reach (run_state (Running 3 2) (Some ?o) None 2 None (StoreTask 2) [(2, Working)])"
    by (rule reach_step [OF r9 spawn [where g = 2]]) (simp_all add: run_simps)
  have r11: "reach (run_state (Running 3 2) (Some ?o) (Some 2) 2 None Idle [(2, Working)])"
    by (rule reach_step [OF r10 store_task [where g = 2]]) (simp_all add: run_simps)
  have r12: "reach (run_state (Running 3 2) (Some ?o) (Some 2) 2 None Idle [(2, Publishing ?e)])"
    by (rule reach_step [OF r11 worker_exit [where g = 2 and result = "Ret None"]]) (simp_all add: run_simps)
  have r13: "reach (run_state (Failed 2 ?e) None (Some 2) 2 None Idle [(2, Announcing ?e)])"
    by (rule reach_step [OF r12 worker_publish [where g = 2 and e = ?e]]) (simp_all add: run_simps)
  have r14: "reach (run_state (Failed 2 ?e) None (Some 2) 2 (Some (2, ?e)) Idle [(2, Done)])"
    by (rule reach_step [OF r13 worker_announce [where g = 2 and e = ?e]]) (simp_all add: run_simps)
  have r15: "reach (run_state (Failed 2 ?e) None (Some 2) 2 (Some (2, ?e)) (Invalidate ToStop) [(2, Done)])"
    by (rule reach_step [OF r14 begin_stop]) (simp_all add: run_simps)
  have r16: "reach (run_state (Failed 2 ?e) None (Some 2) 3 (Some (2, ?e)) (TakeTask ToStop) [(2, Done)])"
    by (rule reach_step [OF r15 invalidate [where g = "ToStop"]]) (simp_all add: run_simps)
  have r17: "reach (run_state (Failed 2 ?e) None None 3 (Some (2, ?e)) (AwaitWorker 2 ToStop) [(2, Done)])"
    by (rule reach_step [OF r16 take_some [where g = "ToStop"]]) (simp_all add: run_simps)
  have r18: "reach (run_state (Failed 2 ?e) None None 3 (Some (2, ?e)) (ClearState ToStop) [(2, Done)])"
    by (rule reach_step [OF r17 joined [where w = 2 and g = ToStop]]) (simp_all add: run_simps)
  have r19: "reach (run_state Stopped None None 3 (Some (2, ?e)) (ClearOptions ToStop) [(2, Done)])"
    by (rule reach_step [OF r18 clear_state [where g = "ToStop"]]) (simp_all add: run_simps)
  have r20: "reach (run_state Stopped None None 3 (Some (2, ?e)) Idle [(2, Done)])"
    by (rule reach_step [OF r19 clear_options [where g = "ToStop"]]) (simp_all add: run_simps)
  show ?thesis
    by (rule exI, rule conjI [OF r20]) (simp add: run_state_def)
qed

subsection \<open>Further facts\<close>

text \<open>
  A worker that ends after its generation was superseded cannot overwrite the state of the session
  that replaced it, and await_exit reports for each generation its own exit or that it was
  superseded.
\<close>

lemma superseded_exit_ignored:
  "(g \<noteq> ss_generation s \<longrightarrow> publish_task_exit g e s = s) \<and>
   (ss_exit s = Some (h, m) \<longrightarrow> await_exit g s =
      (if h = g then Observed m else if g < h then Superseded else Wait))"
  by (simp add: publish_superseded await_exit_def)

text \<open>
  When a stop has completed (no operation in progress, state Stopped) no worker is left running:
  the stop waited for the worker it took, and every worker that ever ran is done.
\<close>

lemma session_stopped_has_no_worker:
  assumes "reach s" "ss_pc s = Idle" "ss_state s = Stopped" "map_of (ss_workers s) g = Some p"
  shows "p = Done"
proof (rule ccontr)
  assume "p \<noteq> Done"
  have inv: "session_inv s" using assms(1) by (rule session_inv_reach)
  then have "settled s" using assms(2) by (simp add: session_inv_def state_ok_def)
  from settled_worker [OF inv this assms(4) \<open>p \<noteq> Done\<close>] show False using assms(3) by simp
qed

subsection \<open>Properties\<close>





end
