(* ===== verification/OwnerJournal.thy ===== *)
theory OwnerJournal
  imports PawsModel
begin

text \<open>
  The owner journal of \<open>crates/paws_core/src/platform_owner.rs\<close>: the one record that says which
  process owns the platform VPN, rewritten by exact compare-and-swap operations of several processes.
  The state is the file at the journal's path; an operation runs under an exclusive file lock, so it
  is a function from the file before to the file after and its result. Every system call may fail:
  the record \<open>io\<close> says which calls of an operation do, and with which text. The JSON codec is not
  part of the sources: it is the parameter \<open>codec\<close>, and what is relied on is that the record at hand
  is read back as it was written (\<open>storable\<close>).
\<close>

subsection \<open>Records\<close>

record process_identity =
  boot_id :: string
  pid :: u32
  start_time :: u64

datatype owner_phase = Pending | Attached | Stopping

record owner_journal =
  oj_attempt_id :: string
  oj_issuer :: process_identity
  oj_extension :: "process_identity option"
  oj_phase :: owner_phase

datatype journal_read = Missing | Present owner_journal

record stored_journal =
  sj_version :: u32
  sj_attempt_id :: string
  sj_issuer :: process_identity
  sj_extension :: "process_identity option"
  sj_phase :: owner_phase

definition PLATFORM_VPN_OWNER_JOURNAL_VERSION :: u32 where
  "PLATFORM_VPN_OWNER_JOURNAL_VERSION = 1"

definition MAX_PLATFORM_VPN_OWNER_JOURNAL_BYTES :: nat where
  "MAX_PLATFORM_VPN_OWNER_JOURNAL_BYTES = 16 * 1024"

definition journal_error :: "string \<Rightarrow> paws_error" where
  "journal_error message = Core (''invalid platform VPN owner journal: '' @ message)"

definition io_error :: "string \<Rightarrow> string \<Rightarrow> string \<Rightarrow> paws_error" where
  "io_error context path err = Io (context @ '' '' @ quoted path @ '': '' @ err)"

subsection \<open>Validation\<close>

definition validate_attempt_id :: "string \<Rightarrow> unit presult" where
  "validate_attempt_id attempt_id =
    (if str_trim attempt_id = [] then Inl (journal_error ''attempt id is empty'') else Inr ())"

definition identity_ok :: "process_identity \<Rightarrow> bool" where
  "identity_ok i \<longleftrightarrow> \<not> (str_trim (boot_id i) = [] \<or> pid i = 0 \<or> start_time i = 0)"

definition validate_identity :: "string \<Rightarrow> process_identity \<Rightarrow> unit presult" where
  "validate_identity label i =
    (if identity_ok i then Inr ()
     else Inl (journal_error (label @
       '' process identity must contain a boot id, non-zero PID, and start time'')))"

definition validate_phase :: "owner_journal \<Rightarrow> unit presult" where
  "validate_phase r =
    (case (oj_phase r, oj_extension r) of
       (Pending, None) \<Rightarrow> Inr ()
     | (Attached, Some _) \<Rightarrow> Inr ()
     | (Stopping, None) \<Rightarrow> Inr ()
     | (Pending, Some _) \<Rightarrow>
         Inl (journal_error ''Pending owner unexpectedly contains an Extension identity'')
     | (Attached, None) \<Rightarrow> Inl (journal_error ''Attached owner is missing its Extension identity'')
     | (Stopping, Some _) \<Rightarrow>
         Inl (journal_error ''Stopping owner unexpectedly contains an Extension identity''))"

definition validate_record :: "owner_journal \<Rightarrow> unit presult" where
  "validate_record r =
    rbind (validate_attempt_id (oj_attempt_id r)) (\<lambda>_.
    rbind (validate_identity ''issuer'' (oj_issuer r)) (\<lambda>_.
    rbind (case oj_extension r of None \<Rightarrow> Inr () | Some e \<Rightarrow> validate_identity ''Extension'' e) (\<lambda>_.
    validate_phase r)))"

definition to_stored :: "owner_journal \<Rightarrow> stored_journal" where
  "to_stored r = \<lparr>sj_version = PLATFORM_VPN_OWNER_JOURNAL_VERSION, sj_attempt_id = oj_attempt_id r,
     sj_issuer = oj_issuer r, sj_extension = oj_extension r, sj_phase = oj_phase r\<rparr>"

definition from_stored :: "stored_journal \<Rightarrow> owner_journal presult" where
  "from_stored s =
    (if sj_version s \<noteq> PLATFORM_VPN_OWNER_JOURNAL_VERSION then
       Inl (journal_error (''unsupported version '' @ decimal (unat (sj_version s))))
     else let r = \<lparr>oj_attempt_id = sj_attempt_id s, oj_issuer = sj_issuer s,
                   oj_extension = sj_extension s, oj_phase = sj_phase s\<rparr> in
       rbind (validate_record r) (\<lambda>_. Inr r))"

subsection \<open>The file\<close>

datatype node = Absent | Regular "byte list" | Special

datatype lock_result = LockAcquired | LockBusy | LockFailed paws_error

text \<open>\<open>None\<close>: the call succeeds.\<close>

record io =
  io_lock :: lock_result
  io_stat :: "string option"
  io_read :: "string option"
  io_create :: "string option"
  io_write :: "string option"
  io_sync :: "string option"
  io_rename :: "string option"
  io_parent :: "string option"
  io_remove :: "string option"

definition io_fine :: io where
  "io_fine = \<lparr>io_lock = LockAcquired, io_stat = None, io_read = None, io_create = None,
     io_write = None, io_sync = None, io_rename = None, io_parent = None, io_remove = None\<rparr>"

record codec =
  encode :: "stored_journal \<Rightarrow> string + byte list"
  decode :: "byte list \<Rightarrow> string + stored_journal"

definition try_io :: "string option \<Rightarrow> string \<Rightarrow> string \<Rightarrow> unit presult" where
  "try_io fault context path =
    (case fault of None \<Rightarrow> Inr () | Some e \<Rightarrow> Inl (io_error context path e))"

definition decode_journal :: "codec \<Rightarrow> string \<Rightarrow> byte list \<Rightarrow> journal_read presult" where
  "decode_journal c path bytes =
    (case decode c bytes of
       Inl e \<Rightarrow> Inl (journal_error (''malformed file '' @ quoted path @ '': '' @ e))
     | Inr stored \<Rightarrow> rbind (from_stored stored) (\<lambda>r. Inr (Present r)))"

definition read_unlocked :: "codec \<Rightarrow> io \<Rightarrow> string \<Rightarrow> node \<Rightarrow> journal_read presult" where
  "read_unlocked c i path n =
    rbind (try_io (io_stat i) ''inspect platform VPN owner journal'' path) (\<lambda>_.
      case n of
        Absent \<Rightarrow> Inr Missing
      | Special \<Rightarrow> Inl (journal_error (''path '' @ quoted path @ '' is not a regular file''))
      | Regular bytes \<Rightarrow>
          if MAX_PLATFORM_VPN_OWNER_JOURNAL_BYTES < length bytes then
            Inl (journal_error (''file '' @ quoted path @ '' is too large (''
                   @ decimal (length bytes) @ '' bytes)''))
          else
            rbind (try_io (io_read i) ''read platform VPN owner journal'' path) (\<lambda>_.
              decode_journal c path bytes))"

text \<open>
  The record goes to a temporary file that replaces the journal by a rename; only then is the
  directory synced. Removing the temporary file after an error is best effort and not modelled.
\<close>

definition write_unlocked :: "codec \<Rightarrow> io \<Rightarrow> string \<Rightarrow> owner_journal \<Rightarrow> node \<Rightarrow> node \<times> unit presult" where
  "write_unlocked c i path r n =
    (case validate_record r of Inl e \<Rightarrow> (n, Inl e) | Inr _ \<Rightarrow>
     case encode c (to_stored r) of
       Inl e \<Rightarrow> (n, Inl (journal_error (''serialize file '' @ quoted path @ '': '' @ e)))
     | Inr bytes \<Rightarrow>
     case rbind (try_io (io_create i) ''create temporary platform VPN owner journal'' path) (\<lambda>_.
          rbind (try_io (io_write i) ''write temporary platform VPN owner journal'' path) (\<lambda>_.
          rbind (try_io (io_sync i) ''sync temporary platform VPN owner journal'' path) (\<lambda>_.
          try_io (io_rename i) ''replace platform VPN owner journal'' path))) of
       Inl e \<Rightarrow> (n, Inl e)
     | Inr _ \<Rightarrow> (Regular bytes, try_io (io_parent i) ''sync platform VPN journal directory'' path))"

definition with_journal ::
  "codec \<Rightarrow> io \<Rightarrow> string \<Rightarrow> node \<Rightarrow> (journal_read \<Rightarrow> node \<times> 'a presult) \<Rightarrow> node \<times> 'a presult" where
  "with_journal c i path n f =
    (case io_lock i of
       LockFailed e \<Rightarrow> (n, Inl e)
     | LockBusy \<Rightarrow>
         (n, Inl (journal_error (''busy: lock '' @ quoted (path @ ''.lock'') @
                    '' is held by another process'')))
     | LockAcquired \<Rightarrow>
         (case read_unlocked c i path n of Inl e \<Rightarrow> (n, Inl e) | Inr j \<Rightarrow> f j))"

subsection \<open>The operations\<close>

definition read_journal :: "codec \<Rightarrow> io \<Rightarrow> string \<Rightarrow> node \<Rightarrow> node \<times> journal_read presult" where
  "read_journal c i path n = with_journal c i path n (\<lambda>j. (n, Inr j))"

definition create_pending_exact ::
  "codec \<Rightarrow> io \<Rightarrow> string \<Rightarrow> owner_journal \<Rightarrow> node \<Rightarrow> node \<times> unit presult" where
  "create_pending_exact c i path r n =
    (case validate_record r of Inl e \<Rightarrow> (n, Inl e) | Inr _ \<Rightarrow>
     if oj_phase r \<noteq> Pending \<or> oj_extension r \<noteq> None then
       (n, Inl (journal_error ''a new owner must be Pending without an Extension identity''))
     else with_journal c i path n (\<lambda>j. case j of
         Missing \<Rightarrow> write_unlocked c i path r n
       | Present current \<Rightarrow>
           if current = r then (n, Inr ())
           else (n, Inl (journal_error (''create conflict: existing attempt ''
                  @ quoted (oj_attempt_id current) @ '' is not the requested attempt ''
                  @ quoted (oj_attempt_id r))))))"

definition upgrade_attached_exact ::
  "codec \<Rightarrow> io \<Rightarrow> string \<Rightarrow> string \<Rightarrow> process_identity \<Rightarrow> process_identity \<Rightarrow> node \<Rightarrow>
   node \<times> unit presult" where
  "upgrade_attached_exact c i path expected_attempt expected_issuer extension n =
    (case rbind (validate_attempt_id expected_attempt) (\<lambda>_.
          rbind (validate_identity ''expected issuer'' expected_issuer) (\<lambda>_.
          validate_identity ''Extension'' extension)) of
       Inl e \<Rightarrow> (n, Inl e)
     | Inr _ \<Rightarrow> with_journal c i path n (\<lambda>j. case j of
         Missing \<Rightarrow>
           (n, Inl (journal_error (''cannot attach missing attempt '' @ quoted expected_attempt)))
       | Present current \<Rightarrow>
           if oj_attempt_id current \<noteq> expected_attempt \<or> oj_issuer current \<noteq> expected_issuer then
             (n, Inl (journal_error (''attach conflict: attempt '' @ quoted expected_attempt
                        @ '' or its issuer is no longer current'')))
           else (case (oj_phase current, oj_extension current) of
               (Pending, None) \<Rightarrow>
                 write_unlocked c i path
                   (current\<lparr>oj_phase := Attached, oj_extension := Some extension\<rparr>) n
             | (p, x) \<Rightarrow>
                 if p = Attached \<and> x = Some extension then (n, Inr ())
                 else (n, Inl (journal_error (''attach conflict: attempt '' @ quoted expected_attempt
                            @ '' has a different phase or Extension owner''))))))"

definition fence_pending_stop_exact ::
  "codec \<Rightarrow> io \<Rightarrow> string \<Rightarrow> string \<Rightarrow> process_identity \<Rightarrow> node \<Rightarrow> node \<times> bool presult" where
  "fence_pending_stop_exact c i path expected_attempt expected_issuer n =
    (case rbind (validate_attempt_id expected_attempt) (\<lambda>_.
          validate_identity ''expected issuer'' expected_issuer) of
       Inl e \<Rightarrow> (n, Inl e)
     | Inr _ \<Rightarrow> with_journal c i path n (\<lambda>j. case j of
         Missing \<Rightarrow> (n, Inr False)
       | Present current \<Rightarrow>
           if oj_attempt_id current \<noteq> expected_attempt \<or> oj_issuer current \<noteq> expected_issuer then
             (n, Inr False)
           else (case (oj_phase current, oj_extension current) of
               (Pending, None) \<Rightarrow>
                 (case write_unlocked c i path (current\<lparr>oj_phase := Stopping\<rparr>) n of
                    (n', Inl e) \<Rightarrow> (n', Inl e)
                  | (n', Inr _) \<Rightarrow> (n', Inr True))
             | (Stopping, None) \<Rightarrow> (n, Inr True)
             | (Attached, Some _) \<Rightarrow> (n, Inr False)
             | _ \<Rightarrow> (n, Inl (journal_error (''stop fence conflict: attempt ''
                          @ quoted expected_attempt
                          @ '' has an invalid phase or Extension owner''))))))"

definition rebind_attached_exact ::
  "codec \<Rightarrow> io \<Rightarrow> string \<Rightarrow> string \<Rightarrow> process_identity \<Rightarrow> process_identity \<Rightarrow> process_identity \<Rightarrow>
   node \<Rightarrow> node \<times> unit presult" where
  "rebind_attached_exact c i path expected_attempt expected_issuer expected_extension
      replacement_extension n =
    (case rbind (validate_attempt_id expected_attempt) (\<lambda>_.
          rbind (validate_identity ''expected issuer'' expected_issuer) (\<lambda>_.
          rbind (validate_identity ''expected Extension'' expected_extension) (\<lambda>_.
          validate_identity ''replacement Extension'' replacement_extension))) of
       Inl e \<Rightarrow> (n, Inl e)
     | Inr _ \<Rightarrow> with_journal c i path n (\<lambda>j. case j of
         Missing \<Rightarrow>
           (n, Inl (journal_error (''cannot rebind missing attempt '' @ quoted expected_attempt)))
       | Present current \<Rightarrow>
           if oj_attempt_id current \<noteq> expected_attempt \<or> oj_issuer current \<noteq> expected_issuer
              \<or> oj_phase current \<noteq> Attached then
             (n, Inl (journal_error (''rebind conflict: attempt '' @ quoted expected_attempt
                        @ '' or its issuer is no longer current'')))
           else (case oj_extension current of
               Some extension \<Rightarrow>
                 if extension = expected_extension then
                   (if extension = replacement_extension then (n, Inr ())
                    else write_unlocked c i path
                           (current\<lparr>oj_extension := Some replacement_extension\<rparr>) n)
                 else if extension = replacement_extension then (n, Inr ())
                 else (n, Inl (journal_error (''rebind conflict: attempt ''
                            @ quoted expected_attempt @ '' has a different Extension owner'')))
             | None \<Rightarrow> (n, Inl (journal_error (''rebind conflict: attempt ''
                            @ quoted expected_attempt @ '' has a different Extension owner''))))))"

definition remove_journal :: "io \<Rightarrow> string \<Rightarrow> string \<Rightarrow> node \<Rightarrow> node \<times> bool presult" where
  "remove_journal i context path n =
    (case try_io (io_remove i) context path of
       Inl e \<Rightarrow> (n, Inl e)
     | Inr _ \<Rightarrow> (Absent, rbind (try_io (io_parent i) ''sync platform VPN journal directory'' path)
                           (\<lambda>_. Inr True)))"

definition delete_exact ::
  "codec \<Rightarrow> io \<Rightarrow> string \<Rightarrow> string \<Rightarrow> process_identity option \<Rightarrow> node \<Rightarrow> node \<times> bool presult" where
  "delete_exact c i path expected_attempt expected_extension n =
    (case rbind (validate_attempt_id expected_attempt) (\<lambda>_.
          case expected_extension of None \<Rightarrow> Inr ()
          | Some e \<Rightarrow> validate_identity ''expected Extension'' e) of
       Inl e \<Rightarrow> (n, Inl e)
     | Inr _ \<Rightarrow> with_journal c i path n (\<lambda>j. case j of
         Missing \<Rightarrow> (n, Inr False)
       | Present current \<Rightarrow>
           if oj_attempt_id current \<noteq> expected_attempt \<or> oj_extension current \<noteq> expected_extension
           then (n, Inr False)
           else remove_journal i ''remove platform VPN owner journal'' path n))"

definition delete_pending_exact ::
  "codec \<Rightarrow> io \<Rightarrow> string \<Rightarrow> string \<Rightarrow> node \<Rightarrow> node \<times> bool presult" where
  "delete_pending_exact c i path expected_attempt n =
    (case validate_attempt_id expected_attempt of
       Inl e \<Rightarrow> (n, Inl e)
     | Inr _ \<Rightarrow> with_journal c i path n (\<lambda>j. case j of
         Missing \<Rightarrow> (n, Inr False)
       | Present current \<Rightarrow>
           if oj_attempt_id current \<noteq> expected_attempt \<or> oj_phase current \<noteq> Pending
              \<or> oj_extension current \<noteq> None
           then (n, Inr False)
           else remove_journal i ''remove pending platform VPN owner journal'' path n))"

subsection \<open>Reading back what was written\<close>

definition journal_load :: "codec \<Rightarrow> string \<Rightarrow> node \<Rightarrow> journal_read presult" where
  "journal_load c path n = read_unlocked c io_fine path n"

definition storable :: "codec \<Rightarrow> owner_journal \<Rightarrow> bool" where
  "storable c r = (case encode c (to_stored r) of
     Inl _ \<Rightarrow> True
   | Inr bytes \<Rightarrow> length bytes \<le> MAX_PLATFORM_VPN_OWNER_JOURNAL_BYTES \<and>
       decode c bytes = Inr (to_stored r))"

lemma try_io_None [simp]: "try_io None context path = Inr ()"
  by (simp add: try_io_def)

lemma try_io_Inr: "try_io f context path = Inr u \<longleftrightarrow> f = None"
  by (auto simp: try_io_def split: option.splits)

lemma read_unlocked_load: "read_unlocked c i path n = Inr j \<Longrightarrow> journal_load c path n = Inr j"
  by (auto simp: journal_load_def read_unlocked_def io_fine_def rbind_Inr split: node.splits if_splits)

lemma from_stored_to_stored: "validate_record r = Inr u \<Longrightarrow> from_stored (to_stored r) = Inr r"
  by (cases r) (simp add: from_stored_def to_stored_def)

lemma load_written:
  assumes "validate_record r = Inr u" "encode c (to_stored r) = Inr bytes" "storable c r"
  shows "journal_load c path (Regular bytes) = Inr (Present r)"
  using assms by (simp add: journal_load_def read_unlocked_def io_fine_def storable_def
      decode_journal_def from_stored_to_stored)

lemma write_unlocked_cases:
  obtains (unchanged) e where "write_unlocked c i path r n = (n, Inl e)"
  | (written) bytes u where "validate_record r = Inr u" "encode c (to_stored r) = Inr bytes"
      "write_unlocked c i path r n =
         (Regular bytes, try_io (io_parent i) ''sync platform VPN journal directory'' path)"
proof -
  show ?thesis
  proof (cases "\<exists>e. write_unlocked c i path r n = (n, Inl e)")
    case True
    then show ?thesis using unchanged by blast
  next
    case False
    then obtain u where u: "validate_record r = Inr u"
      by (cases "validate_record r") (auto simp: write_unlocked_def)
    with False obtain bytes where b: "encode c (to_stored r) = Inr bytes"
      by (cases "encode c (to_stored r)") (auto simp: write_unlocked_def)
    from u b False show ?thesis
      by (intro written [of u bytes]) (auto simp: write_unlocked_def split: sum.splits)
  qed
qed

interpretation journal_file: replaceable_file "journal_load c path"
  "\<lambda>i r n. write_unlocked c i path r n" "\<lambda>r. Inr (Present r)" "storable c" for c path
proof unfold_locales
  fix r i n
  assume st: "storable c r"
  show "fst (write_unlocked c i path r n) = n \<or>
      journal_load c path (fst (write_unlocked c i path r n)) = Inr (Present r)"
    by (cases rule: write_unlocked_cases [of c i path r n]) (auto simp: load_written st)
  show "snd (write_unlocked c i path r n) = Inr () \<Longrightarrow>
      journal_load c path (fst (write_unlocked c i path r n)) = Inr (Present r)"
    by (cases rule: write_unlocked_cases [of c i path r n]) (auto simp: load_written st)
qed

lemma with_journal_cases:
  obtains (failed) e where "with_journal c i path n f = (n, Inl e)"
  | (ran) j where "journal_load c path n = Inr j" "with_journal c i path n f = f j"
    "io_lock i = LockAcquired" "read_unlocked c i path n = Inr j"
proof (cases "io_lock i")
  case LockAcquired
  then show ?thesis
    by (cases "read_unlocked c i path n")
      (auto simp: with_journal_def intro: failed ran dest: read_unlocked_load)
qed (auto simp: with_journal_def intro: failed)

lemma validate_record_Inr:
  "validate_record r = Inr u \<longleftrightarrow> str_trim (oj_attempt_id r) \<noteq> [] \<and> identity_ok (oj_issuer r) \<and>
     (\<forall>e. oj_extension r = Some e \<longrightarrow> identity_ok e) \<and>
     (oj_phase r = Attached \<longleftrightarrow> oj_extension r \<noteq> None)"
  by (cases "oj_phase r"; cases "oj_extension r")
    (auto simp: validate_record_def validate_attempt_id_def validate_identity_def validate_phase_def)

lemma journal_load_valid:
  assumes "journal_load c path n = Inr (Present r)"
  shows "oj_phase r = Attached \<longleftrightarrow> oj_extension r \<noteq> None"
proof -
  have "validate_record r = Inr ()"
    using assms by (auto simp: journal_load_def read_unlocked_def io_fine_def decode_journal_def
        from_stored_def rbind_Inr Let_def split: node.splits if_splits sum.splits)
  then show ?thesis by (simp add: validate_record_Inr)
qed

subsection \<open>The transitions of the owner\<close>

text \<open>The abstract machine: what one operation may do to the record a reader sees.\<close>

fun owner_trans :: "journal_read \<Rightarrow> journal_read \<Rightarrow> bool" where
  "owner_trans Missing Missing \<longleftrightarrow> False"
| "owner_trans Missing (Present r) \<longleftrightarrow> oj_phase r = Pending \<and> oj_extension r = None"
| "owner_trans (Present r) Missing \<longleftrightarrow> True"
| "owner_trans (Present r) (Present r') \<longleftrightarrow>
     oj_attempt_id r' = oj_attempt_id r \<and> oj_issuer r' = oj_issuer r \<and>
     (oj_phase r, oj_phase r') \<in> {(Pending, Attached), (Pending, Stopping), (Attached, Attached)} \<and>
     (oj_phase r' = Attached \<longleftrightarrow> oj_extension r' \<noteq> None)"

text \<open>The effect of an operation: none, or one transition of what a reader sees.\<close>

definition effect :: "codec \<Rightarrow> string \<Rightarrow> node \<Rightarrow> node \<Rightarrow> bool" where
  "effect c path n n' \<longleftrightarrow> n' = n \<or>
     (\<exists>j j'. journal_load c path n = Inr j \<and> journal_load c path n' = Inr j' \<and> owner_trans j j')"

lemma effect_refl [simp]: "effect c path n n"
  by (simp add: effect_def)

lemma effect_write:
  assumes "journal_load c path n = Inr j" "storable c r" "owner_trans j (Present r)"
  shows "effect c path n (fst (write_unlocked c i path r n))"
  using journal_file.save_atomic [OF assms(2), where i = i and n = n and path = path] assms(1,3) by (auto simp: effect_def)

lemma journal_load_Absent [simp]: "journal_load c path Absent = Inr Missing"
  by (simp add: journal_load_def read_unlocked_def io_fine_def)

lemma effect_remove:
  assumes "journal_load c path n = Inr (Present r)"
  shows "effect c path n (fst (remove_journal i context path n))"
  using assms by (auto simp: remove_journal_def effect_def split: sum.splits)

lemma effect_with_journal:
  assumes "\<And>j. journal_load c path n = Inr j \<Longrightarrow> effect c path n (fst (f j))"
  shows "effect c path n (fst (with_journal c i path n f))"
  by (cases rule: with_journal_cases [of c i path n f]) (auto intro: assms)

lemma effect_create:
  assumes "storable c r"
  shows "effect c path n (fst (create_pending_exact c i path r n))"
  using assms
  by (auto simp: create_pending_exact_def split: sum.splits journal_read.splits
      intro!: effect_with_journal effect_write)

definition attached_record :: "string \<Rightarrow> process_identity \<Rightarrow> process_identity \<Rightarrow> owner_journal" where
  "attached_record attempt issuer extension = \<lparr>oj_attempt_id = attempt, oj_issuer = issuer,
     oj_extension = Some extension, oj_phase = Attached\<rparr>"

definition stopping_record :: "string \<Rightarrow> process_identity \<Rightarrow> owner_journal" where
  "stopping_record attempt issuer = \<lparr>oj_attempt_id = attempt, oj_issuer = issuer,
     oj_extension = None, oj_phase = Stopping\<rparr>"

lemma attached_record_update:
  "oj_attempt_id r = attempt \<Longrightarrow> oj_issuer r = issuer \<Longrightarrow>
     r\<lparr>oj_phase := Attached, oj_extension := Some x\<rparr> = attached_record attempt issuer x"
  "oj_attempt_id r = attempt \<Longrightarrow> oj_issuer r = issuer \<Longrightarrow> oj_phase r = Attached \<Longrightarrow>
     r\<lparr>oj_extension := Some x\<rparr> = attached_record attempt issuer x"
  "oj_attempt_id r = attempt \<Longrightarrow> oj_issuer r = issuer \<Longrightarrow> oj_extension r = None \<Longrightarrow>
     r\<lparr>oj_phase := Stopping\<rparr> = stopping_record attempt issuer"
  by (cases r; simp add: attached_record_def stopping_record_def)+

lemma attached_record_simps [simp]:
  "oj_attempt_id (attached_record a b x) = a" "oj_issuer (attached_record a b x) = b"
  "oj_extension (attached_record a b x) = Some x" "oj_phase (attached_record a b x) = Attached"
  "oj_attempt_id (stopping_record a b) = a" "oj_issuer (stopping_record a b) = b"
  "oj_extension (stopping_record a b) = None" "oj_phase (stopping_record a b) = Stopping"
  by (simp_all add: attached_record_def stopping_record_def)

lemma effect_upgrade:
  assumes "storable c (attached_record attempt issuer x)"
  shows "effect c path n (fst (upgrade_attached_exact c i path attempt issuer x n))"
proof -
  have "effect c path n (fst (write_unlocked c i path (attached_record attempt issuer x) n))"
    if "journal_load c path n = Inr (Present r)" "oj_attempt_id r = attempt" "oj_issuer r = issuer"
      "oj_phase r = Pending" for r
    using that assms by (intro effect_write) auto
  then show ?thesis
    by (auto simp: upgrade_attached_exact_def attached_record_update
        split: sum.splits journal_read.splits owner_phase.splits option.splits
        intro!: effect_with_journal)
qed

lemma effect_fence:
  assumes "storable c (stopping_record attempt issuer)"
  shows "effect c path n (fst (fence_pending_stop_exact c i path attempt issuer n))"
proof -
  have w: "effect c path n n'" if "journal_load c path n = Inr (Present r)"
      "oj_attempt_id r = attempt" "oj_issuer r = issuer" "oj_phase r = Pending"
      "write_unlocked c i path (stopping_record attempt issuer) n = (n', x)" for r n' x
    using effect_write [OF that(1) assms, of i] that by auto
  show ?thesis
    by (auto simp: fence_pending_stop_exact_def attached_record_update
        split: sum.splits journal_read.splits owner_phase.splits option.splits prod.splits
        intro!: effect_with_journal dest: w)
qed

lemma effect_rebind:
  assumes "storable c (attached_record attempt issuer y)"
  shows "effect c path n (fst (rebind_attached_exact c i path attempt issuer x y n))"
proof -
  have "effect c path n (fst (write_unlocked c i path (attached_record attempt issuer y) n))"
    if "journal_load c path n = Inr (Present r)" "oj_attempt_id r = attempt" "oj_issuer r = issuer"
      "oj_phase r = Attached" for r
    using that assms by (intro effect_write) auto
  then show ?thesis
    by (auto simp: rebind_attached_exact_def attached_record_update
        split: sum.splits journal_read.splits option.splits
        intro!: effect_with_journal)
qed

lemma effect_delete: "effect c path n (fst (delete_exact c i path attempt x n))"
  by (auto simp: delete_exact_def split: sum.splits journal_read.splits
      intro!: effect_with_journal effect_remove)

lemma effect_delete_pending: "effect c path n (fst (delete_pending_exact c i path attempt n))"
  by (auto simp: delete_pending_exact_def split: sum.splits journal_read.splits
      intro!: effect_with_journal effect_remove)

subsection \<open>Runs of several processes\<close>

inductive journal_step :: "codec \<Rightarrow> string \<Rightarrow> node \<Rightarrow> node \<Rightarrow> bool" for c path where
  create: "storable c r \<Longrightarrow> journal_step c path n (fst (create_pending_exact c i path r n))"
| upgrade: "storable c (attached_record attempt issuer x) \<Longrightarrow>
     journal_step c path n (fst (upgrade_attached_exact c i path attempt issuer x n))"
| fence: "storable c (stopping_record attempt issuer) \<Longrightarrow>
     journal_step c path n (fst (fence_pending_stop_exact c i path attempt issuer n))"
| rebind: "storable c (attached_record attempt issuer y) \<Longrightarrow>
     journal_step c path n (fst (rebind_attached_exact c i path attempt issuer x y n))"
| delete: "journal_step c path n (fst (delete_exact c i path attempt x' n))"
| delete_pending: "journal_step c path n (fst (delete_pending_exact c i path attempt n))"

inductive_cases journal_stepE: "journal_step c path n n'"

lemma journal_step_effect: "journal_step c path n n' \<Longrightarrow> effect c path n n'"
  by (induction rule: journal_step.induct)
    (auto intro: effect_create effect_upgrade effect_fence effect_rebind effect_delete
      effect_delete_pending)

lemma journal_reach_readable:
  "(journal_step c path)\<^sup>*\<^sup>* Absent n \<Longrightarrow> \<exists>j. journal_load c path n = Inr j"
proof (induction rule: rtranclp_induct)
  case (step n n')
  then show ?case using journal_step_effect [OF step.hyps(2)] by (auto simp: effect_def)
qed simp

lemma journal_step_stopping:
  assumes "journal_step c path n n'" "journal_load c path n = Inr (Present r)" "oj_phase r = Stopping"
  shows "journal_load c path n' \<in> {Inr (Present r), Inr Missing}"
proof -
  have "effect c path n n'" using assms(1) by (rule journal_step_effect)
  then consider "n' = n" | j' where "journal_load c path n' = Inr j'" "owner_trans (Present r) j'"
    using assms(2) by (auto simp: effect_def)
  then show ?thesis
  proof cases
    case (2 j')
    then show ?thesis using assms(3) by (cases j') auto
  qed (use assms in simp)
qed

subsection \<open>What a successful operation promises\<close>

lemma upgrade_success:
  assumes "storable c (attached_record attempt issuer x)"
    and "upgrade_attached_exact c i path attempt issuer x n = (n', Inr ())"
  shows "journal_load c path n' = Inr (Present (attached_record attempt issuer x))"
proof -
  obtain r where r: "journal_load c path n = Inr (Present r)" "oj_attempt_id r = attempt"
      "oj_issuer r = issuer"
    and res: "(case (oj_phase r, oj_extension r) of
               (Pending, None) \<Rightarrow> write_unlocked c i path (attached_record attempt issuer x) n
             | (p, y) \<Rightarrow> if p = Attached \<and> y = Some x then (n, Inr ())
                 else (n, Inl (journal_error (''attach conflict: attempt '' @ quoted attempt
                            @ '' has a different phase or Extension owner'')))) = (n', Inr ())"
    using assms(2) unfolding upgrade_attached_exact_def
    by (auto simp: attached_record_update with_journal_def split: sum.splits lock_result.splits
        journal_read.splits if_splits owner_phase.splits option.splits dest: read_unlocked_load)
  show ?thesis
  proof (cases "oj_phase r = Pending \<and> oj_extension r = None")
    case True
    then show ?thesis
      using res journal_file.save_ok [OF assms(1), where i = i and n = n and path = path] by simp
  next
    case False
    then have "oj_phase r = Attached" "oj_extension r = Some x" "n' = n"
      using res by (auto split: owner_phase.splits option.splits if_splits)
    then show ?thesis using r by (cases r) (simp add: attached_record_def)
  qed
qed

lemma fence_success:
  assumes "storable c (stopping_record attempt issuer)"
    and "fence_pending_stop_exact c i path attempt issuer n = (n', Inr True)"
  shows "journal_load c path n' = Inr (Present (stopping_record attempt issuer))"
proof -
  obtain r where r: "journal_load c path n = Inr (Present r)" "oj_attempt_id r = attempt"
      "oj_issuer r = issuer"
    and res: "oj_phase r = Pending \<and> oj_extension r = None \<and>
        write_unlocked c i path (stopping_record attempt issuer) n = (n', Inr ()) \<or>
      oj_phase r = Stopping \<and> oj_extension r = None \<and> n' = n"
    using assms(2) unfolding fence_pending_stop_exact_def
    by (auto simp: attached_record_update with_journal_def split: sum.splits lock_result.splits
        journal_read.splits if_splits owner_phase.splits option.splits prod.splits
        dest: read_unlocked_load)
  from res show ?thesis
  proof
    assume "oj_phase r = Pending \<and> oj_extension r = None \<and>
        write_unlocked c i path (stopping_record attempt issuer) n = (n', Inr ())"
    then show ?thesis
      using journal_file.save_ok [OF assms(1), where i = i and n = n and path = path] by simp
  next
    assume "oj_phase r = Stopping \<and> oj_extension r = None \<and> n' = n"
    then show ?thesis using r by (cases r) (simp add: stopping_record_def)
  qed
qed

text \<open>Every operation that finds another owner refuses and leaves the file alone.\<close>

lemma upgrade_conflict:
  assumes "journal_load c path n = Inr (Present r)"
    and "oj_phase r = Stopping \<or> oj_extension r \<noteq> None \<and> oj_extension r \<noteq> Some x"
  shows "\<exists>e. upgrade_attached_exact c i path attempt issuer x n = (n, Inl e)"
proof -
  let ?f = "\<lambda>j. case j of
         Missing \<Rightarrow>
           (n, Inl (journal_error (''cannot attach missing attempt '' @ quoted attempt)))
       | Present current \<Rightarrow>
           if oj_attempt_id current \<noteq> attempt \<or> oj_issuer current \<noteq> issuer then
             (n, Inl (journal_error (''attach conflict: attempt '' @ quoted attempt
                        @ '' or its issuer is no longer current'')))
           else (case (oj_phase current, oj_extension current) of
               (Pending, None) \<Rightarrow>
                 write_unlocked c i path (current\<lparr>oj_phase := Attached, oj_extension := Some x\<rparr>) n
             | (p, y) \<Rightarrow>
                 if p = Attached \<and> y = Some x then (n, Inr ())
                 else (n, Inl (journal_error (''attach conflict: attempt '' @ quoted attempt
                            @ '' has a different phase or Extension owner''))))"
  have "\<exists>e. ?f (Present r) = (n, Inl e)"
    using assms(2) by (auto split: owner_phase.splits option.splits)
  then have "\<exists>e. with_journal c i path n ?f = (n, Inl e)"
    using assms(1) by (cases rule: with_journal_cases [of c i path n ?f]) auto
  then show ?thesis by (auto simp: upgrade_attached_exact_def split: sum.splits)
qed

lemma fence_after_attach:
  assumes "journal_load c path n = Inr (Present (attached_record attempt issuer x))"
    and "fence_pending_stop_exact c i path attempt' issuer' n = (n', res)"
  shows "n' = n \<and> res \<noteq> Inr True"
  using assms(2) unfolding fence_pending_stop_exact_def
  by (auto simp: with_journal_def split: sum.splits lock_result.splits journal_read.splits if_splits
      dest!: read_unlocked_load simp: assms(1))

text \<open>A retry of an operation that has succeeded succeeds and writes nothing.\<close>

lemma read_unlocked_fine: "journal_load c path n = read_unlocked c io_fine path n"
  by (simp add: journal_load_def)

lemma upgrade_retry:
  assumes "storable c (attached_record attempt issuer x)"
    and "upgrade_attached_exact c i path attempt issuer x n = (n', Inr ())"
  shows "upgrade_attached_exact c io_fine path attempt issuer x n' = (n', Inr ())"
proof -
  have "read_unlocked c io_fine path n' = Inr (Present (attached_record attempt issuer x))"
    using upgrade_success [OF assms] by (simp add: read_unlocked_fine)
  moreover have "io_lock io_fine = LockAcquired" by (simp add: io_fine_def)
  moreover have "\<exists>u. rbind (validate_attempt_id attempt) (\<lambda>_.
          rbind (validate_identity ''expected issuer'' issuer) (\<lambda>_.
          validate_identity ''Extension'' x)) = Inr u"
    using assms(2) by (auto simp: upgrade_attached_exact_def split: sum.splits)
  ultimately show ?thesis by (auto simp: upgrade_attached_exact_def with_journal_def)
qed

text \<open>An operation that fails before its rename has changed nothing.\<close>

lemma write_unlocked_error:
  assumes "write_unlocked c i path r n = (n', Inl e)" "io_parent i = None"
  shows "n' = n"
  using assms by (cases rule: write_unlocked_cases [of c i path r n]) auto

text \<open>
  The reader refuses a file of more than 16 KiB, the writer does not: a record whose encoding is
  longer is written with success and cannot be read again.
\<close>

lemma oversized_record_unreadable:
  assumes "validate_record r = Inr u" "oj_phase r = Pending" "encode c (to_stored r) = Inr bytes"
    and "MAX_PLATFORM_VPN_OWNER_JOURNAL_BYTES < length bytes"
  shows "create_pending_exact c io_fine path r Absent = (Regular bytes, Inr ()) \<and>
     (\<exists>e. journal_load c path (Regular bytes) = Inl e)"
proof -
  have "oj_extension r = None" using assms(1,2) by (simp add: validate_record_Inr)
  then show ?thesis
    using assms by (simp add: create_pending_exact_def with_journal_def io_fine_def read_unlocked_def
        write_unlocked_def journal_load_def)
qed

text \<open>A codec over a fixed list of records, for evaluating the operations on concrete input.\<close>

fun record_index :: "stored_journal \<Rightarrow> stored_journal list \<Rightarrow> nat option" where
  "record_index r [] = None"
| "record_index r (x # xs) = (if x = r then Some 0 else map_option Suc (record_index r xs))"

definition table_codec :: "owner_journal list \<Rightarrow> codec" where
  "table_codec rs = \<lparr>encode = (\<lambda>s. case record_index s (map to_stored rs) of
       Some k \<Rightarrow> Inr (replicate k 1) | None \<Rightarrow> Inl ''not in the table''),
     decode = (\<lambda>bs. if length bs < length rs then Inr (to_stored (rs ! length bs))
                else Inl ''not in the table'')\<rparr>"

lemma record_index_Some: "record_index s xs = Some k \<Longrightarrow> k < length xs \<and> xs ! k = s"
  by (induction xs arbitrary: k) (auto split: if_splits)

lemma table_codec_storable: "length rs \<le> 16384 \<Longrightarrow> storable (table_codec rs) r"
  by (auto simp: storable_def table_codec_def MAX_PLATFORM_VPN_OWNER_JOURNAL_BYTES_def
      split: option.splits dest!: record_index_Some)

subsection \<open>Sample records\<close>

definition sample_id :: process_identity where
  "sample_id = \<lparr>boot_id = ''b'', pid = 7, start_time = 9\<rparr>"

definition sample_pending :: owner_journal where
  "sample_pending = \<lparr>oj_attempt_id = ''a'', oj_issuer = sample_id, oj_extension = None, oj_phase = Pending\<rparr>"

definition sample_attached :: owner_journal where
  "sample_attached = attached_record ''a'' sample_id sample_id"

definition sample_stopping :: owner_journal where
  "sample_stopping = stopping_record ''a'' sample_id"

lemma sample_valid:
  "validate_record sample_pending = Inr ()" "validate_record sample_attached = Inr ()"
  "validate_record sample_stopping = Inr ()" "validate_attempt_id ''a'' = Inr ()"
  "validate_identity l sample_id = Inr ()"
  by (simp_all add: validate_record_def validate_attempt_id_def validate_identity_def identity_ok_def
      validate_phase_def sample_pending_def sample_attached_def sample_stopping_def sample_id_def
      attached_record_def stopping_record_def str_simps printable_def)

lemma sample_load:
  "validate_record r = Inr () \<Longrightarrow> journal_load (table_codec [r]) ''p'' (Regular []) = Inr (Present r)"
  by (simp add: journal_load_def read_unlocked_def io_fine_def table_codec_def decode_journal_def
      from_stored_to_stored)

lemma sample_attach:
  "upgrade_attached_exact (table_codec [sample_attached]) io_fine ''p'' ''a'' sample_id sample_id (Regular []) =
     (Regular [], Inr ())"
proof -
  have "read_unlocked (table_codec [sample_attached]) io_fine ''p'' (Regular []) = Inr (Present sample_attached)"
    using sample_load [OF sample_valid(2)] by (simp add: read_unlocked_fine)
  then show ?thesis
    by (simp add: upgrade_attached_exact_def sample_valid with_journal_def io_fine_def
        sample_attached_def)
qed

text \<open>Only \<open>create_pending_exact\<close> makes a record where there was none, and it makes the one it is given.\<close>

lemma missing_kept:
  assumes "journal_load c path n = Inr Missing"
  shows "fst (upgrade_attached_exact c i path a b x n) = n"
    and "fst (fence_pending_stop_exact c i path a b n) = n"
    and "fst (rebind_attached_exact c i path a b x y n) = n"
    and "fst (delete_exact c i path a e n) = n"
    and "fst (delete_pending_exact c i path a n) = n"
proof -
  have m: "fst (with_journal c i path n f) = n" if "fst (f Missing) = n" for f :: "journal_read \<Rightarrow> node \<times> 'b presult"
    using that assms by (cases rule: with_journal_cases [of c i path n f]) auto
  show "fst (upgrade_attached_exact c i path a b x n) = n"
    and "fst (fence_pending_stop_exact c i path a b n) = n"
    and "fst (rebind_attached_exact c i path a b x y n) = n"
    and "fst (delete_exact c i path a e n) = n"
    and "fst (delete_pending_exact c i path a n) = n"
    by (auto simp: upgrade_attached_exact_def fence_pending_stop_exact_def rebind_attached_exact_def
        delete_exact_def delete_pending_exact_def intro!: m split: sum.splits)
qed

lemma create_cases:
  assumes "storable c r"
  obtains "fst (create_pending_exact c i path r n) = n"
    | "journal_load c path n = Inr Missing"
      "journal_load c path (fst (create_pending_exact c i path r n)) = Inr (Present r)"
proof -
  have "fst (create_pending_exact c i path r n) = n \<or> journal_load c path n = Inr Missing \<and>
      journal_load c path (fst (create_pending_exact c i path r n)) = Inr (Present r)"
  proof -
    have "fst (with_journal c i path n f) = n \<or> journal_load c path n = Inr Missing \<and>
        journal_load c path (fst (with_journal c i path n f)) = Inr (Present r)"
      if "f Missing = write_unlocked c i path r n" "\<And>q. fst (f (Present q)) = n" for f
    proof (cases rule: with_journal_cases [of c i path n f])
      case (ran j)
      then show ?thesis
        using that journal_file.save_atomic [OF assms, where i = i and n = n and path = path]
        by (cases j) auto
    qed simp
    then show ?thesis by (auto simp: create_pending_exact_def split: sum.splits)
  qed
  then show ?thesis using that by blast
qed

lemma create_success:
  assumes st: "storable c r" and ok: "create_pending_exact c i path r n = (n', Inr ())"
  shows "journal_load c path n' = Inr (Present r)"
proof -
  define f where "f = (\<lambda>j. case j of
         Missing \<Rightarrow> write_unlocked c i path r n
       | Present current \<Rightarrow>
           if current = r then (n, Inr ())
           else (n, Inl (journal_error (''create conflict: existing attempt ''
                  @ quoted (oj_attempt_id current) @ '' is not the requested attempt ''
                  @ quoted (oj_attempt_id r)))))"
  have "with_journal c i path n f = (n', Inr ())"
    using ok unfolding create_pending_exact_def f_def [symmetric] by (simp split: sum.splits if_splits)
  then obtain j where j: "journal_load c path n = Inr j" "f j = (n', Inr ())"
    by (cases rule: with_journal_cases [of c i path n f]) simp_all
  show ?thesis
  proof (cases j)
    case Missing
    then show ?thesis
      using j journal_file.save_ok [OF st, where i = i and n = n and path = path] by (simp add: f_def)
  next
    case (Present q)
    then show ?thesis using j by (simp add: f_def split: if_splits)
  qed
qed

lemma rebind_success:
  assumes "storable c (attached_record attempt issuer y)"
    and "rebind_attached_exact c i path attempt issuer x y n = (n', Inr ())"
  shows "journal_load c path n' = Inr (Present (attached_record attempt issuer y))"
proof -
  obtain r where r: "journal_load c path n = Inr (Present r)" "oj_attempt_id r = attempt"
      "oj_issuer r = issuer" "oj_phase r = Attached"
    and res: "write_unlocked c i path (attached_record attempt issuer y) n = (n', Inr ()) \<or>
      oj_extension r = Some y \<and> n' = n"
    using assms(2) unfolding rebind_attached_exact_def
    by (auto simp: attached_record_update with_journal_def split: sum.splits lock_result.splits
        journal_read.splits if_splits option.splits dest: read_unlocked_load)
  from res show ?thesis
  proof
    assume "write_unlocked c i path (attached_record attempt issuer y) n = (n', Inr ())"
    then show ?thesis
      using journal_file.save_ok [OF assms(1), where i = i and n = n and path = path] by simp
  next
    assume "oj_extension r = Some y \<and> n' = n"
    then show ?thesis using r by (cases r) (simp add: attached_record_def)
  qed
qed

subsection \<open>Further facts\<close>

text \<open>
  Retrying an attach that succeeded succeeds again without writing: the operation is idempotent
  for the same attempt, issuer and extension.
\<close>

lemma journal_attach_retry:
  assumes "storable c (attached_record attempt issuer x)"
    and "upgrade_attached_exact c i path attempt issuer x n = (n', Inr ())"
  shows "upgrade_attached_exact c io_fine path attempt issuer x n' = (n', Inr ())"
  using assms by (rule upgrade_retry)

text \<open>
  The journal writer has no size limit while the reader refuses more than 16 KiB: a valid pending
  record whose encoding is longer is created with success and every later read of it fails.
\<close>

lemma journal_oversized_record:
  assumes "validate_record r = Inr u" "oj_phase r = Pending" "encode c (to_stored r) = Inr bytes"
    and "MAX_PLATFORM_VPN_OWNER_JOURNAL_BYTES < length bytes"
  shows "create_pending_exact c io_fine path r Absent = (Regular bytes, Inr ()) \<and>
     (\<exists>e. journal_load c path (Regular bytes) = Inl e)"
  using assms by (rule oversized_record_unreadable)

text \<open>
  Attaching and fencing exclude each other: attach succeeds only with the record naming exactly
  that extension, a fence succeeds only with the stopping record, and after an attach no fence of
  anyone succeeds or changes the file.
\<close>

lemma journal_attach_or_fence:
  assumes "storable c (attached_record attempt issuer x)"
    and "upgrade_attached_exact c i path attempt issuer x n = (n', Inr ())"
  shows "journal_load c path n' = Inr (Present (attached_record attempt issuer x)) \<and>
     fst (fence_pending_stop_exact c i' path attempt' issuer' n') = n' \<and>
     snd (fence_pending_stop_exact c i' path attempt' issuer' n') \<noteq> Inr True"
proof -
  have load: "journal_load c path n' = Inr (Present (attached_record attempt issuer x))"
    using assms by (rule upgrade_success)
  then show ?thesis using fence_after_attach [OF load] by (metis prod.collapse)
qed

subsection \<open>Properties\<close>



text \<open>
  C25. Once a stop has been fenced into the journal the record stays the stopping tombstone until
  it is deleted: no create, attach, rebind or repeated fence of any process replaces it.
\<close>

theorem journal_stop_is_final:
  assumes "journal_step c path n n'" "journal_load c path n = Inr (Present r)" "oj_phase r = Stopping"
  shows "journal_load c path n' \<in> {Inr (Present r), Inr Missing}"
  using assms by (rule journal_step_stopping)

theorem journal_stop_is_final_witness:
  "journal_load (table_codec [sample_stopping]) ''p''
     (fst (upgrade_attached_exact (table_codec [sample_stopping]) io_fine ''p'' ''a'' sample_id sample_id (Regular [])))
    \<in> {Inr (Present sample_stopping), Inr Missing}"
proof (rule journal_stop_is_final)
  show "journal_step (table_codec [sample_stopping]) ''p'' (Regular [])
      (fst (upgrade_attached_exact (table_codec [sample_stopping]) io_fine ''p'' ''a'' sample_id sample_id (Regular [])))"
    by (rule journal_step.upgrade) (simp add: table_codec_storable)
qed (rule sample_load [OF sample_valid(3)], simp add: sample_stopping_def)

end
