(* ===== verification/OwnerLease.thy ===== *)
theory OwnerLease
  imports OwnerJournal
begin

text \<open>
  The owner lease of \<open>crates/paws_core/src/platform_owner.rs\<close>: an exclusive \<open>flock\<close> on one fixed
  file whose content names the holder. The state is the file's content and the descriptor that holds
  its lock; taking the lease is a sequence of system calls (lock, truncate, write, sync), which other
  processes can see one by one, so the calls are definitions of their own and
  \<open>acquire_owner_lease_exact\<close> is their composition. As in the journal, each call may fail and the JSON
  codec is a parameter.
\<close>

datatype lease_role = Issuer | Extension

record lease_record =
  lr_attempt_id :: string
  lr_identity :: process_identity
  lr_role :: lease_role

record stored_lease =
  sl_version :: u32
  sl_attempt_id :: string
  sl_identity :: process_identity
  sl_role :: lease_role

datatype lease_observation = HeldExact | HeldOther | Released

definition PLATFORM_VPN_OWNER_LEASE_VERSION :: u32 where "PLATFORM_VPN_OWNER_LEASE_VERSION = 1"
definition MAX_PLATFORM_VPN_OWNER_LEASE_BYTES :: nat where
  "MAX_PLATFORM_VPN_OWNER_LEASE_BYTES = 16 * 1024"

definition lease_error :: "string \<Rightarrow> paws_error" where
  "lease_error message = Core (''invalid platform VPN owner lease: '' @ message)"

definition validate_lease_record :: "lease_record \<Rightarrow> unit presult" where
  "validate_lease_record r =
    (if str_trim (lr_attempt_id r) = [] then Inl (lease_error ''attempt id is empty'')
     else if str_trim (boot_id (lr_identity r)) = [] \<or> pid (lr_identity r) = 0
             \<or> start_time (lr_identity r) = 0 then
       Inl (lease_error ''holder identity must contain a boot id, non-zero PID, and start time'')
     else Inr ())"

definition lease_to_stored :: "lease_record \<Rightarrow> stored_lease" where
  "lease_to_stored r = \<lparr>sl_version = PLATFORM_VPN_OWNER_LEASE_VERSION,
     sl_attempt_id = lr_attempt_id r, sl_identity = lr_identity r, sl_role = lr_role r\<rparr>"

definition lease_from_stored :: "stored_lease \<Rightarrow> lease_record presult" where
  "lease_from_stored s =
    (if sl_version s \<noteq> PLATFORM_VPN_OWNER_LEASE_VERSION then
       Inl (lease_error (''unsupported version '' @ decimal (unat (sl_version s))))
     else let r = \<lparr>lr_attempt_id = sl_attempt_id s, lr_identity = sl_identity s,
                   lr_role = sl_role s\<rparr> in
       rbind (validate_lease_record r) (\<lambda>_. Inr r))"

subsection \<open>The file and its lock\<close>

record lease_codec =
  lease_encode :: "stored_lease \<Rightarrow> string + byte list"
  lease_decode :: "byte list \<Rightarrow> string + stored_lease"

text \<open>\<open>lf_holder\<close> is the open file description that holds the lock.\<close>

record lease_file =
  lf_node :: node
  lf_holder :: "nat option"

record lease_io =
  li_mkdir :: "string option"
  li_inspect :: "string option"
  li_open :: "string option"
  li_lock :: "string option"
  li_seek :: "string option"
  li_truncate :: "string option"
  li_write :: "(nat \<times> string) option"
  li_sync :: "string option"
  li_parent :: "string option"
  li_read :: "string option"

definition lease_io_fine :: lease_io where
  "lease_io_fine = \<lparr>li_mkdir = None, li_inspect = None, li_open = None, li_lock = None,
     li_seek = None, li_truncate = None, li_write = None, li_sync = None, li_parent = None,
     li_read = None\<rparr>"

definition open_owner_lease :: "lease_io \<Rightarrow> string \<Rightarrow> bool \<Rightarrow> lease_file \<Rightarrow> lease_file presult" where
  "open_owner_lease i path create f =
    rbind (if create then try_io (li_mkdir i) ''create platform VPN owner lease directory'' path
           else Inr ()) (\<lambda>_.
    rbind (try_io (li_inspect i) ''inspect platform VPN owner lease'' path) (\<lambda>_.
    rbind (case lf_node f of
        Special \<Rightarrow> Inl (lease_error (''path '' @ quoted path @ '' is not a regular file''))
      | Regular _ \<Rightarrow> Inr f
      | Absent \<Rightarrow> if create then Inr (f\<lparr>lf_node := Regular []\<rparr>)
          else Inl (io_error ''inspect platform VPN owner lease'' path
                      ''No such file or directory (os error 2)'')) (\<lambda>f'.
    rbind (try_io (li_open i) ''open platform VPN owner lease'' path) (\<lambda>_. Inr f'))))"

definition try_lock_owner_lease :: "lease_io \<Rightarrow> string \<Rightarrow> nat \<Rightarrow> lease_file \<Rightarrow> (lease_file \<times> bool) presult" where
  "try_lock_owner_lease i path fd f =
    rbind (try_io (li_lock i) ''lock platform VPN owner lease'' path) (\<lambda>_.
      case lf_holder f of
        None \<Rightarrow> Inr (f\<lparr>lf_holder := Some fd\<rparr>, True)
      | Some _ \<Rightarrow> Inr (f, False))"

text \<open>\<open>Drop for PlatformVpnOwnerLease\<close>: unlock the descriptor; the file stays.\<close>

definition drop_lease :: "nat \<Rightarrow> lease_file \<Rightarrow> lease_file" where
  "drop_lease fd f = (if lf_holder f = Some fd then f\<lparr>lf_holder := None\<rparr> else f)"

definition write_owner_lease_record ::
  "lease_codec \<Rightarrow> lease_io \<Rightarrow> string \<Rightarrow> lease_record \<Rightarrow> lease_file \<Rightarrow> lease_file \<times> unit presult" where
  "write_owner_lease_record c i path r f =
    (case lease_encode c (lease_to_stored r) of
       Inl e \<Rightarrow> (f, Inl (lease_error (''serialize file '' @ quoted path @ '': '' @ e)))
     | Inr bytes \<Rightarrow>
     if MAX_PLATFORM_VPN_OWNER_LEASE_BYTES < length bytes then
       (f, Inl (lease_error (''serialized file '' @ quoted path @ '' is too large (''
              @ decimal (length bytes) @ '' bytes)'')))
     else case rbind (try_io (li_seek i) ''seek platform VPN owner lease'' path) (\<lambda>_.
                try_io (li_truncate i) ''truncate platform VPN owner lease'' path) of
       Inl e \<Rightarrow> (f, Inl e)
     | Inr _ \<Rightarrow>
     case li_write i of
       Some (k, e) \<Rightarrow> (f\<lparr>lf_node := Regular (take k bytes)\<rparr>,
                        Inl (io_error ''write platform VPN owner lease'' path e))
     | None \<Rightarrow> (f\<lparr>lf_node := Regular bytes\<rparr>,
         rbind (try_io (li_sync i) ''sync platform VPN owner lease'' path) (\<lambda>_.
           try_io (li_parent i) ''sync platform VPN journal directory'' path)))"

definition read_owner_lease_record ::
  "lease_codec \<Rightarrow> lease_io \<Rightarrow> string \<Rightarrow> lease_file \<Rightarrow> lease_record option presult" where
  "read_owner_lease_record c i path f =
    rbind (try_io (li_seek i) ''seek platform VPN owner lease'' path) (\<lambda>_.
    rbind (try_io (li_read i) ''read platform VPN owner lease'' path) (\<lambda>_.
      case lf_node f of
        Regular bytes \<Rightarrow>
          if MAX_PLATFORM_VPN_OWNER_LEASE_BYTES < length bytes then Inr None
          else (case lease_decode c bytes of
              Inl _ \<Rightarrow> Inr None
            | Inr stored \<Rightarrow>
                (case lease_from_stored stored of Inl _ \<Rightarrow> Inr None | Inr r \<Rightarrow> Inr (Some r)))
      | _ \<Rightarrow> Inr None))"

subsection \<open>The operations\<close>

definition acquire_owner_lease_exact ::
  "lease_codec \<Rightarrow> lease_io \<Rightarrow> string \<Rightarrow> nat \<Rightarrow> lease_record \<Rightarrow> lease_file \<Rightarrow> lease_file \<times> nat presult" where
  "acquire_owner_lease_exact c i path fd r f =
    (case validate_lease_record r of Inl e \<Rightarrow> (f, Inl e) | Inr _ \<Rightarrow>
     case open_owner_lease i path True f of Inl e \<Rightarrow> (f, Inl e) | Inr f \<Rightarrow>
     case try_lock_owner_lease i path fd f of
       Inl e \<Rightarrow> (f, Inl e)
     | Inr (f, False) \<Rightarrow>
         (f, Inl (lease_error (''busy: lease '' @ quoted path @ '' is held by another owner'')))
     | Inr (f, True) \<Rightarrow>
         (case write_owner_lease_record c i path r f of
            (f, Inl e) \<Rightarrow> (drop_lease fd f, Inl e)
          | (f, Inr _) \<Rightarrow> (f, Inr fd)))"

definition observe_owner_lease_exact ::
  "lease_codec \<Rightarrow> lease_io \<Rightarrow> string \<Rightarrow> nat \<Rightarrow> lease_record \<Rightarrow> lease_file \<Rightarrow>
   lease_file \<times> lease_observation presult" where
  "observe_owner_lease_exact c i path fd expected f =
    (case validate_lease_record expected of Inl e \<Rightarrow> (f, Inl e) | Inr _ \<Rightarrow>
     case open_owner_lease i path False f of Inl e \<Rightarrow> (f, Inl e) | Inr f \<Rightarrow>
     case try_lock_owner_lease i path fd f of
       Inl e \<Rightarrow> (f, Inl e)
     | Inr (f, True) \<Rightarrow> (drop_lease fd f, Inr Released)
     | Inr (f, False) \<Rightarrow>
         (f, rbind (read_owner_lease_record c i path f) (\<lambda>observed.
              Inr (if observed = Some expected then HeldExact else HeldOther))))"

definition lock_released_owner_lease ::
  "lease_io \<Rightarrow> string \<Rightarrow> nat \<Rightarrow> lease_file \<Rightarrow> lease_file \<times> nat option presult" where
  "lock_released_owner_lease i path fd f =
    (case open_owner_lease i path False f of Inl e \<Rightarrow> (f, Inl e) | Inr f \<Rightarrow>
     case try_lock_owner_lease i path fd f of
       Inl e \<Rightarrow> (f, Inl e)
     | Inr (f, True) \<Rightarrow> (f, Inr (Some fd))
     | Inr (f, False) \<Rightarrow> (f, Inr None))"

subsection \<open>Exclusion and observation\<close>

lemma open_keeps_holder: "open_owner_lease i path create f = Inr f' \<Longrightarrow> lf_holder f' = lf_holder f"
  by (auto simp: open_owner_lease_def rbind_Inr split: node.splits if_splits)

lemma open_existing: "open_owner_lease i path False f = Inr f' \<Longrightarrow> f' = f"
  by (auto simp: open_owner_lease_def rbind_Inr split: node.splits if_splits)

lemma write_keeps_holder: "lf_holder (fst (write_owner_lease_record c i path r f)) = lf_holder f"
  by (auto simp: write_owner_lease_record_def split: sum.splits option.splits)

lemma lock_True:
  "try_lock_owner_lease i path fd f = Inr (f', True) \<longleftrightarrow>
     li_lock i = None \<and> lf_holder f = None \<and> f' = f\<lparr>lf_holder := Some fd\<rparr>"
  by (auto simp: try_lock_owner_lease_def rbind_Inr try_io_Inr split: option.splits)

lemma lock_False:
  "try_lock_owner_lease i path fd f = Inr (f', False) \<longleftrightarrow>
     li_lock i = None \<and> lf_holder f \<noteq> None \<and> f' = f"
  by (auto simp: try_lock_owner_lease_def rbind_Inr try_io_Inr split: option.splits)

text \<open>What can be relied on of the codec for a record: it is read back, and no proper prefix is.\<close>

definition lease_storable :: "lease_codec \<Rightarrow> lease_record \<Rightarrow> bool" where
  "lease_storable c r = (case lease_encode c (lease_to_stored r) of
     Inl _ \<Rightarrow> True | Inr bytes \<Rightarrow> lease_decode c bytes = Inr (lease_to_stored r))"

lemma lease_from_stored_to_stored:
  "validate_lease_record r = Inr u \<Longrightarrow> lease_from_stored (lease_to_stored r) = Inr r"
  by (cases r) (simp add: lease_from_stored_def lease_to_stored_def)

lemma acquire_Inr:
  assumes "acquire_owner_lease_exact c i path fd r f = (f', Inr fd')"
  shows "lf_holder f = None \<and> lf_holder f' = Some fd \<and> fd' = fd \<and> validate_lease_record r = Inr () \<and>
    (\<exists>bytes. lease_encode c (lease_to_stored r) = Inr bytes \<and> lf_node f' = Regular bytes \<and>
       length bytes \<le> MAX_PLATFORM_VPN_OWNER_LEASE_BYTES)"
proof -
  have v1: "validate_lease_record r = Inr ()"
    using assms by (cases "validate_lease_record r") (simp_all add: acquire_owner_lease_exact_def)
  then obtain f1 where v2: "open_owner_lease i path True f = Inr f1"
    using assms by (cases "open_owner_lease i path True f") (simp_all add: acquire_owner_lease_exact_def)
  with v1 obtain f2 where v3: "try_lock_owner_lease i path fd f1 = Inr (f2, True)"
    using assms by (cases "try_lock_owner_lease i path fd f1")
      (auto simp: acquire_owner_lease_exact_def split: bool.splits)
  with v1 v2 have "write_owner_lease_record c i path r f2 = (f', Inr ()) \<and> fd' = fd"
    using assms by (cases "write_owner_lease_record c i path r f2")
      (auto simp: acquire_owner_lease_exact_def split: sum.splits)
  with v1 v2 v3 have v: "validate_lease_record r = Inr ()" "open_owner_lease i path True f = Inr f1"
      "try_lock_owner_lease i path fd f1 = Inr (f2, True)"
      "write_owner_lease_record c i path r f2 = (f', Inr ())" "fd' = fd" by simp_all
  have "lf_holder f1 = lf_holder f" using v(2) by (rule open_keeps_holder)
  moreover have "lf_holder f' = lf_holder f2" using write_keeps_holder [of c i path r f2] v(4) by simp
  moreover have "\<exists>bytes. lease_encode c (lease_to_stored r) = Inr bytes \<and> lf_node f' = Regular bytes \<and>
       length bytes \<le> MAX_PLATFORM_VPN_OWNER_LEASE_BYTES"
    using v(4) by (auto simp: write_owner_lease_record_def split: sum.splits option.splits if_splits)
  ultimately show ?thesis using v by (simp add: lock_True)
qed

lemma acquire_busy:
  assumes "lf_holder f = Some other"
  shows "\<exists>e. snd (acquire_owner_lease_exact c i path fd r f) = Inl e \<and>
     lf_holder (fst (acquire_owner_lease_exact c i path fd r f)) = Some other"
proof -
  show ?thesis
  proof (cases "validate_lease_record r")
    case (Inl e)
    then show ?thesis using assms by (simp add: acquire_owner_lease_exact_def)
  next
    case valid: (Inr u)
    show ?thesis
    proof (cases "open_owner_lease i path True f")
      case (Inl e)
      then show ?thesis using assms valid by (simp add: acquire_owner_lease_exact_def)
    next
      case (Inr f1)
      then have "lf_holder f1 = Some other" using open_keeps_holder assms by fastforce
      then show ?thesis
        using Inr valid assms
        by (cases "li_lock i") (simp_all add: acquire_owner_lease_exact_def try_lock_owner_lease_def
            try_io_def)
    qed
  qed
qed

lemma observe_file: "fst (observe_owner_lease_exact c i path fd expected f) = f"
proof -
  have "drop_lease fd (f\<lparr>lf_holder := Some fd\<rparr>) = f" if "lf_holder f = None"
    using that by (cases f) (simp add: drop_lease_def)
  then show ?thesis
    by (auto simp: observe_owner_lease_exact_def lock_True lock_False
        split: sum.splits prod.splits bool.splits dest!: open_existing)
qed

lemma observe_HeldExact:
  assumes "snd (observe_owner_lease_exact c i path fd expected f) = Inr HeldExact"
  shows "lf_holder f \<noteq> None \<and> (\<exists>bytes. lf_node f = Regular bytes \<and>
     (\<exists>s. lease_decode c bytes = Inr s \<and> lease_from_stored s = Inr expected))"
  using assms
  by (auto simp: observe_owner_lease_exact_def lock_True lock_False read_owner_lease_record_def
      rbind_Inr split: sum.splits prod.splits bool.splits if_splits node.splits dest!: open_existing)

lemma observe_Released:
  assumes "snd (observe_owner_lease_exact c i path fd expected f) = Inr Released"
  shows "lf_holder f = None"
  using assms
  by (auto simp: observe_owner_lease_exact_def lock_True lock_False rbind_Inr
      split: sum.splits prod.splits bool.splits if_splits dest!: open_existing)

lemma acquire_observe:
  assumes acq: "acquire_owner_lease_exact c i path fd r f = (f', Inr fd')" and "lease_storable c r"
  shows "snd (observe_owner_lease_exact c lease_io_fine path fd2 r f') = Inr HeldExact"
proof -
  obtain bytes where b: "lf_holder f' = Some fd" "validate_lease_record r = Inr ()"
      "lease_encode c (lease_to_stored r) = Inr bytes" "lf_node f' = Regular bytes"
      "length bytes \<le> MAX_PLATFORM_VPN_OWNER_LEASE_BYTES"
    using acquire_Inr [OF acq] by blast
  then show ?thesis
    using assms(2) by (simp add: observe_owner_lease_exact_def open_owner_lease_def
        try_lock_owner_lease_def read_owner_lease_record_def lease_io_fine_def lease_storable_def
        lease_from_stored_to_stored)
qed

text \<open>
  Between the lock and the truncation of a new holder the file still names the previous one: an
  observer that asks for the previous holder at that moment is told that it holds the lease.
\<close>

lemma stale_record_observed:
  assumes acq: "acquire_owner_lease_exact c i path fd old f = (f1, Inr fd')" and "lease_storable c old"
    and "try_lock_owner_lease lease_io_fine path fd2 (drop_lease fd f1) = Inr (f2, True)"
  shows "lf_holder f2 = Some fd2 \<and>
    snd (observe_owner_lease_exact c lease_io_fine path fd3 old f2) = Inr HeldExact"
proof -
  obtain bytes where b: "lf_holder f1 = Some fd" "validate_lease_record old = Inr ()"
      "lease_encode c (lease_to_stored old) = Inr bytes" "lf_node f1 = Regular bytes"
      "length bytes \<le> MAX_PLATFORM_VPN_OWNER_LEASE_BYTES"
    using acquire_Inr [OF acq] by blast
  have "f2 = f1\<lparr>lf_holder := Some fd2\<rparr>"
    using assms(3) b(1) by (simp add: lock_True drop_lease_def)
  then show ?thesis
    using assms(2) b by (simp add: observe_owner_lease_exact_def open_owner_lease_def
        try_lock_owner_lease_def read_owner_lease_record_def lease_io_fine_def lease_storable_def
        lease_from_stored_to_stored)
qed

subsection \<open>A sample lease\<close>

definition sample_lease :: lease_record where
  "sample_lease = \<lparr>lr_attempt_id = ''a'', lr_identity = sample_id, lr_role = Issuer\<rparr>"

definition sample_lease_codec :: lease_codec where
  "sample_lease_codec = \<lparr>lease_encode = (\<lambda>_. Inr [1]), lease_decode = (\<lambda>_. Inr (lease_to_stored sample_lease))\<rparr>"

lemma sample_lease_storable: "lease_storable sample_lease_codec sample_lease"
  by (simp add: lease_storable_def sample_lease_codec_def)

lemma sample_lease_acquire:
  "acquire_owner_lease_exact sample_lease_codec lease_io_fine ''p'' 3 sample_lease
     \<lparr>lf_node = Absent, lf_holder = None\<rparr> = (\<lparr>lf_node = Regular [1], lf_holder = Some 3\<rparr>, Inr 3)"
  by (simp add: acquire_owner_lease_exact_def validate_lease_record_def sample_lease_def sample_id_def
      str_simps printable_def open_owner_lease_def try_lock_owner_lease_def write_owner_lease_record_def
      lease_io_fine_def sample_lease_codec_def MAX_PLATFORM_VPN_OWNER_LEASE_BYTES_def)

subsection \<open>Further facts\<close>

text \<open>
  What an observer is told is true: after a successful acquire it reads HeldExact for that record;
  HeldExact implies that the lock is held and the file decodes to the expected record; Released
  implies that nobody holds the lock.
\<close>

lemma lease_observed:
  assumes "acquire_owner_lease_exact c i path fd r f = (f', Inr fd')" "lease_storable c r"
  shows "snd (observe_owner_lease_exact c lease_io_fine path fd2 r f') = Inr HeldExact \<and>
     (snd (observe_owner_lease_exact c i2 path2 fd3 expected g) = Inr HeldExact \<longrightarrow> lf_holder g \<noteq> None \<and>
        (\<exists>bytes s. lf_node g = Regular bytes \<and> lease_decode c bytes = Inr s \<and> lease_from_stored s = Inr expected)) \<and>
     (snd (observe_owner_lease_exact c i2 path2 fd3 expected g) = Inr Released \<longrightarrow> lf_holder g = None)"
  using acquire_observe [OF assms] observe_HeldExact [of c i2 path2 fd3 expected g]
    observe_Released [of c i2 path2 fd3 expected g] by blast

text \<open>
  Between a new holder's lock and its truncation the lease file still names the previous holder,
  so an observer asking for the previous holder is then told that it holds the lease, which the
  comment on the observation rules out.
\<close>

lemma lease_stale_record:
  assumes "acquire_owner_lease_exact c i path fd old f = (f1, Inr fd')" "lease_storable c old"
    and "try_lock_owner_lease lease_io_fine path fd2 (drop_lease fd f1) = Inr (f2, True)"
  shows "lf_holder f2 = Some fd2 \<and>
    snd (observe_owner_lease_exact c lease_io_fine path fd3 old f2) = Inr HeldExact"
  using assms by (rule stale_record_observed)

subsection \<open>Properties\<close>

text \<open>
  C7. The owner lease is exclusive: it is acquired only when nobody holds the lock, an acquire
  while another descriptor holds it fails and leaves that holder in place, and observing never
  changes the file or its holder.
\<close>

theorem lease_exclusive:
  "(acquire_owner_lease_exact c i path fd r f = (f', Inr fd') \<longrightarrow>
      lf_holder f = None \<and> lf_holder f' = Some fd \<and> fd' = fd) \<and>
   (lf_holder f = Some other \<longrightarrow> (\<exists>e. snd (acquire_owner_lease_exact c i path fd r f) = Inl e) \<and>
      lf_holder (fst (acquire_owner_lease_exact c i path fd r f)) = Some other) \<and>
   fst (observe_owner_lease_exact c i path fd expected f) = f"
  using acquire_Inr [of c i path fd r f f' fd'] acquire_busy [of f other c i path fd r]
    observe_file [of c i path fd expected f] by blast

theorem lease_exclusive_witness:
  "\<exists>e. snd (acquire_owner_lease_exact sample_lease_codec lease_io_fine ''p'' 4 sample_lease \<lparr>lf_node = Regular [], lf_holder = Some 3\<rparr>) = Inl e"
  using lease_exclusive [of sample_lease_codec lease_io_fine "''p''" 4 sample_lease "\<lparr>lf_node = Regular [], lf_holder = Some 3\<rparr>" _ _ 3] by simp

end
