(* ===== verification/CoreActs.thy ===== *)
theory CoreActs
  imports TunSession OwnerLease
begin

text \<open>
  What the platform VPN operations of \<open>crates/paws_core/src/lib.rs\<close> work on. \<open>vpn_core\<close> has the
  fields of \<open>CoreState\<close> that belong to the platform VPN; a process also sees the owner journal, the
  two owner leases, the frame it publishes and the frame of its peer (\<open>vpn_world\<close>). An operation runs
  under the mutex of the state and is an \<open>act\<close>: a function from the world to the world and a result.
  The clocks, the identity of the process, the faults of the system calls and the native session are
  the environment \<open>vpn_env\<close>; calls that an operation makes more than once are told apart by a number.
  Log lines and the watch channels that wake other tasks are left out.
\<close>

subsection \<open>The state\<close>

datatype start_outcome = OutIdle | OutPending | OutConnected | OutFailed | OutCancelled

definition terminal :: "start_outcome \<Rightarrow> bool" where
  "terminal r \<longleftrightarrow> r \<in> {OutFailed, OutCancelled}"

lemma terminal_simps [simp]:
  "terminal OutFailed" "terminal OutCancelled" "\<not> terminal OutIdle" "\<not> terminal OutPending"
  "\<not> terminal OutConnected"
  by (simp_all add: terminal_def)

record http_endpoint =
  he_port :: u16
  he_token :: string

record platform_state =
  rs_attempt :: string
  rs_outcome :: start_outcome
  rs_delivery :: bool
  rs_attached :: bool
  rs_stop_requested :: bool
  rs_owner_pid :: u32
  rs_owner_start :: u64
  rs_cleanup_complete :: bool
  rs_starting :: bool
  rs_running :: bool
  rs_protected :: bool
  rs_protect_error :: "string option"
  rs_engine :: "vpn_engine option"
  rs_proxy :: "http_endpoint option"
  rs_updated :: nat

record vpn_core =
  vc_root :: string
  vc_revision :: nat
  vc_status_revision :: nat
  vc_starting :: bool
  vc_running :: bool
  vc_engine :: "vpn_engine option"
  vc_intent_epoch :: nat
  vc_os_stop_epoch :: nat
  vc_os_stop_attempt :: string
  vc_os_stop_in_flight :: bool
  vc_issuer_lease :: "nat option"
  vc_extension_lease :: "nat option"
  vc_sequence :: nat
  vc_attempt :: string
  vc_outcome :: start_outcome
  vc_delivery :: bool
  vc_attached :: bool
  vc_stop_requested :: bool
  vc_owner_pid :: u32
  vc_owner_start :: u64
  vc_cleanup_complete :: bool
  vc_protected :: bool
  vc_protect_error :: "string option"
  vc_proxy :: "http_endpoint option"
  vc_updated :: nat
  vc_remote_updated :: nat
  vc_remote_seen :: "nat option"
  vc_remote_stale :: "nat option"
  vc_watchdog_recoverable :: bool
  vc_auto_pending :: bool
  vc_auto_attempt :: string
  vc_auto_attempts :: nat
  vc_auto_not_before :: "nat option"
  vc_exit_revision :: u64

definition vpn_core_default :: "string \<Rightarrow> vpn_core" where
  "vpn_core_default root = \<lparr>vc_root = root, vc_revision = 1, vc_status_revision = 1, vc_starting = False,
     vc_running = False, vc_engine = None, vc_intent_epoch = 0, vc_os_stop_epoch = 0,
     vc_os_stop_attempt = [], vc_os_stop_in_flight = False, vc_issuer_lease = None,
     vc_extension_lease = None, vc_sequence = 0, vc_attempt = [], vc_outcome = OutIdle,
     vc_delivery = False, vc_attached = False, vc_stop_requested = False, vc_owner_pid = 0,
     vc_owner_start = 0, vc_cleanup_complete = False, vc_protected = False, vc_protect_error = None,
     vc_proxy = None, vc_updated = 0, vc_remote_updated = 0, vc_remote_seen = None,
     vc_remote_stale = None, vc_watchdog_recoverable = False, vc_auto_pending = False,
     vc_auto_attempt = [], vc_auto_attempts = 0, vc_auto_not_before = None, vc_exit_revision = 0\<rparr>"

record vpn_world =
  vw_core :: vpn_core
  vw_journal :: node
  vw_issuer :: lease_file
  vw_extension :: lease_file
  vw_out :: "platform_state option"
  vw_in :: "platform_state option"

text \<open>
  \<open>ev_ipc\<close>: no shared memory, or the end of it that this process has, \<open>True\<close> for the UI; an error when
  its mutex is poisoned. A fault of \<open>ev_read\<close> or \<open>ev_publish\<close> is the failure of that access.
\<close>

record vpn_env =
  ev_codec :: codec
  ev_lease_codec :: lease_codec
  ev_io :: "nat \<Rightarrow> io"
  ev_lease_io :: "nat \<Rightarrow> lease_io"
  ev_fd :: "nat \<Rightarrow> nat"
  ev_nanos :: "nat \<Rightarrow> nat"
  ev_now :: nat
  ev_identity :: "process_identity presult"
  ev_ipc :: "paws_error + bool option"
  ev_read :: "nat \<Rightarrow> string option"
  ev_publish :: "nat \<Rightarrow> paws_error option"
  ev_session :: session
  ev_active_profile :: bool
  ev_lifecycle_active :: bool
  ev_options :: string

subsection \<open>Acts\<close>

type_synonym 'a act = "vpn_world \<Rightarrow> vpn_world \<times> 'a presult"

definition done_with :: "'a \<Rightarrow> 'a act" where "done_with a w = (w, Inr a)"

definition give_up :: "paws_error \<Rightarrow> 'a act" where "give_up e w = (w, Inl e)"

definition lift_result :: "'a presult \<Rightarrow> 'a act" where "lift_result r w = (w, r)"

definition and_then :: "'a act \<Rightarrow> ('a \<Rightarrow> 'b act) \<Rightarrow> 'b act" where
  "and_then m f w = (case m w of (w, Inl e) \<Rightarrow> (w, Inl e) | (w, Inr a) \<Rightarrow> f a w)"

definition with_core :: "(vpn_core \<Rightarrow> 'a act) \<Rightarrow> 'a act" where
  "with_core f w = f (vw_core w) w"

definition update_core :: "(vpn_core \<Rightarrow> vpn_core) \<Rightarrow> 'a act \<Rightarrow> 'a act" where
  "update_core g m w = m (w\<lparr>vw_core := g (vw_core w)\<rparr>)"

definition on_journal :: "(node \<Rightarrow> node \<times> 'a presult) \<Rightarrow> 'a act" where
  "on_journal f w = (let (n, r) = f (vw_journal w) in (w\<lparr>vw_journal := n\<rparr>, r))"

definition on_issuer :: "(lease_file \<Rightarrow> lease_file \<times> 'a presult) \<Rightarrow> 'a act" where
  "on_issuer f w = (let (l, r) = f (vw_issuer w) in (w\<lparr>vw_issuer := l\<rparr>, r))"

definition on_extension :: "(lease_file \<Rightarrow> lease_file \<times> 'a presult) \<Rightarrow> 'a act" where
  "on_extension f w = (let (l, r) = f (vw_extension w) in (w\<lparr>vw_extension := l\<rparr>, r))"

text \<open>Assigning a lease slot drops the lease that was in it.\<close>

definition drop_slot :: "nat option \<Rightarrow> lease_file \<Rightarrow> lease_file" where
  "drop_slot slot l = (case slot of None \<Rightarrow> l | Some fd \<Rightarrow> drop_lease fd l)"

definition set_issuer :: "nat option \<Rightarrow> vpn_world \<Rightarrow> vpn_world" where
  "set_issuer slot w = w\<lparr>vw_issuer := drop_slot (vc_issuer_lease (vw_core w)) (vw_issuer w),
     vw_core := (vw_core w)\<lparr>vc_issuer_lease := slot\<rparr>\<rparr>"

definition set_extension :: "nat option \<Rightarrow> vpn_world \<Rightarrow> vpn_world" where
  "set_extension slot w = w\<lparr>vw_extension := drop_slot (vc_extension_lease (vw_core w)) (vw_extension w),
     vw_core := (vw_core w)\<lparr>vc_extension_lease := slot\<rparr>\<rparr>"

definition release_leases :: "vpn_world \<Rightarrow> vpn_world" where
  "release_leases w = set_extension None (set_issuer None w)"

text \<open>A lease held by a local variable is dropped when the operation returns early.\<close>

definition dropping_issuer :: "nat \<Rightarrow> 'a act \<Rightarrow> 'a act" where
  "dropping_issuer fd m w = (case m w of
     (w, Inl e) \<Rightarrow> (w\<lparr>vw_issuer := drop_lease fd (vw_issuer w)\<rparr>, Inl e) | done \<Rightarrow> done)"

definition dropping_extension :: "nat \<Rightarrow> 'a act \<Rightarrow> 'a act" where
  "dropping_extension fd m w = (case m w of
     (w, Inl e) \<Rightarrow> (w\<lparr>vw_extension := drop_lease fd (vw_extension w)\<rparr>, Inl e) | done \<Rightarrow> done)"

definition changing :: "(vpn_world \<Rightarrow> vpn_world) \<Rightarrow> 'a act \<Rightarrow> 'a act" where
  "changing g m w = m (g w)"

end
