(* ===== verification/PlatformVpn.thy ===== *)
theory PlatformVpn
  imports CoreActs
begin

text \<open>
  The platform VPN protocol of \<open>crates/paws_core/src/lib.rs\<close>: the intents and the fence of the OS stop,
  the start transaction of the UI process, its binding by the VPN Extension process, what the two
  learn of each other through shared memory, the heartbeat watchdog, stop claims, cleanup and its
  recovery, and the automatic restart. Each public method is an act over the state of its process and
  the files both share; the asynchronous methods are cut at the points where they give up the mutex.
\<close>

subsection \<open>Projections\<close>

definition invalidate_exit_location :: "vpn_core \<Rightarrow> vpn_core" where
  "invalidate_exit_location c = c\<lparr>vc_exit_revision := vc_exit_revision c + 1\<rparr>"

definition publish_runtime_change :: "vpn_core \<Rightarrow> vpn_core" where
  "publish_runtime_change c = c\<lparr>vc_revision := sat_add64 (vc_revision c) 1,
     vc_status_revision := sat_add64 (vc_status_revision c) 1\<rparr>"

definition platform_vpn_state :: "vpn_core \<Rightarrow> platform_state" where
  "platform_vpn_state c = \<lparr>rs_attempt = vc_attempt c, rs_outcome = vc_outcome c,
     rs_delivery = vc_delivery c, rs_attached = vc_attached c, rs_stop_requested = vc_stop_requested c,
     rs_owner_pid = vc_owner_pid c, rs_owner_start = vc_owner_start c,
     rs_cleanup_complete = vc_cleanup_complete c, rs_starting = vc_starting c, rs_running = vc_running c,
     rs_protected = vc_protected c, rs_protect_error = vc_protect_error c, rs_engine = vc_engine c,
     rs_proxy = (if vc_running c then vc_proxy c else None), rs_updated = vc_updated c\<rparr>"

definition platform_vpn_session_id :: "vpn_core \<Rightarrow> string option" where
  "platform_vpn_session_id c =
    (if vc_running c \<and> vc_outcome c = OutConnected \<and> vc_attempt c \<noteq> [] then Some (vc_attempt c) else None)"

definition platform_session_projection ::
  "vpn_core \<Rightarrow> (string \<times> start_outcome \<times> bool \<times> bool \<times> bool \<times> u32 \<times> u64) \<times>
     (bool \<times> bool \<times> bool \<times> string option \<times> vpn_engine option)" where
  "platform_session_projection c =
    ((vc_attempt c, vc_outcome c, vc_delivery c, vc_attached c, vc_stop_requested c, vc_owner_pid c,
      vc_owner_start c), (vc_starting c, vc_running c, vc_protected c, vc_protect_error c, vc_engine c))"

definition apply_platform_failure :: "string \<Rightarrow> vpn_core \<Rightarrow> vpn_core" where
  "apply_platform_failure err c =
    (let c = (if vc_running c then invalidate_exit_location c else c) in
     c\<lparr>vc_starting := False, vc_running := False, vc_protected := False, vc_protect_error := Some err,
       vc_outcome := OutFailed, vc_remote_stale := None\<rparr>)"

definition platform_start_is_pending :: "string \<Rightarrow> vpn_core \<Rightarrow> bool" where
  "platform_start_is_pending attempt c \<longleftrightarrow>
     attempt \<noteq> [] \<and> vc_attempt c = attempt \<and> vc_outcome c = OutPending"

definition platform_attempt_accepts_updates :: "string \<Rightarrow> vpn_core \<Rightarrow> bool" where
  "platform_attempt_accepts_updates attempt c \<longleftrightarrow>
     attempt \<noteq> [] \<and> vc_attempt c = attempt \<and> vc_attached c \<and> vc_outcome c \<in> {OutPending, OutConnected}"

definition ensure_platform_attempt_active :: "string \<Rightarrow> vpn_core \<Rightarrow> unit presult" where
  "ensure_platform_attempt_active attempt c =
    (if attempt = [] \<or> vc_attempt c \<noteq> attempt then
       Inl (Core (''stale platform VPN operation for attempt '' @ attempt))
     else if \<not> vc_attached c \<or> vc_outcome c \<in> {OutIdle, OutFailed, OutCancelled} then
       Inl (Core (''platform VPN attempt '' @ attempt @ '' is not active''))
     else Inr ())"

definition validate_platform_start_envelope :: "platform_state option \<Rightarrow> string \<Rightarrow> unit presult" where
  "validate_platform_start_envelope envelope attempt =
    (if attempt = [] then Inl (Core ''platform VPN start attempt id is empty'')
     else case envelope of
       None \<Rightarrow> Inl (Core ''platform VPN start has no UI state'')
     | Some remote \<Rightarrow>
         if rs_attempt remote \<noteq> attempt then
           Inl (Core (''stale platform VPN start attempt '' @ attempt @ ''; UI owns '' @ rs_attempt remote))
         else if rs_outcome remote \<notin> {OutPending, OutConnected} then
           Inl (Core (''platform VPN start attempt '' @ attempt @ '' is not active''))
         else Inr ())"

subsection \<open>The heartbeat watchdog\<close>

text \<open>Instants are milliseconds of the monotonic clock.\<close>

definition PLATFORM_HEARTBEAT_STALE_AFTER :: nat where "PLATFORM_HEARTBEAT_STALE_AFTER = 15 * 1000"
definition PLATFORM_HEARTBEAT_WAKE_GRACE :: nat where "PLATFORM_HEARTBEAT_WAKE_GRACE = 6 * 1000"

definition platform_heartbeat_watchdog_expired ::
  "nat \<Rightarrow> bool \<Rightarrow> bool \<Rightarrow> bool \<Rightarrow> bool \<Rightarrow> vpn_core \<Rightarrow> vpn_core \<times> bool" where
  "platform_heartbeat_watchdog_expired now is_ui remote_running attempt_matches remote_advanced c =
    (if is_ui \<and> vc_running c \<and> remote_running \<and> attempt_matches \<and> \<not> remote_advanced
        \<and> (case vc_remote_seen c of None \<Rightarrow> False
            | Some seen \<Rightarrow> PLATFORM_HEARTBEAT_STALE_AFTER \<le> now - seen) then
       (let stale_since = (case vc_remote_stale c of None \<Rightarrow> now | Some t \<Rightarrow> t) in
        (c\<lparr>vc_remote_stale := Some stale_since\<rparr>, PLATFORM_HEARTBEAT_WAKE_GRACE \<le> now - stale_since))
     else if \<not> remote_running \<or> remote_advanced then (c\<lparr>vc_remote_stale := None\<rparr>, False)
     else (c, False))"

definition platform_remote_session_is_live :: "nat \<Rightarrow> vpn_core \<Rightarrow> bool" where
  "platform_remote_session_is_live now c \<longleftrightarrow>
     \<not> (vc_attempt c = [] \<or> \<not> vc_attached c \<or> vc_cleanup_complete c \<or> \<not> vc_running c
        \<or> vc_outcome c \<noteq> OutConnected) \<and>
     (case vc_remote_seen c of None \<Rightarrow> False
      | Some last_seen \<Rightarrow> now - last_seen < PLATFORM_HEARTBEAT_STALE_AFTER \<or>
          (case vc_remote_stale c of None \<Rightarrow> False
           | Some stale_since \<Rightarrow> now - stale_since < PLATFORM_HEARTBEAT_WAKE_GRACE))"

subsection \<open>Publishing and synchronising\<close>

definition stamp_update :: "nat \<Rightarrow> vpn_core \<Rightarrow> vpn_core" where
  "stamp_update nanos c = c\<lparr>vc_updated := max nanos (sat_add128 (vc_updated c) 1)\<rparr>"

definition persist_platform_vpn_state :: "vpn_env \<Rightarrow> nat \<Rightarrow> unit act" where
  "persist_platform_vpn_state e k =
     update_core (\<lambda>c. publish_runtime_change (stamp_update (ev_nanos e k) c)) (\<lambda>w.
       case ev_ipc e of
         Inl err \<Rightarrow> (w, Inl err)
       | Inr None \<Rightarrow> (w, Inr ())
       | Inr (Some _) \<Rightarrow>
           (case ev_publish e k of
              Some err \<Rightarrow> (w, Inl err)
            | None \<Rightarrow> (w\<lparr>vw_out := Some (platform_vpn_state (vw_core w))\<rparr>, Inr ())))"

definition adopt_remote :: "platform_state \<Rightarrow> vpn_core \<Rightarrow> vpn_core" where
  "adopt_remote remote c = c\<lparr>vc_attempt := rs_attempt remote, vc_outcome := rs_outcome remote,
     vc_delivery := rs_delivery remote, vc_attached := rs_attached remote,
     vc_stop_requested := rs_stop_requested remote, vc_owner_pid := rs_owner_pid remote,
     vc_owner_start := rs_owner_start remote, vc_cleanup_complete := rs_cleanup_complete remote\<rparr>"

definition observe_remote :: "nat \<Rightarrow> platform_state \<Rightarrow> vpn_core \<Rightarrow> vpn_core" where
  "observe_remote now remote c =
    (if vc_remote_updated c < rs_updated remote
     then c\<lparr>vc_remote_updated := rs_updated remote, vc_remote_seen := Some now, vc_remote_stale := None\<rparr>
     else c)"

definition arm_auto_recovery :: "bool \<Rightarrow> vpn_core \<Rightarrow> vpn_core" where
  "arm_auto_recovery was_connected c =
    (if was_connected \<and> vc_auto_attempt c \<noteq> vc_attempt c
     then c\<lparr>vc_auto_pending := True, vc_auto_attempt := vc_attempt c, vc_auto_attempts := 0,
            vc_auto_not_before := None\<rparr>
     else c)"

definition was_connected :: "vpn_core \<Rightarrow> bool" where
  "was_connected c \<longleftrightarrow> vc_running c \<and> vc_outcome c = OutConnected \<and> \<not> vc_stop_requested c"

text \<open>The part of \<open>apply_platform_envelope_locked\<close> that takes over the fields of an accepted frame.\<close>

definition merge_lifecycle :: "platform_state \<Rightarrow> vpn_core \<Rightarrow> vpn_core" where
  "merge_lifecycle remote c =
    (if terminal (rs_outcome remote) then
       c\<lparr>vc_outcome := rs_outcome remote, vc_starting := False, vc_running := False,
         vc_cleanup_complete := rs_cleanup_complete remote\<rparr>
     else if \<not> terminal (vc_outcome c) then
       (let c = c\<lparr>vc_running := rs_running remote, vc_starting := \<not> rs_running remote \<and> rs_starting remote,
              vc_cleanup_complete := False\<rparr>;
            c = (if rs_running remote \<and> vc_outcome c = OutPending then c\<lparr>vc_outcome := OutConnected\<rparr> else c)
        in if vc_running c then c\<lparr>vc_auto_pending := False, vc_auto_not_before := None\<rparr> else c)
     else c)"

definition merge_details :: "platform_state \<Rightarrow> bool \<Rightarrow> bool \<Rightarrow> vpn_core \<Rightarrow> vpn_core" where
  "merge_details remote local_terminal was_running c =
    (let remote_terminal = terminal (rs_outcome remote);
         c = (if vc_running c \<noteq> was_running then invalidate_exit_location c else c);
         c = (if remote_terminal then c\<lparr>vc_attached := rs_attached remote\<rparr>
              else if rs_attached remote then c\<lparr>vc_attached := True\<rparr> else c);
         c = (if rs_delivery remote then c\<lparr>vc_delivery := True\<rparr> else c)
     in if remote_terminal \<or> \<not> local_terminal then
          c\<lparr>vc_protected := rs_protected remote, vc_protect_error := rs_protect_error remote,
            vc_engine := (if rs_running remote then rs_engine remote else None),
            vc_proxy := (if rs_running remote then rs_proxy remote else None)\<rparr>
        else c)"

definition merge_remote :: "bool \<Rightarrow> platform_state \<Rightarrow> vpn_core \<Rightarrow> vpn_core" where
  "merge_remote is_ui remote c0 =
    (let c = c0\<lparr>vc_stop_requested := vc_stop_requested c0 \<or> rs_stop_requested remote\<rparr>;
         c = (if is_ui then c\<lparr>vc_owner_pid := rs_owner_pid remote, vc_owner_start := rs_owner_start remote\<rparr>
              else c)
     in merge_details remote (terminal (vc_outcome c)) (vc_running c0) (merge_lifecycle remote c))"

definition release_if_clean :: "vpn_world \<Rightarrow> vpn_world" where
  "release_if_clean w = (if vc_cleanup_complete (vw_core w) then release_leases w else w)"

definition accepts_frame :: "bool \<Rightarrow> string option \<Rightarrow> platform_state \<Rightarrow> vpn_core \<Rightarrow> bool" where
  "accepts_frame is_ui expected remote c \<longleftrightarrow> rs_attempt remote \<noteq> [] \<and>
     (rs_attempt remote = vc_attempt c \<or> \<not> is_ui \<and> expected = Some (rs_attempt remote))"

definition watchdog_failure :: "vpn_core \<Rightarrow> vpn_core" where
  "watchdog_failure c = arm_auto_recovery (was_connected c)
     ((apply_platform_failure ''VPN extension heartbeat stopped'' c)\<lparr>vc_watchdog_recoverable := True\<rparr>)"

definition apply_platform_envelope ::
  "vpn_env \<Rightarrow> nat \<Rightarrow> bool \<Rightarrow> string option \<Rightarrow> platform_state option \<Rightarrow> vpn_world \<Rightarrow> vpn_world" where
  "apply_platform_envelope e k is_ui expected envelope w =
    (case envelope of None \<Rightarrow> w
     | Some remote \<Rightarrow>
       if \<not> accepts_frame is_ui expected remote (vw_core w) then w
       else
         let before = vw_core w;
             adopt = (rs_attempt remote \<noteq> vc_attempt before);
             c = (if adopt then adopt_remote remote before else before);
             remote_advanced = (vc_remote_updated c < rs_updated remote);
             (c, expired) = platform_heartbeat_watchdog_expired (ev_now e) is_ui (rs_running remote) True
               remote_advanced (observe_remote (ev_now e) remote c) in
         if expired then fst (persist_platform_vpn_state e k (w\<lparr>vw_core := watchdog_failure c\<rparr>))
         else if \<not> remote_advanced \<and> \<not> adopt then w\<lparr>vw_core := c\<rparr>
         else
           let w = release_if_clean (w\<lparr>vw_core := merge_remote is_ui remote c\<rparr>) in
           if platform_session_projection (vw_core w) \<noteq> platform_session_projection before
           then w\<lparr>vw_core := publish_runtime_change (vw_core w)\<rparr> else w)"

definition sync_platform_vpn_state :: "vpn_env \<Rightarrow> nat \<Rightarrow> unit act" where
  "sync_platform_vpn_state e k w =
    (case ev_ipc e of
       Inr (Some is_ui) \<Rightarrow>
         (case ev_read e k of
            Some _ \<Rightarrow> (w, Inr ())
          | None \<Rightarrow> (apply_platform_envelope e k is_ui None (vw_in w) w, Inr ()))
     | _ \<Rightarrow> (w, Inr ()))"

definition sync_platform_for_binding :: "vpn_env \<Rightarrow> nat \<Rightarrow> string \<Rightarrow> unit act" where
  "sync_platform_for_binding e k attempt w =
    (case ev_ipc e of
       Inl err \<Rightarrow> (w, Inl err)
     | Inr None \<Rightarrow> (w, Inr ())
     | Inr (Some True) \<Rightarrow>
         (w, Inl (Core ''platform VPN start binding is only valid in the Extension''))
     | Inr (Some False) \<Rightarrow>
         (case ev_read e k of
            Some err \<Rightarrow> (w, Inl (Core err))
          | None \<Rightarrow>
              (case validate_platform_start_envelope (vw_in w) attempt of
                 Inl err \<Rightarrow> (w, Inl err)
               | Inr _ \<Rightarrow> (apply_platform_envelope e k False (Some attempt) (vw_in w) w, Inr ()))))"

end
