(* ===== verification/PlatformVpnOps.thy ===== *)
theory PlatformVpnOps
  imports PlatformVpn
begin

text \<open>
  The operations of the platform VPN protocol, \<open>crates/paws_core/src/lib.rs\<close>: intents and the fence of
  the OS stop, starting, binding, failing, cancelling and stopping an attempt, the Extension's
  heartbeat, cleanup and its recovery, and the automatic restart.
\<close>

definition owner_journal_path :: "vpn_core \<Rightarrow> string" where
  "owner_journal_path c = vc_root c @ ''/runtime/platform-vpn-owner.json''"

definition owner_lease_path :: "lease_role \<Rightarrow> vpn_core \<Rightarrow> string" where
  "owner_lease_path role c = vc_root c @ ''/runtime/'' @
     (case role of Issuer \<Rightarrow> ''platform-vpn-owner.issuer.lease''
      | Extension \<Rightarrow> ''platform-vpn-owner.extension.lease'')"

definition owner_lease_record :: "string \<Rightarrow> process_identity \<Rightarrow> lease_role \<Rightarrow> lease_record" where
  "owner_lease_record attempt identity role =
     \<lparr>lr_attempt_id = attempt, lr_identity = identity, lr_role = role\<rparr>"

definition read_owner :: "vpn_env \<Rightarrow> nat \<Rightarrow> journal_read act" where
  "read_owner e k = with_core (\<lambda>c. on_journal (read_journal (ev_codec e) (ev_io e k) (owner_journal_path c)))"

definition observe_lease :: "vpn_env \<Rightarrow> nat \<Rightarrow> lease_record \<Rightarrow> lease_observation act" where
  "observe_lease e k r = with_core (\<lambda>c.
     case lr_role r of
       Issuer \<Rightarrow> on_issuer (observe_owner_lease_exact (ev_lease_codec e) (ev_lease_io e k)
                   (owner_lease_path Issuer c) (ev_fd e k) r)
     | Extension \<Rightarrow> on_extension (observe_owner_lease_exact (ev_lease_codec e) (ev_lease_io e k)
                   (owner_lease_path Extension c) (ev_fd e k) r))"

definition acquire_lease :: "vpn_env \<Rightarrow> nat \<Rightarrow> lease_record \<Rightarrow> nat act" where
  "acquire_lease e k r = with_core (\<lambda>c.
     case lr_role r of
       Issuer \<Rightarrow> on_issuer (acquire_owner_lease_exact (ev_lease_codec e) (ev_lease_io e k)
                   (owner_lease_path Issuer c) (ev_fd e k) r)
     | Extension \<Rightarrow> on_extension (acquire_owner_lease_exact (ev_lease_codec e) (ev_lease_io e k)
                   (owner_lease_path Extension c) (ev_fd e k) r))"

subsection \<open>Intents and the fence of the OS stop\<close>

definition advance_platform_vpn_intent :: "nat act" where
  "advance_platform_vpn_intent = with_core (\<lambda>c.
     if vc_intent_epoch c < u64_max then
       update_core (\<lambda>c. c\<lparr>vc_intent_epoch := vc_intent_epoch c + 1\<rparr>) (done_with (vc_intent_epoch c + 1))
     else give_up (Core ''platform VPN intent epoch exhausted''))"

definition is_platform_vpn_intent_current :: "nat \<Rightarrow> vpn_core \<Rightarrow> bool" where
  "is_platform_vpn_intent_current intent c \<longleftrightarrow> intent > 0 \<and> vc_intent_epoch c = intent"

definition is_platform_vpn_stop_current :: "nat \<Rightarrow> string \<Rightarrow> vpn_core \<Rightarrow> bool" where
  "is_platform_vpn_stop_current intent attempt c \<longleftrightarrow>
     intent > 0 \<and> vc_intent_epoch c = intent \<and>
     (vc_os_stop_epoch c = intent \<and> vc_os_stop_attempt c = attempt) \<and> \<not> vc_os_stop_in_flight c"

definition begin_platform_vpn_os_stop :: "nat \<Rightarrow> string \<Rightarrow> bool act" where
  "begin_platform_vpn_os_stop intent attempt = with_core (\<lambda>c.
     if intent = 0 \<or> vc_intent_epoch c \<noteq> intent \<or> vc_os_stop_in_flight c then done_with False
     else if vc_os_stop_epoch c = 0 then
       (if attempt \<noteq> [] then done_with False
        else update_core (\<lambda>c. c\<lparr>vc_os_stop_epoch := intent, vc_os_stop_attempt := [],
               vc_os_stop_in_flight := True\<rparr>) (done_with True))
     else if vc_os_stop_epoch c \<noteq> intent \<or> vc_os_stop_attempt c \<noteq> attempt then done_with False
     else update_core (\<lambda>c. c\<lparr>vc_os_stop_in_flight := True\<rparr>) (done_with True))"

definition owns_stop :: "nat \<Rightarrow> string \<Rightarrow> vpn_core \<Rightarrow> bool" where
  "owns_stop intent attempt c \<longleftrightarrow>
     \<not> (vc_os_stop_epoch c \<noteq> intent \<or> vc_os_stop_attempt c \<noteq> attempt \<or> \<not> vc_os_stop_in_flight c)"

definition complete_platform_vpn_os_stop :: "nat \<Rightarrow> string \<Rightarrow> bool act" where
  "complete_platform_vpn_os_stop intent attempt = with_core (\<lambda>c.
     if \<not> owns_stop intent attempt c then done_with False
     else update_core (\<lambda>c. c\<lparr>vc_os_stop_epoch := 0, vc_os_stop_attempt := [],
            vc_os_stop_in_flight := False\<rparr>) (done_with True))"

definition fail_platform_vpn_os_stop :: "nat \<Rightarrow> string \<Rightarrow> bool act" where
  "fail_platform_vpn_os_stop intent attempt = with_core (\<lambda>c.
     if \<not> owns_stop intent attempt c then done_with False
     else update_core (\<lambda>c. c\<lparr>vc_os_stop_in_flight := False\<rparr>) (done_with True))"

subsection \<open>Starting\<close>

definition begin_attempt :: "string \<Rightarrow> nat \<Rightarrow> vpn_core \<Rightarrow> vpn_core" where
  "begin_attempt attempt next_sequence c = invalidate_exit_location (c\<lparr>vc_sequence := next_sequence,
     vc_attempt := attempt, vc_outcome := OutPending, vc_delivery := False, vc_attached := False,
     vc_stop_requested := False, vc_owner_pid := 0, vc_owner_start := 0, vc_cleanup_complete := False,
     vc_starting := True, vc_running := False, vc_engine := None, vc_protected := False,
     vc_protect_error := None, vc_remote_updated := 0, vc_remote_seen := None, vc_remote_stale := None,
     vc_watchdog_recoverable := False\<rparr>)"

definition start_refusal :: "session \<Rightarrow> vpn_core \<Rightarrow> paws_error option" where
  "start_refusal s c =
    (if vc_outcome c = OutPending then Some (Core ''platform VPN start is already pending'')
     else if vc_attempt c \<noteq> [] \<and> \<not> vc_cleanup_complete c then
       Some (Core ''previous platform VPN connection cleanup is still pending'')
     else if vc_running c \<or> is_running s then Some (Core ''platform VPN is already connected'')
     else None)"

definition issue_attempt :: "vpn_env \<Rightarrow> process_identity \<Rightarrow> string \<Rightarrow> nat \<Rightarrow> string act" where
  "issue_attempt e issuer attempt next_sequence =
     and_then (read_owner e 0) (\<lambda>j. case j of
       Present owner \<Rightarrow> give_up (Core (''previous platform VPN owner journal for attempt ''
         @ oj_attempt_id owner @ '' is still pending cleanup''))
     | Missing \<Rightarrow>
         and_then (acquire_lease e 0 (owner_lease_record attempt issuer Issuer)) (\<lambda>fd.
         and_then (dropping_issuer fd (with_core (\<lambda>c.
           on_journal (create_pending_exact (ev_codec e) (ev_io e 1) (owner_journal_path c)
             \<lparr>oj_attempt_id = attempt, oj_issuer = issuer, oj_extension = None, oj_phase = Pending\<rparr>)))) (\<lambda>_.
         changing (set_issuer (Some fd)) (changing (set_extension None)
         (update_core (begin_attempt attempt next_sequence)
         (and_then (persist_platform_vpn_state e 1) (\<lambda>_. done_with attempt)))))))"

definition begin_platform_vpn_start_for_intent :: "vpn_env \<Rightarrow> nat \<Rightarrow> string act" where
  "begin_platform_vpn_start_for_intent e intent =
     and_then (lift_result (ev_identity e)) (\<lambda>issuer.
     with_core (\<lambda>c.
       if intent = 0 \<or> vc_intent_epoch c \<noteq> intent then
         give_up (Core (''platform VPN start intent '' @ decimal intent @ '' was superseded''))
       else if vc_os_stop_epoch c \<noteq> 0 then
         give_up (Core (''platform VPN OS stop for attempt '' @ vc_os_stop_attempt c
           @ '' is still pending confirmation''))
       else
         and_then (sync_platform_vpn_state e 0) (\<lambda>_. with_core (\<lambda>c.
           case start_refusal (ev_session e) c of
             Some err \<Rightarrow> give_up err
           | None \<Rightarrow>
               let next_sequence = sat_add64 (vc_sequence c) 1 in
               issue_attempt e issuer (decimal (ev_nanos e 0) @ ''-'' @ decimal next_sequence) next_sequence))))"

subsection \<open>Binding\<close>

definition reopen_attempt :: "vpn_core \<Rightarrow> vpn_core" where
  "reopen_attempt c = c\<lparr>vc_outcome := OutPending, vc_starting := True, vc_running := False,
     vc_cleanup_complete := False, vc_protected := False, vc_protect_error := None,
     vc_watchdog_recoverable := False\<rparr>"

definition owner_label :: "process_identity \<Rightarrow> string" where
  "owner_label i = decimal (unat (pid i)) @ '':'' @
     (if start_time i > 0 then decimal (unat (start_time i)) else ''unavailable'')"

definition publish_platform_vpn_binding :: "vpn_env \<Rightarrow> string \<Rightarrow> process_identity \<Rightarrow> string act" where
  "publish_platform_vpn_binding e attempt owner =
     and_then (sync_platform_vpn_state e 2) (\<lambda>_. with_core (\<lambda>c.
       if vc_attempt c \<noteq> attempt then
         give_up (Core (''platform VPN start attempt '' @ attempt @ '' was superseded after owner attachment''))
       else
         let identity_changed = (vc_owner_pid c \<noteq> pid owner \<or> vc_owner_start c \<noteq> start_time owner) in
         update_core (\<lambda>c. c\<lparr>vc_owner_pid := pid owner, vc_owner_start := start_time owner\<rparr>)
         (if \<not> vc_attached c then
            update_core (\<lambda>c. c\<lparr>vc_delivery := True, vc_attached := True, vc_cleanup_complete := False,
              vc_watchdog_recoverable := False\<rparr>)
              (and_then (persist_platform_vpn_state e 3) (\<lambda>_. done_with (owner_label owner)))
          else if vc_outcome c = OutPending \<and> vc_starting c \<and> \<not> vc_running c then
            update_core (\<lambda>c. c\<lparr>vc_delivery := True\<rparr>)
              (and_then (persist_platform_vpn_state e 3) (\<lambda>_. done_with (owner_label owner)))
          else if identity_changed then
            and_then (persist_platform_vpn_state e 3) (\<lambda>_. done_with (owner_label owner))
          else done_with (owner_label owner))))"

text \<open>The lease the Extension takes for the journal it found; \<open>None\<close> when it already has it.\<close>

definition take_ownership :: "vpn_env \<Rightarrow> string \<Rightarrow> process_identity \<Rightarrow> owner_journal \<Rightarrow> nat option act" where
  "take_ownership e attempt owner journal =
     (let wanted = owner_lease_record attempt owner Extension in
      case (oj_phase journal, oj_extension journal) of
        (Pending, None) \<Rightarrow>
          and_then (observe_lease e 0 (owner_lease_record attempt (oj_issuer journal) Issuer)) (\<lambda>seen.
          case seen of
            Released \<Rightarrow> give_up (Core (''platform VPN start issuer lease for attempt '' @ attempt
                          @ '' was released''))
          | HeldOther \<Rightarrow> give_up (Core (''cannot verify the exact platform VPN start issuer lease for attempt ''
                          @ attempt))
          | HeldExact \<Rightarrow>
              and_then (acquire_lease e 1 wanted) (\<lambda>fd.
              and_then (dropping_extension fd (with_core (\<lambda>c. on_journal
                (upgrade_attached_exact (ev_codec e) (ev_io e 1) (owner_journal_path c) attempt
                   (oj_issuer journal) owner)))) (\<lambda>_. done_with (Some fd))))
      | (Attached, Some current) \<Rightarrow>
          if current = owner then with_core (\<lambda>c.
            if vc_extension_lease c = None
            then and_then (acquire_lease e 1 wanted) (\<lambda>fd. done_with (Some fd))
            else done_with None)
          else
            and_then (observe_lease e 0 (owner_lease_record attempt current Extension)) (\<lambda>seen.
            case seen of
              HeldExact \<Rightarrow> give_up (Core (''platform VPN attempt '' @ attempt
                             @ '' is still owned by another Extension process''))
            | HeldOther \<Rightarrow> give_up (Core (''cannot verify the exact previous Extension lease for attempt ''
                             @ attempt))
            | Released \<Rightarrow>
                and_then (acquire_lease e 1 wanted) (\<lambda>fd.
                and_then (dropping_extension fd (with_core (\<lambda>c. on_journal
                  (rebind_attached_exact (ev_codec e) (ev_io e 1) (owner_journal_path c) attempt
                     (oj_issuer journal) current owner)))) (\<lambda>_. done_with (Some fd))))
      | _ \<Rightarrow> give_up (Core (''platform VPN owner journal has an invalid phase for attempt '' @ attempt)))"

definition bind_platform_vpn_start :: "vpn_env \<Rightarrow> string \<Rightarrow> string act" where
  "bind_platform_vpn_start e attempt =
    (if attempt = [] then give_up (Core ''platform VPN start attempt id is empty'')
     else and_then (lift_result (ev_identity e)) (\<lambda>owner.
       and_then (sync_platform_for_binding e 0 attempt) (\<lambda>_. with_core (\<lambda>c.
         if vc_attempt c \<noteq> attempt then
           give_up (Core (''stale platform VPN start attempt '' @ attempt))
         else if terminal (vc_outcome c) then
           give_up (Core (''platform VPN start attempt '' @ attempt @ '' is already terminal''))
         else
           update_core (\<lambda>c. if vc_outcome c = OutConnected \<and> \<not> is_running (ev_session e)
                            then reopen_attempt c else c)
           (and_then (read_owner e 0) (\<lambda>j. case j of
              Missing \<Rightarrow> give_up (Core (''platform VPN owner journal is missing for attempt '' @ attempt))
            | Present journal \<Rightarrow>
                if oj_attempt_id journal \<noteq> attempt then
                  give_up (Core (''stale platform VPN start attempt '' @ attempt
                    @ ''; owner journal belongs to '' @ oj_attempt_id journal))
                else
                  and_then (take_ownership e attempt owner journal) (\<lambda>lease.
                    changing (case lease of None \<Rightarrow> id | Some fd \<Rightarrow> set_extension (Some fd))
                      (publish_platform_vpn_binding e attempt owner))))))))"

subsection \<open>Failing, cancelling and requesting a stop\<close>

definition fail_start :: "string \<Rightarrow> bool \<Rightarrow> vpn_core \<Rightarrow> vpn_core" where
  "fail_start err unattached c =
    (let c = invalidate_exit_location (c\<lparr>vc_starting := False, vc_running := False, vc_protected := False,
         vc_protect_error := Some err\<rparr>);
         c = c\<lparr>vc_outcome := OutFailed\<rparr> in
     if unattached then c\<lparr>vc_cleanup_complete := True\<rparr> else c)"

definition fail_platform_vpn_start_if :: "vpn_env \<Rightarrow> string \<Rightarrow> string \<Rightarrow> bool \<Rightarrow> bool act" where
  "fail_platform_vpn_start_if e attempt err require_unattached =
     and_then (sync_platform_vpn_state e 0) (\<lambda>_. with_core (\<lambda>c.
       if \<not> platform_start_is_pending attempt c \<or> require_unattached \<and> vc_attached c then done_with False
       else and_then
         (if require_unattached then
            on_journal (delete_pending_exact (ev_codec e) (ev_io e 0) (owner_journal_path c) attempt)
          else done_with True) (\<lambda>deleted.
         if \<not> deleted then done_with False
         else update_core (fail_start err require_unattached) (changing release_if_clean
           (and_then (persist_platform_vpn_state e 1) (\<lambda>_. done_with True))))))"

definition fail_unattached_platform_vpn_start :: "vpn_env \<Rightarrow> string \<Rightarrow> string \<Rightarrow> bool act" where
  "fail_unattached_platform_vpn_start e attempt err = fail_platform_vpn_start_if e attempt err True"

definition fail_platform_vpn_start :: "vpn_env \<Rightarrow> string \<Rightarrow> string \<Rightarrow> bool act" where
  "fail_platform_vpn_start e attempt err = fail_platform_vpn_start_if e attempt err False"

definition cancel_start :: "vpn_core \<Rightarrow> vpn_core" where
  "cancel_start c = (invalidate_exit_location (c\<lparr>vc_starting := False, vc_running := False,
     vc_protected := False, vc_protect_error := None\<rparr>))\<lparr>vc_outcome := OutCancelled\<rparr>"

definition cancel_platform_vpn_start :: "vpn_env \<Rightarrow> string \<Rightarrow> bool act" where
  "cancel_platform_vpn_start e attempt =
     and_then (sync_platform_vpn_state e 0) (\<lambda>_. with_core (\<lambda>c.
       if \<not> platform_start_is_pending attempt c then done_with False
       else update_core cancel_start (and_then (persist_platform_vpn_state e 1) (\<lambda>_. done_with True))))"

definition request_platform_vpn_stop :: "vpn_env \<Rightarrow> string \<Rightarrow> bool act" where
  "request_platform_vpn_stop e attempt =
    (if attempt = [] then done_with False
     else and_then (sync_platform_vpn_state e 0) (\<lambda>_. with_core (\<lambda>c.
       if vc_attempt c \<noteq> attempt then done_with False
       else if vc_cleanup_complete c then done_with True
       else if \<not> vc_attached c \<or> vc_watchdog_recoverable c \<or> terminal (vc_outcome c) then done_with False
       else update_core (\<lambda>c. c\<lparr>vc_auto_pending := False, vc_auto_not_before := None\<rparr>)
         (if \<not> vc_stop_requested c then
            update_core (\<lambda>c. c\<lparr>vc_stop_requested := True\<rparr>)
              (and_then (persist_platform_vpn_state e 1) (\<lambda>_. done_with True))
          else done_with True))))"

text \<open>One look of \<open>await_platform_vpn_start\<close> and \<open>await_platform_vpn_stop\<close>; \<open>None\<close>: wait for a change.\<close>

definition await_start_look :: "string \<Rightarrow> vpn_core \<Rightarrow> unit presult option" where
  "await_start_look attempt c =
    (if vc_attempt c \<noteq> attempt then
       Some (Inl (Core (''platform VPN start attempt '' @ attempt @ '' was superseded'')))
     else case vc_outcome c of
       OutConnected \<Rightarrow> Some (Inr ())
     | OutFailed \<Rightarrow> Some (Inl (Core (case vc_protect_error c of Some err \<Rightarrow> err
                      | None \<Rightarrow> ''VPN extension failed to start'')))
     | OutCancelled \<Rightarrow> Some (Inl (Core ''VPN extension start was cancelled''))
     | OutIdle \<Rightarrow> Some (Inl (Core (''platform VPN start attempt '' @ attempt @ '' is not active'')))
     | OutPending \<Rightarrow> None)"

definition await_stop_look :: "string \<Rightarrow> vpn_core \<Rightarrow> bool option" where
  "await_stop_look attempt c =
    (if vc_attempt c \<noteq> attempt then Some False
     else if \<not> vc_running c \<and> \<not> vc_starting c \<and> vc_cleanup_complete c \<and> terminal (vc_outcome c)
     then Some True else None)"

subsection \<open>Claiming a stop\<close>

definition claim_stop_core :: "vpn_core \<Rightarrow> vpn_core" where
  "claim_stop_core c =
    (let c = (if vc_outcome c = OutPending
              then c\<lparr>vc_outcome := OutCancelled, vc_starting := False, vc_running := False,
                     vc_protected := False, vc_protect_error := None\<rparr> else c) in
     c\<lparr>vc_stop_requested := True\<rparr>)"

definition own_os_stop :: "nat \<Rightarrow> string \<Rightarrow> vpn_core \<Rightarrow> vpn_core" where
  "own_os_stop intent attempt c = c\<lparr>vc_os_stop_epoch := intent, vc_os_stop_attempt := attempt,
     vc_os_stop_in_flight := False\<rparr>"

definition unattached_cleanup :: "vpn_core \<Rightarrow> bool" where
  "unattached_cleanup c \<longleftrightarrow> vc_attempt c \<noteq> [] \<and> \<not> vc_cleanup_complete c"

text \<open>The journal is fenced when it is still Pending; an owner that got there first is left to stop.\<close>

definition fence_owner :: "vpn_env \<Rightarrow> owner_journal \<Rightarrow> unit act" where
  "fence_owner e journal =
     (let attempt = oj_attempt_id journal in
      case (oj_phase journal, oj_extension journal) of
        (Stopping, None) \<Rightarrow> done_with ()
      | (Attached, Some _) \<Rightarrow> done_with ()
      | (Pending, None) \<Rightarrow>
          and_then (with_core (\<lambda>c. on_journal (fence_pending_stop_exact (ev_codec e) (ev_io e 1)
            (owner_journal_path c) attempt (oj_issuer journal)))) (\<lambda>fenced.
          if fenced then done_with ()
          else and_then (read_owner e 2) (\<lambda>j. case j of
            Missing \<Rightarrow> give_up (Core (''platform VPN owner journal disappeared while claiming stop for ''
                         @ attempt))
          | Present current \<Rightarrow>
              if oj_attempt_id current = attempt \<and>
                 (oj_phase current = Stopping \<and> oj_extension current = None
                  \<or> oj_phase current = Attached \<and> oj_extension current \<noteq> None)
              then done_with ()
              else give_up (Core (''platform VPN owner changed from '' @ attempt @ '' to ''
                     @ oj_attempt_id current @ '' while claiming stop''))))
      | _ \<Rightarrow> give_up (Core (''platform VPN owner journal has an invalid phase while claiming stop for ''
               @ attempt)))"

definition claim_current_platform_vpn_stop :: "vpn_env \<Rightarrow> nat \<Rightarrow> string act" where
  "claim_current_platform_vpn_stop e intent = with_core (\<lambda>c.
     if intent = 0 \<or> vc_intent_epoch c \<noteq> intent then
       give_up (Core (''platform VPN stop intent '' @ decimal intent @ '' was superseded''))
     else if vc_os_stop_in_flight c then
       give_up (Core (''platform VPN OS stop for attempt '' @ vc_os_stop_attempt c @ '' is already in flight''))
     else
       let retained = (if vc_os_stop_epoch c \<noteq> 0 then Some (vc_os_stop_attempt c) else None) in
       and_then (sync_platform_vpn_state e 0) (\<lambda>_.
       and_then (read_owner e 0) (\<lambda>j. with_core (\<lambda>c. case j of
         Missing \<Rightarrow>
           if unattached_cleanup c then
             give_up (Core (''platform VPN owner journal is missing for active attempt '' @ vc_attempt c))
           else (case retained of
               Some attempt \<Rightarrow> update_core (own_os_stop intent attempt) (done_with attempt)
             | None \<Rightarrow> done_with [])
       | Present journal \<Rightarrow>
           let attempt = oj_attempt_id journal in
           if retained \<noteq> None \<and> retained \<noteq> Some attempt then
             give_up (Core (''platform VPN OS stop fence owns '' @ (case retained of None \<Rightarrow> [] | Some a \<Rightarrow> a)
               @ '' while the owner journal owns '' @ attempt))
           else if unattached_cleanup c \<and> vc_attempt c \<noteq> attempt then
             give_up (Core (''platform VPN state owns '' @ vc_attempt c @ '' while the owner journal owns ''
               @ attempt))
           else
             and_then (if unattached_cleanup c
                       then update_core claim_stop_core (persist_platform_vpn_state e 1)
                       else done_with ()) (\<lambda>_.
             and_then (fence_owner e journal) (\<lambda>_.
             update_core (own_os_stop intent attempt) (done_with attempt)))))))"

subsection \<open>Stopping this process's worker\<close>

definition stop_core :: "vpn_core \<Rightarrow> vpn_core" where
  "stop_core c = invalidate_exit_location
    (c\<lparr>vc_starting := False, vc_running := False, vc_engine := None, vc_stop_requested := True,
       vc_outcome := (if vc_outcome c = OutFailed then OutFailed else OutCancelled), vc_protected := False,
       vc_protect_error := (if vc_outcome c = OutFailed then vc_protect_error c else None)\<rparr>)"

text \<open>\<open>stop_vpn_inner\<close> before and after it stops the native session.\<close>

definition stop_vpn_before :: "vpn_env \<Rightarrow> string option \<Rightarrow> bool act" where
  "stop_vpn_before e attempt = (case attempt of
     None \<Rightarrow> done_with True
   | Some attempt \<Rightarrow>
       and_then (sync_platform_vpn_state e 0) (\<lambda>_. with_core (\<lambda>c.
         if vc_attempt c \<noteq> attempt then done_with False
         else update_core stop_core (and_then (persist_platform_vpn_state e 1) (\<lambda>_. done_with True)))))"

definition stopped_core :: "vpn_core \<Rightarrow> vpn_core" where
  "stopped_core c =
    (let outcome = (if vc_outcome c = OutPending then OutCancelled else vc_outcome c) in
     invalidate_exit_location (c\<lparr>vc_starting := False, vc_running := False, vc_engine := None,
       vc_outcome := outcome, vc_protected := False,
       vc_protect_error := (if outcome = OutFailed then vc_protect_error c else None)\<rparr>))"

definition stop_vpn_after :: "vpn_env \<Rightarrow> string option \<Rightarrow> bool act" where
  "stop_vpn_after e attempt = with_core (\<lambda>c.
     if (case attempt of None \<Rightarrow> False | Some a \<Rightarrow> vc_attempt c \<noteq> a) then done_with True
     else update_core stopped_core (and_then (persist_platform_vpn_state e 2) (\<lambda>_. done_with True)))"

subsection \<open>What the Extension reports\<close>

definition updating_attempt :: "vpn_env \<Rightarrow> string \<Rightarrow> (vpn_core \<Rightarrow> vpn_core option) \<Rightarrow> bool act" where
  "updating_attempt e attempt g =
     and_then (sync_platform_vpn_state e 0) (\<lambda>_. with_core (\<lambda>c.
       if \<not> platform_attempt_accepts_updates attempt c then done_with False
       else case g c of None \<Rightarrow> done_with False
         | Some c' \<Rightarrow> update_core (\<lambda>_. c') (and_then (persist_platform_vpn_state e 1) (\<lambda>_. done_with True))))"

definition set_platform_vpn_starting_for_attempt :: "vpn_env \<Rightarrow> string \<Rightarrow> bool \<Rightarrow> bool act" where
  "set_platform_vpn_starting_for_attempt e attempt starting = updating_attempt e attempt (\<lambda>c.
     if starting \<and> vc_outcome c \<noteq> OutPending then None
     else Some (let c = c\<lparr>vc_starting := starting\<rparr> in
       if starting then c\<lparr>vc_running := False, vc_protected := False, vc_protect_error := None\<rparr> else c))"

definition set_platform_vpn_failed_for_attempt :: "vpn_env \<Rightarrow> string \<Rightarrow> string \<Rightarrow> bool act" where
  "set_platform_vpn_failed_for_attempt e attempt err =
     updating_attempt e attempt (\<lambda>c. Some (apply_platform_failure err c))"

definition set_platform_network_protected_for_attempt ::
  "vpn_env \<Rightarrow> string \<Rightarrow> bool \<Rightarrow> string option \<Rightarrow> bool act" where
  "set_platform_network_protected_for_attempt e attempt protected err =
     updating_attempt e attempt (\<lambda>c. Some (c\<lparr>vc_protected := protected,
       vc_protect_error := (case err of None \<Rightarrow> None
         | Some m \<Rightarrow> if str_trim m = [] then None else Some m)\<rparr>))"

text \<open>The commits of \<open>start_external_platform_vpn\<close> and of \<open>start_vpn_inner\<close> for an attempt.\<close>

definition start_external_platform_vpn :: "vpn_env \<Rightarrow> vpn_engine \<Rightarrow> string \<Rightarrow> unit act" where
  "start_external_platform_vpn e eng attempt =
     and_then (sync_platform_vpn_state e 0) (\<lambda>_. with_core (\<lambda>c.
     and_then (lift_result (ensure_platform_attempt_active attempt c)) (\<lambda>_.
       update_core (\<lambda>c. c\<lparr>vc_starting := False, vc_running := True, vc_engine := Some eng,
         vc_outcome := OutConnected\<rparr>) (persist_platform_vpn_state e 1))))"

definition commit_vpn_start :: "vpn_env \<Rightarrow> string \<Rightarrow> http_endpoint option \<Rightarrow> unit act" where
  "commit_vpn_start e attempt proxy =
     and_then (sync_platform_vpn_state e 0) (\<lambda>_. with_core (\<lambda>c.
     and_then (lift_result (ensure_platform_attempt_active attempt c)) (\<lambda>_.
       update_core (\<lambda>c. let c = invalidate_exit_location (c\<lparr>vc_proxy := proxy, vc_starting := False,
           vc_running := True, vc_engine := Some Meow\<rparr>) in
         if vc_outcome c = OutPending then c\<lparr>vc_outcome := OutConnected\<rparr> else c)
         (persist_platform_vpn_state e 1))))"

definition publishing :: "vpn_env \<Rightarrow> string \<Rightarrow> string act" where
  "publishing e answer = and_then (persist_platform_vpn_state e 1) (\<lambda>_. done_with answer)"

text \<open>The heartbeat; \<open>free\<close> when no start, stop or reconfiguration holds the operation lock.\<close>

definition extension_tick :: "vpn_env \<Rightarrow> string \<Rightarrow> bool \<Rightarrow> string act" where
  "extension_tick e attempt free =
     and_then (sync_platform_vpn_state e 0) (\<lambda>_. with_core (\<lambda>c.
       if vc_attempt c \<noteq> attempt then
         give_up (Core (''stale platform VPN heartbeat for attempt '' @ attempt))
       else if vc_stop_requested c then done_with ''stopping''
       else if terminal (vc_outcome c) then
         done_with (if vc_outcome c = OutFailed then ''failed'' else ''disconnected'')
       else if \<not> vc_attached c then
         give_up (Core (''platform VPN heartbeat has no owner for attempt '' @ attempt))
       else if vc_engine c \<in> {Some Mihomo, Some SingBox} \<and> vc_running c \<and> vc_outcome c = OutConnected then
         publishing e ''connected''
       else if \<not> free then
         publishing e (if vc_running c \<and> vc_outcome c = OutConnected then ''connected'' else ''starting'')
       else (case ss_state (ev_session e) of
           Running _ _ \<Rightarrow>
             update_core (\<lambda>c. let c = c\<lparr>vc_starting := False, vc_running := True\<rparr> in
               if vc_outcome c = OutPending then c\<lparr>vc_outcome := OutConnected\<rparr> else c)
               (publishing e ''connected'')
         | Failed _ err \<Rightarrow> update_core (apply_platform_failure err) (publishing e ''failed'')
         | Stopped \<Rightarrow>
             if vc_outcome c = OutPending \<and> vc_starting c then publishing e ''starting''
             else if vc_running c then
               update_core (apply_platform_failure ''native VPN worker is not running'') (publishing e ''failed'')
             else done_with ''disconnected'')))"

definition publish_native_vpn_exit :: "vpn_env \<Rightarrow> string \<Rightarrow> nat \<Rightarrow> string \<Rightarrow> unit act" where
  "publish_native_vpn_exit e attempt generation err =
    (case ss_state (ev_session e) of
       Failed active _ \<Rightarrow>
         if active \<noteq> generation then done_with ()
         else with_core (\<lambda>c.
           if vc_attempt c \<noteq> attempt \<or> terminal (vc_outcome c) then done_with ()
           else update_core (apply_platform_failure err) (\<lambda>w. (fst (persist_platform_vpn_state e 0 w), Inr ())))
     | _ \<Rightarrow> done_with ())"

subsection \<open>Cleanup\<close>

definition clean_core :: "vpn_core \<Rightarrow> vpn_core" where
  "clean_core c = c\<lparr>vc_cleanup_complete := True, vc_attached := False, vc_stop_requested := True,
     vc_owner_pid := 0, vc_owner_start := 0, vc_watchdog_recoverable := False\<rparr>"

definition complete_platform_vpn_cleanup :: "vpn_env \<Rightarrow> string \<Rightarrow> bool act" where
  "complete_platform_vpn_cleanup e attempt =
     and_then (lift_result (ev_identity e)) (\<lambda>me.
     and_then (sync_platform_vpn_state e 0) (\<lambda>_. with_core (\<lambda>c.
       if attempt = [] \<or> vc_attempt c \<noteq> attempt then done_with False
       else if vc_running c \<or> vc_starting c \<or> \<not> terminal (vc_outcome c) then done_with False
       else if vc_cleanup_complete c then done_with True
       else if vc_extension_lease c = None then
         give_up (Core (''platform VPN Extension lease is missing before cleanup acknowledgement for ''
           @ attempt))
       else and_then (read_owner e 0) (\<lambda>j. case j of
           Missing \<Rightarrow> give_up (Core
             (''platform VPN owner journal is missing before cleanup acknowledgement for '' @ attempt))
         | Present journal \<Rightarrow>
             if oj_attempt_id journal \<noteq> attempt then done_with False
             else if oj_phase journal = Attached \<and> oj_extension journal = Some me \<and>
                     pid me = vc_owner_pid c \<and> start_time me = vc_owner_start c then
               and_then (on_journal (delete_exact (ev_codec e) (ev_io e 1) (owner_journal_path c) attempt
                 (Some me))) (\<lambda>deleted.
               if \<not> deleted then
                 give_up (Core (''platform VPN owner journal changed before cleanup acknowledgement for ''
                   @ attempt))
               else update_core clean_core (changing release_leases
                 (and_then (persist_platform_vpn_state e 1) (\<lambda>_. done_with True))))
             else give_up (Core
               (''platform VPN owner journal does not match the Extension acknowledging cleanup for ''
                 @ attempt))))))"

subsection \<open>Recovering the cleanup of an owner that is gone\<close>

datatype cleanup_recovery_proof = Proven | OwnerAlive | OwnerLivenessUnknown

definition lease_proof :: "lease_observation \<Rightarrow> cleanup_recovery_proof" where
  "lease_proof seen = (case seen of Released \<Rightarrow> Proven | HeldExact \<Rightarrow> OwnerAlive
     | HeldOther \<Rightarrow> OwnerLivenessUnknown)"

text \<open>The three critical sections of one round of the loop.\<close>

definition recovery_look :: "vpn_env \<Rightarrow> string \<Rightarrow> bool option act" where
  "recovery_look e attempt = and_then (sync_platform_vpn_state e 0) (\<lambda>_. with_core (\<lambda>c.
     if vc_attempt c = attempt \<and> vc_cleanup_complete c then done_with None
     else done_with (Some (vc_attempt c = attempt \<and> \<not> vc_attached c \<and> vc_stop_requested c
            \<and> terminal (vc_outcome c)))))"

datatype recovery_evidence =
    Settled bool
  | Evidence "process_identity option" cleanup_recovery_proof process_identity

definition recovery_proof :: "vpn_env \<Rightarrow> string \<Rightarrow> bool \<Rightarrow> recovery_evidence act" where
  "recovery_proof e attempt local_unattached_fence =
     and_then (read_owner e 0) (\<lambda>j. case j of
       Missing \<Rightarrow> and_then (sync_platform_vpn_state e 1) (\<lambda>_. with_core (\<lambda>c.
           if vc_attempt c = attempt \<and> vc_cleanup_complete c then done_with (Settled True)
           else give_up (Core (''platform VPN owner journal disappeared before cleanup was confirmed for ''
                  @ attempt))))
     | Present journal \<Rightarrow>
         if oj_attempt_id journal \<noteq> attempt then done_with (Settled False)
         else (case (oj_phase journal, oj_extension journal) of
             (Stopping, None) \<Rightarrow> done_with (Evidence None Proven (oj_issuer journal))
           | (Pending, None) \<Rightarrow>
               if local_unattached_fence then done_with (Evidence None Proven (oj_issuer journal))
               else and_then (observe_lease e 0 (owner_lease_record attempt (oj_issuer journal) Issuer))
                 (\<lambda>seen. done_with (Evidence None (lease_proof seen) (oj_issuer journal)))
           | (Attached, Some extension) \<Rightarrow>
               and_then (observe_lease e 0 (owner_lease_record attempt extension Extension))
                 (\<lambda>seen. done_with (Evidence (Some extension) (lease_proof seen) extension))
           | _ \<Rightarrow> give_up (Core (''platform VPN owner journal has an invalid phase for '' @ attempt))))"

definition recovered_core :: "vpn_core \<Rightarrow> vpn_core" where
  "recovered_core c =
    (let c = c\<lparr>vc_starting := False, vc_running := False\<rparr>;
         c = (if vc_outcome c \<noteq> OutFailed then c\<lparr>vc_outcome := OutCancelled, vc_protect_error := None\<rparr> else c) in
     clean_core (c\<lparr>vc_protected := False\<rparr>))"

text \<open>\<open>None\<close>: the journal changed since it was read, look again.\<close>

definition recovery_commit :: "vpn_env \<Rightarrow> string \<Rightarrow> process_identity option \<Rightarrow> bool option act" where
  "recovery_commit e attempt expected =
     and_then (with_core (\<lambda>c. on_journal (delete_exact (ev_codec e) (ev_io e 1) (owner_journal_path c)
       attempt expected))) (\<lambda>deleted.
     if \<not> deleted then done_with None
     else and_then (sync_platform_vpn_state e 2) (\<lambda>_. with_core (\<lambda>c.
       if vc_attempt c \<noteq> attempt \<or> vc_cleanup_complete c then done_with (Some True)
       else update_core recovered_core (changing release_leases
         (and_then (persist_platform_vpn_state e 3) (\<lambda>_. done_with (Some True)))))))"

text \<open>
  One undisturbed round of \<open>recover_platform_vpn_cleanup_after_confirmed_stop\<close>; \<open>expired\<close> when its
  deadline has passed. \<open>None\<close>: another round follows.
\<close>

definition recovery_round :: "vpn_env \<Rightarrow> string \<Rightarrow> bool \<Rightarrow> bool option act" where
  "recovery_round e attempt expired =
    (if attempt = [] then done_with (Some False)
     else and_then (recovery_look e attempt) (\<lambda>look. case look of
       None \<Rightarrow> done_with (Some True)
     | Some fence \<Rightarrow>
         and_then (recovery_proof e attempt fence) (\<lambda>ev. case ev of
           Settled b \<Rightarrow> done_with (Some b)
         | Evidence expected proof identity \<Rightarrow>
             (case proof of
                Proven \<Rightarrow> recovery_commit e attempt expected
              | OwnerAlive \<Rightarrow> done_with (if expired then Some False else None)
              | OwnerLivenessUnknown \<Rightarrow>
                  give_up (Core (''cannot verify the exact platform VPN ownership lease for ''
                    @ decimal (unat (pid identity)) @ '':'' @ decimal (unat (start_time identity))))))))"

subsection \<open>The automatic restart\<close>

definition refresh_owner_liveness :: "vpn_env \<Rightarrow> unit act" where
  "refresh_owner_liveness e = with_core (\<lambda>c.
     if \<not> vc_attached c \<or> vc_cleanup_complete c \<or> vc_outcome c \<notin> {OutPending, OutConnected} then done_with ()
     else and_then (on_extension (lock_released_owner_lease (ev_lease_io e 0) (owner_lease_path Extension c)
         (ev_fd e 0))) (\<lambda>lease. case lease of
       None \<Rightarrow> done_with ()
     | Some fd \<Rightarrow>
         (\<lambda>w. case and_then (read_owner e 0) (\<lambda>j. with_core (\<lambda>c. case j of
             Missing \<Rightarrow> done_with ()
           | Present journal \<Rightarrow>
               if oj_attempt_id journal \<noteq> vc_attempt c \<or> oj_phase journal \<noteq> Attached
                  \<or> (case oj_extension journal of None \<Rightarrow> True
                     | Some owner \<Rightarrow> pid owner \<noteq> vc_owner_pid c \<or> start_time owner \<noteq> vc_owner_start c)
               then done_with ()
               else update_core (\<lambda>c. arm_auto_recovery (was_connected c)
                      (apply_platform_failure ''VPN extension owner lease was released'' c))
                    (persist_platform_vpn_state e 1))) w of
            (w, r) \<Rightarrow> (w\<lparr>vw_extension := drop_lease fd (vw_extension w)\<rparr>, r))))"

text \<open>
  \<open>lifecycle.json\<close> says the VPN was active, and the exact owner in the journal has released its lease.
\<close>

definition detect_cold_orphaned_connected_vpn :: "vpn_env \<Rightarrow> string option act" where
  "detect_cold_orphaned_connected_vpn e w =
    (if \<not> ev_lifecycle_active e then (w, Inr None)
     else case read_owner e 2 w of
       (w, Inr (Present journal)) \<Rightarrow>
         if oj_phase journal \<noteq> Attached \<or> oj_attempt_id journal = [] then (w, Inr None)
         else (case oj_extension journal of
             None \<Rightarrow> (w, Inr None)
           | Some extension \<Rightarrow>
               (case observe_lease e 2 (owner_lease_record (oj_attempt_id journal) extension Extension) w of
                  (w, Inr Released) \<Rightarrow> (w, Inr (Some (oj_attempt_id journal)))
                | (w, _) \<Rightarrow> (w, Inr None)))
     | (w, _) \<Rightarrow> (w, Inr None))"

definition MAX_AUTO_RECOVERY_ATTEMPTS :: nat where "MAX_AUTO_RECOVERY_ATTEMPTS = 3"

definition arm_cold_recovery :: "vpn_env \<Rightarrow> unit act" where
  "arm_cold_recovery e = with_core (\<lambda>c.
     if \<not> vc_auto_pending c \<and> vc_attempt c = [] \<and> vc_auto_attempt c = [] then
       and_then (detect_cold_orphaned_connected_vpn e) (\<lambda>found. case found of
         None \<Rightarrow> done_with ()
       | Some dead \<Rightarrow> update_core (\<lambda>c. c\<lparr>vc_auto_pending := True, vc_auto_attempt := dead,
           vc_auto_attempts := 0, vc_auto_not_before := None\<rparr>) (done_with ()))
     else done_with ())"

definition claim_platform_vpn_auto_recovery :: "vpn_env \<Rightarrow> string option act" where
  "claim_platform_vpn_auto_recovery e =
     and_then (sync_platform_vpn_state e 0) (\<lambda>_. with_core (\<lambda>c.
     and_then (if vc_extension_lease c = None then
                 (case ev_ipc e of
                    Inl err \<Rightarrow> give_up err
                  | Inr (Some False) \<Rightarrow> done_with ()
                  | Inr _ \<Rightarrow> refresh_owner_liveness e)
               else done_with ()) (\<lambda>_. with_core (\<lambda>c.
       if is_running (ev_session e) \<or> vc_running c \<or> vc_starting c then done_with None
       else if \<not> ev_active_profile e then done_with None
       else and_then (arm_cold_recovery e) (\<lambda>_. with_core (\<lambda>c.
         if \<not> vc_auto_pending c then done_with None
         else if MAX_AUTO_RECOVERY_ATTEMPTS \<le> vc_auto_attempts c then
           update_core (\<lambda>c. c\<lparr>vc_auto_pending := False, vc_auto_not_before := None\<rparr>) (done_with None)
         else if (case vc_auto_not_before c of None \<Rightarrow> False | Some t \<Rightarrow> ev_now e < t) then done_with None
         else update_core (\<lambda>c. c\<lparr>vc_auto_pending := False,
                vc_auto_attempts := min (vc_auto_attempts c + 1) 255, vc_auto_not_before := None\<rparr>)
              (done_with (Some (ev_options e)))))))))"

definition rearm_platform_vpn_auto_recovery :: "vpn_env \<Rightarrow> unit act" where
  "rearm_platform_vpn_auto_recovery e = with_core (\<lambda>c.
     if is_running (ev_session e) \<or> vc_running c \<or> vc_starting c then done_with ()
     else if 0 < vc_auto_attempts c \<and> vc_auto_attempts c < MAX_AUTO_RECOVERY_ATTEMPTS then
       update_core (\<lambda>c. c\<lparr>vc_auto_pending := True, vc_auto_not_before :=
         Some (ev_now e + (if vc_auto_attempts c = 1 then 10000 else 30000))\<rparr>) (done_with ())
     else done_with ())"

subsection \<open>Other checks of a delivered start\<close>

definition validate_platform_owner_journal_for_want :: "vpn_env \<Rightarrow> string \<Rightarrow> unit act" where
  "validate_platform_owner_journal_for_want e attempt =
     and_then (read_owner e 0) (\<lambda>j. case j of
       Missing \<Rightarrow> give_up (Core (''platform VPN owner journal is missing for delivered attempt '' @ attempt))
     | Present journal \<Rightarrow>
         if oj_attempt_id journal \<noteq> attempt then
           give_up (Core (''stale platform VPN start attempt '' @ attempt @ ''; owner journal belongs to ''
             @ oj_attempt_id journal))
         else (case oj_phase journal of
             Pending \<Rightarrow>
               and_then (observe_lease e 0 (owner_lease_record attempt (oj_issuer journal) Issuer)) (\<lambda>seen.
               case seen of
                 HeldExact \<Rightarrow> done_with ()
               | Released \<Rightarrow> give_up (Core (''platform VPN start issuer lease for delivered attempt ''
                               @ attempt @ '' was released''))
               | HeldOther \<Rightarrow> give_up (Core
                   (''cannot verify the exact platform VPN start issuer lease for delivered attempt '' @ attempt)))
           | Attached \<Rightarrow> done_with ()
           | Stopping \<Rightarrow> give_up (Core (''platform VPN start attempt '' @ attempt
                           @ '' was fenced by a stop intent''))))"

definition acknowledge_terminal_delivery_state :: "nat \<Rightarrow> string \<Rightarrow> platform_state \<Rightarrow> platform_state option" where
  "acknowledge_terminal_delivery_state nanos attempt s =
    (if attempt = [] \<or> rs_attempt s \<noteq> attempt \<or> \<not> terminal (rs_outcome s) then None
     else Some (s\<lparr>rs_delivery := True, rs_attached := False, rs_starting := False, rs_running := False,
            rs_protected := False, rs_updated := max nanos (sat_add128 (rs_updated s) 1)\<rparr>))"

definition attach_platform_shared_memory :: "unit act" where
  "attach_platform_shared_memory = update_core (\<lambda>c. c\<lparr>vc_remote_updated := 0, vc_remote_seen := None,
     vc_remote_stale := None, vc_watchdog_recoverable := False\<rparr>) (done_with ())"

definition is_platform_vpn_session_current :: "string \<Rightarrow> vpn_core \<Rightarrow> bool" where
  "is_platform_vpn_session_current session_id c \<longleftrightarrow>
     session_id \<noteq> [] \<and> vc_attempt c = session_id \<and> vc_running c \<and> vc_outcome c = OutConnected"

end
