(* ===== verification/VpnEvolution.thy ===== *)
theory VpnEvolution
  imports PlatformVpnOps
begin

text \<open>
  What an operation of the platform VPN protocol may do to the state of its process and to the owner
  journal: \<open>evolves\<close> is the relation every operation stays within. It is reflexive and transitive, so
  it is shown for the updates of the core (\<open>core_updates\<close>) and composed along the acts by the rules
  \<open>within\<close>; what an operation may do beyond the common part is its set of rights.
\<close>

subsection \<open>The relation\<close>

text \<open>
  The invariant of a process's state: a terminal attempt does not run, no attempt runs and starts at
  once, only a terminal attempt is cleaned up, and the stop fence belongs to an intent that was issued.
\<close>

definition core_ok :: "vpn_core \<Rightarrow> bool" where
  "core_ok c \<longleftrightarrow> (terminal (vc_outcome c) \<longrightarrow> \<not> vc_running c \<and> \<not> vc_starting c) \<and>
     \<not> (vc_running c \<and> vc_starting c) \<and>
     (vc_cleanup_complete c \<and> vc_attempt c \<noteq> [] \<longrightarrow> terminal (vc_outcome c)) \<and>
     (vc_os_stop_epoch c = 0 \<longrightarrow> vc_os_stop_attempt c = [] \<and> \<not> vc_os_stop_in_flight c) \<and>
     vc_os_stop_epoch c \<le> vc_intent_epoch c"

text \<open>The attempt stays, and when it is terminal it stays terminal.\<close>

definition same_attempt :: "vpn_core \<Rightarrow> vpn_core \<Rightarrow> bool" where
  "same_attempt c c' \<longleftrightarrow> vc_attempt c' = vc_attempt c \<and> (terminal (vc_outcome c) \<longrightarrow> terminal (vc_outcome c'))"

definition same_fence :: "vpn_core \<Rightarrow> vpn_core \<Rightarrow> bool" where
  "same_fence c c' \<longleftrightarrow> vc_os_stop_epoch c' = vc_os_stop_epoch c \<and>
     vc_os_stop_attempt c' = vc_os_stop_attempt c \<and> vc_os_stop_in_flight c' = vc_os_stop_in_flight c"

datatype right = NewAttempt | MoveFence

definition core_rel :: "right set \<Rightarrow> vpn_core \<Rightarrow> vpn_core \<Rightarrow> bool" where
  "core_rel R c c' \<longleftrightarrow> (core_ok c \<longrightarrow> core_ok c') \<and> (NewAttempt \<notin> R \<longrightarrow> same_attempt c c') \<and>
     (MoveFence \<notin> R \<longrightarrow> same_fence c c') \<and> vc_intent_epoch c \<le> vc_intent_epoch c' \<and> vc_root c' = vc_root c"

lemma core_rel_refl [simp]: "core_rel R c c"
  by (simp add: core_rel_def same_attempt_def same_fence_def)

lemma core_rel_trans [trans]: "core_rel R a b \<Longrightarrow> core_rel R b c \<Longrightarrow> core_rel R a c"
  by (auto simp: core_rel_def same_attempt_def same_fence_def)

lemma core_rel_mono: "core_rel R a b \<Longrightarrow> R \<subseteq> S \<Longrightarrow> core_rel S a b"
  by (auto simp: core_rel_def)

text \<open>The journal moves along its transitions; only a start creates a record, with an attempt id in \<open>A\<close>.\<close>

definition journal_moves :: "codec \<Rightarrow> string \<Rightarrow> string set \<Rightarrow> node \<Rightarrow> node \<Rightarrow> bool" where
  "journal_moves c path A n n' \<longleftrightarrow> effect c path n n' \<and>
     (\<forall>r. journal_load c path n = Inr Missing \<longrightarrow> journal_load c path n' = Inr (Present r) \<longrightarrow>
        oj_attempt_id r \<in> A)"

definition evolves :: "codec \<Rightarrow> right set \<Rightarrow> string set \<Rightarrow> vpn_world \<Rightarrow> vpn_world \<Rightarrow> bool" where
  "evolves c R A w w' \<longleftrightarrow> core_rel R (vw_core w) (vw_core w') \<and> vw_in w' = vw_in w \<and>
     (journal_moves c (owner_journal_path (vw_core w)) A)\<^sup>*\<^sup>* (vw_journal w) (vw_journal w')"

lemma path_root: "vc_root c' = vc_root c \<Longrightarrow> owner_journal_path c' = owner_journal_path c"
  by (simp add: owner_journal_path_def)

lemma evolves_refl [simp]: "evolves c R A w w"
  by (simp add: evolves_def)

lemma evolves_trans: "evolves c R A u v \<Longrightarrow> evolves c R A v w \<Longrightarrow> evolves c R A u w"
proof -
  assume uv: "evolves c R A u v" and vw: "evolves c R A v w"
  have "owner_journal_path (vw_core v) = owner_journal_path (vw_core u)"
    using uv by (intro path_root) (simp add: evolves_def core_rel_def)
  then show ?thesis using uv vw core_rel_trans by (auto simp: evolves_def)
qed

lemma evolves_mono: "evolves c R A u v \<Longrightarrow> R \<subseteq> S \<Longrightarrow> A \<subseteq> B \<Longrightarrow> evolves c S B u v"
proof -
  assume e: "evolves c R A u v" and "R \<subseteq> S" and AB: "A \<subseteq> B"
  have "journal_moves c p A n n' \<Longrightarrow> journal_moves c p B n n'" for p n n'
    using AB unfolding journal_moves_def by blast
  then have "journal_moves c (owner_journal_path (vw_core u)) A \<le> journal_moves c (owner_journal_path (vw_core u)) B"
    by blast
  then have "(journal_moves c (owner_journal_path (vw_core u)) A)\<^sup>*\<^sup>*
      \<le> (journal_moves c (owner_journal_path (vw_core u)) B)\<^sup>*\<^sup>*"
    by (rule rtranclp_mono)
  then show ?thesis using e \<open>R \<subseteq> S\<close> core_rel_mono unfolding evolves_def by blast
qed

lemma evolves_core:
  "evolves c R A u w \<Longrightarrow> core_rel R (vw_core w) g \<Longrightarrow> evolves c R A u (w\<lparr>vw_core := g\<rparr>)"
  using core_rel_trans by (auto simp: evolves_def)

lemma evolves_files:
  "evolves c R A u w \<Longrightarrow> evolves c R A u (w\<lparr>vw_issuer := i\<rparr>)"
  "evolves c R A u w \<Longrightarrow> evolves c R A u (w\<lparr>vw_extension := x\<rparr>)"
  "evolves c R A u w \<Longrightarrow> evolves c R A u (w\<lparr>vw_out := f\<rparr>)"
  by (simp_all add: evolves_def)

lemma evolves_journal:
  assumes "evolves c R A u w" "journal_moves c (owner_journal_path (vw_core w)) A (vw_journal w) n"
  shows "evolves c R A u (w\<lparr>vw_journal := n\<rparr>)"
proof -
  have "owner_journal_path (vw_core w) = owner_journal_path (vw_core u)"
    using assms(1) by (intro path_root) (simp add: evolves_def core_rel_def)
  then show ?thesis using assms by (auto simp: evolves_def intro: rtranclp.rtrancl_into_rtrancl)
qed

subsection \<open>The updates\<close>

lemmas core_defs = core_rel_def core_ok_def same_attempt_def same_fence_def terminal_def

named_theorems core_updates

lemma core_rel_publish [core_updates]:
  "core_rel R c (publish_runtime_change c)" "core_rel R c (stamp_update n c)"
  "core_rel R c (invalidate_exit_location c)" "core_rel R c (observe_remote now remote c)"
  "core_rel R c (arm_auto_recovery b c)"
  by (simp_all add: publish_runtime_change_def stamp_update_def invalidate_exit_location_def
      observe_remote_def arm_auto_recovery_def core_defs)

lemma core_rel_failure [core_updates]: "core_rel R c (apply_platform_failure err c)"
  by (auto simp: apply_platform_failure_def invalidate_exit_location_def Let_def core_defs)

lemma core_rel_seen [core_updates]: "core_rel R c (c\<lparr>vc_remote_stale := t\<rparr>)"
  by (simp add: core_defs)

lemma core_rel_expired [core_updates]:
  "core_rel R c (fst (platform_heartbeat_watchdog_expired now is_ui run m adv c))"
  by (simp add: platform_heartbeat_watchdog_expired_def Let_def core_rel_seen)

lemma core_rel_watchdog [core_updates]: "core_rel R c (watchdog_failure c)"
proof -
  have "core_rel R c (apply_platform_failure err c)" for err by (rule core_rel_failure)
  then have "core_rel R c ((apply_platform_failure err c)\<lparr>vc_watchdog_recoverable := True\<rparr>)" for err
    by (simp add: core_defs)
  then show ?thesis unfolding watchdog_failure_def using core_rel_publish(5) core_rel_trans by blast
qed

lemma core_rel_begin [core_updates]: "NewAttempt \<in> R \<Longrightarrow> core_rel R c (begin_attempt attempt n c)"
  by (simp add: begin_attempt_def invalidate_exit_location_def core_defs)

lemma core_rel_reopen [core_updates]: "vc_outcome c = OutConnected \<Longrightarrow> core_rel R c (reopen_attempt c)"
  by (simp add: reopen_attempt_def core_defs)

lemma core_rel_fail_start [core_updates]:
  "platform_start_is_pending attempt c \<Longrightarrow> core_rel R c (fail_start err b c)"
  by (auto simp: platform_start_is_pending_def fail_start_def invalidate_exit_location_def Let_def core_defs)

lemma core_rel_cancel [core_updates]: "core_rel R c (cancel_start c)"
  by (simp add: cancel_start_def invalidate_exit_location_def core_defs)

lemma core_rel_claim [core_updates]: "core_rel R c (claim_stop_core c)"
  by (auto simp: claim_stop_core_def Let_def core_defs)

lemma core_rel_own_stop [core_updates]:
  "MoveFence \<in> R \<Longrightarrow> 0 < intent \<Longrightarrow> intent \<le> vc_intent_epoch c \<Longrightarrow> core_rel R c (own_os_stop intent attempt c)"
  by (simp add: own_os_stop_def core_defs)

lemma core_rel_stop [core_updates]: "core_rel R c (stop_core c)" "core_rel R c (stopped_core c)"
  by (auto simp: stop_core_def stopped_core_def invalidate_exit_location_def Let_def core_defs)

lemma core_rel_clean [core_updates]: "terminal (vc_outcome c) \<Longrightarrow> core_rel R c (clean_core c)"
  by (auto simp: clean_core_def core_defs)

lemma core_rel_recovered [core_updates]: "core_rel R c (recovered_core c)"
  by (auto simp: recovered_core_def clean_core_def Let_def core_defs)

lemma core_rel_slots [core_updates]:
  "core_rel R c (c\<lparr>vc_issuer_lease := i\<rparr>)" "core_rel R c (c\<lparr>vc_extension_lease := i\<rparr>)"
  by (simp_all add: core_defs)

text \<open>Taking over an accepted frame; an adopted one replaces the attempt.\<close>

text \<open>The fields no invariant looks at.\<close>

lemma core_rel_other:
  "core_rel R c (c\<lparr>vc_stop_requested := b\<rparr>)" "core_rel R c (c\<lparr>vc_owner_pid := p, vc_owner_start := t\<rparr>)"
  "core_rel R c (c\<lparr>vc_attached := b\<rparr>)" "core_rel R c (c\<lparr>vc_delivery := b\<rparr>)"
  "core_rel R c (c\<lparr>vc_auto_pending := b, vc_auto_not_before := nb\<rparr>)"
  "core_rel R c (c\<lparr>vc_protected := b, vc_protect_error := pe, vc_engine := en, vc_proxy := pr\<rparr>)"
  by (simp_all add: core_defs)

lemma core_rel_ended:
  "terminal r \<Longrightarrow> core_rel R c (c\<lparr>vc_outcome := r, vc_starting := False, vc_running := False,
     vc_cleanup_complete := b\<rparr>)"
  by (auto simp: core_rel_def core_ok_def same_attempt_def same_fence_def)

lemma core_rel_live:
  assumes "\<not> terminal (vc_outcome c)"
  shows "core_rel R c (c\<lparr>vc_running := b, vc_starting := \<not> b \<and> d, vc_cleanup_complete := False\<rparr>)"
    and "core_rel R c (c\<lparr>vc_running := b, vc_starting := \<not> b \<and> d, vc_cleanup_complete := False,
      vc_outcome := OutConnected\<rparr>)"
  using assms by (auto simp: core_rel_def core_ok_def same_attempt_def same_fence_def)

lemma core_rel_lifecycle: "core_rel R c (merge_lifecycle remote c)"
proof -
  consider "terminal (rs_outcome remote)" | "\<not> terminal (rs_outcome remote)" "terminal (vc_outcome c)"
    | (live) "\<not> terminal (rs_outcome remote)" "\<not> terminal (vc_outcome c)" by blast
  then show ?thesis
  proof cases
    case live
    define c1 where "c1 = c\<lparr>vc_running := rs_running remote,
      vc_starting := \<not> rs_running remote \<and> rs_starting remote, vc_cleanup_complete := False\<rparr>"
    define c2 where "c2 = (if rs_running remote \<and> vc_outcome c1 = OutPending
      then c1\<lparr>vc_outcome := OutConnected\<rparr> else c1)"
    have "core_rel R c c2"
      using core_rel_live(1) [OF live(2)] core_rel_live(2) [OF live(2), of R True True]
      by (simp add: c2_def c1_def)
    moreover have "merge_lifecycle remote c =
      (if vc_running c2 then c2\<lparr>vc_auto_pending := False, vc_auto_not_before := None\<rparr> else c2)"
      using live by (simp only: merge_lifecycle_def c2_def c1_def Let_def simp_thms if_True if_False)
    ultimately show ?thesis using core_rel_trans core_rel_other(5) by (metis (full_types))
  qed (simp_all add: merge_lifecycle_def core_rel_ended)
qed

lemma core_rel_let:
  "core_rel R a d \<Longrightarrow> (\<And>c. core_rel R a c \<Longrightarrow> core_rel R a (f c)) \<Longrightarrow> core_rel R a (let c = d in f c)"
  "(\<And>b :: bool. core_rel R a (g b)) \<Longrightarrow> core_rel R a (let b = t in g b)"
  by (simp_all add: Let_def)

lemma core_rel_if: "core_rel R a b \<Longrightarrow> core_rel R a d \<Longrightarrow> core_rel R a (if p then b else d)"
  by simp

lemmas core_rel_stages = core_rel_other [THEN core_rel_trans [rotated]]
  core_rel_lifecycle [THEN core_rel_trans [rotated]] core_rel_publish [THEN core_rel_trans [rotated]]

lemma core_rel_details: "core_rel R a c \<Longrightarrow> core_rel R a (merge_details remote lt r c)"
  unfolding merge_details_def
  by (intro core_rel_let core_rel_if core_rel_stages; assumption)

lemma core_rel_merge [core_updates]: "core_rel R c (merge_remote is_ui remote c)"
  unfolding merge_remote_def Let_def
  by (intro core_rel_details core_rel_if core_rel_stages core_rel_refl)

subsection \<open>Composing acts\<close>

text \<open>From \<open>w\<close>, the act stays within the relation, whatever it returns.\<close>

definition within :: "codec \<Rightarrow> right set \<Rightarrow> string set \<Rightarrow> 'a act \<Rightarrow> vpn_world \<Rightarrow> bool" where
  "within c R A m w \<longleftrightarrow> evolves c R A w (fst (m w))"

named_theorems within_intros

lemma within_basic [within_intros]:
  "within c R A (done_with a) w" "within c R A (give_up err) w" "within c R A (lift_result r) w"
  by (simp_all add: within_def done_with_def give_up_def lift_result_def)

lemma within_core [within_intros]: "within c R A (f (vw_core w)) w \<Longrightarrow> within c R A (with_core f) w"
  by (simp add: within_def with_core_def)

lemma within_update [within_intros]:
  assumes "core_rel R (vw_core w) (g (vw_core w))"
    and "within c R A m (w\<lparr>vw_core := g (vw_core w)\<rparr>)"
  shows "within c R A (update_core g m) w"
  using evolves_core [OF evolves_refl assms(1)] assms(2)
  unfolding within_def update_core_def by (rule evolves_trans)

lemma within_changing:
  assumes "evolves c R A w (h w)" "within c R A m (h w)"
  shows "within c R A (changing h m) w"
  using assms evolves_trans by (simp add: within_def changing_def)

lemma within_and_then [within_intros]:
  assumes "within c R A m w"
    and "\<And>a. snd (m w) = Inr a \<Longrightarrow> evolves c R A w (fst (m w)) \<Longrightarrow> within c R A (f a) (fst (m w))"
  shows "within c R A (and_then m f) w"
proof (cases "snd (m w)")
  case (Inl err)
  then show ?thesis using assms(1) by (cases "m w") (simp add: within_def and_then_def)
next
  case (Inr a)
  then have "and_then m f w = f a (fst (m w))" by (cases "m w") (simp add: and_then_def)
  then show ?thesis using assms(1) assms(2) [OF Inr] evolves_trans by (simp add: within_def)
qed

lemma within_if [within_intros]:
  "(p \<Longrightarrow> within c R A m w) \<Longrightarrow> (\<not> p \<Longrightarrow> within c R A n w) \<Longrightarrow> within c R A (if p then m else n) w"
  by simp

lemma within_mono: "within c R A m w \<Longrightarrow> R \<subseteq> S \<Longrightarrow> A \<subseteq> B \<Longrightarrow> within c S B m w"
  unfolding within_def by (rule evolves_mono)

lemma within_journal:
  assumes "journal_moves c (owner_journal_path (vw_core w)) A (vw_journal w) (fst (f (vw_journal w)))"
  shows "within c R A (on_journal f) w"
  using evolves_journal [OF evolves_refl assms]
  by (simp add: within_def on_journal_def case_prod_beta Let_def)

lemma within_files [within_intros]:
  "within c R A (on_issuer f) w" "within c R A (on_extension g) w"
  by (simp_all add: within_def on_issuer_def on_extension_def evolves_files split: prod.splits)

lemma within_dropping [within_intros]:
  "within c R A m w \<Longrightarrow> within c R A (dropping_issuer fd m) w"
  "within c R A n w \<Longrightarrow> within c R A (dropping_extension fd n) w"
  by (auto simp: within_def dropping_issuer_def dropping_extension_def evolves_files
      split: prod.splits sum.splits)

lemma evolves_slots [intro]:
  "evolves c R A u w \<Longrightarrow> evolves c R A u (set_issuer slot w)"
  "evolves c R A u w \<Longrightarrow> evolves c R A u (set_extension slot w)"
  "evolves c R A u w \<Longrightarrow> evolves c R A u (release_leases w)"
  "evolves c R A u w \<Longrightarrow> evolves c R A u (release_if_clean w)"
proof -
  show i: "evolves c R A u (set_issuer slot w)" if "evolves c R A u w" for slot w
    unfolding set_issuer_def by (intro evolves_core evolves_files that) (simp add: core_rel_slots)
  show x: "evolves c R A u (set_extension slot w)" if "evolves c R A u w" for slot w
    unfolding set_extension_def by (intro evolves_core evolves_files that) (simp add: core_rel_slots)
  then show "evolves c R A u (release_leases w)" if "evolves c R A u w"
    using i that by (simp add: release_leases_def)
  then show "evolves c R A u (release_if_clean w)" if "evolves c R A u w"
    using that by (simp add: release_if_clean_def)
qed

subsection \<open>Reading, publishing and synchronising\<close>

lemma journal_moves_refl [simp]: "journal_moves c path A n n"
  by (auto simp: journal_moves_def)

lemma read_journal_file [simp]: "fst (read_journal c i path n) = n"
  by (auto simp: read_journal_def with_journal_def split: lock_result.splits sum.splits)

lemma within_reads [within_intros]:
  "within c R A (read_owner e k) w" "within c R A (observe_lease e k r) w"
  "within c R A (acquire_lease e k r) w"
  by (auto simp: read_owner_def observe_lease_def acquire_lease_def split: lease_role.splits
      intro!: within_core within_journal within_files)

text \<open>These acts do not touch the core.\<close>

lemma core_kept [simp]:
  "vw_core (fst (read_owner e k w)) = vw_core w"
  "vw_core (fst (observe_lease e k r w)) = vw_core w"
  "vw_core (fst (acquire_lease e k r w)) = vw_core w"
  "vw_core (fst (on_journal f w)) = vw_core w"
  "vw_core (fst (on_extension g w)) = vw_core w"
  "vw_core (fst (with_core (\<lambda>c. on_journal (h c)) w)) = vw_core w"
  by (auto simp: read_owner_def observe_lease_def acquire_lease_def with_core_def on_journal_def
      on_issuer_def on_extension_def Let_def split: lease_role.splits prod.splits)

lemma journal_kept [simp]:
  "vw_journal (fst (read_owner e k w)) = vw_journal w"
  "vw_journal (fst (observe_lease e k r w)) = vw_journal w"
  "vw_journal (fst (acquire_lease e k r w)) = vw_journal w"
  by (auto simp: read_owner_def observe_lease_def acquire_lease_def with_core_def on_journal_def
      on_issuer_def on_extension_def case_prod_beta Let_def split: lease_role.splits)

lemma within_persist [within_intros]: "within c R A (persist_platform_vpn_state e k) w"
proof -
  have "core_rel R (vw_core w) (publish_runtime_change (stamp_update (ev_nanos e k) (vw_core w)))"
    using core_rel_publish core_rel_trans by blast
  then show ?thesis
    unfolding persist_platform_vpn_state_def
    by (intro within_update) (auto simp: within_def evolves_files split: sum.splits option.splits)
qed

lemma journal_persisted [simp]: "vw_journal (fst (persist_platform_vpn_state e k w)) = vw_journal w"
  by (auto simp: persist_platform_vpn_state_def update_core_def split: sum.splits option.splits)

lemma envelope_evolves:
  assumes "expected = None"
  shows "evolves c R A w (apply_platform_envelope e k is_ui expected envelope w)"
proof (cases envelope)
  case (Some remote)
  show ?thesis
  proof (cases "accepts_frame is_ui expected remote (vw_core w)")
    case True
    define before where "before = vw_core w"
    have same: "rs_attempt remote = vc_attempt before"
      using True assms by (simp add: accepts_frame_def before_def)
    obtain c1 expired where w1: "platform_heartbeat_watchdog_expired (ev_now e) is_ui (rs_running remote) True
        (vc_remote_updated before < rs_updated remote) (observe_remote (ev_now e) remote before) = (c1, expired)"
      by (cases "platform_heartbeat_watchdog_expired (ev_now e) is_ui (rs_running remote) True
        (vc_remote_updated before < rs_updated remote) (observe_remote (ev_now e) remote before)")
    have r1: "core_rel R before c1"
      using core_rel_trans [OF core_rel_publish(4) core_rel_expired] w1 by (metis fst_conv)
    have e1: "evolves c R A w (w\<lparr>vw_core := c1\<rparr>)"
      by (rule evolves_core) (simp_all add: r1 flip: before_def)
    have e2: "evolves c R A w (fst (persist_platform_vpn_state e k (w\<lparr>vw_core := watchdog_failure c1\<rparr>)))"
    proof (rule evolves_trans)
      show "evolves c R A w (w\<lparr>vw_core := watchdog_failure c1\<rparr>)"
        by (rule evolves_core) (use core_rel_trans [OF r1 core_rel_watchdog] in \<open>simp_all flip: before_def\<close>)
      show "evolves c R A (w\<lparr>vw_core := watchdog_failure c1\<rparr>)
          (fst (persist_platform_vpn_state e k (w\<lparr>vw_core := watchdog_failure c1\<rparr>)))"
        using within_persist by (simp add: within_def)
    qed
    define w3 where "w3 = release_if_clean (w\<lparr>vw_core := merge_remote is_ui remote c1\<rparr>)"
    have e3: "evolves c R A w w3"
      unfolding w3_def
      by (intro evolves_slots evolves_core)
        (use core_rel_trans [OF r1 core_rel_merge] in \<open>simp_all flip: before_def\<close>)
    have e4: "evolves c R A w (w3\<lparr>vw_core := publish_runtime_change (vw_core w3)\<rparr>)"
      by (rule evolves_core [OF e3 core_rel_publish(1)])
    show ?thesis
      using Some True e1 e2 e3 e4
      by (simp add: apply_platform_envelope_def Let_def same w1 flip: before_def w3_def)
  qed (simp add: Some apply_platform_envelope_def)
qed (simp add: apply_platform_envelope_def)

lemma within_sync [within_intros]: "within c R A (sync_platform_vpn_state e k) w"
  by (auto simp: within_def sync_platform_vpn_state_def envelope_evolves
      split: sum.splits option.splits bool.splits)

end
