(* ===== verification/VpnOpsEvolve.thy ===== *)
theory VpnOpsEvolve
  imports VpnEvolution
begin

text \<open>
  Every operation of the platform VPN protocol stays within \<open>evolves\<close>: a lemma per operation with the
  rights it needs. \<open>NewAttempt\<close> is needed by the start of an attempt and by the binding that adopts
  one, \<open>MoveFence\<close> by the operations on the fence of the OS stop and by the claim of a stop.
\<close>

definition codec_ok :: "codec \<Rightarrow> bool" where
  "codec_ok c \<longleftrightarrow> (\<forall>r. storable c r)"

subsection \<open>The journal\<close>

lemma moves_from_missing:
  assumes "effect c path n n'" "journal_load c path n = Inr Missing \<Longrightarrow> n' = n"
  shows "journal_moves c path A n n'"
  using assms by (auto simp: journal_moves_def)

lemma journal_moves_ops:
  assumes "codec_ok c"
  shows "journal_moves c path A n (fst (upgrade_attached_exact c i path a b x n))"
    and "journal_moves c path A n (fst (fence_pending_stop_exact c i path a b n))"
    and "journal_moves c path A n (fst (rebind_attached_exact c i path a b x y n))"
  using assms unfolding codec_ok_def
  by (auto intro!: moves_from_missing effect_upgrade effect_fence effect_rebind missing_kept)

lemma journal_moves_delete:
  "journal_moves c path A n (fst (delete_exact c i path a e n))"
  "journal_moves c path A n (fst (delete_pending_exact c i path a n))"
  by (auto intro!: moves_from_missing effect_delete effect_delete_pending missing_kept)

lemma journal_moves_create:
  assumes "codec_ok c" "oj_attempt_id r \<in> A"
  shows "journal_moves c path A n (fst (create_pending_exact c i path r n))"
proof -
  have st: "storable c r" using assms(1) by (simp add: codec_ok_def)
  show ?thesis
  proof (cases rule: create_cases [OF st, of i path n])
    case 2
    then show ?thesis using assms(2) effect_create [OF st] by (auto simp: journal_moves_def)
  qed simp
qed

lemma within_journal_ops [within_intros]:
  assumes "codec_ok c"
  shows "within c R A (on_journal (upgrade_attached_exact c i (owner_journal_path (vw_core w)) a b x)) w"
    and "within c R A (on_journal (fence_pending_stop_exact c i (owner_journal_path (vw_core w)) a b)) w"
    and "within c R A (on_journal (rebind_attached_exact c i (owner_journal_path (vw_core w)) a b x y)) w"
  using journal_moves_ops [OF assms] by (auto intro: within_journal)

lemma within_journal_deletes [within_intros]:
  "within c R A (on_journal (delete_exact c i (owner_journal_path (vw_core w)) a e)) w"
  "within c R A (on_journal (delete_pending_exact c i (owner_journal_path (vw_core w)) a)) w"
  using journal_moves_delete by (auto intro: within_journal)

lemma within_journal_create [within_intros]:
  "codec_ok c \<Longrightarrow> oj_attempt_id r \<in> A \<Longrightarrow>
    within c R A (on_journal (create_pending_exact c i (owner_journal_path (vw_core w)) r)) w"
  using journal_moves_create by (auto intro: within_journal)

lemma within_slots [within_intros]:
  "within c R A m (set_issuer slot w) \<Longrightarrow> within c R A (changing (set_issuer slot) m) w"
  "within c R A m (set_extension slot w) \<Longrightarrow> within c R A (changing (set_extension slot) m) w"
  "within c R A m (release_leases w) \<Longrightarrow> within c R A (changing release_leases m) w"
  "within c R A m (release_if_clean w) \<Longrightarrow> within c R A (changing release_if_clean m) w"
  by (auto intro!: within_changing)

subsection \<open>Intents and the fence of the OS stop\<close>

text \<open>The updates of the core, under the guards the operations check.\<close>

lemma core_rel_intent: "core_rel R c (c\<lparr>vc_intent_epoch := vc_intent_epoch c + 1\<rparr>)"
  by (auto simp: core_defs)

lemma core_rel_fence:
  assumes "MoveFence \<in> R"
  shows "0 < i \<Longrightarrow> vc_intent_epoch c = i \<Longrightarrow> core_rel R c (c\<lparr>vc_os_stop_epoch := i,
      vc_os_stop_attempt := [], vc_os_stop_in_flight := True\<rparr>)"
    and "vc_os_stop_epoch c \<noteq> 0 \<Longrightarrow> core_rel R c (c\<lparr>vc_os_stop_in_flight := True\<rparr>)"
    and "core_rel R c (c\<lparr>vc_os_stop_epoch := 0, vc_os_stop_attempt := [], vc_os_stop_in_flight := False\<rparr>)"
    and "core_rel R c (c\<lparr>vc_os_stop_in_flight := False\<rparr>)"
  using assms by (auto simp: core_defs)

lemma within_advance: "within c R A advance_platform_vpn_intent w"
  unfolding advance_platform_vpn_intent_def by (intro within_intros core_rel_intent)

lemma within_os_stop:
  assumes "MoveFence \<in> R"
  shows "within c R A (begin_platform_vpn_os_stop intent attempt) w"
    and "within c R A (complete_platform_vpn_os_stop intent attempt) w"
    and "within c R A (fail_platform_vpn_os_stop intent attempt) w"
  unfolding begin_platform_vpn_os_stop_def complete_platform_vpn_os_stop_def fail_platform_vpn_os_stop_def
  by (intro within_intros core_rel_fence [OF assms]; simp)+

subsection \<open>Starting and binding\<close>

lemma within_begin:
  assumes "codec_ok (ev_codec e)" "NewAttempt \<in> R"
  shows "within (ev_codec e) R UNIV (begin_platform_vpn_start_for_intent e intent) w"
  using assms
  unfolding begin_platform_vpn_start_for_intent_def issue_attempt_def Let_def
  by (intro within_intros core_rel_begin UNIV_I)
    (auto split: option.splits journal_read.splits intro!: within_intros core_rel_begin UNIV_I)

text \<open>The frame the UI published replaces the attempt of the Extension; nothing of it survives the merge.\<close>

definition adopted :: "platform_state \<Rightarrow> vpn_core \<Rightarrow> vpn_core \<Rightarrow> bool" where
  "adopted remote before c \<longleftrightarrow> vc_outcome c = rs_outcome remote \<and> same_fence before c \<and>
     vc_intent_epoch c = vc_intent_epoch before \<and> vc_root c = vc_root before"

lemma adopted_stages:
  "adopted remote before (adopt_remote remote before)"
  "adopted remote before c \<Longrightarrow> adopted remote before (observe_remote now remote c)"
  "adopted remote before c \<Longrightarrow>
     adopted remote before (fst (platform_heartbeat_watchdog_expired now False run m adv c))"
  "adopted remote before c \<Longrightarrow> adopted remote before (c\<lparr>vc_stop_requested := b\<rparr>)"
  by (auto simp: adopted_def adopt_remote_def observe_remote_def same_fence_def
      platform_heartbeat_watchdog_expired_def)

lemma adopted_lifecycle:
  assumes "adopted remote before c" "NewAttempt \<in> R"
  shows "core_rel R before (merge_lifecycle remote c)"
proof (cases "terminal (rs_outcome remote)")
  case True
  then show ?thesis
    using assms by (auto simp: merge_lifecycle_def adopted_def core_rel_def core_ok_def same_fence_def)
next
  case False
  then have "\<not> terminal (vc_outcome c)" using assms by (simp add: adopted_def)
  with False show ?thesis
    using assms
    by (auto simp: merge_lifecycle_def adopted_def core_rel_def core_ok_def same_fence_def Let_def)
qed

lemma core_rel_adopt:
  assumes "adopted remote before c" "NewAttempt \<in> R"
  shows "core_rel R before (merge_remote False remote c)"
proof -
  have "core_rel R before (merge_lifecycle remote (c\<lparr>vc_stop_requested := b\<rparr>))" for b
    by (rule adopted_lifecycle [OF adopted_stages(4)]) (fact assms)+
  then show ?thesis
    unfolding merge_remote_def Let_def if_False by (intro core_rel_details)
qed

lemma within_sync_for_binding [within_intros]:
  assumes "NewAttempt \<in> R"
  shows "within c R A (sync_platform_for_binding e k attempt) w"
proof -
  have "evolves c R A w (apply_platform_envelope e k False (Some attempt) (Some remote) w)" for remote
  proof (cases "rs_attempt remote = vc_attempt (vw_core w)")
    case True
    then have "apply_platform_envelope e k False (Some attempt) (Some remote) w =
        apply_platform_envelope e k False None (Some remote) w"
      by (simp add: apply_platform_envelope_def accepts_frame_def)
    then show ?thesis by (simp add: envelope_evolves)
  next
    case adopt: False
    show ?thesis
    proof (cases "accepts_frame False (Some attempt) remote (vw_core w)")
      case True
      define adv where "adv = (vc_remote_updated (adopt_remote remote (vw_core w)) < rs_updated remote)"
      define c1 where "c1 = fst (platform_heartbeat_watchdog_expired (ev_now e) False (rs_running remote)
        True adv (observe_remote (ev_now e) remote (adopt_remote remote (vw_core w))))"
      have pair: "platform_heartbeat_watchdog_expired (ev_now e) False (rs_running remote)
          True adv (observe_remote (ev_now e) remote (adopt_remote remote (vw_core w))) = (c1, False)"
        by (simp add: c1_def platform_heartbeat_watchdog_expired_def)
      have "core_rel R (vw_core w) (merge_remote False remote c1)"
        unfolding c1_def by (intro core_rel_adopt adopted_stages assms)
      then have e3: "evolves c R A w (release_if_clean (w\<lparr>vw_core := merge_remote False remote c1\<rparr>))"
        by (intro evolves_slots evolves_core) simp_all
      then show ?thesis
        using True adopt evolves_core [OF e3 core_rel_publish(1)] pair
        by (simp add: apply_platform_envelope_def Let_def adv_def)
    qed (simp add: apply_platform_envelope_def)
  qed
  moreover have "evolves c R A w (apply_platform_envelope e k False (Some attempt) None w)"
    by (simp add: apply_platform_envelope_def)
  ultimately have "evolves c R A w (apply_platform_envelope e k False (Some attempt) f w)" for f
    by (cases f) auto
  then show ?thesis
    by (auto simp: within_def sync_platform_for_binding_def split: sum.splits option.splits bool.splits)
qed

lemma core_rel_neutral:
  "core_rel R c (c\<lparr>vc_owner_pid := p, vc_owner_start := t\<rparr>)"
  "core_rel R c (c\<lparr>vc_delivery := True, vc_attached := True, vc_cleanup_complete := False,
     vc_watchdog_recoverable := False\<rparr>)"
  "core_rel R c (c\<lparr>vc_delivery := True\<rparr>)"
  "core_rel R c (c\<lparr>vc_auto_pending := b, vc_auto_attempt := d, vc_auto_attempts := n, vc_auto_not_before := nb\<rparr>)"
  "core_rel R c (c\<lparr>vc_auto_pending := b, vc_auto_attempts := n, vc_auto_not_before := nb\<rparr>)"
  "core_rel R c (c\<lparr>vc_remote_updated := u, vc_remote_seen := s, vc_remote_stale := s', vc_watchdog_recoverable := b\<rparr>)"
  by (auto simp: core_defs)

lemma within_take_ownership:
  assumes "codec_ok (ev_codec e)"
  shows "within (ev_codec e) R A (take_ownership e attempt owner journal) w"
proof -
  note intros = within_intros within_journal_ops [OF assms]
  show ?thesis
    unfolding take_ownership_def Let_def
    by (auto split: owner_phase.splits option.splits lease_observation.splits intro!: intros)
qed

lemma within_publish_binding: "within c R A (publish_platform_vpn_binding e attempt owner) w"
  unfolding publish_platform_vpn_binding_def Let_def
  by (intro within_intros core_rel_neutral)

lemma within_bind:
  assumes "codec_ok (ev_codec e)" "NewAttempt \<in> R"
  shows "within (ev_codec e) R A (bind_platform_vpn_start e attempt) w"
proof -
  note intros = within_intros within_sync_for_binding [OF assms(2)]
  have lease: "within (ev_codec e) R A m (set_extension (Some fd) v) \<Longrightarrow>
      within (ev_codec e) R A (changing (case Some fd of None \<Rightarrow> id | Some fd \<Rightarrow> set_extension (Some fd)) m) v"
    "within (ev_codec e) R A m v \<Longrightarrow>
      within (ev_codec e) R A (changing (case None of None \<Rightarrow> id | Some fd \<Rightarrow> set_extension (Some fd)) m) v"
    for m :: "string act" and fd v
    by (auto intro: within_slots within_changing)
  have take: "within (ev_codec e) R A (and_then (take_ownership e attempt owner journal) (\<lambda>lease.
      changing (case lease of None \<Rightarrow> id | Some fd \<Rightarrow> set_extension (Some fd))
        (publish_platform_vpn_binding e attempt owner))) v" for owner journal v
  proof (rule within_and_then)
    show "within (ev_codec e) R A (take_ownership e attempt owner journal) v"
      by (rule within_take_ownership) fact
    fix a :: "nat option" and u
    show "within (ev_codec e) R A (changing (case a of None \<Rightarrow> id | Some fd \<Rightarrow> set_extension (Some fd))
        (publish_platform_vpn_binding e attempt owner)) (fst (take_ownership e attempt owner journal v))"
      by (cases a) (simp_all add: lease within_publish_binding del: option.case)
  qed
  have reopen: "core_rel R c (if vc_outcome c = OutConnected \<and> p then reopen_attempt c else c)" for c p
    by (simp add: core_rel_reopen)
  have found: "within (ev_codec e) R A (case j of
      Missing \<Rightarrow> give_up err
    | Present journal \<Rightarrow> if oj_attempt_id journal \<noteq> attempt then give_up (err2 journal)
        else and_then (take_ownership e attempt owner journal) (\<lambda>lease.
          changing (case lease of None \<Rightarrow> id | Some fd \<Rightarrow> set_extension (Some fd))
            (publish_platform_vpn_binding e attempt owner))) v" for j err err2 owner v
    by (cases j) (simp_all add: take within_basic)
  show ?thesis
    unfolding bind_platform_vpn_start_def by (intro intros reopen found)
qed

subsection \<open>Failing, cancelling and stopping\<close>

lemma within_fail_if: "within (ev_codec e) R A (fail_platform_vpn_start_if e attempt err b) w"
proof -
  have kept: "vw_core (fst ((if b then on_journal f else done_with True) v)) = vw_core v" for f v
    by (simp add: done_with_def)
  show ?thesis
    unfolding fail_platform_vpn_start_if_def
    by (intro within_intros core_rel_fail_start [where attempt = attempt]; simp add: kept)
qed

lemma within_fail:
  "within (ev_codec e) R A (fail_unattached_platform_vpn_start e attempt err) w"
  "within (ev_codec e) R A (fail_platform_vpn_start e attempt err) w"
  by (simp_all add: fail_unattached_platform_vpn_start_def fail_platform_vpn_start_def within_fail_if)

lemma within_cancel: "within c R A (cancel_platform_vpn_start e attempt) w"
  unfolding cancel_platform_vpn_start_def by (intro within_intros core_rel_cancel)

lemma within_request_stop: "within c R A (request_platform_vpn_stop e attempt) w"
  unfolding request_platform_vpn_stop_def by (intro within_intros core_rel_other)

lemma within_fence_owner:
  assumes "codec_ok (ev_codec e)"
  shows "within (ev_codec e) R A (fence_owner e journal) w"
  unfolding fence_owner_def Let_def
  by (auto split: owner_phase.splits option.splits journal_read.splits
      intro!: within_intros within_journal_ops [OF assms])

lemma within_stop: "within c R A (stop_vpn_before e attempt) w" "within c R A (stop_vpn_after e attempt) w"
  unfolding stop_vpn_before_def stop_vpn_after_def
  by (cases attempt; simp; intro within_intros core_rel_stop)+

lemma evolves_intent: "evolves c R A u v \<Longrightarrow> vc_intent_epoch (vw_core u) \<le> vc_intent_epoch (vw_core v)"
  by (simp add: evolves_def core_rel_def)

lemma within_own_stop:
  assumes "MoveFence \<in> R" "0 < intent" "intent \<le> vc_intent_epoch (vw_core w)"
  shows "within c R A (update_core (own_os_stop intent attempt) (done_with b)) w"
  by (intro within_intros core_rel_own_stop assms)

lemma within_claim:
  assumes "codec_ok (ev_codec e)" "MoveFence \<in> R"
  shows "within (ev_codec e) R A (claim_current_platform_vpn_stop e intent) w"
proof -
  have found: "within (ev_codec e) R A
      (and_then m1 (\<lambda>_. and_then (fence_owner e journal) (\<lambda>_.
        update_core (own_os_stop intent attempt) (done_with attempt)))) v"
    if "0 < intent" "intent \<le> vc_intent_epoch (vw_core v)" "within (ev_codec e) R A m1 v"
    for m1 :: "unit act" and journal attempt v
    by (intro within_and_then within_fence_owner within_own_stop assms that(1,3))
      (use that(2) in \<open>auto dest!: evolves_intent\<close>)
  have look: "within (ev_codec e) R A (with_core (\<lambda>c. case j of
         Missing \<Rightarrow>
           if unattached_cleanup c then give_up (err c)
           else (case retained of
               Some attempt \<Rightarrow> update_core (own_os_stop intent attempt) (done_with attempt)
             | None \<Rightarrow> done_with [])
       | Present journal \<Rightarrow>
           let attempt = oj_attempt_id journal in
           if retained \<noteq> None \<and> retained \<noteq> Some attempt then give_up (err2 attempt)
           else if unattached_cleanup c \<and> vc_attempt c \<noteq> attempt then give_up (err3 c attempt)
           else
             and_then (if unattached_cleanup c
                       then update_core claim_stop_core (persist_platform_vpn_state e 1)
                       else done_with ()) (\<lambda>_.
             and_then (fence_owner e journal) (\<lambda>_.
             update_core (own_os_stop intent attempt) (done_with attempt))))) v"
    if "0 < intent" "intent \<le> vc_intent_epoch (vw_core v)" for j v err err2 err3 and retained :: "string option"
  proof (cases j)
    case Missing
    show ?thesis
      unfolding Missing journal_read.case
      by (intro within_core within_if within_basic, cases retained)
        (simp_all only: option.case within_own_stop [OF assms(2)] within_basic that)
  next
    case (Present journal)
    show ?thesis
      unfolding Present journal_read.case Let_def
      by (intro within_core within_if within_basic found within_update within_persist core_rel_claim that)
  qed
  have here: "evolves (ev_codec e) R A w v \<Longrightarrow> vc_intent_epoch (vw_core w) = intent \<Longrightarrow>
      intent \<le> vc_intent_epoch (vw_core (fst (read_owner e 0 v)))" for v
    using evolves_intent by fastforce
  show ?thesis
    unfolding claim_current_platform_vpn_stop_def Let_def [of "if _ then _ else None"]
    by (rule within_core, intro within_if within_basic within_and_then within_sync within_reads look here)
      auto
qed

subsection \<open>Reports of the Extension\<close>

lemma within_updating:
  assumes "\<And>c c'. platform_attempt_accepts_updates attempt c \<Longrightarrow> g c = Some c' \<Longrightarrow> core_rel R c c'"
  shows "within c R A (updating_attempt e attempt g) w"
  unfolding updating_attempt_def
  by (intro within_intros) (auto split: option.splits intro!: within_intros dest: assms)

lemma core_rel_starting:
  assumes "platform_attempt_accepts_updates attempt c"
  shows "core_rel R c (c\<lparr>vc_starting := False\<rparr>)"
    and "vc_outcome c = OutPending \<Longrightarrow> core_rel R c (c\<lparr>vc_starting := True, vc_running := False,
      vc_protected := False, vc_protect_error := None\<rparr>)"
  using assms
  by (auto simp: core_rel_def core_ok_def same_attempt_def same_fence_def platform_attempt_accepts_updates_def)

lemma within_setters:
  "within c R A (set_platform_vpn_starting_for_attempt e attempt b) w"
  "within c R A (set_platform_vpn_failed_for_attempt e attempt err) w"
  "within c R A (set_platform_network_protected_for_attempt e attempt b err') w"
proof -
  show "within c R A (set_platform_vpn_starting_for_attempt e attempt b) w"
    unfolding set_platform_vpn_starting_for_attempt_def Let_def
    by (rule within_updating, cases b)
      (auto simp only: simp_thms if_True if_False option.inject option.distinct core_rel_starting
        split: if_split_asm)
  show "within c R A (set_platform_vpn_failed_for_attempt e attempt err) w"
    unfolding set_platform_vpn_failed_for_attempt_def
    by (rule within_updating) (auto simp only: option.inject core_rel_failure)
  show "within c R A (set_platform_network_protected_for_attempt e attempt b err') w"
    unfolding set_platform_network_protected_for_attempt_def
    by (rule within_updating) (auto simp: core_rel_def core_ok_def same_attempt_def same_fence_def)
qed

lemma within_lift: "(\<And>a. r = Inr a \<Longrightarrow> within c R A (f a) w) \<Longrightarrow> within c R A (and_then (lift_result r) f) w"
  by (cases r) (simp_all add: within_def and_then_def lift_result_def)

lemma ensure_active:
  "ensure_platform_attempt_active attempt c = Inr u \<Longrightarrow>
     vc_attempt c \<noteq> [] \<and> vc_attached c \<and> (vc_outcome c = OutPending \<or> vc_outcome c = OutConnected)"
  by (cases "vc_outcome c") (auto simp: ensure_platform_attempt_active_def split: if_splits)

lemma core_rel_connected:
  assumes "\<not> terminal (vc_outcome c)"
  shows "core_rel R c (c\<lparr>vc_starting := False, vc_running := True, vc_engine := en, vc_outcome := OutConnected\<rparr>)"
    and "core_rel R c (c\<lparr>vc_starting := False, vc_running := True\<rparr>)"
    and "core_rel R c (c\<lparr>vc_starting := False, vc_running := True, vc_outcome := OutConnected\<rparr>)"
    and "core_rel R c (c\<lparr>vc_proxy := p, vc_starting := False, vc_running := True,
      vc_engine := en, vc_exit_revision := x\<rparr>)"
    and "core_rel R c (c\<lparr>vc_proxy := p, vc_starting := False, vc_running := True,
      vc_engine := en, vc_exit_revision := x, vc_outcome := OutConnected\<rparr>)"
  using assms by (auto simp: core_rel_def core_ok_def same_attempt_def same_fence_def)

lemma within_connected:
  "within c R A (start_external_platform_vpn e eng attempt) w"
  "within c R A (commit_vpn_start e attempt proxy) w"
proof -
  have live: "\<not> terminal (vc_outcome k)" if "ensure_platform_attempt_active attempt k = Inr u" for k u
    using ensure_active [OF that] by auto
  show "within c R A (start_external_platform_vpn e eng attempt) w"
    unfolding start_external_platform_vpn_def
    by (intro within_lift within_and_then within_sync within_core within_update within_persist
        core_rel_connected live)
  show "within c R A (commit_vpn_start e attempt proxy) w"
    unfolding commit_vpn_start_def Let_def
    by (intro within_lift within_and_then within_sync within_core within_update within_persist)
      (simp add: core_rel_connected live invalidate_exit_location_def)
qed

lemma within_tick: "within c R A (extension_tick e attempt free) w"
proof -
  have publish: "within c R A (publishing e s) v" for s v
    unfolding publishing_def by (intro within_intros)
  have up: "core_rel R k (if vc_outcome (k\<lparr>vc_starting := False, vc_running := True\<rparr>) = OutPending
      then k\<lparr>vc_starting := False, vc_running := True\<rparr>\<lparr>vc_outcome := OutConnected\<rparr>
      else k\<lparr>vc_starting := False, vc_running := True\<rparr>)" if "\<not> terminal (vc_outcome k)" for k
    using core_rel_connected [OF that] by simp
  show ?thesis
    unfolding extension_tick_def Let_def
    by (intro within_and_then within_sync within_core within_if within_basic publish)
      (auto simp only: split: vpn_lifecycle.splits intro!: within_if within_update publish within_basic
        core_rel_failure up)
qed

lemma within_exit: "within c R A (publish_native_vpn_exit e attempt generation err) w"
proof -
  have "within c R A (update_core (apply_platform_failure err)
      (\<lambda>w. (fst (persist_platform_vpn_state e 0 w), Inr ()))) v" for v
    by (intro within_update core_rel_failure) (use within_persist in \<open>simp add: within_def\<close>)
  then show ?thesis
    unfolding publish_native_vpn_exit_def
    by (auto simp only: split: vpn_lifecycle.splits intro!: within_basic within_core within_if)
qed

subsection \<open>Cleanup and recovery\<close>

lemma within_cleanup: "within (ev_codec e) R A (complete_platform_vpn_cleanup e attempt) w"
proof -
  have found: "within (ev_codec e) R A (case j of
      Missing \<Rightarrow> give_up err
    | Present journal \<Rightarrow> if oj_attempt_id journal \<noteq> attempt then done_with False
        else if P journal then
          and_then (on_journal (delete_exact (ev_codec e) i (owner_journal_path (vw_core v)) attempt x)) (\<lambda>deleted.
            if \<not> deleted then give_up err2
            else update_core clean_core (changing release_leases
              (and_then (persist_platform_vpn_state e 1) (\<lambda>_. done_with True))))
        else give_up (err3 journal)) (fst (read_owner e 0 v))"
    if "terminal (vc_outcome (vw_core v))" for j i x err err2 err3 P v
  proof (cases j)
    case (Present journal)
    have path: "owner_journal_path (vw_core v) = owner_journal_path (vw_core (fst (read_owner e 0 v)))"
      by simp
    show ?thesis
      unfolding Present journal_read.case path
      by (intro within_intros core_rel_clean) (simp add: that)
  qed (simp add: within_basic)
  show ?thesis
    unfolding complete_platform_vpn_cleanup_def
    by (intro within_intros found) auto
qed

lemma within_recovery_look: "within c R A (recovery_look e attempt) w"
  unfolding recovery_look_def by (intro within_intros)

lemma within_recovery_proof: "within c R A (recovery_proof e attempt fence) w"
proof -
  have "within c R A (case j of
       Missing \<Rightarrow> and_then (sync_platform_vpn_state e 1) (\<lambda>_. with_core (\<lambda>c.
           if vc_attempt c = attempt \<and> vc_cleanup_complete c then done_with (Settled True)
           else give_up err))
     | Present journal \<Rightarrow>
         if oj_attempt_id journal \<noteq> attempt then done_with (Settled False)
         else (case (oj_phase journal, oj_extension journal) of
             (Stopping, None) \<Rightarrow> done_with (Evidence None Proven (oj_issuer journal))
           | (Pending, None) \<Rightarrow>
               if fence then done_with (Evidence None Proven (oj_issuer journal))
               else and_then (observe_lease e 0 (owner_lease_record attempt (oj_issuer journal) Issuer))
                 (\<lambda>seen. done_with (Evidence None (lease_proof seen) (oj_issuer journal)))
           | (Attached, Some extension) \<Rightarrow>
               and_then (observe_lease e 0 (owner_lease_record attempt extension Extension))
                 (\<lambda>seen. done_with (Evidence (Some extension) (lease_proof seen) extension))
           | _ \<Rightarrow> give_up err2)) v" for j err err2 v
  proof (cases j)
    case Missing
    then show ?thesis by (simp only: journal_read.case) (intro within_intros)
  next
    case (Present r)
    then show ?thesis
      by (cases "oj_phase r"; cases "oj_extension r") (simp_all, auto intro!: within_intros)
  qed
  then show ?thesis
    unfolding recovery_proof_def by (intro within_and_then within_reads)
qed

lemma within_recovery_commit: "within (ev_codec e) R A (recovery_commit e attempt expected) w"
  unfolding recovery_commit_def by (intro within_intros core_rel_recovered)

lemma within_recovery_round: "within (ev_codec e) R A (recovery_round e attempt expired) w"
proof -
  have settle: "within (ev_codec e) R A (case ev of
           Settled b \<Rightarrow> done_with (Some b)
         | Evidence expected proof identity \<Rightarrow>
             (case proof of
                Proven \<Rightarrow> recovery_commit e attempt expected
              | OwnerAlive \<Rightarrow> done_with (if expired then Some False else None)
              | OwnerLivenessUnknown \<Rightarrow> give_up (err identity))) v" for ev err v
    by (auto split: recovery_evidence.split cleanup_recovery_proof.split
        intro: within_basic within_recovery_commit)
  have look: "within (ev_codec e) R A (case look of None \<Rightarrow> done_with (Some True) | Some fence \<Rightarrow> m fence) v"
    if "\<And>fence. within (ev_codec e) R A (m fence) v" for look and m :: "bool \<Rightarrow> bool option act" and v
    using that by (auto split: option.split intro: within_basic)
  show ?thesis
    unfolding recovery_round_def
    by (intro within_if within_basic within_and_then within_recovery_look look within_recovery_proof settle)
qed

subsection \<open>The automatic restart\<close>

lemma core_rel_released:
  "core_rel R c (arm_auto_recovery (was_connected c) (apply_platform_failure err c))"
  using core_rel_failure core_rel_publish(5) core_rel_trans by blast

lemma within_refresh: "within c R A (refresh_owner_liveness e) w"
proof -
  have drop: "within c R A (\<lambda>w. case m w of (w, r) \<Rightarrow> (w\<lparr>vw_extension := drop_lease fd (vw_extension w)\<rparr>, r)) v"
    if "within c R A m v" for m :: "unit act" and fd v
    using that by (simp add: within_def evolves_files case_prod_beta)
  have inner: "within c R A (with_core (\<lambda>c. case j of
        Missing \<Rightarrow> done_with ()
      | Present journal \<Rightarrow> if P journal c then done_with ()
          else update_core (\<lambda>c. arm_auto_recovery (was_connected c) (apply_platform_failure err c))
                 (persist_platform_vpn_state e 1))) v" for j P err v
    by (cases j) (auto intro!: within_core within_basic within_if within_update within_persist core_rel_released)
  have lease: "within c R A (case lease of None \<Rightarrow> done_with () | Some fd \<Rightarrow> m fd) v"
    if "\<And>fd. within c R A (m fd) v" for lease :: "nat option" and m :: "nat \<Rightarrow> unit act" and v
    using that by (auto split: option.split intro: within_basic)
  show ?thesis
    unfolding refresh_owner_liveness_def
    by (intro within_core within_if within_basic within_and_then within_files lease drop within_reads inner)
qed

lemma within_cold: "within c R A (arm_cold_recovery e) w"
proof -
  have "evolves c R A v (fst (detect_cold_orphaned_connected_vpn e v))" for v
  proof -
    obtain v1 r1 where j: "read_owner e 2 v = (v1, r1)" by fastforce
    have e1: "evolves c R A v v1" using within_reads(1) [of c R A e 2 v] j by (simp add: within_def)
    have e2: "evolves c R A v v2" if "observe_lease e 2 r v1 = (v2, r2)" for r v2 r2
      using within_reads(2) [of c R A e 2 r v1] that evolves_trans [OF e1] by (simp add: within_def)
    show ?thesis
      using e1 by (auto simp: detect_cold_orphaned_connected_vpn_def j dest: e2
          split: sum.splits journal_read.splits option.splits prod.splits lease_observation.splits)
  qed
  then have detect: "within c R A (detect_cold_orphaned_connected_vpn e) v" for v by (simp add: within_def)
  show ?thesis
    unfolding arm_cold_recovery_def
    by (intro within_core within_if within_basic within_and_then detect)
      (auto split: option.split intro!: within_basic within_update core_rel_neutral)
qed

lemma within_auto:
  "within c R A (claim_platform_vpn_auto_recovery e) w"
  "within c R A (rearm_platform_vpn_auto_recovery e) w"
proof -
  have live: "within c R A (case ev_ipc e of Inl err \<Rightarrow> give_up err
      | Inr None \<Rightarrow> refresh_owner_liveness e | Inr (Some True) \<Rightarrow> refresh_owner_liveness e
      | Inr (Some False) \<Rightarrow> done_with ()) v" for v
    by (auto split: sum.split option.split bool.split intro: within_basic within_refresh)
  show "within c R A (claim_platform_vpn_auto_recovery e) w"
    unfolding claim_platform_vpn_auto_recovery_def
    by (intro within_and_then within_sync within_core within_if within_basic within_cold live
        within_update core_rel_other core_rel_neutral)
  show "within c R A (rearm_platform_vpn_auto_recovery e) w"
    unfolding rearm_platform_vpn_auto_recovery_def
    by (intro within_core within_if within_basic within_update core_rel_other)
qed

lemma within_attach: "within c R A attach_platform_shared_memory w"
  unfolding attach_platform_shared_memory_def by (intro within_intros core_rel_neutral)

lemma within_validate_want: "within c R A (validate_platform_owner_journal_for_want e attempt) w"
  unfolding validate_platform_owner_journal_for_want_def
  by (intro within_and_then within_reads)
    (auto split: journal_read.split owner_phase.split lease_observation.split intro!: within_intros)

end
