(* ===== verification/VpnRuns.thy ===== *)
theory VpnRuns
  imports VpnOpsEvolve
begin

text \<open>
  Runs of the platform VPN protocol as one process sees them: its own operations in any order and, at
  any moment, the moves of its peers on the files both share. The rights of \<open>R\<close> say which operations
  a run may contain.
\<close>

subsection \<open>Runs\<close>

inductive vpn_step :: "codec \<Rightarrow> right set \<Rightarrow> vpn_world \<Rightarrow> vpn_world \<Rightarrow> bool" for c R where
  advance: "vpn_step c R w (fst (advance_platform_vpn_intent w))"
| begin_os_stop: "MoveFence \<in> R \<Longrightarrow> vpn_step c R w (fst (begin_platform_vpn_os_stop intent attempt w))"
| complete_os_stop: "MoveFence \<in> R \<Longrightarrow> vpn_step c R w (fst (complete_platform_vpn_os_stop intent attempt w))"
| fail_os_stop: "MoveFence \<in> R \<Longrightarrow> vpn_step c R w (fst (fail_platform_vpn_os_stop intent attempt w))"
| claim_stop: "MoveFence \<in> R \<Longrightarrow> ev_codec e = c \<Longrightarrow>
    vpn_step c R w (fst (claim_current_platform_vpn_stop e intent w))"
| begin_start: "NewAttempt \<in> R \<Longrightarrow> ev_codec e = c \<Longrightarrow>
    vpn_step c R w (fst (begin_platform_vpn_start_for_intent e intent w))"
| bind: "NewAttempt \<in> R \<Longrightarrow> ev_codec e = c \<Longrightarrow> vpn_step c R w (fst (bind_platform_vpn_start e attempt w))"
| fail_unattached: "ev_codec e = c \<Longrightarrow> vpn_step c R w (fst (fail_unattached_platform_vpn_start e attempt err w))"
| fail_start: "ev_codec e = c \<Longrightarrow> vpn_step c R w (fst (fail_platform_vpn_start e attempt err w))"
| cancel: "vpn_step c R w (fst (cancel_platform_vpn_start e attempt w))"
| request_stop: "vpn_step c R w (fst (request_platform_vpn_stop e attempt w))"
| stop_before: "vpn_step c R w (fst (stop_vpn_before e target w))"
| stop_after: "vpn_step c R w (fst (stop_vpn_after e target w))"
| set_starting: "vpn_step c R w (fst (set_platform_vpn_starting_for_attempt e attempt b w))"
| set_failed: "vpn_step c R w (fst (set_platform_vpn_failed_for_attempt e attempt err w))"
| set_protected: "vpn_step c R w (fst (set_platform_network_protected_for_attempt e attempt b err' w))"
| external: "vpn_step c R w (fst (start_external_platform_vpn e eng attempt w))"
| commit: "vpn_step c R w (fst (commit_vpn_start e attempt proxy w))"
| tick: "vpn_step c R w (fst (extension_tick e attempt free w))"
| native_exit: "vpn_step c R w (fst (publish_native_vpn_exit e attempt generation err w))"
| cleanup: "ev_codec e = c \<Longrightarrow> vpn_step c R w (fst (complete_platform_vpn_cleanup e attempt w))"
| recovery_look: "vpn_step c R w (fst (recovery_look e attempt w))"
| recovery_proof: "vpn_step c R w (fst (recovery_proof e attempt fence w))"
| recovery_commit: "ev_codec e = c \<Longrightarrow> vpn_step c R w (fst (recovery_commit e attempt expected w))"
| claim_restart: "vpn_step c R w (fst (claim_platform_vpn_auto_recovery e w))"
| rearm_restart: "vpn_step c R w (fst (rearm_platform_vpn_auto_recovery e w))"
| attach_memory: "vpn_step c R w (fst (attach_platform_shared_memory w))"
| sync: "vpn_step c R w (fst (sync_platform_vpn_state e k w))"
| peer: "vpn_step c R w (w\<lparr>vw_journal := n, vw_issuer := i, vw_extension := x, vw_in := f\<rparr>)"

lemma vpn_step_core:
  assumes "vpn_step c R w w'" "codec_ok c"
  shows "core_rel R (vw_core w) (vw_core w')"
proof -
  have core: "core_rel R (vw_core w) (vw_core (fst (m w)))" if "within c' R A m w"
    for c' A and m :: "'a act" and w
    using that by (simp add: within_def evolves_def)
  from assms show ?thesis
    by (induction rule: vpn_step.induct)
      (auto intro: core [OF within_advance [of c R UNIV]] core [OF within_os_stop(1) [of R c UNIV]]
        core [OF within_os_stop(2) [of R c UNIV]] core [OF within_os_stop(3) [of R c UNIV]]
        core [OF within_claim [of _ R UNIV]] core [OF within_begin] core [OF within_bind [of _ R UNIV]]
        core [OF within_fail(1) [of _ R UNIV]] core [OF within_fail(2) [of _ R UNIV]]
        core [OF within_cancel [of c R UNIV]] core [OF within_request_stop [of c R UNIV]]
        core [OF within_stop(1) [of c R UNIV]] core [OF within_stop(2) [of c R UNIV]]
        core [OF within_setters(1) [of c R UNIV]] core [OF within_setters(2) [of c R UNIV]]
        core [OF within_setters(3) [of c R UNIV]] core [OF within_connected(1) [of c R UNIV]]
        core [OF within_connected(2) [of c R UNIV]] core [OF within_tick [of c R UNIV]]
        core [OF within_exit [of c R UNIV]] core [OF within_cleanup [of _ R UNIV]]
        core [OF within_recovery_look [of c R UNIV]] core [OF within_recovery_proof [of c R UNIV]]
        core [OF within_recovery_commit [of _ R UNIV]] core [OF within_auto(1) [of c R UNIV]]
        core [OF within_auto(2) [of c R UNIV]] core [OF within_attach [of c R UNIV]]
        core [OF within_sync [of c R UNIV]])
qed

lemma vpn_run_core:
  assumes "(vpn_step c R)\<^sup>*\<^sup>* w w'" "codec_ok c"
  shows "core_rel R (vw_core w) (vw_core w')"
  using assms
proof (induction rule: rtranclp_induct)
  case (step v v')
  then show ?case using core_rel_trans vpn_step_core by blast
qed simp

lemma core_ok_default [simp]: "core_ok (vpn_core_default root)"
  by (simp add: core_ok_def vpn_core_default_def)

lemma core_ok_session: "core_ok c \<Longrightarrow> terminal (vc_outcome c) \<Longrightarrow> platform_vpn_session_id c = None"
  by (simp add: core_ok_def platform_vpn_session_id_def)

lemma fence_refuses_start:
  assumes "vc_os_stop_epoch (vw_core w) \<noteq> 0"
  shows "\<exists>err. begin_platform_vpn_start_for_intent e intent w = (w, Inl err)"
  using assms by (cases "ev_identity e")
    (auto simp: begin_platform_vpn_start_for_intent_def and_then_def lift_result_def with_core_def give_up_def)

subsection \<open>Results of acts\<close>

lemma and_then_Inr:
  "and_then m f w = (w', Inr b) \<longleftrightarrow> (\<exists>v a. m w = (v, Inr a) \<and> f a v = (w', Inr b))"
  by (auto simp: and_then_def split: prod.splits sum.splits)

lemma act_results:
  "done_with a w = (w', r) \<longleftrightarrow> w' = w \<and> r = Inr a"
  "give_up err w = (w', r) \<longleftrightarrow> w' = w \<and> r = Inl err"
  "lift_result q w = (w', r) \<longleftrightarrow> w' = w \<and> r = q"
  by (auto simp: done_with_def give_up_def lift_result_def)

lemma act_steps:
  "with_core f w = f (vw_core w) w"
  "update_core g m w = m (w\<lparr>vw_core := g (vw_core w)\<rparr>)"
  "changing h m w = m (h w)"
  by (simp_all add: with_core_def update_core_def changing_def)

text \<open>What the acts that look and publish leave alone.\<close>

lemma read_owner_Inr:
  "read_owner e k w = (v, Inr j) \<Longrightarrow> v = w \<and>
     journal_load (ev_codec e) (owner_journal_path (vw_core w)) (vw_journal w) = Inr j"
  by (auto simp: read_owner_def with_core_def on_journal_def read_journal_def with_journal_def
      split: lock_result.splits sum.splits dest: read_unlocked_load)

lemma observe_lease_Inr: "observe_lease e k r w = (v, Inr seen) \<Longrightarrow> v = w"
  using observe_file
  by (auto simp: observe_lease_def with_core_def on_issuer_def on_extension_def case_prod_beta Let_def
      split: lease_role.splits)

lemma persist_kept:
  "vw_issuer (fst (persist_platform_vpn_state e k w)) = vw_issuer w"
  "vw_extension (fst (persist_platform_vpn_state e k w)) = vw_extension w"
  "vw_core (fst (persist_platform_vpn_state e k w)) =
     publish_runtime_change (stamp_update (ev_nanos e k) (vw_core w))"
  by (auto simp: persist_platform_vpn_state_def update_core_def split: sum.splits option.splits)

lemma published_fields [simp]:
  "vc_attempt (publish_runtime_change (stamp_update n c)) = vc_attempt c"
  "vc_outcome (publish_runtime_change (stamp_update n c)) = vc_outcome c"
  "vc_attached (publish_runtime_change (stamp_update n c)) = vc_attached c"
  "vc_starting (publish_runtime_change (stamp_update n c)) = vc_starting c"
  "vc_running (publish_runtime_change (stamp_update n c)) = vc_running c"
  "vc_owner_pid (publish_runtime_change (stamp_update n c)) = vc_owner_pid c"
  "vc_owner_start (publish_runtime_change (stamp_update n c)) = vc_owner_start c"
  "vc_root (publish_runtime_change (stamp_update n c)) = vc_root c"
  "vc_issuer_lease (publish_runtime_change (stamp_update n c)) = vc_issuer_lease c"
  "vc_extension_lease (publish_runtime_change (stamp_update n c)) = vc_extension_lease c"
  "vc_os_stop_epoch (publish_runtime_change (stamp_update n c)) = vc_os_stop_epoch c"
  "vc_os_stop_attempt (publish_runtime_change (stamp_update n c)) = vc_os_stop_attempt c"
  "vc_os_stop_in_flight (publish_runtime_change (stamp_update n c)) = vc_os_stop_in_flight c"
  "vc_cleanup_complete (publish_runtime_change (stamp_update n c)) = vc_cleanup_complete c"
  by (simp_all add: publish_runtime_change_def stamp_update_def)

lemma slots_journal [simp]:
  "vw_journal (set_issuer slot w) = vw_journal w" "vw_journal (set_extension slot w) = vw_journal w"
  "vw_journal (release_leases w) = vw_journal w" "vw_journal (release_if_clean w) = vw_journal w"
  by (simp_all add: set_issuer_def set_extension_def release_leases_def release_if_clean_def)

lemma envelope_journal: "vw_journal (apply_platform_envelope e k is_ui expected envelope w) = vw_journal w"
  by (auto simp: apply_platform_envelope_def Let_def split: option.splits prod.splits)

lemma sync_journal [simp]:
  "vw_journal (fst (sync_platform_vpn_state e k w)) = vw_journal w"
  "vw_journal (fst (sync_platform_for_binding e k attempt w)) = vw_journal w"
  by (auto simp: sync_platform_vpn_state_def sync_platform_for_binding_def envelope_journal
      split: sum.splits option.splits bool.splits)

lemma path_evolves: "evolves c R A w v \<Longrightarrow> owner_journal_path (vw_core v) = owner_journal_path (vw_core w)"
  by (rule path_root) (simp add: evolves_def core_rel_def)

lemma sync_path [simp]:
  "owner_journal_path (vw_core (fst (sync_platform_vpn_state e k w))) = owner_journal_path (vw_core w)"
  "owner_journal_path (vw_core (fst (sync_platform_for_binding e k attempt w))) = owner_journal_path (vw_core w)"
proof -
  show "owner_journal_path (vw_core (fst (sync_platform_vpn_state e k w))) = owner_journal_path (vw_core w)"
    by (rule path_evolves [OF within_sync [of "ev_codec e" "{}" "{}", unfolded within_def]])
  show "owner_journal_path (vw_core (fst (sync_platform_for_binding e k attempt w))) =
      owner_journal_path (vw_core w)"
    by (rule path_evolves [OF within_sync_for_binding [of "{NewAttempt}" "ev_codec e" "{}", unfolded within_def]])
      simp
qed

subsection \<open>Starting and binding\<close>

lemma owner_paths:
  "owner_journal_path (begin_attempt attempt n c) = owner_journal_path c"
  "owner_journal_path (c\<lparr>vc_issuer_lease := i\<rparr>) = owner_journal_path c"
  "owner_journal_path (c\<lparr>vc_extension_lease := i\<rparr>) = owner_journal_path c"
  "owner_journal_path (reopen_attempt c) = owner_journal_path c"
  "owner_journal_path (publish_runtime_change (stamp_update m c)) = owner_journal_path c"
  by (simp_all add: owner_journal_path_def begin_attempt_def invalidate_exit_location_def reopen_attempt_def)

definition pending_record :: "string \<Rightarrow> process_identity \<Rightarrow> owner_journal" where
  "pending_record attempt issuer =
     \<lparr>oj_attempt_id = attempt, oj_issuer = issuer, oj_extension = None, oj_phase = Pending\<rparr>"

lemma dropping_Inr:
  "dropping_issuer fd m w = (v, Inr a) \<longleftrightarrow> m w = (v, Inr a)"
  "dropping_extension fd n w = (v, Inr b) \<longleftrightarrow> n w = (v, Inr b)"
  by (auto simp: dropping_issuer_def dropping_extension_def split: prod.splits sum.splits)

lemma acquire_lease_issuer:
  assumes "acquire_lease e k r w = (v, Inr fd)" "lr_role r = Issuer"
  shows "v = w\<lparr>vw_issuer := vw_issuer v\<rparr> \<and> fd = ev_fd e k \<and> lf_holder (vw_issuer w) = None \<and>
    lf_holder (vw_issuer v) = Some fd"
  using assms by (auto simp: acquire_lease_def with_core_def on_issuer_def Let_def
      split: prod.splits dest: acquire_Inr)

lemma issue_attempt_Inr:
  assumes ok: "codec_ok (ev_codec e)" and run: "issue_attempt e issuer attempt n w = (w', Inr a)"
    and slot: "vc_issuer_lease (vw_core w) \<noteq> Some (ev_fd e 0)"
  shows "a = attempt \<and>
    journal_load (ev_codec e) (owner_journal_path (vw_core w)) (vw_journal w) = Inr Missing \<and>
    journal_load (ev_codec e) (owner_journal_path (vw_core w)) (vw_journal w') =
      Inr (Present (pending_record attempt issuer)) \<and>
    lf_holder (vw_issuer w') = Some (ev_fd e 0) \<and> vc_issuer_lease (vw_core w') = Some (ev_fd e 0) \<and>
    vc_attempt (vw_core w') = attempt \<and> vc_outcome (vw_core w') = OutPending \<and>
    vc_starting (vw_core w') \<and> \<not> vc_running (vw_core w')"
proof -
  obtain v j where j: "read_owner e 0 w = (v, Inr j)"
    using run by (auto simp: issue_attempt_def and_then_Inr)
  then have v: "v = w" and load: "journal_load (ev_codec e) (owner_journal_path (vw_core w)) (vw_journal w) = Inr j"
    by (auto dest: read_owner_Inr)
  have missing: "j = Missing"
    using run j by (cases j) (auto simp: issue_attempt_def and_then_Inr act_results)
  obtain v1 fd v2 where acq: "acquire_lease e 0 (owner_lease_record attempt issuer Issuer) w = (v1, Inr fd)"
    and create: "on_journal (create_pending_exact (ev_codec e) (ev_io e 1) (owner_journal_path (vw_core v1))
        (pending_record attempt issuer)) v1 = (v2, Inr ())"
    and rest: "persist_platform_vpn_state e 1 ((set_extension None (set_issuer (Some fd) v2))
        \<lparr>vw_core := begin_attempt attempt n (vw_core (set_extension None (set_issuer (Some fd) v2)))\<rparr>) = (w', Inr ())"
    and a: "a = attempt"
    using run j v missing
    by (auto simp: issue_attempt_def and_then_Inr dropping_Inr act_steps act_results pending_record_def)
  have l: "v1 = w\<lparr>vw_issuer := vw_issuer v1\<rparr>" "fd = ev_fd e 0" "lf_holder (vw_issuer v1) = Some fd"
    using acquire_lease_issuer [OF acq] by (simp_all add: owner_lease_record_def)
  then have core1: "vw_core v1 = vw_core w" by (metis vpn_world.simps(1) vpn_world.update_convs(3) vpn_world.surjective)
  have v2: "v2 = v1\<lparr>vw_journal := vw_journal v2\<rparr>"
    and made: "journal_load (ev_codec e) (owner_journal_path (vw_core w)) (vw_journal v2) =
      Inr (Present (pending_record attempt issuer))"
    using create ok core1 create_success
    by (auto simp: on_journal_def codec_ok_def Let_def split: prod.splits)
  define v3 where "v3 = set_extension None (set_issuer (Some fd) v2)"
  have core2: "vw_core v2 = vw_core w" "vw_issuer v2 = vw_issuer v1"
    using v2 core1 by (metis vpn_world.simps(1) vpn_world.update_convs(2) vpn_world.surjective)
      (metis v2 vpn_world.simps(3) vpn_world.update_convs(2) vpn_world.surjective)
  have issuer3: "lf_holder (vw_issuer v3) = Some fd"
    using l slot core2
    by (auto simp: v3_def set_issuer_def set_extension_def drop_slot_def drop_lease_def split: option.splits)
  have w': "w' = fst (persist_platform_vpn_state e 1 (v3\<lparr>vw_core := begin_attempt attempt n (vw_core v3)\<rparr>))"
    using rest by (simp add: v3_def)
  have "vw_journal w' = vw_journal v2" "vw_issuer w' = vw_issuer v3"
    unfolding w' by (simp_all add: persist_kept v3_def)
  moreover have "vc_issuer_lease (vw_core v3) = Some fd"
    by (simp add: v3_def set_issuer_def set_extension_def)
  ultimately show ?thesis
    using a load missing made issuer3 l(2)
    unfolding w' by (simp add: persist_kept begin_attempt_def invalidate_exit_location_def)
qed

text \<open>Synchronising keeps the lease slots or empties them.\<close>

lemma merge_slots:
  "vc_issuer_lease (merge_lifecycle remote c) = vc_issuer_lease c"
  "vc_issuer_lease (merge_details remote lt b c) = vc_issuer_lease c"
  "vc_issuer_lease (merge_remote is_ui remote c) = vc_issuer_lease c"
proof -
  show l: "vc_issuer_lease (merge_lifecycle remote c) = vc_issuer_lease c" for c
    by (simp add: merge_lifecycle_def Let_def)
  show d: "vc_issuer_lease (merge_details remote lt b c) = vc_issuer_lease c" for c lt b
    by (simp add: merge_details_def Let_def invalidate_exit_location_def)
  show "vc_issuer_lease (merge_remote is_ui remote c) = vc_issuer_lease c"
    by (simp add: merge_remote_def Let_def l d)
qed

lemma watch_slots:
  "vc_issuer_lease (fst (platform_heartbeat_watchdog_expired now is_ui run m adv c)) = vc_issuer_lease c"
  "vc_issuer_lease (observe_remote now remote c) = vc_issuer_lease c"
  "vc_issuer_lease (watchdog_failure c) = vc_issuer_lease c"
  "vc_issuer_lease (adopt_remote remote c) = vc_issuer_lease c"
  "vc_issuer_lease (publish_runtime_change c) = vc_issuer_lease c"
  "vc_issuer_lease (stamp_update n c) = vc_issuer_lease c"
  by (simp_all add: stamp_update_def platform_heartbeat_watchdog_expired_def observe_remote_def watchdog_failure_def
      apply_platform_failure_def arm_auto_recovery_def invalidate_exit_location_def adopt_remote_def
      publish_runtime_change_def Let_def)

lemma envelope_slot:
  "vc_issuer_lease (vw_core (apply_platform_envelope e k is_ui expected envelope w)) \<in>
     {None, vc_issuer_lease (vw_core w)}"
proof (cases envelope)
  case (Some remote)
  define c where "c = (if rs_attempt remote \<noteq> vc_attempt (vw_core w) then adopt_remote remote (vw_core w) else vw_core w)"
  obtain c1 b where w1: "platform_heartbeat_watchdog_expired (ev_now e) is_ui (rs_running remote) True
      (vc_remote_updated c < rs_updated remote) (observe_remote (ev_now e) remote c) = (c1, b)"
    by fastforce
  have "vc_issuer_lease c1 = vc_issuer_lease c"
    using watch_slots(1,2) w1 by (metis fst_conv)
  then have "vc_issuer_lease c1 = vc_issuer_lease (vw_core w)"
    by (simp add: watch_slots c_def)
  then show ?thesis
    using Some w1
    by (simp add: apply_platform_envelope_def Let_def persist_kept watch_slots merge_slots
        release_if_clean_def release_leases_def set_issuer_def set_extension_def flip: c_def)
qed (simp add: apply_platform_envelope_def)

lemma sync_slot:
  "vc_issuer_lease (vw_core (fst (sync_platform_vpn_state e k w))) \<in> {None, vc_issuer_lease (vw_core w)}"
  using envelope_slot
  by (auto simp: sync_platform_vpn_state_def split: sum.splits option.splits bool.splits)

lemma sync_Inr: "snd (sync_platform_vpn_state e k w) = Inr ()"
  by (auto simp: sync_platform_vpn_state_def split: sum.splits option.splits bool.splits)

lemma begin_start_Inr:
  assumes ok: "codec_ok (ev_codec e)"
    and run: "begin_platform_vpn_start_for_intent e intent w = (w', Inr attempt)"
    and slot: "vc_issuer_lease (vw_core w) \<noteq> Some (ev_fd e 0)"
  shows "0 < intent" "vc_intent_epoch (vw_core w) = intent" "vc_os_stop_epoch (vw_core w) = 0"
    and "start_refusal (ev_session e) (vw_core (fst (sync_platform_vpn_state e 0 w))) = None"
    and "\<exists>issuer. ev_identity e = Inr issuer \<and>
      journal_load (ev_codec e) (owner_journal_path (vw_core w)) (vw_journal w) = Inr Missing \<and>
      journal_load (ev_codec e) (owner_journal_path (vw_core w)) (vw_journal w') =
        Inr (Present (pending_record attempt issuer)) \<and>
      lf_holder (vw_issuer w') = Some (ev_fd e 0) \<and> vc_issuer_lease (vw_core w') = Some (ev_fd e 0) \<and>
      vc_attempt (vw_core w') = attempt \<and> vc_outcome (vw_core w') = OutPending \<and>
      vc_starting (vw_core w') \<and> \<not> vc_running (vw_core w')"
proof -
  obtain issuer where id: "ev_identity e = Inr issuer"
    using run by (cases "ev_identity e")
      (simp_all add: begin_platform_vpn_start_for_intent_def and_then_def lift_result_def)
  define v where "v = fst (sync_platform_vpn_state e 0 w)"
  have sync: "sync_platform_vpn_state e 0 w = (v, Inr ())"
    using sync_Inr [of e 0 w] by (simp add: v_def prod_eq_iff)
  show g: "0 < intent" "vc_intent_epoch (vw_core w) = intent" "vc_os_stop_epoch (vw_core w) = 0"
    using run id by (auto simp: begin_platform_vpn_start_for_intent_def and_then_Inr act_results act_steps
        split: if_splits)
  have run': "(case start_refusal (ev_session e) (vw_core v) of Some err \<Rightarrow> give_up err
      | None \<Rightarrow> issue_attempt e issuer (decimal (ev_nanos e 0) @ ''-'' @ decimal (sat_add64 (vc_sequence (vw_core v)) 1))
          (sat_add64 (vc_sequence (vw_core v)) 1)) v = (w', Inr attempt)"
    using run id g sync
    by (simp add: begin_platform_vpn_start_for_intent_def and_then_def lift_result_def with_core_def Let_def
        split: option.split_asm)
  then show "start_refusal (ev_session e) (vw_core v) = None" by (auto simp: act_results split: option.splits)
  with run' have issue: "issue_attempt e issuer (decimal (ev_nanos e 0) @ ''-'' @ decimal (sat_add64 (vc_sequence (vw_core v)) 1))
          (sat_add64 (vc_sequence (vw_core v)) 1) v = (w', Inr attempt)" by simp
  have "vc_issuer_lease (vw_core v) \<noteq> Some (ev_fd e 0)"
    using slot sync_slot [of e 0 w] by (auto simp: v_def)
  from issue_attempt_Inr [OF ok issue this] id show "\<exists>issuer. ev_identity e = Inr issuer \<and>
      journal_load (ev_codec e) (owner_journal_path (vw_core w)) (vw_journal w) = Inr Missing \<and>
      journal_load (ev_codec e) (owner_journal_path (vw_core w)) (vw_journal w') =
        Inr (Present (pending_record attempt issuer)) \<and>
      lf_holder (vw_issuer w') = Some (ev_fd e 0) \<and> vc_issuer_lease (vw_core w') = Some (ev_fd e 0) \<and>
      vc_attempt (vw_core w') = attempt \<and> vc_outcome (vw_core w') = OutPending \<and>
      vc_starting (vw_core w') \<and> \<not> vc_running (vw_core w')"
    by (simp add: v_def)
qed

end
