(* ===== verification/VpnOwnership.thy ===== *)
theory VpnOwnership
  imports VpnRuns
begin

text \<open>
  What the binding of an attempt, the claim of a stop and the recovery of a cleanup promise about the
  owner in the journal, and why a claimed stop cannot be overtaken by a late start of another process.
\<close>

subsection \<open>Binding\<close>

lemma on_journal_result:
  "on_journal f w = (v, r) \<longleftrightarrow> v = w\<lparr>vw_journal := fst (f (vw_journal w))\<rparr> \<and> r = snd (f (vw_journal w))"
  by (auto simp: on_journal_def case_prod_beta Let_def)

lemma acquire_lease_extension:
  assumes "acquire_lease e k r w = (v, x)" "lr_role r = Extension"
  shows "v = w\<lparr>vw_extension := vw_extension v\<rparr>"
  using assms by (auto simp: acquire_lease_def with_core_def on_extension_def Let_def split: prod.splits)

lemma extension_kept:
  assumes "v = w\<lparr>vw_extension := x\<rparr>"
  shows "vw_core v = vw_core w" "vw_journal v = vw_journal w"
  using assms by simp_all

lemma observation_cases: "seen \<noteq> HeldOther \<Longrightarrow> seen \<noteq> Released \<Longrightarrow> seen = HeldExact"
  by (cases seen) simp_all

lemma take_ownership_Inr:
  assumes ok: "codec_ok (ev_codec e)" and run: "take_ownership e attempt owner journal w = (w', Inr lease)"
    and load: "journal_load (ev_codec e) (owner_journal_path (vw_core w)) (vw_journal w) = Inr (Present journal)"
    and id: "oj_attempt_id journal = attempt"
  shows "vw_core w' = vw_core w \<and>
    journal_load (ev_codec e) (owner_journal_path (vw_core w)) (vw_journal w') =
      Inr (Present (attached_record attempt (oj_issuer journal) owner))"
proof -
  let ?wanted = "owner_lease_record attempt owner Extension"
  have st: "storable (ev_codec e) r" for r using ok by (simp add: codec_ok_def)
  have role: "lr_role ?wanted = Extension" by (simp add: owner_lease_record_def)
  note acq = acquire_lease_extension [OF _ role, THEN extension_kept(1)]
    acquire_lease_extension [OF _ role, THEN extension_kept(2)]
  have swap: "vw_core w' = vw_core w \<and>
      journal_load (ev_codec e) (owner_journal_path (vw_core w)) (vw_journal w') = Inr (Present r)"
    if "acquire_lease e 1 ?wanted w = (v, Inr fd)"
      "(with_core (\<lambda>c. on_journal (f (owner_journal_path c)))) v = (w', Inr ())"
      "\<And>n n'. f (owner_journal_path (vw_core w)) n = (n', Inr ()) \<Longrightarrow>
         journal_load (ev_codec e) (owner_journal_path (vw_core w)) n' = Inr (Present r)"
    for v fd f r
  proof -
    have "vw_core v = vw_core w" using acq(1) [OF that(1)] .
    then have "w' = v\<lparr>vw_journal := fst (f (owner_journal_path (vw_core w)) (vw_journal v))\<rparr>"
      "snd (f (owner_journal_path (vw_core w)) (vw_journal v)) = Inr ()"
      using that(2) by (simp_all add: with_core_def on_journal_result)
    then show ?thesis
      using \<open>vw_core v = vw_core w\<close>
        that(3) [of "vw_journal v" "fst (f (owner_journal_path (vw_core w)) (vw_journal v))"]
      by (simp add: prod_eq_iff)
  qed
  have same: "oj_extension journal = Some owner \<Longrightarrow> oj_phase journal = Attached \<Longrightarrow>
      journal = attached_record attempt (oj_issuer journal) owner"
    using id by (cases journal) (simp add: attached_record_def)
  consider (pending) "oj_phase journal = Pending" "oj_extension journal = None"
    | (mine) "oj_phase journal = Attached" "oj_extension journal = Some owner"
    | (other) current where "oj_phase journal = Attached" "oj_extension journal = Some current" "current \<noteq> owner"
    using run by (cases "oj_phase journal"; cases "oj_extension journal")
      (auto simp: take_ownership_def act_results)
  then show ?thesis
  proof cases
    case pending
    then obtain v fd where "acquire_lease e 1 ?wanted w = (v, Inr fd)"
      "with_core (\<lambda>c. on_journal (upgrade_attached_exact (ev_codec e) (ev_io e 1)
        (owner_journal_path c) attempt (oj_issuer journal) owner)) v = (w', Inr ())"
      using run by (auto simp: take_ownership_def and_then_Inr act_results dropping_Inr
          split: lease_observation.split_asm dest!: observe_lease_Inr dest: observation_cases simp del: One_nat_def)
    then show ?thesis
      by (rule swap [where f = "\<lambda>path. upgrade_attached_exact (ev_codec e) (ev_io e 1) path attempt
        (oj_issuer journal) owner"]) (rule upgrade_success [OF st])
  next
    case mine
    then show ?thesis
      using run load same acq
      by (auto simp: take_ownership_def and_then_Inr act_results act_steps split: if_splits)
  next
    case (other current)
    then obtain v fd where "acquire_lease e 1 ?wanted w = (v, Inr fd)"
      "with_core (\<lambda>c. on_journal (rebind_attached_exact (ev_codec e) (ev_io e 1)
        (owner_journal_path c) attempt (oj_issuer journal) current owner)) v = (w', Inr ())"
      using run by (auto simp: take_ownership_def and_then_Inr act_results dropping_Inr
          split: lease_observation.split_asm dest!: observe_lease_Inr dest: observation_cases simp del: One_nat_def)
    then show ?thesis
      by (rule swap [where f = "\<lambda>path. rebind_attached_exact (ev_codec e) (ev_io e 1) path attempt
        (oj_issuer journal) current owner"]) (rule rebind_success [OF st])
  qed
qed

lemma and_then_known:
  "and_then (lift_result (Inr a)) f w = f a w"
  "m w = (v, Inr a) \<Longrightarrow> and_then m f w = f a v"
  by (simp_all add: and_then_def lift_result_def)

lemma publish_binding_Inr:
  assumes "publish_platform_vpn_binding e attempt owner w = (w', Inr s)"
  shows "vw_journal w' = vw_journal w \<and> vc_attempt (vw_core w') = attempt \<and> vc_attached (vw_core w') \<and>
    vc_owner_pid (vw_core w') = pid owner \<and> vc_owner_start (vw_core w') = start_time owner"
proof -
  define v where "v = fst (sync_platform_vpn_state e 2 w)"
  have sync: "sync_platform_vpn_state e 2 w = (v, Inr ())"
    using sync_Inr [of e 2 w] by (simp add: v_def prod_eq_iff)
  have j: "vw_journal v = vw_journal w" by (simp add: v_def)
  have "vc_attempt (vw_core v) = attempt"
    using assms sync by (auto simp: publish_platform_vpn_binding_def and_then_def with_core_def act_results
        split: if_splits)
  moreover have fin: "vw_journal w' = vw_journal u \<and> vc_attempt (vw_core w') = vc_attempt (vw_core u) \<and>
      vc_attached (vw_core w') = vc_attached (vw_core u) \<and> vc_owner_pid (vw_core w') = vc_owner_pid (vw_core u) \<and>
      vc_owner_start (vw_core w') = vc_owner_start (vw_core u)"
    if "and_then (persist_platform_vpn_state e 3) (\<lambda>_. done_with t) u = (w', Inr s)" for u t
  proof -
    have "w' = fst (persist_platform_vpn_state e 3 u)"
      using that by (auto simp: and_then_Inr act_results)
    then show ?thesis by (simp add: persist_kept)
  qed
  ultimately show ?thesis
    using assms sync j
    by (auto simp: publish_platform_vpn_binding_def and_then_def [of "sync_platform_vpn_state e 2"]
        act_steps act_results Let_def split: if_splits dest!: fin)
qed

lemma bind_Inr:
  assumes ok: "codec_ok (ev_codec e)" and run: "bind_platform_vpn_start e attempt w = (w', Inr s)"
  shows "\<exists>me issuer. ev_identity e = Inr me \<and>
    journal_load (ev_codec e) (owner_journal_path (vw_core w)) (vw_journal w') =
      Inr (Present (attached_record attempt issuer me)) \<and>
    vc_attempt (vw_core w') = attempt \<and> vc_attached (vw_core w') \<and>
    vc_owner_pid (vw_core w') = pid me \<and> vc_owner_start (vw_core w') = start_time me"
proof -
  have ne: "attempt \<noteq> []" using run by (auto simp: bind_platform_vpn_start_def act_results)
  obtain me where id: "ev_identity e = Inr me"
    using run ne by (cases "ev_identity e") (simp_all add: bind_platform_vpn_start_def and_then_def lift_result_def)
  define v where "v = fst (sync_platform_for_binding e 0 attempt w)"
  define g where "g = (\<lambda>c. if vc_outcome c = OutConnected \<and> \<not> is_running (ev_session e)
    then reopen_attempt c else c)"
  define u where "u = v\<lparr>vw_core := g (vw_core v)\<rparr>"
  have path: "owner_journal_path (vw_core u) = owner_journal_path (vw_core w)"
    by (simp add: u_def v_def g_def owner_paths)
  define tail where "tail = case_journal_read
      (give_up (Core (''platform VPN owner journal is missing for attempt '' @ attempt)))
      (\<lambda>journal.
                if oj_attempt_id journal \<noteq> attempt then
                  give_up (Core (''stale platform VPN start attempt '' @ attempt
                    @ ''; owner journal belongs to '' @ oj_attempt_id journal))
                else
                  and_then (take_ownership e attempt me journal) (\<lambda>lease.
                    changing (case lease of None \<Rightarrow> id | Some fd \<Rightarrow> set_extension (Some fd))
                      (publish_platform_vpn_binding e attempt me)))"
  have sync: "sync_platform_for_binding e 0 attempt w = (v, Inr ())"
    using run ne id by (cases "sync_platform_for_binding e 0 attempt w"; cases "snd (sync_platform_for_binding e 0 attempt w)")
      (auto simp: bind_platform_vpn_start_def and_then_def lift_result_def v_def)
  have "and_then (read_owner e 0) tail u = (w', Inr s)"
    using run ne id sync unfolding bind_platform_vpn_start_def g_def [symmetric]
    by (simp add: and_then_known act_steps act_results u_def tail_def split: if_split_asm)
  then obtain j u1 where j: "read_owner e 0 u = (u1, Inr j)" and tail: "tail j u1 = (w', Inr s)"
    by (auto simp: and_then_Inr)
  have u1: "u1 = u" and load: "journal_load (ev_codec e) (owner_journal_path (vw_core u)) (vw_journal u) = Inr j"
    using read_owner_Inr [OF j] by simp_all
  obtain journal where J: "j = Present journal" "oj_attempt_id journal = attempt"
    using tail by (cases j) (auto simp: tail_def act_results split: if_splits)
  obtain u2 lease where take: "take_ownership e attempt me journal u = (u2, Inr lease)"
    and publish: "publish_platform_vpn_binding e attempt me
      ((case lease of None \<Rightarrow> id | Some fd \<Rightarrow> set_extension (Some fd)) u2) = (w', Inr s)"
    using tail J u1 by (auto simp: tail_def and_then_Inr act_steps)
  have "journal_load (ev_codec e) (owner_journal_path (vw_core u)) (vw_journal u2) =
      Inr (Present (attached_record attempt (oj_issuer journal) me))"
    using take_ownership_Inr [OF ok take] load J by simp
  moreover have "vw_journal ((case lease of None \<Rightarrow> id | Some fd \<Rightarrow> set_extension (Some fd)) u2) = vw_journal u2"
    by (cases lease) simp_all
  ultimately show ?thesis using publish_binding_Inr [OF publish] id path by auto
qed

subsection \<open>A claimed stop\<close>

lemma fence_owner_Inr:
  assumes ok: "codec_ok (ev_codec e)" and run: "fence_owner e journal w = (w', Inr u)"
    and load: "journal_load (ev_codec e) (owner_journal_path (vw_core w)) (vw_journal w) = Inr (Present journal)"
  shows "vw_core w' = vw_core w \<and> (\<exists>r. oj_attempt_id r = oj_attempt_id journal \<and> oj_phase r \<noteq> Pending \<and>
    journal_load (ev_codec e) (owner_journal_path (vw_core w)) (vw_journal w') = Inr (Present r))"
proof -
  have st: "storable (ev_codec e) r" for r using ok by (simp add: codec_ok_def)
  show ?thesis
  proof (cases "oj_phase journal = Pending \<and> oj_extension journal = None")
    case False
    then have "w' = w" "oj_phase journal \<noteq> Pending"
      using run by (cases "oj_phase journal"; cases "oj_extension journal"; simp add: fence_owner_def act_results)+
    then show ?thesis using load by auto
  next
    case pending: True
    define path where "path = owner_journal_path (vw_core w)"
    define tail where "tail = (\<lambda>b. if b then done_with ()
          else and_then (read_owner e 2) (\<lambda>j. case j of
            Missing \<Rightarrow> give_up (Core (''platform VPN owner journal disappeared while claiming stop for ''
                         @ oj_attempt_id journal))
          | Present current \<Rightarrow>
              if oj_attempt_id current = oj_attempt_id journal \<and>
                 (oj_phase current = Stopping \<and> oj_extension current = None
                  \<or> oj_phase current = Attached \<and> oj_extension current \<noteq> None)
              then done_with ()
              else give_up (Core (''platform VPN owner changed from '' @ oj_attempt_id journal @ '' to ''
                     @ oj_attempt_id current @ '' while claiming stop''))))"
    obtain v res where f: "fence_pending_stop_exact (ev_codec e) (ev_io e 1) path (oj_attempt_id journal)
        (oj_issuer journal) (vw_journal w) = (v, res)" by fastforce
    then have "on_journal (fence_pending_stop_exact (ev_codec e) (ev_io e 1) (owner_journal_path (vw_core w))
        (oj_attempt_id journal) (oj_issuer journal)) w = (w\<lparr>vw_journal := v\<rparr>, res)"
      by (simp add: on_journal_def path_def)
    moreover have "and_then (with_core (\<lambda>c. on_journal (fence_pending_stop_exact (ev_codec e) (ev_io e 1)
        (owner_journal_path c) (oj_attempt_id journal) (oj_issuer journal)))) tail w = (w', Inr u)"
      using run pending unfolding fence_owner_def Let_def tail_def by simp
    ultimately obtain b where b: "res = Inr b" and tail: "tail b (w\<lparr>vw_journal := v\<rparr>) = (w', Inr u)"
      by (auto simp: and_then_Inr act_steps)
    note f = f [unfolded b]
    show ?thesis
    proof (cases b)
      case True
      then have "journal_load (ev_codec e) path v =
          Inr (Present (stopping_record (oj_attempt_id journal) (oj_issuer journal)))"
        using fence_success [OF st] f by simp
      then show ?thesis using True tail by (auto simp: tail_def act_results path_def)
    next
      case False
      then obtain q va where read: "read_owner e 2 (w\<lparr>vw_journal := v\<rparr>) = (va, Inr q)"
        and last: "tail b (w\<lparr>vw_journal := v\<rparr>) = (w', Inr u)" "b = False"
        using tail by (auto simp: tail_def and_then_Inr)
      then obtain r where "q = Present r" by (cases q) (auto simp: tail_def and_then_known act_results)
      then have "w' = w\<lparr>vw_journal := v\<rparr>" "journal_load (ev_codec e) path v = Inr (Present r)"
        "oj_attempt_id r = oj_attempt_id journal" "oj_phase r \<noteq> Pending"
        using last read_owner_Inr [OF read] read
        by (auto simp: tail_def and_then_known act_results path_def split: if_split_asm)
      then show ?thesis by (auto simp: path_def)
    qed
  qed
qed

definition owns_fence :: "nat \<Rightarrow> string \<Rightarrow> vpn_core \<Rightarrow> bool" where
  "owns_fence intent attempt c \<longleftrightarrow> vc_os_stop_epoch c = intent \<and> vc_os_stop_attempt c = attempt \<and>
     \<not> vc_os_stop_in_flight c"

lemma own_os_stop_owns [simp]: "owns_fence intent attempt (own_os_stop intent attempt c)"
  by (simp add: owns_fence_def own_os_stop_def)

lemma claim_Inr:
  assumes ok: "codec_ok (ev_codec e)"
    and run: "claim_current_platform_vpn_stop e intent w = (w', Inr attempt)"
  shows "0 < intent" "vc_intent_epoch (vw_core w) = intent"
    and "journal_load (ev_codec e) (owner_journal_path (vw_core w)) (vw_journal w') = Inr Missing \<and>
        vw_journal w' = vw_journal w \<or>
      owns_fence intent attempt (vw_core w') \<and> (\<exists>r. oj_attempt_id r = attempt \<and> oj_phase r \<noteq> Pending \<and>
        journal_load (ev_codec e) (owner_journal_path (vw_core w)) (vw_journal w') = Inr (Present r))"
proof -
  show g: "0 < intent" "vc_intent_epoch (vw_core w) = intent"
    using run by (auto simp: claim_current_platform_vpn_stop_def act_steps act_results split: if_splits)
  define v where "v = fst (sync_platform_vpn_state e 0 w)"
  define retained where "retained = (if vc_os_stop_epoch (vw_core w) \<noteq> 0 then Some (vc_os_stop_attempt (vw_core w)) else None)"
  have sync: "sync_platform_vpn_state e 0 w = (v, Inr ())"
    using sync_Inr [of e 0 w] by (simp add: v_def prod_eq_iff)
  have path: "owner_journal_path (vw_core v) = owner_journal_path (vw_core w)" "vw_journal v = vw_journal w"
    by (simp_all add: v_def)
  obtain j v1 where j: "read_owner e 0 v = (v1, Inr j)"
    using run sync by (auto simp: claim_current_platform_vpn_stop_def act_steps act_results and_then_Inr Let_def
        split: if_splits)
  have v1: "v1 = v" and load: "journal_load (ev_codec e) (owner_journal_path (vw_core w)) (vw_journal w) = Inr j"
    using read_owner_Inr [OF j] path by simp_all
  note known = and_then_known(2) [where m = "sync_platform_vpn_state e 0" and w = w, OF sync]
    and_then_known(2) [where m = "read_owner e 0" and w = v, OF j [unfolded v1]]
  show "journal_load (ev_codec e) (owner_journal_path (vw_core w)) (vw_journal w') = Inr Missing \<and>
        vw_journal w' = vw_journal w \<or>
      owns_fence intent attempt (vw_core w') \<and> (\<exists>r. oj_attempt_id r = attempt \<and> oj_phase r \<noteq> Pending \<and>
        journal_load (ev_codec e) (owner_journal_path (vw_core w)) (vw_journal w') = Inr (Present r))"
  proof (cases j)
    case Missing
    have "vw_journal w' = vw_journal v"
      using run by (auto simp: claim_current_platform_vpn_stop_def act_steps act_results known Let_def Missing
          split: if_split_asm)
    then show ?thesis using load Missing path by simp
  next
    case (Present journal)
    define m where "m = (if unattached_cleanup (vw_core v)
      then update_core claim_stop_core (persist_platform_vpn_state e 1) else done_with ())"
    have "and_then m (\<lambda>_. and_then (fence_owner e journal) (\<lambda>_.
        update_core (own_os_stop intent (oj_attempt_id journal)) (done_with (oj_attempt_id journal)))) v =
        (w', Inr attempt)"
      using run by (auto simp: claim_current_platform_vpn_stop_def act_steps act_results known Let_def Present
          m_def split: if_split_asm)
    then obtain u1 u2 where m: "m v = (u1, Inr ())" and fence: "fence_owner e journal u1 = (u2, Inr ())"
      and w': "w' = u2\<lparr>vw_core := own_os_stop intent (oj_attempt_id journal) (vw_core u2)\<rparr>"
      and a: "attempt = oj_attempt_id journal"
      by (auto simp: and_then_Inr act_steps act_results)
    have "within (ev_codec e) {} {} m v"
      unfolding m_def by (intro within_intros core_rel_claim)
    then have p1: "owner_journal_path (vw_core u1) = owner_journal_path (vw_core w)"
      using m path by (auto simp: within_def dest: path_evolves)
    have "vw_journal u1 = vw_journal v"
      using m journal_persisted [of e "Suc 0" "v\<lparr>vw_core := claim_stop_core (vw_core v)\<rparr>"]
      by (auto simp: m_def act_steps act_results simp del: journal_persisted split: if_splits)
    then have "journal_load (ev_codec e) (owner_journal_path (vw_core u1)) (vw_journal u1) = Inr (Present journal)"
      using load Present path p1 by simp
    from fence_owner_Inr [OF ok fence this] show ?thesis using p1 a w' by auto
  qed
qed

text \<open>
  The journal at which an attempt can no longer be bound: none, one of another attempt, or a fenced one.
  Moves of any processes keep it so, unless one of them creates a record for the attempt.
\<close>

definition unbindable :: "codec \<Rightarrow> string \<Rightarrow> string \<Rightarrow> node \<Rightarrow> bool" where
  "unbindable c path attempt n \<longleftrightarrow> (\<exists>j. journal_load c path n = Inr j \<and>
     (case j of Missing \<Rightarrow> True | Present r \<Rightarrow> oj_attempt_id r \<noteq> attempt \<or> oj_phase r = Stopping))"

lemma unbindable_moves:
  assumes "journal_moves c path A n n'" "unbindable c path attempt n" "attempt \<notin> A"
  shows "unbindable c path attempt n'"
proof -
  consider "n' = n" | j j' where "journal_load c path n = Inr j" "journal_load c path n' = Inr j'" "owner_trans j j'"
    using assms(1) by (auto simp: journal_moves_def effect_def)
  then show ?thesis
  proof cases
    case (2 j j')
    then show ?thesis
      using assms by (cases j; cases j') (auto simp: unbindable_def journal_moves_def)
  qed (use assms in simp)
qed

lemma unbindable_run:
  assumes "(journal_moves c path A)\<^sup>*\<^sup>* n n'" "unbindable c path attempt n" "attempt \<notin> A"
  shows "unbindable c path attempt n'"
  using assms(1) by (induction rule: rtranclp_induct) (auto intro: assms unbindable_moves [OF _ _ assms(3)])

lemma unbindable_bind:
  assumes "codec_ok (ev_codec e)" "unbindable (ev_codec e) (owner_journal_path (vw_core w)) attempt (vw_journal w)"
  shows "\<exists>err. snd (bind_platform_vpn_start e attempt w) = Inl err"
proof (rule ccontr)
  assume "\<nexists>err. snd (bind_platform_vpn_start e attempt w) = Inl err"
  then obtain w' s where run: "bind_platform_vpn_start e attempt w = (w', Inr s)"
    by (cases "bind_platform_vpn_start e attempt w"; cases "snd (bind_platform_vpn_start e attempt w)") auto
  obtain me issuer where made: "journal_load (ev_codec e) (owner_journal_path (vw_core w)) (vw_journal w') =
      Inr (Present (attached_record attempt issuer me))"
    using bind_Inr [OF assms(1) run] by blast
  have "evolves (ev_codec e) {NewAttempt} {} w w'"
    using within_bind [OF assms(1), of "{NewAttempt}" "{}" attempt w] run by (simp add: within_def)
  then have "(journal_moves (ev_codec e) (owner_journal_path (vw_core w)) {})\<^sup>*\<^sup>* (vw_journal w) (vw_journal w')"
    by (simp add: evolves_def)
  from unbindable_run [OF this assms(2)] show False using made by (simp add: unbindable_def)
qed

subsection \<open>Recovery of a cleanup\<close>

lemma observe_lease_free:
  assumes "observe_lease e k r w = (v, Inr Released)"
  shows "case lr_role r of Issuer \<Rightarrow> lf_holder (vw_issuer w) = None
    | Extension \<Rightarrow> lf_holder (vw_extension w) = None"
  using assms observe_Released
  by (auto simp: observe_lease_def with_core_def on_issuer_def on_extension_def case_prod_beta Let_def
      split: lease_role.splits)

lemma lease_proof_Proven: "lease_proof seen = Proven \<longleftrightarrow> seen = Released" "Proven = lease_proof seen \<longleftrightarrow> seen = Released"
  by (cases seen; simp add: lease_proof_def)+

text \<open>What the evidence for a deletion rests on.\<close>

definition owner_gone :: "vpn_world \<Rightarrow> owner_journal \<Rightarrow> bool \<Rightarrow> bool" where
  "owner_gone w j local_fence \<longleftrightarrow> (case oj_phase j of
     Stopping \<Rightarrow> True
   | Pending \<Rightarrow> local_fence \<or> lf_holder (vw_issuer w) = None
   | Attached \<Rightarrow> lf_holder (vw_extension w) = None)"

lemma recovery_proof_Proven:
  assumes run: "recovery_proof e attempt fence w = (v, Inr (Evidence expected Proven identity))"
  obtains j where "v = w" "journal_load (ev_codec e) (owner_journal_path (vw_core w)) (vw_journal w) = Inr (Present j)"
    "oj_attempt_id j = attempt" "oj_extension j = expected" "owner_gone w j fence"
proof -
  obtain q u where read: "read_owner e 0 w = (u, Inr q)"
    using run by (auto simp: recovery_proof_def and_then_Inr)
  note u = read_owner_Inr [OF read]
  obtain j where j: "q = Present j"
    using run read u by (cases q) (auto simp: recovery_proof_def and_then_Inr act_steps act_results split: if_splits)
  note known = and_then_known(2) [where m = "read_owner e 0" and w = w, OF read]
  have id: "oj_attempt_id j = attempt"
    using run j by (auto simp: recovery_proof_def known act_results split: if_split_asm)
  have "v = w \<and> oj_extension j = expected \<and> owner_gone w j fence"
  proof (cases "oj_phase j"; cases "oj_extension j")
    assume "oj_phase j = Pending" "oj_extension j = None"
    then show ?thesis
      using run j id u
      by (auto simp: recovery_proof_def known act_results and_then_Inr owner_gone_def lease_proof_Proven
          owner_lease_record_def split: if_split_asm dest: observe_lease_Inr observe_lease_free)
  next
    fix x assume "oj_phase j = Attached" "oj_extension j = Some x"
    then show ?thesis
      using run j id u
      by (auto simp: recovery_proof_def known act_results and_then_Inr owner_gone_def lease_proof_Proven
          owner_lease_record_def split: if_split_asm dest: observe_lease_Inr observe_lease_free)
  qed (use run j id u in \<open>auto simp: recovery_proof_def known act_results owner_gone_def split: if_split_asm\<close>)
  then show ?thesis using that u j id by blast
qed

lemma recovery_proof_journal: "vw_journal (fst (recovery_proof e attempt fence w)) = vw_journal w"
proof -
  have a: "vw_journal (fst (and_then m f u)) = n"
    if "vw_journal (fst (m u)) = n" "\<And>a v. vw_journal v = n \<Longrightarrow> vw_journal (fst (f a v)) = n"
    for m :: "'x act" and f :: "'x \<Rightarrow> 'y act" and u n
    using that by (auto simp: and_then_def split: prod.splits sum.splits)
  show ?thesis
    unfolding recovery_proof_def
    by (rule a) (auto simp: done_with_def give_up_def with_core_def
        split: journal_read.split owner_phase.split option.split intro!: a)
qed

lemma recovery_spares_owner:
  assumes run: "recovery_round e attempt expired w = (w', r)"
    and changed: "vw_journal w' \<noteq> vw_journal w"
  defines "v \<equiv> fst (sync_platform_vpn_state e 0 w)"
  shows "\<exists>j. journal_load (ev_codec e) (owner_journal_path (vw_core w)) (vw_journal w) = Inr (Present j) \<and>
    oj_attempt_id j = attempt \<and>
    owner_gone v j (vc_attempt (vw_core v) = attempt \<and> \<not> vc_attached (vw_core v) \<and>
      vc_stop_requested (vw_core v) \<and> terminal (vc_outcome (vw_core v)))"
proof -
  have sync: "sync_platform_vpn_state e 0 w = (v, Inr ())"
    using sync_Inr [of e 0 w] by (simp add: v_def prod_eq_iff)
  have path: "owner_journal_path (vw_core v) = owner_journal_path (vw_core w)" "vw_journal v = vw_journal w"
    by (simp_all add: v_def)
  define fence where "fence \<longleftrightarrow> vc_attempt (vw_core v) = attempt \<and> \<not> vc_attached (vw_core v) \<and>
      vc_stop_requested (vw_core v) \<and> terminal (vc_outcome (vw_core v))"
  have ne: "attempt \<noteq> []" using run changed by (auto simp: recovery_round_def done_with_def)
  have look: "recovery_look e attempt w = (v, Inr (if vc_attempt (vw_core v) = attempt \<and>
      vc_cleanup_complete (vw_core v) then None else Some fence))"
    by (simp add: recovery_look_def and_then_known(2) [where m = "sync_platform_vpn_state e 0" and w = w, OF sync]
        act_steps done_with_def fence_def)
  obtain u ev where ev: "recovery_proof e attempt fence v = (u, ev)" by fastforce
  have ju: "vw_journal u = vw_journal w" using recovery_proof_journal [of e attempt fence v] ev path by simp
  have "\<exists>expected identity. ev = Inr (Evidence expected Proven identity)"
  proof (rule ccontr)
    assume no: "\<not> ?thesis"
    have "w' = v \<or> w' = u"
      using run ne look ev no
      by (auto simp: recovery_round_def and_then_def done_with_def give_up_def
          split: if_split_asm sum.split_asm recovery_evidence.split_asm cleanup_recovery_proof.split_asm)
    then show False using changed ju path by auto
  qed
  then obtain expected identity where "recovery_proof e attempt fence v = (u, Inr (Evidence expected Proven identity))"
    using ev by auto
  then show ?thesis
    by (rule recovery_proof_Proven) (use path in \<open>auto simp: fence_def\<close>)
qed

end
