(* ===== verification/VpnProtocol.thy ===== *)
theory VpnProtocol
  imports VpnOwnership
begin

text \<open>
  The properties of the platform VPN protocol: its invariant over all runs, the fence of the OS stop,
  exclusive ownership of a started and of a bound attempt, the race between a stop and a late start,
  the recovery of an abandoned attempt and the heartbeat watchdog.
\<close>

subsection \<open>A late start loses against a stop\<close>

lemma claimed_unbindable:
  assumes "codec_ok (ev_codec e)" "claim_current_platform_vpn_stop e intent w = (w', Inr attempt)"
    and "\<forall>r. journal_load (ev_codec e) (owner_journal_path (vw_core w)) (vw_journal w') = Inr (Present r) \<longrightarrow>
      oj_phase r \<noteq> Attached"
  shows "unbindable (ev_codec e) (owner_journal_path (vw_core w)) attempt (vw_journal w')"
  using claim_Inr(3) [OF assms(1,2)] assms(3)
  by (auto simp: unbindable_def) (metis owner_phase.exhaust)

subsection \<open>The heartbeat watchdog over a sequence of looks\<close>

text \<open>One look of the UI process at the frame of the Extension, and the state it leaves.\<close>

definition look_advances :: "platform_state \<Rightarrow> vpn_core \<Rightarrow> bool" where
  "look_advances frame c \<longleftrightarrow> vc_remote_updated c < rs_updated frame"

definition watch_look :: "nat \<times> platform_state \<Rightarrow> vpn_core \<Rightarrow> vpn_core \<times> bool" where
  "watch_look l c = (case l of (now, frame) \<Rightarrow>
     platform_heartbeat_watchdog_expired now True (rs_running frame) True (look_advances frame c)
       (observe_remote now frame c))"

definition watch_looks :: "(nat \<times> platform_state) list \<Rightarrow> vpn_core \<Rightarrow> vpn_core" where
  "watch_looks ls c = fold (\<lambda>l c. fst (watch_look l c)) ls c"

lemma watch_looks_snoc [simp]: "watch_looks (ls @ [l]) c = fst (watch_look l (watch_looks ls c))"
  by (simp add: watch_looks_def)

lemma watch_fields:
  "vc_remote_updated (fst (watch_look (now, frame) c)) = max (vc_remote_updated c) (rs_updated frame)"
  "vc_remote_seen (fst (watch_look (now, frame) c)) =
     (if look_advances frame c then Some now else vc_remote_seen c)"
  "vc_remote_stale (fst (watch_look (now, frame) c)) = Some t \<Longrightarrow>
     \<not> look_advances frame c \<and> (t = now \<and> rs_running frame \<or> vc_remote_stale c = Some t)"
  "vc_running (fst (watch_look (now, frame) c)) = vc_running c"
  by (auto simp: watch_look_def look_advances_def platform_heartbeat_watchdog_expired_def observe_remote_def
      max_def Let_def split: if_splits option.splits)

lemma quiet_looks:
  assumes "\<forall>(_, f) \<in> set xs. rs_updated f \<le> vc_remote_updated (watch_looks before c)"
  shows "vc_remote_updated (watch_looks (before @ xs) c) = vc_remote_updated (watch_looks before c)"
  using assms
proof (induction xs rule: rev_induct)
  case (snoc x xs)
  then show ?case by (cases x) (simp add: watch_fields flip: append_assoc)
qed simp

text \<open>
  A pending suspicion was raised by one of the looks; since then no look has seen a newer frame.
\<close>

lemma suspicion_origin:
  assumes "vc_remote_stale c = None" "vc_remote_stale (watch_looks ls c) = Some t"
  shows "\<exists>before frame after. ls = before @ (t, frame) # after \<and>
    (\<forall>(now, f) \<in> set ((t, frame) # after). rs_updated f \<le> vc_remote_updated (watch_looks before c))"
  using assms(2)
proof (induction ls rule: rev_induct)
  case Nil
  then show ?case using assms(1) by (simp add: watch_looks_def)
next
  case (snoc l ls)
  obtain now frame where l: "l = (now, frame)" by fastforce
  from snoc.prems l have quiet: "\<not> look_advances frame (watch_looks ls c)"
    and or: "t = now \<or> vc_remote_stale (watch_looks ls c) = Some t"
    using watch_fields(3) by auto
  from or show ?case
  proof
    assume "t = now"
    then show ?thesis using quiet l by (intro exI [of _ ls] exI [of _ frame] exI [of _ "[]"])
        (simp add: look_advances_def)
  next
    assume "vc_remote_stale (watch_looks ls c) = Some t"
    then obtain before f after where ls: "ls = before @ (t, f) # after"
      and old: "\<forall>(now, f) \<in> set ((t, f) # after). rs_updated f \<le> vc_remote_updated (watch_looks before c)"
      using snoc.IH by blast
    from quiet_looks [OF old] have "vc_remote_updated (watch_looks ls c) = vc_remote_updated (watch_looks before c)"
      by (simp add: ls)
    then show ?thesis
      using quiet l old by (intro exI [of _ before] exI [of _ f] exI [of _ "after @ [l]"])
        (simp add: ls look_advances_def)
  qed
qed

lemma expired_since:
  assumes "watch_look (now, frame) c = (c', True)"
  shows "\<not> look_advances frame c \<and> rs_running frame \<and> vc_running c \<and>
    (\<exists>seen. vc_remote_seen c = Some seen \<and> PLATFORM_HEARTBEAT_STALE_AFTER \<le> now - seen) \<and>
    (\<exists>t. vc_remote_stale c = Some t \<and> PLATFORM_HEARTBEAT_WAKE_GRACE \<le> now - t)"
  using assms
  by (auto simp: watch_look_def look_advances_def platform_heartbeat_watchdog_expired_def observe_remote_def
      PLATFORM_HEARTBEAT_WAKE_GRACE_def Let_def split: if_splits option.splits)

subsection \<open>A sample process\<close>

definition sample_vpn_table :: "owner_journal list" where
  "sample_vpn_table = [pending_record ''5-1'' sample_id, attached_record ''5-1'' sample_id sample_id,
     stopping_record ''5-1'' sample_id]"

definition sample_lease_record :: lease_record where
  "sample_lease_record = \<lparr>lr_attempt_id = ''5-1'', lr_identity = sample_id, lr_role = Issuer\<rparr>"

definition sample_env :: vpn_env where
  "sample_env = \<lparr>ev_codec = table_codec sample_vpn_table,
     ev_lease_codec = \<lparr>lease_encode = (\<lambda>_. Inr [1]), lease_decode = (\<lambda>_. Inr (lease_to_stored sample_lease_record))\<rparr>,
     ev_io = (\<lambda>_. io_fine), ev_lease_io = (\<lambda>_. lease_io_fine), ev_fd = (\<lambda>_. 3), ev_nanos = (\<lambda>_. 5),
     ev_now = 0, ev_identity = Inr sample_id, ev_ipc = Inr None, ev_read = (\<lambda>_. None),
     ev_publish = (\<lambda>_. None), ev_session = session_default, ev_active_profile = True,
     ev_lifecycle_active = False, ev_options = ''''\<rparr>"

definition free_lease :: lease_file where
  "free_lease = \<lparr>lf_node = Absent, lf_holder = None\<rparr>"

definition sample_world :: vpn_world where
  "sample_world = \<lparr>vw_core = (vpn_core_default ''r'')\<lparr>vc_intent_epoch := 1\<rparr>, vw_journal = Absent,
     vw_issuer = free_lease, vw_extension = free_lease, vw_out = None, vw_in = None\<rparr>"

definition sample_extension_world :: vpn_world where
  "sample_extension_world = sample_world\<lparr>vw_core := (vpn_core_default ''r'')\<lparr>vc_intent_epoch := 1,
     vc_attempt := ''5-1'', vc_outcome := OutPending, vc_starting := True\<rparr>, vw_journal := Regular [],
     vw_issuer := \<lparr>lf_node = Regular [1], lf_holder = Some 9\<rparr>\<rparr>"


lemma sample_codec [simp]: "codec_ok (ev_codec sample_env)"
  by (simp add: codec_ok_def sample_env_def sample_vpn_table_def table_codec_storable)

lemma sample_env_simps:
  "ev_identity sample_env = Inr sample_id" "ev_ipc sample_env = Inr None" "ev_io sample_env k = io_fine"
  "ev_lease_io sample_env k = lease_io_fine" "ev_fd sample_env k = 3" "ev_nanos sample_env k = 5"
  "ev_session sample_env = session_default"
  by (simp_all add: sample_env_def)

lemma sample_sync: "sync_platform_vpn_state sample_env k w = (w, Inr ())"
  by (simp add: sync_platform_vpn_state_def sample_env_simps)

lemma sample_persist: "persist_platform_vpn_state sample_env k w =
    (w\<lparr>vw_core := publish_runtime_change (stamp_update 5 (vw_core w))\<rparr>, Inr ())"
  by (simp add: persist_platform_vpn_state_def sample_env_simps update_core_def)

lemma sample_records:
  "validate_record (pending_record ''5-1'' sample_id) = Inr ()"
  "validate_record (attached_record ''5-1'' sample_id sample_id) = Inr ()"
  "validate_attempt_id ''5-1'' = Inr ()" "validate_identity l sample_id = Inr ()"
  by (simp_all add: validate_record_def validate_attempt_id_def validate_identity_def identity_ok_def
      validate_phase_def pending_record_def sample_id_def attached_record_def str_simps printable_def)


lemma sample_table:
  "encode (ev_codec sample_env) (to_stored (pending_record ''5-1'' sample_id)) = Inr []"
  "encode (ev_codec sample_env) (to_stored (attached_record ''5-1'' sample_id sample_id)) = Inr [1]"
  "encode (ev_codec sample_env) (to_stored (stopping_record ''5-1'' sample_id)) = Inr [1, 1]"
  "decode (ev_codec sample_env) [] = Inr (to_stored (pending_record ''5-1'' sample_id))"
  by (simp_all add: sample_env_def table_codec_def sample_vpn_table_def to_stored_def pending_record_def
      attached_record_def stopping_record_def)

lemma sample_reads:
  "read_journal (ev_codec sample_env) io_fine p Absent = (Absent, Inr Missing)"
  "read_journal (ev_codec sample_env) io_fine p (Regular []) =
     (Regular [], Inr (Present (pending_record ''5-1'' sample_id)))"
  using sample_records(1)
  by (simp_all add: read_journal_def with_journal_def io_fine_def read_unlocked_def decode_journal_def
      sample_table from_stored_to_stored)

lemma sample_writes:
  "create_pending_exact (ev_codec sample_env) io_fine p (pending_record ''5-1'' sample_id) Absent =
     (Regular [], Inr ())"
  "fence_pending_stop_exact (ev_codec sample_env) io_fine p ''5-1'' sample_id (Regular []) =
     (Regular [1, 1], Inr True)"
  "upgrade_attached_exact (ev_codec sample_env) io_fine p ''5-1'' sample_id sample_id (Regular []) =
     (Regular [1], Inr ())"
proof -
  have u: "read_unlocked (ev_codec sample_env) io_fine p (Regular []) =
      Inr (Present (pending_record ''5-1'' sample_id))"
    using sample_records(1)
    by (simp add: io_fine_def read_unlocked_def decode_journal_def sample_table from_stored_to_stored)
  have v: "validate_record (stopping_record ''5-1'' sample_id) = Inr ()"
    by (simp add: validate_record_def validate_attempt_id_def validate_identity_def identity_ok_def
      validate_phase_def sample_id_def stopping_record_def str_simps printable_def)
  have up: "(pending_record ''5-1'' sample_id)\<lparr>oj_phase := Stopping\<rparr> = stopping_record ''5-1'' sample_id"
    "(pending_record ''5-1'' sample_id)\<lparr>oj_phase := Attached, oj_extension := Some sample_id\<rparr> =
      attached_record ''5-1'' sample_id sample_id"
    by (simp_all add: pending_record_def stopping_record_def attached_record_def)
  have f: "oj_phase (pending_record a b) = Pending" "oj_extension (pending_record a b) = None"
    "oj_attempt_id (pending_record a b) = a" "oj_issuer (pending_record a b) = b" for a b
    by (simp_all add: pending_record_def)
  have l: "io_lock io_fine = LockAcquired" by (simp add: io_fine_def)
  show "create_pending_exact (ev_codec sample_env) io_fine p (pending_record ''5-1'' sample_id) Absent =
     (Regular [], Inr ())"
    by (simp add: create_pending_exact_def sample_records f with_journal_def io_fine_def read_unlocked_def
      write_unlocked_def sample_table)
  show "fence_pending_stop_exact (ev_codec sample_env) io_fine p ''5-1'' sample_id (Regular []) =
     (Regular [1, 1], Inr True)"
    by (simp add: fence_pending_stop_exact_def sample_records f with_journal_def l u up v
      write_unlocked_def sample_table) (simp add: io_fine_def)
  show "upgrade_attached_exact (ev_codec sample_env) io_fine p ''5-1'' sample_id sample_id (Regular []) =
     (Regular [1], Inr ())"
    by (simp add: upgrade_attached_exact_def sample_records f with_journal_def l u up
      write_unlocked_def sample_table) (simp add: io_fine_def)
qed

lemma sample_leases:
  "acquire_owner_lease_exact (ev_lease_codec sample_env) lease_io_fine p fd
     (owner_lease_record ''5-1'' sample_id role) free_lease =
     (\<lparr>lf_node = Regular [1], lf_holder = Some fd\<rparr>, Inr fd)"
  "observe_owner_lease_exact (ev_lease_codec sample_env) lease_io_fine p fd
     (owner_lease_record ''5-1'' sample_id Issuer) \<lparr>lf_node = Regular [1], lf_holder = Some 9\<rparr> =
     (\<lparr>lf_node = Regular [1], lf_holder = Some 9\<rparr>, Inr HeldExact)"
  by (simp_all add: acquire_owner_lease_exact_def observe_owner_lease_exact_def validate_lease_record_def
      owner_lease_record_def sample_id_def
      str_simps printable_def open_owner_lease_def try_lock_owner_lease_def write_owner_lease_record_def
      read_owner_lease_record_def lease_from_stored_def lease_to_stored_def sample_lease_record_def
      lease_io_fine_def sample_env_def free_lease_def MAX_PLATFORM_VPN_OWNER_LEASE_BYTES_def)

lemma lease_record_role [simp]: "lr_role (owner_lease_record attempt identity r) = r"
  by (simp add: owner_lease_record_def)

lemma sample_start:
  "snd (begin_platform_vpn_start_for_intent sample_env 1 sample_world) = Inr ''5-1''"
proof -
  have "decimal 5 @ ''-'' @ decimal (sat_add64 0 1) = ''5-1''"
    by (simp add: decimal.simps sat_add64_def u64_max_def) (simp add: char_of_def bit_iff_odd)
  then show ?thesis
  by (simp add: begin_platform_vpn_start_for_intent_def issue_attempt_def and_then_def lift_result_def sample_env_simps
   with_core_def sample_sync sample_world_def vpn_core_default_def start_refusal_def session_default_def is_running_def
   read_owner_def on_journal_def Let_def sample_reads sample_writes sample_leases
   acquire_lease_def on_issuer_def dropping_issuer_def done_with_def give_up_def pending_record_def [symmetric]
   changing_def update_core_def sample_persist)
qed


lemma pending_fields:
  "oj_phase (pending_record a b) = Pending" "oj_extension (pending_record a b) = None"
  "oj_attempt_id (pending_record a b) = a" "oj_issuer (pending_record a b) = b"
  by (simp_all add: pending_record_def)

lemma sample_take:
  assumes "vw_journal w = Regular []" "vw_extension w = free_lease"
    "vw_issuer w = \<lparr>lf_node = Regular [1], lf_holder = Some 9\<rparr>"
  shows "take_ownership sample_env ''5-1'' sample_id (pending_record ''5-1'' sample_id) w =
    (w\<lparr>vw_extension := \<lparr>lf_node = Regular [1], lf_holder = Some 3\<rparr>, vw_journal := Regular [1]\<rparr>, Inr (Some 3))"
  using assms
  by (simp add: take_ownership_def pending_fields observe_lease_def acquire_lease_def and_then_def with_core_def
      on_issuer_def on_extension_def Let_def sample_env_simps sample_leases sample_writes dropping_extension_def
      on_journal_def done_with_def)

lemma sample_bind:
  "isl (snd (bind_platform_vpn_start sample_env ''5-1'' sample_extension_world)) = False"
  by (simp add: bind_platform_vpn_start_def and_then_def lift_result_def sample_env_simps
   with_core_def sync_platform_for_binding_def sample_sync sample_world_def sample_extension_world_def vpn_core_default_def
   read_owner_def on_journal_def sample_reads pending_fields sample_take
   publish_platform_vpn_binding_def Let_def set_extension_def drop_slot_def
   done_with_def give_up_def changing_def update_core_def sample_persist)

lemma sample_claim:
  "snd (claim_current_platform_vpn_stop sample_env 1 sample_extension_world) = Inr ''5-1''"
  by (simp add: claim_current_platform_vpn_stop_def and_then_def lift_result_def sample_env_simps
   with_core_def sample_sync sample_world_def sample_extension_world_def vpn_core_default_def  
   read_owner_def on_journal_def Let_def sample_reads sample_writes pending_fields
   fence_owner_def done_with_def give_up_def unattached_cleanup_def
   changing_def update_core_def sample_persist)

lemma sample_claimed_journal:
  "journal_load (ev_codec sample_env) p
     (vw_journal (fst (claim_current_platform_vpn_stop sample_env 1 sample_extension_world))) =
     Inr (Present (stopping_record ''5-1'' sample_id))"
proof -
  have "vw_journal (fst (claim_current_platform_vpn_stop sample_env 1 sample_extension_world)) = Regular [1, 1]"
    by (simp add: claim_current_platform_vpn_stop_def and_then_def lift_result_def sample_env_simps
       with_core_def sample_sync sample_world_def sample_extension_world_def vpn_core_default_def
       read_owner_def on_journal_def Let_def sample_reads sample_writes pending_fields
       fence_owner_def done_with_def give_up_def unattached_cleanup_def
       changing_def update_core_def sample_persist)
  moreover have "journal_load (ev_codec sample_env) p (Regular [1, 1]) =
      Inr (Present (stopping_record ''5-1'' sample_id))"
    using fence_success [OF _ sample_writes(2)] sample_codec by (auto simp: codec_ok_def)
  ultimately show ?thesis by simp
qed

text \<open>The issuer of the sample attempt is gone: its lease is free.\<close>

definition sample_released_world :: vpn_world where
  "sample_released_world = sample_extension_world\<lparr>vw_issuer := \<lparr>lf_node = Regular [1], lf_holder = None\<rparr>\<rparr>"

lemma sample_recovered:
  "vw_journal (fst (recovery_round sample_env ''5-1'' False sample_released_world)) = Absent"
proof -
  have d: "delete_exact (ev_codec sample_env) io_fine p ''5-1'' None (Regular []) = (Absent, Inr True)" for p
    using sample_reads(2) [of p]
    by (simp add: delete_exact_def sample_records with_journal_def io_fine_def read_journal_def pending_fields
        remove_journal_def split: sum.splits)
  have o: "observe_owner_lease_exact (ev_lease_codec sample_env) lease_io_fine p fd
      (owner_lease_record ''5-1'' sample_id Issuer) \<lparr>lf_node = Regular [1], lf_holder = None\<rparr> =
      (\<lparr>lf_node = Regular [1], lf_holder = None\<rparr>, Inr Released)" for p fd
    by (simp add: observe_owner_lease_exact_def validate_lease_record_def owner_lease_record_def sample_id_def
      str_simps printable_def open_owner_lease_def try_lock_owner_lease_def lease_io_fine_def drop_lease_def)
  show ?thesis
    by (simp add: recovery_round_def recovery_look_def recovery_proof_def recovery_commit_def and_then_def
       sample_env_simps with_core_def sample_sync sample_world_def sample_extension_world_def
       sample_released_world_def vpn_core_default_def read_owner_def on_journal_def Let_def sample_reads
       pending_fields observe_lease_def on_issuer_def o d lease_proof_def done_with_def give_up_def
       changing_def update_core_def sample_persist)
qed

definition sample_frame :: platform_state where
  "sample_frame = (platform_vpn_state (vpn_core_default ''r''))\<lparr>rs_updated := 1, rs_running := True\<rparr>"

definition sample_watched :: vpn_core where
  "sample_watched = (vpn_core_default ''r'')\<lparr>vc_running := True\<rparr>"

lemma sample_looks:
  "snd (watch_look (20000, sample_frame) (watch_looks [(0, sample_frame), (14000, sample_frame)] sample_watched)) = False"
  "snd (watch_look (21000, sample_frame) (watch_looks [(0, sample_frame), (15000, sample_frame)] sample_watched)) = True"
  by (simp_all add: watch_look_def watch_looks_def look_advances_def observe_remote_def sample_frame_def
      sample_watched_def vpn_core_default_def platform_vpn_state_def platform_heartbeat_watchdog_expired_def
      PLATFORM_HEARTBEAT_STALE_AFTER_def PLATFORM_HEARTBEAT_WAKE_GRACE_def Let_def)

subsection \<open>Properties\<close>











text \<open>
  C16. A round of the cleanup recovery removes the journal only for the attempt it was called for
  and only when its owner is gone: an Attached record only when nobody holds the Extension lease,
  a Pending one only when nobody holds the issuer lease or the process itself ended the attempt
  before any Extension attached, or one a stop has fenced.
\<close>

theorem recovery_spares_live_owner:
  assumes "recovery_round e attempt expired w = (w', r)" "vw_journal w' \<noteq> vw_journal w"
  shows "\<exists>j v. v = fst (sync_platform_vpn_state e 0 w) \<and>
    journal_load (ev_codec e) (owner_journal_path (vw_core w)) (vw_journal w) = Inr (Present j) \<and>
    oj_attempt_id j = attempt \<and>
    (case oj_phase j of
       Stopping \<Rightarrow> True
     | Attached \<Rightarrow> lf_holder (vw_extension v) = None
     | Pending \<Rightarrow> lf_holder (vw_issuer v) = None \<or>
         vc_attempt (vw_core v) = attempt \<and> \<not> vc_attached (vw_core v) \<and>
         vc_stop_requested (vw_core v) \<and> terminal (vc_outcome (vw_core v)))"
  using recovery_spares_owner [OF assms] by (auto simp: owner_gone_def split: owner_phase.splits)

theorem recovery_spares_live_owner_witness:
  "\<exists>j. journal_load (ev_codec sample_env) (owner_journal_path (vw_core sample_released_world))
     (vw_journal sample_released_world) = Inr (Present j) \<and> oj_attempt_id j = ''5-1''"
proof -
  obtain w' r where run: "recovery_round sample_env ''5-1'' False sample_released_world = (w', r)" by fastforce
  then have "vw_journal w' \<noteq> vw_journal sample_released_world"
    using sample_recovered by (simp add: sample_released_world_def sample_extension_world_def)
  from recovery_spares_live_owner [OF run this] show ?thesis by blast
qed





end
