(* ===== verification/StoreFiles.thy ===== *)
theory StoreFiles
  imports PawsModel
begin

text \<open>
  The file transactions of the profile store, \<open>crates/paws_profile/src/lib.rs\<close>: atomic replacement
  of one file, a set of writes followed by the index with rollback, and the staged deletion. A path
  is a string, a directory that is moved as a whole is an entry like a file. Each system call takes
  the next entry of \<open>dk_faults\<close>: \<open>Some e\<close> makes it fail with that text, \<open>None\<close> or the end of the
  list lets it succeed. Temporary files are invisible: nothing reads them.
\<close>

record disk =
  dk_files :: "string \<Rightarrow> byte list option"
  dk_staged :: "nat \<Rightarrow> byte list option"
  dk_faults :: "string option list"

definition next_fault :: "disk \<Rightarrow> string option \<times> disk" where
  "next_fault d = (case dk_faults d of [] \<Rightarrow> (None, d) | f # fs \<Rightarrow> (f, d\<lparr>dk_faults := fs\<rparr>))"

lemma next_fault_same [simp]:
  "dk_files (snd (next_fault d)) = dk_files d" "dk_staged (snd (next_fault d)) = dk_staged d"
  by (simp_all add: next_fault_def split: list.splits)

definition set_file :: "string \<Rightarrow> byte list option \<Rightarrow> disk \<Rightarrow> disk" where
  "set_file path content d = d\<lparr>dk_files := (dk_files d)(path := content)\<rparr>"

lemma set_file_same [simp]:
  "dk_files (set_file p c d) = (dk_files d)(p := c)" "dk_staged (set_file p c d) = dk_staged d"
  by (simp_all add: set_file_def)

text \<open>\<open>fs::read\<close>: \<open>Inr None\<close> for a missing file.\<close>

definition read_file :: "string \<Rightarrow> disk \<Rightarrow> disk \<times> byte list option presult" where
  "read_file path d =
    (case next_fault d of (Some e, d) \<Rightarrow> (d, Inl (Io e)) | (None, d) \<Rightarrow> (d, Inr (dk_files d path)))"

text \<open>\<open>atomic_write\<close>: write the temporary file, then rename it.\<close>

definition atomic_write :: "string \<Rightarrow> byte list \<Rightarrow> disk \<Rightarrow> disk \<times> unit presult" where
  "atomic_write path content d =
    (case next_fault d of (Some e, d) \<Rightarrow> (d, Inl (Io e))
     | (None, d) \<Rightarrow>
         (case next_fault d of (Some e, d) \<Rightarrow> (d, Inl (Io e))
          | (None, d) \<Rightarrow> (set_file path (Some content) d, Inr ())))"

definition remove_file :: "string \<Rightarrow> disk \<Rightarrow> disk \<times> unit presult" where
  "remove_file path d =
    (case next_fault d of (Some e, d) \<Rightarrow> (d, Inl (Io e)) | (None, d) \<Rightarrow> (set_file path None d, Inr ()))"

lemma atomic_write_cases:
  obtains (ok) d' where "atomic_write path content d = (d', Inr ())"
      "dk_files d' = (dk_files d)(path \<mapsto> content)" "dk_staged d' = dk_staged d"
  | (failed) d' e where "atomic_write path content d = (d', Inl (Io e))" "dk_files d' = dk_files d"
      "dk_staged d' = dk_staged d"
proof -
  obtain f1 d1 where f1: "next_fault d = (f1, d1)" by (cases "next_fault d")
  obtain f2 d2 where f2: "next_fault d1 = (f2, d2)" by (cases "next_fault d1")
  have s: "dk_files d2 = dk_files d" "dk_files d1 = dk_files d" "dk_staged d2 = dk_staged d"
    "dk_staged d1 = dk_staged d"
    using next_fault_same [of d] next_fault_same [of d1] f1 f2 by simp_all
  show ?thesis
    by (cases f1; cases f2) (auto simp: atomic_write_def f1 f2 s intro: ok failed)
qed

lemma remove_file_cases:
  obtains (ok) d' where "remove_file path d = (d', Inr ())"
      "dk_files d' = (dk_files d)(path := None)" "dk_staged d' = dk_staged d"
  | (failed) d' e where "remove_file path d = (d', Inl (Io e))" "dk_files d' = dk_files d"
      "dk_staged d' = dk_staged d"
proof -
  obtain f1 d1 where f1: "next_fault d = (f1, d1)" by (cases "next_fault d")
  have s: "dk_files d1 = dk_files d" "dk_staged d1 = dk_staged d"
    using next_fault_same [of d] f1 by simp_all
  show ?thesis by (cases f1) (auto simp: remove_file_def f1 s intro: ok failed)
qed

subsection \<open>Errors of a transaction\<close>

text \<open>
  What \<open>combine_transaction_errors\<close> turns into a message: the failed step and the paths whose
  rollback failed as well.
\<close>

datatype tx_error = Plain paws_error | Rolled string paws_error "string list"

fun render_tx_error :: "(paws_error \<Rightarrow> string) \<Rightarrow> tx_error \<Rightarrow> paws_error" where
  "render_tx_error display (Plain e) = e"
| "render_tx_error display (Rolled context primary rollback_errors) =
     Core (if rollback_errors = []
           then context @ '': '' @ display primary @ ''; prior data was restored''
           else context @ '': '' @ display primary @ ''; rollback also failed: ''
                @ join_with ''; '' rollback_errors)"

subsection \<open>Writes, then the index\<close>

text \<open>
  \<open>rollback_file_writes\<close> takes the applied writes newest first, each with the content it replaced.
\<close>

fun rollback_file_writes :: "(string \<times> byte list option) list \<Rightarrow> disk \<Rightarrow> disk \<times> string list" where
  "rollback_file_writes [] d = (d, [])"
| "rollback_file_writes ((path, original) # rest) d =
    (let (d, result) = (case original of
         Some content \<Rightarrow> atomic_write path content d
       | None \<Rightarrow> remove_file path d);
         (d, errors) = rollback_file_writes rest d in
     (d, (case result of Inl (Io e) \<Rightarrow> [path @ '': io error: '' @ e] | _ \<Rightarrow> []) @ errors))"

fun read_originals :: "(string \<times> byte list) list \<Rightarrow> disk \<Rightarrow> disk \<times> (string \<times> byte list option) list presult" where
  "read_originals [] d = (d, Inr [])"
| "read_originals ((path, _) # rest) d =
    (case read_file path d of (d, Inl e) \<Rightarrow> (d, Inl e)
     | (d, Inr original) \<Rightarrow>
         (case read_originals rest d of (d, Inl e) \<Rightarrow> (d, Inl e)
          | (d, Inr originals) \<Rightarrow> (d, Inr ((path, original) # originals))))"

text \<open>The write loop: \<open>Some\<close> with the writes applied before the failure, newest first.\<close>

fun apply_writes ::
  "(string \<times> byte list) list \<Rightarrow> (string \<times> byte list option) list \<Rightarrow> (string \<times> byte list option) list \<Rightarrow>
   disk \<Rightarrow> disk \<times> ((string \<times> byte list option) list \<times> paws_error) option" where
  "apply_writes [] originals applied d = (d, None)"
| "apply_writes ((path, content) # rest) originals applied d =
    (case atomic_write path content d of
       (d, Inl e) \<Rightarrow> (d, Some (applied, e))
     | (d, Inr _) \<Rightarrow> apply_writes rest (tl originals) (hd originals # applied) d)"

text \<open>
  \<open>commit_staged_with_files\<close> for an index whose new content is \<open>index\<close> (\<open>staged.save()\<close> writes it to
  \<open>index_path\<close>, unless \<open>save_error\<close> says that it cannot be encoded).
\<close>

definition save_index :: "string \<Rightarrow> paws_error + byte list \<Rightarrow> disk \<Rightarrow> disk \<times> unit presult" where
  "save_index index_path index d =
    (case index of Inl e \<Rightarrow> (d, Inl e) | Inr content \<Rightarrow> atomic_write index_path content d)"

definition commit_files ::
  "string \<Rightarrow> paws_error + byte list \<Rightarrow> (string \<times> byte list) list \<Rightarrow> disk \<Rightarrow> disk \<times> (tx_error + unit)" where
  "commit_files index_path index writes d =
    (case read_originals writes d of (d, Inl e) \<Rightarrow> (d, Inl (Plain e))
     | (d, Inr originals) \<Rightarrow>
    (case apply_writes writes originals [] d of
       (d, Some (applied, primary)) \<Rightarrow>
         (let (d, errors) = rollback_file_writes applied d in
          (d, Inl (Rolled ''profile store transaction failed'' primary errors)))
     | (d, None) \<Rightarrow>
    (case save_index index_path index d of
       (d, Inl primary) \<Rightarrow>
         (let (d, errors) = rollback_file_writes (rev originals) d in
          (d, Inl (Rolled ''profile store transaction failed'' primary errors)))
     | (d, Inr _) \<Rightarrow> (d, Inr ()))))"

lemma read_file_same: "read_file path d = (d', r) \<Longrightarrow> dk_files d' = dk_files d \<and> dk_staged d' = dk_staged d"
  using next_fault_same [of d] by (cases "next_fault d") (auto simp: read_file_def split: option.splits)

lemma read_file_Inr: "read_file path d = (d', Inr c) \<Longrightarrow> c = dk_files d path"
  using next_fault_same [of d] by (cases "next_fault d") (auto simp: read_file_def split: option.splits)

lemma read_originals_spec:
  "read_originals ws d = (d', r) \<Longrightarrow> dk_files d' = dk_files d \<and> dk_staged d' = dk_staged d \<and>
     (\<forall>os. r = Inr os \<longrightarrow> os = map (\<lambda>(path, _). (path, dk_files d path)) ws)"
proof (induction ws arbitrary: d d' r)
  case (Cons w ws)
  obtain path content where w: "w = (path, content)" by (cases w)
  obtain d1 r1 where r1: "read_file path d = (d1, r1)" by (cases "read_file path d")
  note s1 = read_file_same [OF r1]
  show ?case
  proof (cases r1)
    case (Inl e)
    then show ?thesis using Cons.prems s1 by (auto simp: w r1)
  next
    case (Inr c)
    obtain d2 r2 where r2: "read_originals ws d1 = (d2, r2)" by (cases "read_originals ws d1")
    show ?thesis
      using Cons.prems Cons.IH [OF r2] s1 Inr r1 read_file_Inr [of path d d1 c]
      by (cases r2) (auto simp: w r2)
  qed
qed simp

text \<open>Undoing writes: without errors every listed path is back to the oldest content listed for it.\<close>

fun undo :: "(string \<times> byte list option) list \<Rightarrow> (string \<Rightarrow> byte list option) \<Rightarrow> (string \<Rightarrow> byte list option)" where
  "undo [] m = m"
| "undo ((path, original) # rest) m = undo rest (m(path := original))"

lemma rollback_spec:
  "rollback_file_writes os d = (d', []) \<Longrightarrow> dk_files d' = undo os (dk_files d) \<and> dk_staged d' = dk_staged d"
proof (induction os arbitrary: d d')
  case (Cons a os)
  obtain path original where a: "a = (path, original)" by (cases a)
  define step where "step = (case original of Some content \<Rightarrow> atomic_write path content d
       | None \<Rightarrow> remove_file path d)"
  obtain d1 r1 where r1: "step = (d1, r1)" by (cases step)
  obtain d2 es where r2: "rollback_file_writes os d1 = (d2, es)" by (cases "rollback_file_writes os d1")
  have "(\<exists>e. r1 = Inl (Io e)) \<or> (r1 = Inr () \<and> dk_files d1 = (dk_files d)(path := original) \<and>
      dk_staged d1 = dk_staged d)"
  proof (cases original)
    case None
    then show ?thesis using r1 unfolding step_def
      by (cases rule: remove_file_cases [of path d]) auto
  next
    case (Some content)
    then show ?thesis using r1 unfolding step_def
      by (cases rule: atomic_write_cases [of path content d]) auto
  qed
  moreover have eq: "rollback_file_writes (a # os) d =
      (d2, (case r1 of Inl (Io e) \<Rightarrow> [path @ '': io error: '' @ e] | _ \<Rightarrow> []) @ es)"
    by (simp add: a step_def [symmetric] r1 r2)
  ultimately have "r1 = Inr ()" "dk_files d1 = (dk_files d)(path := original)"
      "dk_staged d1 = dk_staged d" "es = []" "d' = d2"
    using Cons.prems by auto
  then show ?case using Cons.IH [of d1 d2] r2 by (simp add: a fun_upd_def)
qed simp

lemma undo_restores:
  assumes "\<And>p c. (p, c) \<in> set os \<Longrightarrow> m0 p = c" "\<And>p. p \<notin> fst ` set os \<Longrightarrow> m p = m0 p"
  shows "undo os m = m0"
  using assms
proof (induction os arbitrary: m)
  case (Cons a os)
  obtain p c where a: "a = (p, c)" by (cases a)
  show ?case using Cons by (simp add: a) (rule Cons.IH, auto simp: a)
qed auto

lemma apply_writes_spec:
  assumes "apply_writes ws os applied d = (d', r)" "os = map (\<lambda>(p, _). (p, m0 p)) ws"
    and "\<And>p c. (p, c) \<in> set applied \<Longrightarrow> m0 p = c" "\<And>p. p \<notin> fst ` set applied \<Longrightarrow> dk_files d p = m0 p"
  shows "dk_staged d' = dk_staged d \<and>
    (case r of None \<Rightarrow> dk_files d' = fold (\<lambda>(p, c) m. m(p \<mapsto> c)) ws (dk_files d)
     | Some (applied', e) \<Rightarrow> (\<forall>(p, c) \<in> set applied'. m0 p = c) \<and>
         (\<forall>p. p \<notin> fst ` set applied' \<longrightarrow> dk_files d' p = m0 p))"
  using assms
proof (induction ws arbitrary: os applied d)
  case (Cons w ws)
  obtain p c where w: "w = (p, c)" by (cases w)
  show ?case
  proof (cases rule: atomic_write_cases [of p c d])
    case (ok d1)
    have "apply_writes ws (map (\<lambda>(p, _). (p, m0 p)) ws) ((p, m0 p) # applied) d1 = (d', r)"
      using Cons.prems(1,2) ok(1) by (simp add: w)
    moreover have "m0 q = x" if "(q, x) \<in> set ((p, m0 p) # applied)" for q x
      using that Cons.prems(3) by auto
    moreover have "dk_files d1 q = m0 q" if "q \<notin> fst ` set ((p, m0 p) # applied)" for q
      using that Cons.prems(4) ok(2) by auto
    ultimately have "dk_staged d' = dk_staged d1 \<and>
      (case r of None \<Rightarrow> dk_files d' = fold (\<lambda>(p, c) m. m(p \<mapsto> c)) ws (dk_files d1)
       | Some (applied', e) \<Rightarrow> (\<forall>(p, c) \<in> set applied'. m0 p = c) \<and>
           (\<forall>p. p \<notin> fst ` set applied' \<longrightarrow> dk_files d' p = m0 p))"
      by (rule Cons.IH [OF _ refl])
    then show ?thesis using ok(2,3) by (cases r) (simp_all add: w)
  next
    case (failed d1 e)
    then show ?thesis using Cons.prems by (auto simp: w)
  qed
qed auto

text \<open>
  All or nothing: on success every write and the index are in place; on failure, unless the message
  says that the rollback failed too, every file is as it was.
\<close>

lemma commit_files_Inr:
  assumes "commit_files index_path index ws d = (d', Inr ())"
  obtains content where "index = Inr content"
    "dk_files d' = (fold (\<lambda>(p, c) m. m(p \<mapsto> c)) ws (dk_files d))(index_path \<mapsto> content)"
    "dk_staged d' = dk_staged d"
proof -
  obtain d1 os where r1: "read_originals ws d = (d1, Inr os)"
    using assms by (auto simp: commit_files_def split: prod.splits sum.splits)
  note o = read_originals_spec [OF r1]
  obtain d2 where r2: "apply_writes ws os [] d1 = (d2, None)"
    using assms r1 by (auto simp: commit_files_def Let_def split: prod.splits option.splits)
  have s: "save_index index_path index d2 = (d', Inr ())"
    using assms r1 r2 by (auto simp: commit_files_def Let_def split: prod.splits sum.splits)
  then obtain content where i: "index = Inr content" by (cases index) (auto simp: save_index_def)
  have "dk_files d2 = fold (\<lambda>(p, c) m. m(p \<mapsto> c)) ws (dk_files d1) \<and> dk_staged d2 = dk_staged d1"
    using apply_writes_spec [OF r2, of "dk_files d"] o by simp
  then show ?thesis
    using that [of content] i s o
    by (cases rule: atomic_write_cases [of index_path content d2]) (simp_all add: save_index_def)
qed

lemma commit_files_Inl:
  assumes "commit_files index_path index ws d = (d', Inl e)"
    and "case e of Plain _ \<Rightarrow> True | Rolled _ _ errors \<Rightarrow> errors = []"
  shows "dk_files d' = dk_files d"
proof -
  obtain d1 r where r1: "read_originals ws d = (d1, r)" by (cases "read_originals ws d")
  note o = read_originals_spec [OF r1]
  show ?thesis
  proof (cases r)
    case (Inl err)
    then show ?thesis using assms(1) r1 o by (simp add: commit_files_def)
  next
    case (Inr os)
    obtain d2 f where r2: "apply_writes ws os [] d1 = (d2, f)" by (cases "apply_writes ws os [] d1")
    note a = apply_writes_spec [OF r2, of "dk_files d"]
    show ?thesis
    proof (cases f)
      case (Some p)
      obtain applied primary where p: "p = (applied, primary)" by (cases p)
      obtain d3 errors where r3: "rollback_file_writes applied d2 = (d3, errors)"
        by (cases "rollback_file_writes applied d2")
      have "errors = []" "d' = d3"
        using assms r1 r2 r3 Inr Some p by (auto simp: commit_files_def)
      moreover have "undo applied (dk_files d2) = dk_files d"
        using a o Inr Some p by (intro undo_restores) auto
      ultimately show ?thesis using rollback_spec r3 by simp
    next
      case None
      obtain d3 s where r3: "save_index index_path index d2 = (d3, s)"
        by (cases "save_index index_path index d2")
      obtain err where s: "s = Inl err"
        using assms(1) r1 r2 r3 Inr None by (cases s) (auto simp: commit_files_def)
      have files: "dk_files d3 = dk_files d2"
      proof (cases index)
        case (Inr content)
        then show ?thesis using r3 s
          by (cases rule: atomic_write_cases [of index_path content d2]) (auto simp: save_index_def)
      qed (use r3 in \<open>simp add: save_index_def\<close>)
      obtain d4 errors where r4: "rollback_file_writes (rev os) d3 = (d4, errors)"
        by (cases "rollback_file_writes (rev os) d3")
      have e: "errors = []" "d' = d4"
        using assms r1 r2 r3 r4 Inr None s by (auto simp: commit_files_def)
      have "dk_files d2 p = dk_files d p" if "p \<notin> fst ` set ws" for p
      proof -
        have "p \<notin> fst ` set ws \<Longrightarrow> fold (\<lambda>(p, c) m. m(p \<mapsto> c)) ws m p = m p" for m :: "string \<Rightarrow> byte list option"
          by (induction ws arbitrary: m) auto
        then show ?thesis using a o Inr None that by simp
      qed
      then have "undo (rev os) (dk_files d3) = dk_files d"
        using o Inr files by (intro undo_restores) (auto simp: image_iff case_prod_unfold)
      then show ?thesis using rollback_spec r4 e by simp
    qed
  qed
qed

subsection \<open>Staged deletion\<close>

text \<open>
  \<open>commit_staged_delete\<close> moves what it deletes to a fresh directory, entry \<open>i\<close> for the \<open>i\<close>-th path,
  commits the index, and removes the directory; until the index is written everything can be moved
  back. \<open>dk_staged\<close> is that directory.
\<close>

definition stage_path :: "string \<Rightarrow> nat \<Rightarrow> disk \<Rightarrow> disk" where
  "stage_path path i d = d\<lparr>dk_files := (dk_files d)(path := None),
                            dk_staged := (dk_staged d)(i := dk_files d path)\<rparr>"

definition unstage_path :: "string \<Rightarrow> nat \<Rightarrow> disk \<Rightarrow> disk" where
  "unstage_path path i d = d\<lparr>dk_files := (dk_files d)(path := dk_staged d i),
                              dk_staged := (dk_staged d)(i := None)\<rparr>"

fun restore_moved_paths :: "(string \<times> nat) list \<Rightarrow> disk \<Rightarrow> disk \<times> string list" where
  "restore_moved_paths [] d = (d, [])"
| "restore_moved_paths ((path, i) # rest) d =
    (case next_fault d of
       (Some e, d) \<Rightarrow> (let (d, errors) = restore_moved_paths rest d in (d, (path @ '': io error: '' @ e) # errors))
     | (None, d) \<Rightarrow> restore_moved_paths rest (unstage_path path i d))"

text \<open>The staging loop; \<open>moved\<close> is newest first. An error carries its context.\<close>

fun stage_paths ::
  "nat \<Rightarrow> string list \<Rightarrow> (string \<times> nat) list \<Rightarrow> disk \<Rightarrow>
   disk \<times> (string \<times> nat) list \<times> (string \<times> paws_error) option" where
  "stage_paths i [] moved d = (d, moved, None)"
| "stage_paths i (path # rest) moved d =
    (case next_fault d of
       (Some e, d) \<Rightarrow> (d, moved, Some (''profile deletion inspection failed'', Io e))
     | (None, d) \<Rightarrow>
         if dk_files d path = None then stage_paths (Suc i) rest moved d
         else (case next_fault d of
             (Some e, d) \<Rightarrow> (d, moved, Some (''profile deletion staging failed'', Io e))
           | (None, d) \<Rightarrow> stage_paths (Suc i) rest ((path, i) # moved) (stage_path path i d)))"

definition commit_delete ::
  "string \<Rightarrow> paws_error + byte list \<Rightarrow> string list \<Rightarrow> disk \<Rightarrow> disk \<times> (tx_error + unit)" where
  "commit_delete index_path index paths d =
    (case next_fault d of (Some e, d) \<Rightarrow> (d, Inl (Plain (Io e)))
     | (None, d) \<Rightarrow>
    (case stage_paths 0 paths [] (d\<lparr>dk_staged := Map.empty\<rparr>) of
       (d, moved, Some (context, primary)) \<Rightarrow>
         (let (d, errors) = restore_moved_paths moved d in (d, Inl (Rolled context primary errors)))
     | (d, moved, None) \<Rightarrow>
    (case save_index index_path index d of
       (d, Inl primary) \<Rightarrow>
         (let (d, errors) = restore_moved_paths moved d in
          (d, Inl (Rolled ''profile deletion index commit failed'' primary errors)))
     | (d, Inr _) \<Rightarrow> (d\<lparr>dk_staged := Map.empty\<rparr>, Inr ()))))"

text \<open>What the staged entries and the remaining files amount to: the files before the deletion.\<close>

definition staged_view ::
  "(string \<times> nat) list \<Rightarrow> (string \<Rightarrow> byte list option) \<Rightarrow> disk \<Rightarrow> bool" where
  "staged_view moved m0 d \<longleftrightarrow> distinct (map fst moved) \<and> distinct (map snd moved) \<and>
     (\<forall>(p, i) \<in> set moved. dk_staged d i = m0 p \<and> dk_files d p = None) \<and>
     (\<forall>p. p \<notin> fst ` set moved \<longrightarrow> dk_files d p = m0 p)"

lemma staged_view_stage:
  assumes "staged_view moved m0 d" "dk_files d path \<noteq> None" "\<forall>(p, j) \<in> set moved. j < i"
  shows "staged_view ((path, i) # moved) m0 (stage_path path i d)"
proof -
  have n: "path \<notin> fst ` set moved" using assms(1,2) by (auto simp: staged_view_def)
  have i: "i \<notin> snd ` set moved" using assms(3) by auto
  have "\<forall>(p, j) \<in> set moved. p \<noteq> path \<and> j \<noteq> i" using n i by force
  then show ?thesis
    using assms(1) n i by (auto simp: staged_view_def stage_path_def)
qed

lemma stage_paths_grows: "stage_paths i paths moved d = (d', moved', r) \<Longrightarrow> set moved \<subseteq> set moved'"
proof (induction paths arbitrary: i moved d)
  case (Cons path paths)
  have ih: "stage_paths (Suc i) paths ms x = (d', moved', r) \<Longrightarrow> set ms \<subseteq> set moved'" for ms x
    by (rule Cons.IH)
  obtain f1 d1 where f1: "next_fault d = (f1, d1)" by (cases "next_fault d")
  obtain f2 d2 where f2: "next_fault d1 = (f2, d2)" by (cases "next_fault d1")
  show ?case
    using Cons.prems ih [of moved d1] ih [of "(path, i) # moved" "stage_path path i d2"]
    by (cases f1; cases f2; cases "dk_files d1 path") (auto simp: f1 f2)
qed simp

lemma stage_paths_spec:
  assumes "stage_paths i paths moved d = (d', moved', r)" "staged_view moved m0 d"
    and "\<forall>(p, j) \<in> set moved. j < i"
  shows "staged_view moved' m0 d' \<and>
    (r = None \<longrightarrow> (\<forall>p \<in> set paths. dk_files d' p = None) \<and>
       (\<forall>p. p \<notin> set paths \<longrightarrow> p \<notin> fst ` set moved \<longrightarrow> p \<notin> fst ` set moved'))"
  using assms
proof (induction paths arbitrary: i moved d)
  case (Cons path paths)
  obtain f1 d1 where f1: "next_fault d = (f1, d1)" by (cases "next_fault d")
  have s1: "dk_files d1 = dk_files d" "dk_staged d1 = dk_staged d"
    using next_fault_same [of d] f1 by simp_all
  then have v1: "staged_view moved m0 d1" using Cons.prems(2) by (simp add: staged_view_def)
  have lt: "\<forall>(p, j) \<in> set moved. j < Suc i" using Cons.prems(3) by auto
  show ?case
  proof (cases f1)
    case (Some e)
    then show ?thesis using Cons.prems f1 v1 by auto
  next
    case None
    show ?thesis
    proof (cases "dk_files d1 path = None")
      case True
      then have run: "stage_paths (Suc i) paths moved d1 = (d', moved', r)"
        using Cons.prems(1) f1 None by simp
      note ih = Cons.IH [OF this v1 lt]
      have "dk_files d' path = None" if "r = None"
      proof (cases "path \<in> fst ` set moved'")
        case moved: True
        then show ?thesis using ih by (auto simp: staged_view_def)
      next
        case False
        moreover have "m0 path = None"
        proof -
          have "path \<notin> fst ` set moved" using False stage_paths_grows [OF run] by auto
          then show ?thesis using True v1 by (simp add: staged_view_def)
        qed
        ultimately show ?thesis using ih by (simp add: staged_view_def)
      qed
      then show ?thesis using ih by auto
    next
      case False
      obtain f2 d2 where f2: "next_fault d1 = (f2, d2)" by (cases "next_fault d1")
      have s2: "dk_files d2 = dk_files d1" "dk_staged d2 = dk_staged d1"
        using next_fault_same [of d1] f2 by simp_all
      then have v2: "staged_view moved m0 d2" using v1 by (simp add: staged_view_def)
      show ?thesis
      proof (cases f2)
        case (Some e)
        then show ?thesis using Cons.prems f1 f2 None False v2 by auto
      next
        case n2: None
        have v3: "staged_view ((path, i) # moved) m0 (stage_path path i d2)"
          using v2 False s2 Cons.prems(3) by (intro staged_view_stage) simp_all
        have run: "stage_paths (Suc i) paths ((path, i) # moved) (stage_path path i d2) = (d', moved', r)"
          using Cons.prems(1) f1 f2 None n2 False by simp
        have "\<forall>(p, j) \<in> set ((path, i) # moved). j < Suc i" using lt by auto
        note ih = Cons.IH [OF run v3 this]
        have "dk_files d' path = None" if "r = None" "path \<notin> set paths"
        proof -
          have "path \<in> fst ` set moved'" using stage_paths_grows [OF run] by force
          then show ?thesis using ih by (auto simp: staged_view_def)
        qed
        then show ?thesis using ih by auto
      qed
    qed
  qed
qed (auto simp: staged_view_def)

lemma staged_view_unstage:
  assumes "staged_view ((path, i) # moved) m0 d"
  shows "staged_view moved m0 (unstage_path path i d)"
proof -
  have d: "path \<notin> fst ` set moved" "i \<notin> snd ` set moved" "dk_staged d i = m0 path"
    using assms by (auto simp: staged_view_def)
  then have "\<forall>(p, j) \<in> set moved. p \<noteq> path \<and> j \<noteq> i" by force
  then show ?thesis using assms d by (auto simp: staged_view_def unstage_path_def)
qed

lemma staged_view_same:
  "staged_view moved m0 d \<Longrightarrow> dk_files d' = dk_files d \<Longrightarrow> dk_staged d' = dk_staged d \<Longrightarrow>
     staged_view moved m0 d'"
  by (simp add: staged_view_def)

lemma restore_moved_paths_spec:
  "staged_view moved m0 d \<Longrightarrow> restore_moved_paths moved d = (d', []) \<Longrightarrow> dk_files d' = m0"
proof (induction moved arbitrary: d)
  case Nil
  then show ?case by (auto simp: staged_view_def)
next
  case (Cons a moved)
  obtain path i where a: "a = (path, i)" by (cases a)
  obtain f1 d1 where f1: "next_fault d = (f1, d1)" by (cases "next_fault d")
  have s1: "dk_files d1 = dk_files d" "dk_staged d1 = dk_staged d"
    using next_fault_same [of d] f1 by simp_all
  have none: "f1 = None"
    using Cons.prems(2) by (cases f1) (auto simp: a f1 split: prod.splits)
  have "staged_view ((path, i) # moved) m0 d1" using Cons.prems(1) s1 staged_view_same a by blast
  then have "staged_view moved m0 (unstage_path path i d1)" by (rule staged_view_unstage)
  moreover have "restore_moved_paths moved (unstage_path path i d1) = (d', [])"
    using Cons.prems(2) none by (simp add: a f1)
  ultimately show ?case by (rule Cons.IH)
qed

lemma save_index_cases:
  obtains (ok) d' content where "index = Inr content" "save_index index_path index d = (d', Inr ())"
      "dk_files d' = (dk_files d)(index_path \<mapsto> content)" "dk_staged d' = dk_staged d"
  | (failed) d' e where "save_index index_path index d = (d', Inl e)" "dk_files d' = dk_files d"
      "dk_staged d' = dk_staged d"
proof (cases index)
  case (Inl e)
  then show ?thesis by (intro failed) (simp_all add: save_index_def)
next
  case (Inr content)
  then show ?thesis
    by (cases rule: atomic_write_cases [of index_path content d])
      (auto simp: save_index_def intro: ok failed)
qed

lemma commit_delete_spec:
  assumes "commit_delete index_path index paths d = (d', r)"
  shows "(\<forall>e. r = Inl e \<longrightarrow> (case e of Plain _ \<Rightarrow> True | Rolled _ _ errors \<Rightarrow> errors = []) \<longrightarrow>
            dk_files d' = dk_files d)
    \<and> (r = Inr () \<longrightarrow> (\<exists>content. index = Inr content \<and> dk_files d' index_path = Some content \<and>
         (\<forall>p. p \<noteq> index_path \<longrightarrow> dk_files d' p = (if p \<in> set paths then None else dk_files d p))))"
proof -
  obtain f1 d1 where f1: "next_fault d = (f1, d1)" by (cases "next_fault d")
  have s1: "dk_files d1 = dk_files d" using next_fault_same [of d] f1 by simp
  show ?thesis
  proof (cases f1)
    case (Some e)
    then show ?thesis using assms s1 by (auto simp: commit_delete_def f1)
  next
    case None
    define d2 where "d2 = d1\<lparr>dk_staged := Map.empty\<rparr>"
    have files2: "dk_files d2 = dk_files d" using s1 by (simp add: d2_def)
    obtain d3 moved st where st: "stage_paths 0 paths [] d2 = (d3, moved, st)"
      by (metis prod_cases3)
    have v2: "staged_view [] (dk_files d) d2" using files2 by (simp add: staged_view_def)
    note sp = stage_paths_spec [OF st v2]
    have v3: "staged_view moved (dk_files d) d3" using sp by simp
    show ?thesis
    proof (cases st)
      case (Some p)
      obtain c e where p: "p = (c, e)" by (cases p)
      obtain d4 errors where r4: "restore_moved_paths moved d3 = (d4, errors)"
        by (cases "restore_moved_paths moved d3")
      have "d' = d4 \<and> r = Inl (Rolled c e errors)"
        using assms None st Some p r4 by (simp add: commit_delete_def f1 d2_def)
      moreover have "errors = [] \<longrightarrow> dk_files d4 = dk_files d"
        using restore_moved_paths_spec [OF v3, of d4] r4 by blast
      ultimately show ?thesis by simp
    next
      case n: None
      show ?thesis
      proof (cases rule: save_index_cases [of index index_path d3])
        case (ok d4 content)
        have d': "d' = d4\<lparr>dk_staged := Map.empty\<rparr> \<and> r = Inr ()"
          using assms None st n ok by (simp add: commit_delete_def f1 d2_def)
        have "dk_files d3 p = (if p \<in> set paths then None else dk_files d p)" for p
          using sp n by (auto simp: staged_view_def)
        then show ?thesis using d' ok(1,3) by simp
      next
        case (failed d4 e)
        obtain d5 errors where r5: "restore_moved_paths moved d4 = (d5, errors)"
          by (cases "restore_moved_paths moved d4")
        have "d' = d5 \<and> r = Inl (Rolled ''profile deletion index commit failed'' e errors)"
          using assms None st n failed r5 by (simp add: commit_delete_def f1 d2_def)
        moreover have "staged_view moved (dk_files d) d4"
          using staged_view_same [OF v3 failed(2,3)] .
        then have "errors = [] \<longrightarrow> dk_files d5 = dk_files d"
          using restore_moved_paths_spec [of moved "dk_files d" d4 d5] r5 by blast
        ultimately show ?thesis by simp
      qed
    qed
  qed
qed

subsection \<open>Properties\<close>

text \<open>
  C10. A profile store transaction either replaces every file it writes and the index, or, when
  any system call fails and the rollback succeeds, leaves every file as it was.
\<close>

theorem store_commit_all_or_nothing:
  assumes "commit_files index_path index ws d = (d', r)"
  shows "case r of
     Inr _ \<Rightarrow> (\<exists>content. index = Inr content \<and> dk_files d' =
       (fold (\<lambda>(p, c) m. m(p \<mapsto> c)) ws (dk_files d))(index_path \<mapsto> content))
   | Inl (Plain _) \<Rightarrow> dk_files d' = dk_files d
   | Inl (Rolled _ _ errors) \<Rightarrow> errors = [] \<longrightarrow> dk_files d' = dk_files d"
proof (cases r)
  case (Inl e)
  then show ?thesis using commit_files_Inl [OF assms [unfolded Inl]] by (cases e) simp_all
next
  case (Inr u)
  then have "commit_files index_path index ws d = (d', Inr ())" using assms by simp
  from commit_files_Inr [OF this] show ?thesis using Inr by fastforce
qed

theorem store_commit_all_or_nothing_witness:
  "dk_files (fst (commit_files ''i'' (Inr [1]) [(''a'', [2])]
     \<lparr>dk_files = [''a'' \<mapsto> [9]], dk_staged = Map.empty, dk_faults = [None, None, None, Some ''full'']\<rparr>)) = [''a'' \<mapsto> [9]]"
proof -
  let ?d = "\<lparr>dk_files = [''a'' \<mapsto> [9]], dk_staged = Map.empty, dk_faults = [None, None, None, Some ''full'']\<rparr>"
  obtain d' where run: "commit_files ''i'' (Inr [1]) [(''a'', [2])] ?d =
      (d', Inl (Rolled ''profile store transaction failed'' (Io ''full'') []))"
    by (simp add: commit_files_def read_file_def next_fault_def atomic_write_def set_file_def save_index_def)
  from store_commit_all_or_nothing [OF run] run show ?thesis by simp
qed

text \<open>
  C11. A staged deletion that succeeds removes exactly its paths and writes the index; one that
  fails, at any system call, with a rollback that succeeds restores every file it had moved away.
\<close>

theorem store_delete_all_or_nothing:
  assumes "commit_delete index_path index paths d = (d', r)"
  shows "case r of
     Inr _ \<Rightarrow> (\<exists>content. index = Inr content \<and> dk_files d' index_path = Some content \<and>
       (\<forall>p. p \<noteq> index_path \<longrightarrow> dk_files d' p = (if p \<in> set paths then None else dk_files d p)))
   | Inl (Plain _) \<Rightarrow> dk_files d' = dk_files d
   | Inl (Rolled _ _ errors) \<Rightarrow> errors = [] \<longrightarrow> dk_files d' = dk_files d"
  using commit_delete_spec [OF assms] by (auto split: sum.splits tx_error.splits)

theorem store_delete_all_or_nothing_witness:
  "dk_files (fst (commit_delete ''i'' (Inr [1]) [''a'']
     \<lparr>dk_files = [''a'' \<mapsto> [9], ''b'' \<mapsto> [8]], dk_staged = Map.empty, dk_faults = []\<rparr>)) ''b'' = Some [8]"
proof -
  let ?d = "\<lparr>dk_files = [''a'' \<mapsto> [9], ''b'' \<mapsto> [8]], dk_staged = Map.empty, dk_faults = []\<rparr>"
  obtain d' where run: "commit_delete ''i'' (Inr [1]) [''a''] ?d = (d', Inr ())"
    by (simp add: commit_delete_def next_fault_def stage_path_def atomic_write_def set_file_def save_index_def)
  from store_delete_all_or_nothing [OF run] run show ?thesis by simp
qed

end
