(* ===== verification/OrdMap.thy ===== *)
theory OrdMap
  imports PawsPrelude "HOL-Library.Char_ord" "HOL-Library.List_Lexorder"
begin

text \<open>
  Rust's \<open>BTreeMap\<close>: an association list in ascending order of its keys, so that iterating it and
  taking its first key are as in the code. Strings are ordered byte by byte.
\<close>

fun bput :: "('k :: linorder) \<Rightarrow> 'v \<Rightarrow> ('k \<times> 'v) list \<Rightarrow> ('k \<times> 'v) list" where
  "bput k v [] = [(k, v)]"
| "bput k v ((k', v') # m) =
     (if k < k' then (k, v) # (k', v') # m else if k = k' then (k, v) # m else (k', v') # bput k v m)"

definition bdel :: "'k \<Rightarrow> ('k \<times> 'v) list \<Rightarrow> ('k \<times> 'v) list" where
  "bdel k m = filter (\<lambda>p. fst p \<noteq> k) m"

definition bmap_ok :: "(('k :: linorder) \<times> 'v) list \<Rightarrow> bool" where
  "bmap_ok m \<longleftrightarrow> sorted_wrt (<) (map fst m)"

lemma map_of_bput [simp]: "map_of (bput k v m) = (map_of m)(k \<mapsto> v)"
  by (induction m) auto

lemma map_of_bdel [simp]: "map_of (bdel k m) = (map_of m)(k := None)"
  by (induction m) (auto simp: bdel_def)

lemma keys_bput [simp]: "fst ` set (bput k v m) = insert k (fst ` set m)"
proof (induction m)
  case (Cons p m)
  then show ?case by (cases p) auto
qed simp

lemma set_bput: "set (bput k v m) \<subseteq> insert (k, v) (set m)"
proof (induction m)
  case (Cons p m)
  then show ?case by (cases p) auto
qed simp

lemma bmap_ok_Nil [simp]: "bmap_ok []"
  by (simp add: bmap_ok_def)

lemma bmap_ok_Cons: "bmap_ok (p # m) \<longleftrightarrow> (\<forall>k \<in> fst ` set m. fst p < k) \<and> bmap_ok m"
  by (auto simp: bmap_ok_def)

lemma bmap_ok_put [intro]: "bmap_ok m \<Longrightarrow> bmap_ok (bput k v m)"
proof (induction m)
  case (Cons p m)
  obtain k' v' where p: "p = (k', v')" by (cases p)
  show ?case using Cons by (auto simp: p bmap_ok_Cons)
qed (simp add: bmap_ok_Cons)

lemma bmap_ok_filter [intro]: "bmap_ok m \<Longrightarrow> bmap_ok (filter P m)"
proof (induction m)
  case (Cons p m)
  then show ?case by (cases p) (auto simp: bmap_ok_Cons)
qed simp

lemma bmap_ok_del [intro]: "bmap_ok m \<Longrightarrow> bmap_ok (bdel k m)"
  by (simp add: bdel_def bmap_ok_filter)

lemma bmap_ok_distinct: "bmap_ok m \<Longrightarrow> distinct (map fst m)"
  by (simp add: bmap_ok_def strict_sorted_iff)

lemma bmap_in_map_of: "bmap_ok m \<Longrightarrow> (k, v) \<in> set m \<longleftrightarrow> map_of m k = Some v"
  using bmap_ok_distinct by (auto dest: map_of_SomeD)

lemma bput_all:
  "\<forall>(j, w) \<in> set m. P j w \<Longrightarrow> P k v \<Longrightarrow> \<forall>(j, w) \<in> set (bput k v m). P j w"
  using set_bput [of k v m] by fast

text \<open>Building a map from a list, as \<open>collect\<close> does; a sorted list is its own map.\<close>

definition bmap_of_list :: "(('k :: linorder) \<times> 'v) list \<Rightarrow> ('k \<times> 'v) list" where
  "bmap_of_list xs = fold (\<lambda>(k, v) m. bput k v m) xs []"

lemma bput_last: "\<forall>j \<in> fst ` set m. j < k \<Longrightarrow> bput k v m = m @ [(k, v)]"
proof (induction m)
  case (Cons p m)
  then show ?case by (cases p) auto
qed simp

lemma bmap_of_list_sorted: "bmap_ok xs \<Longrightarrow> bmap_of_list xs = xs"
proof -
  have "bmap_ok (m @ xs) \<Longrightarrow> fold (\<lambda>(k, v) m. bput k v m) xs m = m @ xs" for m
  proof (induction xs arbitrary: m)
    case (Cons p xs)
    obtain k v where p: "p = (k, v)" by (cases p)
    have "\<forall>j \<in> fst ` set m. j < k" using Cons.prems by (auto simp: p bmap_ok_def sorted_wrt_append)
    then have "bput k v m = m @ [p]" by (simp add: p bput_last)
    moreover have "bmap_ok ((m @ [p]) @ xs)" using Cons.prems by simp
    ultimately show ?case using Cons.IH [of "m @ [p]"] by (simp add: p)
  qed simp
  from this [of "[]"] show "bmap_ok xs \<Longrightarrow> bmap_of_list xs = xs" by (simp add: bmap_of_list_def)
qed

end
