(* ===== verification/ProfileStore.thy ===== *)
theory ProfileStore
  imports StoreFiles OrdMap
begin

text \<open>
  The profile store of \<open>crates/paws_profile/src/lib.rs\<close>: its documents, the index on disk with the
  validation that guards opening it, and the operations that stage a changed copy of the store and
  commit it with the files it needs. YAML values, the JSON codec of the index, URL parsing and the
  normalisation of profile content are arguments (\<open>ext\<close>); so are the clock and the generated ids.
\<close>

definition STORE_VERSION :: nat where "STORE_VERSION = 1"

record 'y profile_document =
  pd_id :: string
  pd_name :: string
  pd_source :: string
  pd_raw_yaml_path :: string
  pd_user_overrides :: "(string \<times> 'y) list"
  pd_yaml_backup_path :: "string option"
  pd_subscription_url :: "string option"
  pd_updated_at :: "string option"
  pd_last_refresh_at :: "string option"
  pd_last_refresh_error :: "string option"
  pd_selected_proxies :: "(string \<times> string) list"
  pd_upload_bytes :: nat
  pd_download_bytes :: nat
  pd_subscription_user_info :: "subscription_user_info option"
  pd_subscription_metadata :: "subscription_metadata option"

record rule_document =
  rd_id :: string
  rd_profile_id :: string
  rd_line :: string
  rd_enabled :: bool
  rd_order :: nat
  rd_source :: string

record 'y store_index =
  si_version :: nat
  si_active_profile :: "string option"
  si_profiles :: "'y profile_document list"
  si_rules :: "rule_document list"

record 'y store =
  st_root :: string
  st_initialization_error :: "string option"
  st_active :: "string option"
  st_profiles :: "(string \<times> 'y profile_document) list"
  st_rules :: "(string \<times> rule_document) list"

record 'y ext =
  ext_encode :: "'y store_index \<Rightarrow> string + byte list"
  ext_decode :: "byte list \<Rightarrow> string + 'y store_index"
  ext_normalize :: "string \<Rightarrow> string presult"
  ext_url_scheme :: "string \<Rightarrow> string + string"
  ext_user_info_comment :: "string \<Rightarrow> subscription_user_info option"
  ext_metadata_comment :: "string \<Rightarrow> subscription_metadata option"

definition join :: "string \<Rightarrow> string \<Rightarrow> string" where
  "join root path = root @ ''/'' @ path"

definition NOT_FOUND :: string where "NOT_FOUND = ''No such file or directory (os error 2)''"

definition index_path :: "string \<Rightarrow> string" where
  "index_path root = join root ''profiles.json''"

subsection \<open>When a subscription is due\<close>

fun parse_digits :: "string \<Rightarrow> nat \<Rightarrow> nat option" where
  "parse_digits [] acc = Some acc"
| "parse_digits (c # s) acc =
     (if 48 \<le> (of_char c :: nat) \<and> (of_char c :: nat) \<le> 57
      then parse_digits s (acc * 10 + (of_char c - 48)) else None)"

text \<open>\<open>str::parse::<u128>\<close>.\<close>

definition parse_u128 :: "string \<Rightarrow> nat option" where
  "parse_u128 s =
    (let digits = (case s of c # r \<Rightarrow> if c = CHR ''+'' then r else s | [] \<Rightarrow> s) in
     if digits = [] then None
     else case parse_digits digits 0 of None \<Rightarrow> None
       | Some n \<Rightarrow> if n \<le> u128_max then Some n else None)"

definition sat_mul128 :: "nat \<Rightarrow> nat \<Rightarrow> nat" where "sat_mul128 a b = min (a * b) u128_max"

definition next_refresh_at :: "'y profile_document \<Rightarrow> string option" where
  "next_refresh_at p =
    (case (case pd_subscription_metadata p of None \<Rightarrow> None
           | Some m \<Rightarrow> (case md_update_interval_hours m of None \<Rightarrow> None
               | Some h \<Rightarrow> if h > 0 then Some h else None)) of
       None \<Rightarrow> None
     | Some interval_hours \<Rightarrow>
         (case (case pd_last_refresh_at p of Some t \<Rightarrow> Some t | None \<Rightarrow> pd_updated_at p) of
            None \<Rightarrow> None
          | Some text \<Rightarrow>
              (case parse_u128 text of None \<Rightarrow> None
               | Some base \<Rightarrow>
                   let interval = sat_mul128 (sat_mul128 (sat_mul128 interval_hours 60) 60) 1000000000 in
                   Some (decimal (sat_add128 base interval)))))"

definition refresh_due_at :: "'y profile_document \<Rightarrow> nat \<Rightarrow> bool" where
  "refresh_due_at p now_nanos =
    (case next_refresh_at p of None \<Rightarrow> False
     | Some s \<Rightarrow> (case parse_u128 s of None \<Rightarrow> False | Some next \<Rightarrow> now_nanos \<ge> next))"

definition merge_subscription_metadata ::
  "subscription_metadata option \<Rightarrow> subscription_metadata option \<Rightarrow> subscription_metadata option" where
  "merge_subscription_metadata primary fallback =
    (case (primary, fallback) of
       (Some p, Some f) \<Rightarrow>
         Some \<lparr>md_title = (case md_title p of None \<Rightarrow> md_title f | x \<Rightarrow> x),
               md_update_interval_hours =
                 (case md_update_interval_hours p of None \<Rightarrow> md_update_interval_hours f | x \<Rightarrow> x),
               md_web_page_url = (case md_web_page_url p of None \<Rightarrow> md_web_page_url f | x \<Rightarrow> x),
               md_support_url = (case md_support_url p of None \<Rightarrow> md_support_url f | x \<Rightarrow> x)\<rparr>
     | (Some p, None) \<Rightarrow> Some p
     | (None, f) \<Rightarrow> f)"

subsection \<open>The index and its validation\<close>

definition store_index_of :: "'y store \<Rightarrow> 'y store_index" where
  "store_index_of s = \<lparr>si_version = STORE_VERSION, si_active_profile = st_active s,
     si_profiles = map snd (st_profiles s), si_rules = map snd (st_rules s)\<rparr>"

text \<open>
  A relative path is safe when every component is a normal one: not empty, not rooted, and without
  \<open>.\<close> and \<open>..\<close>. Rust's \<open>components\<close> drops empty and inner \<open>.\<close> components before the check.
\<close>

definition path_is_safe :: "string \<Rightarrow> bool" where
  "path_is_safe path \<longleftrightarrow> path \<noteq> [] \<and> hd path \<noteq> CHR ''/'' \<and>
     (let parts = split_on (CHR ''/'') path in hd parts \<noteq> ''.'' \<and> ''..'' \<notin> set parts)"

definition validate_index_file :: "string \<Rightarrow> string \<Rightarrow> string \<Rightarrow> disk \<Rightarrow> disk \<times> unit presult" where
  "validate_index_file root relative label d =
    (if \<not> path_is_safe relative then
       (d, Inl (Core (''profile store '' @ label @ '' path is unsafe: '' @ relative)))
     else
       let path = join root relative in
       (case read_file path d of
          (d, Inr (Some _)) \<Rightarrow> (d, Inr ())
        | (d, Inr None) \<Rightarrow> (d, Inl (Core (''profile store cannot read '' @ label @ '' '' @ path
              @ '': io error: '' @ NOT_FOUND)))
        | (d, Inl (Io e)) \<Rightarrow> (d, Inl (Core (''profile store cannot read '' @ label @ '' '' @ path
              @ '': io error: '' @ e)))
        | (d, Inl e) \<Rightarrow> (d, Inl e)))"

fun validate_profiles ::
  "string \<Rightarrow> string list \<Rightarrow> 'y profile_document list \<Rightarrow> disk \<Rightarrow> disk \<times> string list presult" where
  "validate_profiles root ids [] d = (d, Inr ids)"
| "validate_profiles root ids (p # ps) d =
    (if str_trim (pd_id p) = [] \<or> pd_id p \<in> set ids then
       (d, Inl (Core (''profile store contains an empty or duplicate profile id: '' @ pd_id p)))
     else case validate_index_file root (pd_raw_yaml_path p) ''profile YAML'' d of
         (d, Inl e) \<Rightarrow> (d, Inl e)
       | (d, Inr _) \<Rightarrow>
           (case (case pd_yaml_backup_path p of None \<Rightarrow> (d, Inr ())
                  | Some b \<Rightarrow> validate_index_file root b ''profile backup'' d) of
              (d, Inl e) \<Rightarrow> (d, Inl e)
            | (d, Inr _) \<Rightarrow> validate_profiles root (pd_id p # ids) ps d))"

fun validate_rules :: "string list \<Rightarrow> string list \<Rightarrow> rule_document list \<Rightarrow> unit presult" where
  "validate_rules profile_ids ids [] = Inr ()"
| "validate_rules profile_ids ids (r # rs) =
    (if str_trim (rd_id r) = [] \<or> rd_id r \<in> set ids then
       Inl (Core (''profile store contains an empty or duplicate rule id: '' @ rd_id r))
     else if rd_profile_id r \<notin> set profile_ids then
       Inl (Core (''profile store rule '' @ rd_id r @ '' references missing profile ''
              @ rd_profile_id r))
     else validate_rules profile_ids (rd_id r # ids) rs)"

definition validate_store_index :: "string \<Rightarrow> 'y store_index \<Rightarrow> disk \<Rightarrow> disk \<times> unit presult" where
  "validate_store_index root index d =
    (if si_version index \<noteq> STORE_VERSION then
       (d, Inl (Core (''unsupported profile store version '' @ decimal (si_version index)
              @ ''; expected '' @ decimal STORE_VERSION)))
     else case validate_profiles root [] (si_profiles index) d of
         (d, Inl e) \<Rightarrow> (d, Inl e)
       | (d, Inr profile_ids) \<Rightarrow>
           (case si_active_profile index of
              Some active \<Rightarrow>
                if active \<notin> set profile_ids then
                  (d, Inl (Core (''profile store active profile does not exist: '' @ active)))
                else (d, validate_rules profile_ids [] (si_rules index))
            | None \<Rightarrow> (d, validate_rules profile_ids [] (si_rules index))))"

subsection \<open>Committing a staged store\<close>

definition ensure_available :: "'y store \<Rightarrow> unit presult" where
  "ensure_available s = (case st_initialization_error s of
     Some e \<Rightarrow> Inl (Core (''profile store is unavailable: '' @ e)) | None \<Rightarrow> Inr ())"

text \<open>What \<open>save\<close> writes to the index file, or why it cannot.\<close>

definition encoded_index :: "'y ext \<Rightarrow> 'y store \<Rightarrow> paws_error + byte list" where
  "encoded_index ext s =
    (case ensure_available s of Inl e \<Rightarrow> Inl e
     | Inr _ \<Rightarrow> (case ext_encode ext (store_index_of s) of Inl e \<Rightarrow> Inl (InvalidJson e) | Inr bytes \<Rightarrow> Inr bytes))"

definition save :: "'y ext \<Rightarrow> 'y store \<Rightarrow> disk \<Rightarrow> disk \<times> unit presult" where
  "save ext s d = save_index (index_path (st_root s)) (encoded_index ext s) d"

text \<open>
  \<open>open\<close>: \<open>has_artifacts\<close> is what listing the two data directories says and \<open>mkdirs\<close> what creating the
  directory tree does. An existing index is read as text, decoded and validated; a missing one is
  written anew, but never beside data that is there already.
\<close>

definition read_index :: "string \<Rightarrow> disk \<Rightarrow> disk \<times> byte list presult" where
  "read_index root d =
    (let unreadable = (\<lambda>e. Core (''cannot read profile store index '' @ index_path root @ '': '' @ e)) in
     (case read_file (index_path root) d of
        (d, Inl (Io e)) \<Rightarrow> (d, Inl (unreadable e))
      | (d, Inl e) \<Rightarrow> (d, Inl e)
      | (d, Inr None) \<Rightarrow> (d, Inl (unreadable NOT_FOUND))
      | (d, Inr (Some content)) \<Rightarrow>
          if utf8_valid content then (d, Inr content)
          else (d, Inl (unreadable ''stream did not contain valid UTF-8''))))"

definition open_existing :: "'y ext \<Rightarrow> string \<Rightarrow> disk \<Rightarrow> disk \<times> 'y store presult" where
  "open_existing ext root d =
    (case read_index root d of
       (d, Inl e) \<Rightarrow> (d, Inl e)
     | (d, Inr content) \<Rightarrow>
         (case ext_decode ext content of
            Inl e \<Rightarrow> (d, Inl (InvalidJson (index_path root @ '': '' @ e)))
          | Inr index \<Rightarrow>
              (case validate_store_index root index d of
                 (d, Inl e) \<Rightarrow> (d, Inl e)
               | (d, Inr _) \<Rightarrow>
                   (d, Inr \<lparr>st_root = root, st_initialization_error = None,
                        st_active = si_active_profile index,
                        st_profiles = bmap_of_list (map (\<lambda>p. (pd_id p, p)) (si_profiles index)),
                        st_rules = bmap_of_list (map (\<lambda>r. (rd_id r, r)) (si_rules index))\<rparr>))))"

definition open_store ::
  "'y ext \<Rightarrow> string \<Rightarrow> bool presult \<Rightarrow> unit presult \<Rightarrow> disk \<Rightarrow> disk \<times> 'y store presult" where
  "open_store ext root has_artifacts mkdirs d =
    (case has_artifacts of Inl e \<Rightarrow> (d, Inl e) | Inr found \<Rightarrow>
    (case mkdirs of Inl e \<Rightarrow> (d, Inl e) | Inr _ \<Rightarrow>
    (case next_fault d of (Some e, d) \<Rightarrow> (d, Inl (Io e)) | (None, d) \<Rightarrow>
     if dk_files d (index_path root) \<noteq> None then open_existing ext root d
     else if found then
       (d, Inl (Core (''profile store is missing '' @ index_path root
          @ '' but already contains data; refusing to initialize over it'')))
     else
       let store = \<lparr>st_root = root, st_initialization_error = None, st_active = None, st_profiles = [],
             st_rules = []\<rparr> in
       (case save ext store d of (d, Inl e) \<Rightarrow> (d, Inl e) | (d, Inr _) \<Rightarrow> (d, Inr store)))))"

text \<open>
  The three ways to commit: \<open>self\<close> becomes the staged copy exactly when the index was written. An
  operation takes the store and the disk and gives both back with its result.
\<close>

type_synonym ('y, 'r) op_result = "'y store \<times> disk \<times> (tx_error + 'r)"

definition commit_staged :: "'y ext \<Rightarrow> 'y store \<Rightarrow> disk \<Rightarrow> 'y store \<Rightarrow> 'r \<Rightarrow> ('y, 'r) op_result" where
  "commit_staged ext s d staged value =
    (case save ext staged d of (d, Inl e) \<Rightarrow> (s, d, Inl (Plain e)) | (d, Inr _) \<Rightarrow> (staged, d, Inr value))"

definition commit_staged_with_files ::
  "'y ext \<Rightarrow> 'y store \<Rightarrow> disk \<Rightarrow> 'y store \<Rightarrow> (string \<times> byte list) list \<Rightarrow> 'r \<Rightarrow> ('y, 'r) op_result" where
  "commit_staged_with_files ext s d staged writes value =
    (case commit_files (index_path (st_root staged)) (encoded_index ext staged) writes d of
       (d, Inl e) \<Rightarrow> (s, d, Inl e) | (d, Inr _) \<Rightarrow> (staged, d, Inr value))"

definition commit_staged_delete ::
  "'y ext \<Rightarrow> 'y store \<Rightarrow> disk \<Rightarrow> 'y store \<Rightarrow> string list \<Rightarrow> ('y, unit) op_result" where
  "commit_staged_delete ext s d staged paths =
    (case commit_delete (index_path (st_root staged)) (encoded_index ext staged) paths d of
       (d, Inl e) \<Rightarrow> (s, d, Inl e) | (d, Inr _) \<Rightarrow> (staged, d, Inr ()))"

text \<open>The early return of an operation, and the lookup most of them begin with.\<close>

definition refuse :: "'y store \<Rightarrow> disk \<Rightarrow> paws_error \<Rightarrow> ('y, 'r) op_result" where
  "refuse s d e = (s, d, Inl (Plain e))"

definition available ::
  "'y store \<Rightarrow> disk \<Rightarrow> ('y, 'r) op_result \<Rightarrow> ('y, 'r) op_result" where
  "available s d k = (case ensure_available s of Inl e \<Rightarrow> refuse s d e | Inr _ \<Rightarrow> k)"

definition with_profile ::
  "'y store \<Rightarrow> disk \<Rightarrow> string \<Rightarrow> ('y profile_document \<Rightarrow> ('y, 'r) op_result) \<Rightarrow> ('y, 'r) op_result" where
  "with_profile s d profile_id f =
    (case map_of (st_profiles s) profile_id of
       None \<Rightarrow> refuse s d (ProfileNotFound profile_id) | Some p \<Rightarrow> f p)"

definition put_profile :: "string \<Rightarrow> 'y profile_document \<Rightarrow> 'y store \<Rightarrow> 'y store" where
  "put_profile i p s = s\<lparr>st_profiles := bput i p (st_profiles s)\<rparr>"

text \<open>
  \<open>now_nanos\<close> and the id generator of the process: the readings an operation makes are numbered, and
  so are the ids it draws, from the sequence number the counter has when it starts.
\<close>

record clock =
  ck_now :: "nat \<Rightarrow> nat"
  ck_pid :: nat
  ck_sequence :: u64

definition now_string :: "clock \<Rightarrow> nat \<Rightarrow> string" where
  "now_string ck i = decimal (ck_now ck i)"

definition next_id :: "string \<Rightarrow> clock \<Rightarrow> nat \<Rightarrow> nat \<Rightarrow> string" where
  "next_id prefix ck i j = prefix @ ''-'' @ decimal (ck_now ck i) @ ''-'' @ decimal (ck_pid ck) @ ''-''
     @ decimal (unat (ck_sequence ck + of_nat j))"

definition raw_path_of :: "string \<Rightarrow> string" where "raw_path_of i = ''profiles/'' @ i @ ''.yaml''"
definition backup_path_of :: "string \<Rightarrow> string" where "backup_path_of i = ''backups/'' @ i @ ''.yaml''"

subsection \<open>Importing and replacing content\<close>

definition import_profile_content_with_subscription_metadata ::
  "'y ext \<Rightarrow> clock \<Rightarrow> string \<Rightarrow> string \<Rightarrow> string \<Rightarrow> string option \<Rightarrow> subscription_user_info option \<Rightarrow>
   subscription_metadata option \<Rightarrow> 'y store \<Rightarrow> disk \<Rightarrow> ('y, string) op_result" where
  "import_profile_content_with_subscription_metadata ext ck nm src raw_profile url user_info metadata s d =
    available s d
    (let user_info = (case user_info of None \<Rightarrow> ext_user_info_comment ext raw_profile | x \<Rightarrow> x);
         metadata = merge_subscription_metadata metadata (ext_metadata_comment ext raw_profile) in
     (case ext_normalize ext raw_profile of
        Inl e \<Rightarrow> refuse s d e
      | Inr raw_yaml \<Rightarrow>
          let i = next_id ''profile'' ck 0 0;
              doc = \<lparr>pd_id = i, pd_name = nm, pd_source = src, pd_raw_yaml_path = raw_path_of i,
                pd_user_overrides = [], pd_yaml_backup_path = Some (backup_path_of i),
                pd_subscription_url = url, pd_updated_at = Some (now_string ck 1),
                pd_last_refresh_at = None, pd_last_refresh_error = None, pd_selected_proxies = [],
                pd_upload_bytes = 0, pd_download_bytes = 0, pd_subscription_user_info = user_info,
                pd_subscription_metadata = metadata\<rparr>;
              staged = put_profile i doc s;
              staged = (if st_active staged = None then staged\<lparr>st_active := Some i\<rparr> else staged) in
          commit_staged_with_files ext s d staged
            [(join (st_root s) (raw_path_of i), str_bytes raw_yaml),
             (join (st_root s) (backup_path_of i), str_bytes raw_yaml)] i))"

text \<open>The checks on a name and a URL the user typed; \<open>bad_url\<close> wraps the parser's message.\<close>

definition check_identity ::
  "'y ext \<Rightarrow> (string \<Rightarrow> paws_error) \<Rightarrow> string \<Rightarrow> string \<Rightarrow> (string \<times> string) presult" where
  "check_identity ext bad_url nm url =
    (let nm = str_trim nm in
     if nm = [] then Inl (Core ''profile name cannot be empty'')
     else let url = str_trim url in
       (case ext_url_scheme ext url of
          Inl e \<Rightarrow> Inl (bad_url e)
        | Inr scheme \<Rightarrow>
            if scheme \<noteq> ''http'' \<and> scheme \<noteq> ''https''
            then Inl (Core ''subscription URL must use http or https'')
            else Inr (nm, url)))"

text \<open>The document after a refresh: the block that holds \<open>get_mut\<close>'s borrow.\<close>

definition refreshed_document ::
  "string \<Rightarrow> string \<Rightarrow> (string \<times> string) option \<Rightarrow> subscription_user_info option \<Rightarrow>
   subscription_metadata option \<Rightarrow> 'y profile_document \<Rightarrow> 'y profile_document" where
  "refreshed_document profile_id refreshed_at identity user_info metadata p =
    (let p = p\<lparr>pd_updated_at := Some refreshed_at, pd_last_refresh_at := Some refreshed_at,
               pd_last_refresh_error := None\<rparr>;
         p = (case identity of None \<Rightarrow> p
              | Some (nm, url) \<Rightarrow> p\<lparr>pd_name := nm, pd_source := url, pd_subscription_url := Some url\<rparr>);
         p = (if user_info \<noteq> None then p\<lparr>pd_subscription_user_info := user_info\<rparr> else p);
         p = (if metadata \<noteq> None then p\<lparr>pd_subscription_metadata := metadata\<rparr> else p) in
     (if pd_yaml_backup_path p = None
      then p\<lparr>pd_yaml_backup_path := Some (backup_path_of profile_id)\<rparr> else p))"

definition replace_profile_content_and_subscription_metadata ::
  "'y ext \<Rightarrow> clock \<Rightarrow> string \<Rightarrow> string \<Rightarrow> subscription_user_info option \<Rightarrow> subscription_metadata option \<Rightarrow>
   (string \<times> string) option \<Rightarrow> 'y store \<Rightarrow> disk \<Rightarrow> ('y, unit) op_result" where
  "replace_profile_content_and_subscription_metadata ext ck profile_id raw_profile user_info metadata
       identity s d =
    available s d
    (case (case identity of None \<Rightarrow> Inr None
           | Some (nm, url) \<Rightarrow>
               (case check_identity ext (\<lambda>e. Core (''invalid subscription URL: '' @ e)) nm url of
                  Inl e \<Rightarrow> Inl e | Inr x \<Rightarrow> Inr (Some x))) of
       Inl e \<Rightarrow> refuse s d e
     | Inr identity \<Rightarrow>
    (let user_info = (case user_info of None \<Rightarrow> ext_user_info_comment ext raw_profile | x \<Rightarrow> x);
         metadata = merge_subscription_metadata metadata (ext_metadata_comment ext raw_profile) in
     (case ext_normalize ext raw_profile of
        Inl e \<Rightarrow> refuse s d e
      | Inr raw_yaml \<Rightarrow> with_profile s d profile_id (\<lambda>p.
          let p = refreshed_document profile_id (now_string ck 0) identity user_info metadata p in
          commit_staged_with_files ext s d (put_profile profile_id p s)
            ((join (st_root s) (pd_raw_yaml_path p), str_bytes raw_yaml) #
             (case pd_yaml_backup_path p of None \<Rightarrow> []
              | Some b \<Rightarrow> [(join (st_root s) b, str_bytes raw_yaml)])) ()))))"

definition mark_profile_refresh_failed ::
  "'y ext \<Rightarrow> clock \<Rightarrow> string \<Rightarrow> string \<Rightarrow> 'y store \<Rightarrow> disk \<Rightarrow> ('y, unit) op_result" where
  "mark_profile_refresh_failed ext ck profile_id message s d =
    available s d (with_profile s d profile_id (\<lambda>p.
      commit_staged ext s d (put_profile profile_id
        (p\<lparr>pd_last_refresh_at := Some (now_string ck 0), pd_last_refresh_error := Some message\<rparr>) s) ()))"

definition update_profile_content ::
  "'y ext \<Rightarrow> clock \<Rightarrow> string \<Rightarrow> string \<Rightarrow> 'y store \<Rightarrow> disk \<Rightarrow> ('y, unit) op_result" where
  "update_profile_content ext ck profile_id raw_yaml s d =
    available s d
    (case ext_normalize ext raw_yaml of
       Inl e \<Rightarrow> refuse s d e
     | Inr raw_yaml \<Rightarrow> with_profile s d profile_id (\<lambda>p.
         commit_staged_with_files ext s d
           (put_profile profile_id (p\<lparr>pd_updated_at := Some (now_string ck 0)\<rparr>) s)
           [(join (st_root s) (pd_raw_yaml_path p), str_bytes raw_yaml)] ()))"

definition update_profile_subscription ::
  "'y ext \<Rightarrow> string \<Rightarrow> string \<Rightarrow> string \<Rightarrow> 'y store \<Rightarrow> disk \<Rightarrow> ('y, unit) op_result" where
  "update_profile_subscription ext profile_id nm url s d =
    available s d
    (case check_identity ext (\<lambda>e. Core (''invalid subscription link: '' @ e)) nm url of
       Inl e \<Rightarrow> refuse s d e
     | Inr (nm, url) \<Rightarrow> with_profile s d profile_id (\<lambda>p.
         commit_staged ext s d (put_profile profile_id
           (p\<lparr>pd_name := nm, pd_source := url, pd_subscription_url := Some url\<rparr>) s) ()))"

subsection \<open>Backups and checkpoints\<close>

definition read_existing :: "string \<Rightarrow> disk \<Rightarrow> disk \<times> byte list presult" where
  "read_existing path d =
    (case read_file path d of (d, Inl e) \<Rightarrow> (d, Inl e) | (d, Inr None) \<Rightarrow> (d, Inl (Io NOT_FOUND))
     | (d, Inr (Some content)) \<Rightarrow> (d, Inr content))"

definition restore_profile_backup ::
  "'y ext \<Rightarrow> clock \<Rightarrow> string \<Rightarrow> 'y store \<Rightarrow> disk \<Rightarrow> ('y, unit) op_result" where
  "restore_profile_backup ext ck profile_id s d =
    available s d (with_profile s d profile_id (\<lambda>p.
      (case pd_yaml_backup_path p of
         None \<Rightarrow> refuse s d (Core (''profile '' @ profile_id @ '' has no backup''))
       | Some b \<Rightarrow>
           (case read_existing (join (st_root s) b) d of
              (d, Inl e) \<Rightarrow> refuse s d e
            | (d, Inr content) \<Rightarrow>
                if \<not> utf8_valid content then refuse s d (Io ''stream did not contain valid UTF-8'')
                else commit_staged_with_files ext s d
                  (put_profile profile_id (p\<lparr>pd_updated_at := Some (now_string ck 0)\<rparr>) s)
                  [(join (st_root s) (pd_raw_yaml_path p), content)] ()))))"

record 'y checkpoint =
  cp_profile :: "'y profile_document"
  cp_raw_yaml :: "byte list"
  cp_backup_yaml :: "byte list option"

definition checkpoint_profile :: "string \<Rightarrow> 'y store \<Rightarrow> disk \<Rightarrow> disk \<times> 'y checkpoint presult" where
  "checkpoint_profile profile_id s d =
    (case ensure_available s of Inl e \<Rightarrow> (d, Inl e)
     | Inr _ \<Rightarrow>
    (case map_of (st_profiles s) profile_id of
       None \<Rightarrow> (d, Inl (ProfileNotFound profile_id))
     | Some p \<Rightarrow>
         (case read_existing (join (st_root s) (pd_raw_yaml_path p)) d of
            (d, Inl e) \<Rightarrow> (d, Inl e)
          | (d, Inr raw) \<Rightarrow>
              (case pd_yaml_backup_path p of
                 None \<Rightarrow> (d, Inr \<lparr>cp_profile = p, cp_raw_yaml = raw, cp_backup_yaml = None\<rparr>)
               | Some b \<Rightarrow>
                   (case read_existing (join (st_root s) b) d of
                      (d, Inl e) \<Rightarrow> (d, Inl e)
                    | (d, Inr backup) \<Rightarrow>
                        (d, Inr \<lparr>cp_profile = p, cp_raw_yaml = raw, cp_backup_yaml = Some backup\<rparr>))))))"

definition restore_profile_checkpoint ::
  "'y ext \<Rightarrow> 'y checkpoint \<Rightarrow> 'y store \<Rightarrow> disk \<Rightarrow> ('y, unit) op_result" where
  "restore_profile_checkpoint ext cp s d =
    available s d
    (let p = cp_profile cp;
         writes = [(join (st_root s) (pd_raw_yaml_path p), cp_raw_yaml cp)] @
           (case (pd_yaml_backup_path p, cp_backup_yaml cp) of
              (Some path, Some content) \<Rightarrow> [(join (st_root s) path, content)] | _ \<Rightarrow> []) in
     commit_staged_with_files ext s d (put_profile (pd_id p) p s) writes ())"

subsection \<open>Deleting a profile\<close>

definition owned_paths :: "string \<Rightarrow> string \<Rightarrow> 'y profile_document \<Rightarrow> string list" where
  "owned_paths root profile_id p =
    join root (pd_raw_yaml_path p) #
    (case pd_yaml_backup_path p of None \<Rightarrow> [] | Some b \<Rightarrow> [join root b]) @
    [join root (''runtime/'' @ profile_id @ ''.yaml''),
     join root (''runtime/providers/proxy/'' @ profile_id),
     join root (''runtime/providers/rule/'' @ profile_id),
     join root (''providers/proxy/'' @ profile_id),
     join root (''providers/rule/'' @ profile_id)]"

definition first_key :: "(string \<times> 'v) list \<Rightarrow> string option" where
  "first_key m = (case m of [] \<Rightarrow> None | (k, _) # _ \<Rightarrow> Some k)"

definition without_profile :: "string \<Rightarrow> 'y store \<Rightarrow> 'y store" where
  "without_profile profile_id s =
    (let staged = s\<lparr>st_profiles := bdel profile_id (st_profiles s),
           st_rules := filter (\<lambda>(_, r). rd_profile_id r \<noteq> profile_id) (st_rules s)\<rparr> in
     if st_active staged = Some profile_id then staged\<lparr>st_active := first_key (st_profiles staged)\<rparr>
     else staged)"

definition delete_profile :: "'y ext \<Rightarrow> string \<Rightarrow> 'y store \<Rightarrow> disk \<Rightarrow> ('y, unit) op_result" where
  "delete_profile ext profile_id s d =
    available s d (with_profile s d profile_id (\<lambda>p.
      commit_staged_delete ext s d (without_profile profile_id s)
        (owned_paths (st_root s) profile_id p)))"

definition rollback_profile_import ::
  "'y ext \<Rightarrow> string \<Rightarrow> 'y store \<Rightarrow> 'y store \<Rightarrow> disk \<Rightarrow> ('y, unit) op_result" where
  "rollback_profile_import ext profile_id previous s d =
    available s d
    (case ensure_available previous of Inl e \<Rightarrow> refuse s d e
     | Inr _ \<Rightarrow>
     if st_root s \<noteq> st_root previous then
       refuse s d (Core ''profile import rollback belongs to a different store root'')
     else if map_of (st_profiles previous) profile_id \<noteq> None then
       refuse s d (Core (''profile import rollback target already existed: '' @ profile_id))
     else with_profile s d profile_id (\<lambda>p.
       commit_staged_delete ext s d previous (owned_paths (st_root s) profile_id p)))"

subsection \<open>Small changes of a document\<close>

definition add_profile_traffic ::
  "'y ext \<Rightarrow> string \<Rightarrow> nat \<Rightarrow> nat \<Rightarrow> 'y store \<Rightarrow> disk \<Rightarrow> ('y, unit) op_result" where
  "add_profile_traffic ext profile_id upload_delta download_delta s d =
    available s d
    (if upload_delta = 0 \<and> download_delta = 0 then (s, d, Inr ())
     else with_profile s d profile_id (\<lambda>p.
       commit_staged ext s d (put_profile profile_id
         (p\<lparr>pd_upload_bytes := sat_add64 (pd_upload_bytes p) upload_delta,
            pd_download_bytes := sat_add64 (pd_download_bytes p) download_delta\<rparr>) s) ()))"

definition set_active :: "'y ext \<Rightarrow> string \<Rightarrow> 'y store \<Rightarrow> disk \<Rightarrow> ('y, unit) op_result" where
  "set_active ext i s d =
    available s d
    (if map_of (st_profiles s) i = None then refuse s d (ProfileNotFound i)
     else if st_active s = Some i then (s, d, Inr ())
     else commit_staged ext s d (s\<lparr>st_active := Some i\<rparr>) ())"

definition set_selected_proxy ::
  "'y ext \<Rightarrow> string \<Rightarrow> string \<Rightarrow> string \<Rightarrow> 'y store \<Rightarrow> disk \<Rightarrow> ('y, unit) op_result" where
  "set_selected_proxy ext profile_id group_name proxy_name s d =
    available s d (with_profile s d profile_id (\<lambda>p.
      commit_staged ext s d (put_profile profile_id
        (p\<lparr>pd_selected_proxies := bput group_name proxy_name (pd_selected_proxies p)\<rparr>) s) ()))"

end
