(* ===== verification/StoreInvariant.thy ===== *)
theory StoreInvariant
  imports ProfileStore
begin

text \<open>
  The invariant of the profile store, \<open>crates/paws_profile/src/lib.rs\<close>: what the store in memory
  promises about its documents, its files and the index on disk, and that every operation keeps it,
  on success and on failure, unless the rollback of a failed transaction fails too.
\<close>

subsection \<open>Paths and ids\<close>

lemma decimal_digits: "set (decimal n) \<subseteq> set ''0123456789''"
proof (induction n rule: less_induct)
  case (less n)
  have d: "char_of (48 + k) \<in> set ''0123456789''" if "k < 10" for k :: nat
  proof -
    have "\<forall>k \<in> set [0 ..< 10]. (char_of (48 + k) :: char) \<in> set ''0123456789''" by code_simp
    then show ?thesis using that by simp
  qed
  show ?case
  proof (cases "n < 10")
    case True
    then show ?thesis using d [of n] by (simp add: decimal.simps [of n])
  next
    case False
    then show ?thesis using d [of "n mod 10"] less [of "n div 10"] by (simp add: decimal.simps [of n])
  qed
qed

lemma decimal_not_Nil [simp]: "decimal n \<noteq> []"
  by (simp add: decimal.simps [of n])

lemma last_decimal: "last (decimal n) \<in> set ''0123456789''"
  using decimal_digits [of n] last_in_set [OF decimal_not_Nil [of n]] by blast

definition id_ok :: "string \<Rightarrow> bool" where
  "id_ok i \<longleftrightarrow> str_trim i \<noteq> [] \<and> path_is_safe (raw_path_of i) \<and> path_is_safe (backup_path_of i)"

lemma next_id_blank: "p \<noteq> [] \<Longrightarrow> printable (hd p) \<Longrightarrow> str_trim (next_id p ck i j) \<noteq> []"
proof -
  assume a: "p \<noteq> []" "printable (hd p)"
  have "printable c" if "c \<in> set ''0123456789''" for c
    using that by (auto simp: printable_def)
  then have "printable (last (next_id p ck i j))"
    using last_decimal by (simp add: next_id_def)
  then have "str_trim (next_id p ck i j) = next_id p ck i j"
    using a by (intro str_trim_id) (simp_all add: next_id_def)
  then show ?thesis using a by (simp add: next_id_def)
qed

lemma profile_id_ok: "id_ok (next_id ''profile'' ck i j)"
proof -
  let ?i = "next_id ''profile'' ck i j"
  have "CHR ''/'' \<notin> set ?i" using decimal_digits by (fastforce simp: next_id_def)
  then have "split_on (CHR ''/'') (?i @ ''.yaml'') = [?i @ ''.yaml'']" by (intro split_on_free) simp
  then have "path_is_safe (raw_path_of ?i)" "path_is_safe (backup_path_of ?i)"
    using split_on_append [of "CHR ''/''" "''profiles''"] split_on_append [of "CHR ''/''" "''backups''"]
    by (auto simp: path_is_safe_def raw_path_of_def backup_path_of_def next_id_def)
  then show ?thesis by (simp add: id_ok_def next_id_blank printable_def)
qed

subsection \<open>The invariant\<close>

text \<open>
  The paths of a document are the ones an import gives it. Opening accepts other safe paths; a store
  where two documents share a file is not covered.
\<close>

definition canonical :: "'y profile_document \<Rightarrow> bool" where
  "canonical p \<longleftrightarrow> pd_raw_yaml_path p = raw_path_of (pd_id p) \<and>
     (pd_yaml_backup_path p = None \<or> pd_yaml_backup_path p = Some (backup_path_of (pd_id p)))"

definition has_files :: "string \<Rightarrow> (string \<Rightarrow> byte list option) \<Rightarrow> 'y profile_document \<Rightarrow> bool" where
  "has_files root m p \<longleftrightarrow> m (join root (pd_raw_yaml_path p)) \<noteq> None \<and>
     (\<forall>b. pd_yaml_backup_path p = Some b \<longrightarrow> m (join root b) \<noteq> None)"

definition doc_ok :: "string \<Rightarrow> (string \<Rightarrow> byte list option) \<Rightarrow> string \<times> 'y profile_document \<Rightarrow> bool" where
  "doc_ok root m e \<longleftrightarrow> (case e of (i, p) \<Rightarrow> pd_id p = i \<and> id_ok i \<and> canonical p \<and> has_files root m p)"

definition rule_ok :: "string set \<Rightarrow> string \<times> rule_document \<Rightarrow> bool" where
  "rule_ok ids e \<longleftrightarrow> (case e of (i, r) \<Rightarrow> rd_id r = i \<and> str_trim i \<noteq> [] \<and> rd_profile_id r \<in> ids)"

definition profile_ids :: "'y store \<Rightarrow> string set" where
  "profile_ids s = fst ` set (st_profiles s)"

definition store_ok :: "'y store \<Rightarrow> (string \<Rightarrow> byte list option) \<Rightarrow> bool" where
  "store_ok s m \<longleftrightarrow> st_initialization_error s = None \<and> bmap_ok (st_profiles s) \<and> bmap_ok (st_rules s) \<and>
     (\<forall>e \<in> set (st_profiles s). doc_ok (st_root s) m e) \<and>
     (\<forall>e \<in> set (st_rules s). rule_ok (profile_ids s) e) \<and>
     (\<forall>i. st_active s = Some i \<longrightarrow> i \<in> profile_ids s)"

text \<open>The index on disk describes the store in memory.\<close>

definition index_current :: "'y ext \<Rightarrow> 'y store \<Rightarrow> (string \<Rightarrow> byte list option) \<Rightarrow> bool" where
  "index_current ext s m \<longleftrightarrow>
     (\<exists>bytes. m (index_path (st_root s)) = Some bytes \<and> utf8_valid bytes \<and>
        ext_decode ext bytes = Inr (store_index_of s))"

definition store_inv :: "'y ext \<Rightarrow> 'y store \<Rightarrow> disk \<Rightarrow> bool" where
  "store_inv ext s d \<longleftrightarrow> store_ok s (dk_files d) \<and> index_current ext s (dk_files d)"

text \<open>The JSON codec reads back what it writes, and writes UTF-8.\<close>

definition codec_ok :: "'y ext \<Rightarrow> bool" where
  "codec_ok ext \<longleftrightarrow> (\<forall>index bytes. ext_encode ext index = Inr bytes \<longrightarrow>
     utf8_valid bytes \<and> ext_decode ext bytes = Inr index)"

lemma doc_okD:
  "doc_ok root m (i, p) \<Longrightarrow>
     pd_id p = i \<and> id_ok i \<and> canonical p \<and> has_files root m p \<and> pd_raw_yaml_path p = raw_path_of i \<and>
     (pd_yaml_backup_path p = None \<or> pd_yaml_backup_path p = Some (backup_path_of i))"
  by (auto simp: doc_ok_def canonical_def)

lemma join_eq [simp]: "join root a = join root b \<longleftrightarrow> a = b"
  by (simp add: join_def)

lemma path_of_eq [simp]:
  "raw_path_of i = raw_path_of j \<longleftrightarrow> i = j" "backup_path_of i = backup_path_of j \<longleftrightarrow> i = j"
  "raw_path_of i \<noteq> backup_path_of j" "backup_path_of j \<noteq> raw_path_of i"
  "raw_path_of i \<noteq> ''profiles.json''" "backup_path_of i \<noteq> ''profiles.json''"
  by (simp_all add: raw_path_of_def backup_path_of_def)

lemma profile_lookup:
  "store_ok s m \<Longrightarrow> map_of (st_profiles s) i = Some p \<Longrightarrow> doc_ok (st_root s) m (i, p) \<and> i \<in> profile_ids s"
proof -
  assume a: "store_ok s m" "map_of (st_profiles s) i = Some p"
  note m = map_of_SomeD [OF a(2)]
  then have "i \<in> profile_ids s" unfolding profile_ids_def by (metis fst_conv image_eqI)
  moreover have "\<forall>e \<in> set (st_profiles s). doc_ok (st_root s) m e" using a(1) by (simp add: store_ok_def)
  ultimately show ?thesis using m by blast
qed

lemma store_ok_available: "store_ok s m \<Longrightarrow> ensure_available s = Inr ()"
  by (simp add: store_ok_def ensure_available_def)

text \<open>Files may appear or change, as long as none disappears.\<close>

lemma store_ok_mono:
  assumes "store_ok s m" "\<And>p. m p \<noteq> None \<Longrightarrow> m' p \<noteq> None"
  shows "store_ok s m'"
proof -
  have "doc_ok (st_root s) m e \<Longrightarrow> doc_ok (st_root s) m' e" for e
    using assms(2) by (auto simp: doc_ok_def has_files_def)
  then show ?thesis using assms(1) by (auto simp: store_ok_def)
qed

lemma store_ok_put_profile:
  assumes "store_ok s m" "doc_ok (st_root s) m (i, p)"
  shows "store_ok (put_profile i p s) m"
proof -
  have "\<forall>e \<in> set (bput i p (st_profiles s)). doc_ok (st_root s) m e"
    using assms set_bput [of i p "st_profiles s"] by (auto simp: store_ok_def)
  moreover have "rule_ok (profile_ids s) e \<Longrightarrow> rule_ok (profile_ids (put_profile i p s)) e" for e
    by (auto simp: rule_ok_def profile_ids_def put_profile_def)
  ultimately show ?thesis
    using assms(1) by (auto simp: store_ok_def put_profile_def profile_ids_def)
qed

subsection \<open>What an operation keeps\<close>

text \<open>
  An operation that succeeds leaves store, files and index consistent; one that fails leaves the
  store alone, and the files as well unless rolling the transaction back failed too.
\<close>

fun clean :: "tx_error + 'r \<Rightarrow> bool" where
  "clean (Inl (Rolled _ _ errors)) \<longleftrightarrow> errors = []"
| "clean _ \<longleftrightarrow> True"

definition keeps :: "'y ext \<Rightarrow> 'y store \<Rightarrow> disk \<Rightarrow> ('y, 'r) op_result \<Rightarrow> bool" where
  "keeps ext s d res \<longleftrightarrow> (case res of (s', d', r) \<Rightarrow>
     st_root s' = st_root s \<and>
     (case r of Inr _ \<Rightarrow> store_inv ext s' d' | Inl _ \<Rightarrow> s' = s \<and> (clean r \<longrightarrow> dk_files d' = dk_files d)))"

lemma keeps_refuse [simp]: "dk_files d' = dk_files d \<Longrightarrow> keeps ext s d (refuse s d' e)"
  by (simp add: keeps_def refuse_def)

lemma keeps_same [simp]: "store_inv ext s d \<Longrightarrow> keeps ext s d (s, d, Inr v)"
  by (simp add: keeps_def)

lemma keeps_available:
  "store_inv ext s d \<Longrightarrow> keeps ext s d k \<Longrightarrow> keeps ext s d (available s d k)"
  using store_ok_available [of s "dk_files d"] by (simp add: available_def store_inv_def)

lemma keeps_with_profile:
  assumes "store_inv ext s d" "dk_files d' = dk_files d"
    and "\<And>p. map_of (st_profiles s) i = Some p \<Longrightarrow> doc_ok (st_root s) (dk_files d) (i, p) \<Longrightarrow> keeps ext s d (f p)"
  shows "keeps ext s d (with_profile s d' i f)"
  using assms profile_lookup [of s "dk_files d" i]
  by (cases "map_of (st_profiles s) i") (auto simp: with_profile_def store_inv_def)

lemma encoded_index_Inr:
  "codec_ok ext \<Longrightarrow> encoded_index ext s = Inr bytes \<Longrightarrow>
     utf8_valid bytes \<and> ext_decode ext bytes = Inr (store_index_of s)"
  by (auto simp: encoded_index_def codec_ok_def split: sum.splits)

lemma index_path_ne [simp]: "index_path root = join root p \<longleftrightarrow> p = ''profiles.json''"
  by (auto simp: index_path_def)

lemma keeps_commit_staged:
  assumes "codec_ok ext" "store_ok staged (dk_files d)" "st_root staged = st_root s"
  shows "keeps ext s d (commit_staged ext s d staged v)"
proof (cases rule: save_index_cases [of "encoded_index ext staged" "index_path (st_root staged)" d])
  case (ok d' content)
  have "store_ok staged (dk_files d')" using assms(2) ok(3) by (elim store_ok_mono) simp
  moreover have "index_current ext staged (dk_files d')"
    using ok(3) encoded_index_Inr [OF assms(1) ok(1)] by (simp add: index_current_def)
  ultimately show ?thesis
    using ok(2) assms(3) by (simp add: commit_staged_def save_def keeps_def store_inv_def)
next
  case (failed d' e)
  then show ?thesis by (simp add: commit_staged_def save_def keeps_def)
qed

lemma fold_writes_dom: "m p \<noteq> None \<Longrightarrow> fold (\<lambda>(p, c) m. m(p \<mapsto> c)) ws m p \<noteq> None"
  by (induction ws arbitrary: m) (auto split: if_splits)

lemma keeps_commit_files:
  assumes "codec_ok ext" "st_root staged = st_root s"
    and "store_ok staged (fold (\<lambda>(p, c) m. m(p \<mapsto> c)) writes (dk_files d))" "dk_files d = dk_files d0"
  shows "keeps ext s d0 (commit_staged_with_files ext s d staged writes v)"
proof -
  obtain d' r where c: "commit_files (index_path (st_root staged)) (encoded_index ext staged) writes d = (d', r)"
    by (cases "commit_files (index_path (st_root staged)) (encoded_index ext staged) writes d")
  show ?thesis
  proof (cases r)
    case (Inl e)
    have "clean (Inl e :: tx_error + 'a) \<Longrightarrow> dk_files d' = dk_files d"
      using commit_files_Inl [OF c [unfolded Inl]] by (cases e) simp_all
    then show ?thesis
      using c Inl assms(4) by (auto simp: commit_staged_with_files_def keeps_def) (cases e, simp_all)
  next
    case (Inr u)
    have r: "r = Inr ()" using Inr by simp
    obtain content where ct: "encoded_index ext staged = Inr content"
      "dk_files d' = (fold (\<lambda>(p, c) m. m(p \<mapsto> c)) writes (dk_files d))(index_path (st_root staged) \<mapsto> content)"
      using commit_files_Inr [OF c [unfolded r]] by blast
    have "store_ok staged (dk_files d')" using assms(3) ct(2) by (elim store_ok_mono) simp
    moreover have "index_current ext staged (dk_files d')"
      using ct encoded_index_Inr [OF assms(1)] by (simp add: index_current_def)
    ultimately show ?thesis
      using c r assms(2) by (simp add: commit_staged_with_files_def keeps_def store_inv_def)
  qed
qed

lemma keeps_commit_delete:
  assumes "codec_ok ext" "st_root staged = st_root s" "index_path (st_root s) \<notin> set paths"
    and "store_ok staged (\<lambda>p. if p \<in> set paths then None else dk_files d p)"
  shows "keeps ext s d (commit_staged_delete ext s d staged paths)"
proof -
  obtain d' r where c: "commit_delete (index_path (st_root staged)) (encoded_index ext staged) paths d = (d', r)"
    by (cases "commit_delete (index_path (st_root staged)) (encoded_index ext staged) paths d")
  note sp = commit_delete_spec [OF c]
  show ?thesis
  proof (cases r)
    case (Inl e)
    then show ?thesis
      using c sp by (cases e) (auto simp: commit_staged_delete_def keeps_def)
  next
    case (Inr u)
    have r: "r = Inr ()" using Inr by simp
    obtain content where ct: "encoded_index ext staged = Inr content"
      "dk_files d' (index_path (st_root staged)) = Some content"
      "\<forall>p. p \<noteq> index_path (st_root staged) \<longrightarrow> dk_files d' p = (if p \<in> set paths then None else dk_files d p)"
      using sp r by blast
    have "store_ok staged (dk_files d')"
    proof (rule store_ok_mono [OF assms(4)])
      fix p
      assume "(if p \<in> set paths then None else dk_files d p) \<noteq> None"
      then show "dk_files d' p \<noteq> None" using ct(2,3) by (cases "p = index_path (st_root staged)") auto
    qed
    moreover have "index_current ext staged (dk_files d')"
      using ct(1,2) encoded_index_Inr [OF assms(1)] by (simp add: index_current_def)
    ultimately show ?thesis
      using c r assms(2) by (simp add: commit_staged_delete_def keeps_def store_inv_def)
  qed
qed

subsection \<open>Every operation keeps the invariant\<close>

lemma store_invD: "store_inv ext s d \<Longrightarrow> store_ok s (dk_files d)"
  by (simp add: store_inv_def)

lemma doc_ok_same:
  "doc_ok root m (i, p) \<Longrightarrow> pd_id q = pd_id p \<Longrightarrow> pd_raw_yaml_path q = pd_raw_yaml_path p \<Longrightarrow>
     pd_yaml_backup_path q = pd_yaml_backup_path p \<Longrightarrow> doc_ok root m (i, q)"
  by (auto simp: doc_ok_def canonical_def has_files_def)

lemma put_profile_root [simp]: "st_root (put_profile i p s) = st_root s"
  by (simp add: put_profile_def)

text \<open>Changing fields of a document that have no file.\<close>

lemma keeps_put_profile:
  assumes "codec_ok ext" "store_inv ext s d" "doc_ok (st_root s) (dk_files d) (i, q)"
  shows "keeps ext s d (commit_staged ext s d (put_profile i q s) v)"
  using assms by (intro keeps_commit_staged store_ok_put_profile store_invD) simp_all

lemma doc_ok_mono: "doc_ok root m e \<Longrightarrow> (\<And>p. m p \<noteq> None \<Longrightarrow> m' p \<noteq> None) \<Longrightarrow> doc_ok root m' e"
  by (auto simp: doc_ok_def has_files_def)

text \<open>Writing a document together with its files.\<close>

lemma keeps_put_files:
  assumes "codec_ok ext" "store_inv ext s d" "dk_files d' = dk_files d"
    and "doc_ok (st_root s) (fold (\<lambda>(p, c) m. m(p \<mapsto> c)) ws (dk_files d)) (i, q)"
  shows "keeps ext s d (commit_staged_with_files ext s d' (put_profile i q s) ws v)"
proof (rule keeps_commit_files)
  have "store_ok s (fold (\<lambda>(p, c) m. m(p \<mapsto> c)) ws (dk_files d))"
    using store_invD [OF assms(2)] fold_writes_dom by (rule store_ok_mono)
  then show "store_ok (put_profile i q s) (fold (\<lambda>(p, c) m. m(p \<mapsto> c)) ws (dk_files d'))"
    using assms(3,4) by (simp add: store_ok_put_profile)
qed (use assms in simp_all)

lemma keeps_import:
  assumes "codec_ok ext" "store_inv ext s d"
  shows "keeps ext s d
    (import_profile_content_with_subscription_metadata ext ck nm src raw url info metadata s d)"
proof -
  define i where "i = next_id ''profile'' ck 0 0"
  have commit: "keeps ext s d (commit_staged_with_files ext s d
      (if st_active (put_profile i doc s) = None then (put_profile i doc s)\<lparr>st_active := Some i\<rparr>
       else put_profile i doc s)
      [(join (st_root s) (raw_path_of i), bytes), (join (st_root s) (backup_path_of i), bytes)] i)"
    if "pd_id doc = i" "canonical doc" for doc bytes
  proof (rule keeps_commit_files)
    let ?m = "fold (\<lambda>(p, c) m. m(p \<mapsto> c))
      [(join (st_root s) (raw_path_of i), bytes), (join (st_root s) (backup_path_of i), bytes)] (dk_files d)"
    have "doc_ok (st_root s) ?m (i, doc)"
      using that profile_id_ok [of ck 0 0] by (auto simp: doc_ok_def has_files_def canonical_def i_def)
    moreover have "store_ok s ?m"
      using store_invD [OF assms(2)] fold_writes_dom by (rule store_ok_mono)
    ultimately have p: "store_ok (put_profile i doc s) ?m" by (simp add: store_ok_put_profile)
    have "i \<in> profile_ids (put_profile i doc s)" by (simp add: profile_ids_def put_profile_def)
    then show "store_ok (if st_active (put_profile i doc s) = None
      then (put_profile i doc s)\<lparr>st_active := Some i\<rparr> else put_profile i doc s) ?m"
      using p by (simp add: store_ok_def profile_ids_def)
  qed (use assms in simp_all)
  show ?thesis
    using assms commit
    by (cases "ext_normalize ext raw")
      (simp_all add: import_profile_content_with_subscription_metadata_def Let_def keeps_available
         i_def [symmetric] canonical_def)
qed

lemma refreshed_document_paths [simp]:
  "pd_id (refreshed_document i t identity info metadata p) = pd_id p"
  "pd_raw_yaml_path (refreshed_document i t identity info metadata p) = pd_raw_yaml_path p"
  "pd_yaml_backup_path (refreshed_document i t identity info metadata p) =
     (case pd_yaml_backup_path p of None \<Rightarrow> Some (backup_path_of i) | Some b \<Rightarrow> Some b)"
  by (auto simp: refreshed_document_def Let_def split: option.splits)

lemma keeps_replace:
  assumes "codec_ok ext" "store_inv ext s d"
  shows "keeps ext s d
    (replace_profile_content_and_subscription_metadata ext ck i raw info metadata identity s d)"
proof -
  have commit: "keeps ext s d (commit_staged_with_files ext s d (put_profile i q s)
      ((join (st_root s) (pd_raw_yaml_path q), bytes) #
       (case pd_yaml_backup_path q of None \<Rightarrow> [] | Some b \<Rightarrow> [(join (st_root s) b, bytes)])) ())"
    if "doc_ok (st_root s) (dk_files d) (i, p)" "q = refreshed_document i t idn inf md p" for p q t idn inf md bytes
  proof (rule keeps_put_files [OF assms refl])
    have "pd_id q = i" "pd_raw_yaml_path q = raw_path_of i" "pd_yaml_backup_path q = Some (backup_path_of i)"
      "id_ok i" using doc_okD [OF that(1)] that(2) by (auto split: option.splits)
    then show "doc_ok (st_root s) (fold (\<lambda>(p, c) m. m(p \<mapsto> c))
        ((join (st_root s) (pd_raw_yaml_path q), bytes) #
         (case pd_yaml_backup_path q of None \<Rightarrow> [] | Some b \<Rightarrow> [(join (st_root s) b, bytes)]))
        (dk_files d)) (i, q)"
      by (simp add: doc_ok_def has_files_def canonical_def)
  qed
  show ?thesis
    unfolding replace_profile_content_and_subscription_metadata_def Let_def
    using assms(2)
    by (intro keeps_available)
      (auto intro!: keeps_with_profile commit simp del: refreshed_document_paths split: sum.splits)
qed

lemma keeps_mark_failed:
  "codec_ok ext \<Longrightarrow> store_inv ext s d \<Longrightarrow> keeps ext s d (mark_profile_refresh_failed ext ck i msg s d)"
  unfolding mark_profile_refresh_failed_def
  by (intro keeps_available keeps_with_profile keeps_put_profile) (auto elim: doc_ok_same)

lemma keeps_traffic:
  "codec_ok ext \<Longrightarrow> store_inv ext s d \<Longrightarrow> keeps ext s d (add_profile_traffic ext i up down s d)"
  unfolding add_profile_traffic_def
  by (auto intro!: keeps_available keeps_with_profile keeps_put_profile elim: doc_ok_same)

lemma keeps_set_selected:
  "codec_ok ext \<Longrightarrow> store_inv ext s d \<Longrightarrow> keeps ext s d (set_selected_proxy ext i g p s d)"
  unfolding set_selected_proxy_def
  by (intro keeps_available keeps_with_profile keeps_put_profile) (auto elim: doc_ok_same)

lemma keeps_update_subscription:
  "codec_ok ext \<Longrightarrow> store_inv ext s d \<Longrightarrow> keeps ext s d (update_profile_subscription ext i nm url s d)"
  unfolding update_profile_subscription_def
  by (auto intro!: keeps_available keeps_with_profile keeps_put_profile elim: doc_ok_same split: sum.splits)

lemma keeps_set_active:
  assumes "codec_ok ext" "store_inv ext s d"
  shows "keeps ext s d (set_active ext i s d)"
proof -
  have "keeps ext s d (commit_staged ext s d (s\<lparr>st_active := Some i\<rparr>) ())"
    if p: "map_of (st_profiles s) i = Some p" for p
  proof (rule keeps_commit_staged [OF assms(1)])
    note ok = store_invD [OF assms(2)]
    show "store_ok (s\<lparr>st_active := Some i\<rparr>) (dk_files d)"
      using ok profile_lookup [OF ok p] by (simp add: store_ok_def profile_ids_def)
  qed simp
  then show ?thesis
    using assms unfolding set_active_def by (intro keeps_available) auto
qed

lemma keeps_put_content:
  assumes "codec_ok ext" "store_inv ext s d" "dk_files d' = dk_files d" "doc_ok (st_root s) (dk_files d) (i, p)"
  shows "keeps ext s d (commit_staged_with_files ext s d' (put_profile i (p\<lparr>pd_updated_at := t\<rparr>) s)
      [(join (st_root s) (pd_raw_yaml_path p), bytes)] v)"
proof (rule keeps_put_files [OF assms(1-3)])
  let ?m = "fold (\<lambda>(p, c) m. m(p \<mapsto> c)) [(join (st_root s) (pd_raw_yaml_path p), bytes)] (dk_files d)"
  have "doc_ok (st_root s) ?m (i, p)" using assms(4) by (rule doc_ok_mono) simp
  then show "doc_ok (st_root s) ?m (i, p\<lparr>pd_updated_at := t\<rparr>)" by (rule doc_ok_same) simp_all
qed

lemma keeps_update_content:
  "codec_ok ext \<Longrightarrow> store_inv ext s d \<Longrightarrow> keeps ext s d (update_profile_content ext ck i raw s d)"
  unfolding update_profile_content_def
  by (auto intro!: keeps_available keeps_with_profile keeps_put_content split: sum.splits)

lemma read_existing_same: "read_existing path d = (d', r) \<Longrightarrow> dk_files d' = dk_files d"
  by (auto simp: read_existing_def split: prod.splits sum.splits option.splits dest: read_file_same)

lemma keeps_restore_backup:
  "codec_ok ext \<Longrightarrow> store_inv ext s d \<Longrightarrow> keeps ext s d (restore_profile_backup ext ck i s d)"
  unfolding restore_profile_backup_def
  by (auto intro!: keeps_available keeps_with_profile keeps_put_content keeps_refuse
      dest: read_existing_same split: sum.splits option.splits prod.splits)

text \<open>A checkpoint holds what was read of a document and its files.\<close>

definition checkpoint_ok :: "'y checkpoint \<Rightarrow> bool" where
  "checkpoint_ok cp \<longleftrightarrow> id_ok (pd_id (cp_profile cp)) \<and> canonical (cp_profile cp) \<and>
     (pd_yaml_backup_path (cp_profile cp) = None \<longleftrightarrow> cp_backup_yaml cp = None)"

lemma checkpoint_profile_ok:
  assumes "store_ok s (dk_files d)" "checkpoint_profile i s d = (d', Inr cp)"
  shows "checkpoint_ok cp \<and> pd_id (cp_profile cp) = i \<and> map_of (st_profiles s) i = Some (cp_profile cp)"
proof -
  obtain p where p: "map_of (st_profiles s) i = Some p"
    using assms(2) by (auto simp: checkpoint_profile_def split: sum.splits option.splits)
  note dp = doc_okD [OF conjunct1 [OF profile_lookup [OF assms(1) p]]]
  have "cp_profile cp = p \<and> (pd_yaml_backup_path p = None \<longleftrightarrow> cp_backup_yaml cp = None)"
    using assms(2) p by (auto simp: checkpoint_profile_def split: sum.splits option.splits prod.splits)
  then show ?thesis using dp p by (auto simp: checkpoint_ok_def)
qed

lemma keeps_restore_checkpoint:
  assumes "codec_ok ext" "store_inv ext s d" "checkpoint_ok cp"
  shows "keeps ext s d (restore_profile_checkpoint ext cp s d)"
proof -
  let ?p = "cp_profile cp"
  let ?ws = "[(join (st_root s) (pd_raw_yaml_path ?p), cp_raw_yaml cp)] @
           (case (pd_yaml_backup_path ?p, cp_backup_yaml cp) of
              (Some path, Some content) \<Rightarrow> [(join (st_root s) path, content)] | _ \<Rightarrow> [])"
  have "doc_ok (st_root s) (fold (\<lambda>(p, c) m. m(p \<mapsto> c)) ?ws (dk_files d)) (pd_id ?p, ?p)"
    using assms(3)
    by (cases "cp_backup_yaml cp") (auto simp: checkpoint_ok_def doc_ok_def canonical_def has_files_def)
  then show ?thesis
    unfolding restore_profile_checkpoint_def Let_def
    using keeps_put_files [OF assms(1,2) refl] assms(2) by (intro keeps_available)
qed

subsection \<open>Deletion\<close>

lemma owned_paths_not_index:
  "doc_ok root m (i, p) \<Longrightarrow> index_path root \<notin> set (owned_paths root i p)"
  by (auto simp: owned_paths_def index_path_def dest!: doc_okD)
    (simp_all add: raw_path_of_def backup_path_of_def)

lemma owned_paths_others:
  assumes "doc_ok root m (i, p)" "doc_ok root m (j, q)" "i \<noteq> j"
  shows "join root (pd_raw_yaml_path q) \<notin> set (owned_paths root i p)"
    "pd_yaml_backup_path q = Some b \<Longrightarrow> join root b \<notin> set (owned_paths root i p)"
  using doc_okD [OF assms(1)] doc_okD [OF assms(2)] assms(3)
  by (auto simp: owned_paths_def) (simp_all add: raw_path_of_def backup_path_of_def)

text \<open>The documents that stay keep their files when the files of another one go.\<close>

lemma doc_ok_after_delete:
  assumes "doc_ok root m (i, p)" "doc_ok root m (j, q)" "i \<noteq> j"
  shows "doc_ok root (\<lambda>x. if x \<in> set (owned_paths root i p) then None else m x) (j, q)"
  using assms(2) owned_paths_others [OF assms] by (auto simp: doc_ok_def has_files_def)

lemma without_profile_simps [simp]:
  "st_root (without_profile i s) = st_root s"
  "st_initialization_error (without_profile i s) = st_initialization_error s"
  "st_profiles (without_profile i s) = bdel i (st_profiles s)"
  "st_rules (without_profile i s) = filter (\<lambda>(_, r). rd_profile_id r \<noteq> i) (st_rules s)"
  "st_active (without_profile i s) =
     (if st_active s = Some i then first_key (bdel i (st_profiles s)) else st_active s)"
  by (simp_all add: without_profile_def Let_def)

lemma first_key_in: "first_key m = Some k \<Longrightarrow> k \<in> fst ` set m"
  by (cases m) (auto simp: first_key_def)

lemma without_profile_ids: "profile_ids (without_profile i s) = profile_ids s - {i}"
  by (auto simp: profile_ids_def bdel_def)

lemma store_ok_without_profile:
  assumes ok: "store_ok s m" and p: "doc_ok (st_root s) m (i, p)"
  shows "store_ok (without_profile i s) (\<lambda>x. if x \<in> set (owned_paths (st_root s) i p) then None else m x)"
    (is "store_ok _ ?m")
proof -
  have "\<forall>e \<in> set (bdel i (st_profiles s)). doc_ok (st_root s) ?m e"
  proof
    fix e
    assume e: "e \<in> set (bdel i (st_profiles s))"
    obtain j q where jq: "e = (j, q)" by (cases e)
    have "doc_ok (st_root s) m (j, q)" "i \<noteq> j"
      using e ok by (auto simp: bdel_def store_ok_def jq)
    then show "doc_ok (st_root s) ?m e" using doc_ok_after_delete [OF p] by (simp add: jq)
  qed
  moreover have "\<forall>e \<in> set (st_rules (without_profile i s)). rule_ok (profile_ids (without_profile i s)) e"
    using ok by (auto simp: without_profile_ids store_ok_def rule_ok_def)
  moreover have "j \<in> profile_ids (without_profile i s)" if "st_active (without_profile i s) = Some j" for j
  proof (cases "st_active s = Some i")
    case True
    then show ?thesis using that first_key_in [of "bdel i (st_profiles s)" j] by (simp add: profile_ids_def)
  next
    case False
    then show ?thesis using that ok by (auto simp: without_profile_ids store_ok_def)
  qed
  ultimately show ?thesis
    using ok by (simp add: store_ok_def bmap_ok_del bmap_ok_filter)
qed

lemma keeps_delete:
  assumes "codec_ok ext" "store_inv ext s d"
  shows "keeps ext s d (delete_profile ext i s d)"
  unfolding delete_profile_def
  by (intro keeps_available keeps_with_profile keeps_commit_delete assms refl owned_paths_not_index
      store_ok_without_profile store_invD [OF assms(2)]) simp_all

text \<open>
  Rolling an import back puts an earlier store in place: every document of that store must still be
  there, under the same paths.
\<close>

definition still_there :: "'y store \<Rightarrow> 'y store \<Rightarrow> bool" where
  "still_there previous s \<longleftrightarrow> (\<forall>j q. map_of (st_profiles previous) j = Some q \<longrightarrow>
     (\<exists>p. map_of (st_profiles s) j = Some p \<and> pd_yaml_backup_path p = pd_yaml_backup_path q))"

lemma keeps_rollback_import:
  assumes "codec_ok ext" "store_inv ext s d" "store_ok previous m" "still_there previous s"
  shows "keeps ext s d (rollback_profile_import ext i previous s d)"
proof -
  note ok = store_invD [OF assms(2)]
  have "store_ok previous (\<lambda>x. if x \<in> set (owned_paths (st_root s) i p) then None else dk_files d x)"
    (is "store_ok _ ?m")
    if p: "doc_ok (st_root s) (dk_files d) (i, p)" and root: "st_root s = st_root previous"
      and new: "map_of (st_profiles previous) i = None" for p
  proof -
    have "\<forall>e \<in> set (st_profiles previous). doc_ok (st_root previous) ?m e"
    proof
      fix e
      assume e: "e \<in> set (st_profiles previous)"
      obtain j q where jq: "e = (j, q)" by (cases e)
      have q: "map_of (st_profiles previous) j = Some q"
        using e assms(3) bmap_in_map_of by (fastforce simp: jq store_ok_def)
      obtain r where r: "map_of (st_profiles s) j = Some r" "pd_yaml_backup_path r = pd_yaml_backup_path q"
        using assms(4) q unfolding still_there_def by blast
      note dq = conjunct1 [OF profile_lookup [OF assms(3) q]]
      note dr = conjunct1 [OF profile_lookup [OF ok r(1)]]
      have "doc_ok (st_root s) (dk_files d) (j, q)"
        using doc_okD [OF dr] doc_okD [OF dq] r(2) by (auto simp: doc_ok_def has_files_def)
      moreover have "i \<noteq> j" using new q by auto
      ultimately show "doc_ok (st_root previous) ?m e"
        using doc_ok_after_delete [OF p] root by (simp add: jq)
    qed
    then show ?thesis using assms(3) by (simp add: store_ok_def)
  qed
  then show ?thesis
    unfolding rollback_profile_import_def
    by (intro keeps_available assms)
      (auto intro!: keeps_with_profile keeps_commit_delete assms dest: owned_paths_not_index split: sum.splits)
qed

subsection \<open>Opening what was committed\<close>

lemma read_file_ok: "dk_faults d = [] \<Longrightarrow> read_file path d = (d, Inr (dk_files d path))"
  by (simp add: read_file_def next_fault_def)

lemma validate_index_file_ok:
  "dk_faults d = [] \<Longrightarrow> path_is_safe rel \<Longrightarrow> dk_files d (join root rel) \<noteq> None \<Longrightarrow>
     validate_index_file root rel label d = (d, Inr ())"
  by (auto simp: validate_index_file_def read_file_ok Let_def)

lemma validate_profiles_ok:
  "dk_faults d = [] \<Longrightarrow> \<forall>e \<in> set ps. doc_ok root (dk_files d) e \<Longrightarrow> distinct (map fst ps) \<Longrightarrow>
     fst ` set ps \<inter> set ids = {} \<Longrightarrow>
     validate_profiles root ids (map snd ps) d = (d, Inr (rev (map fst ps) @ ids))"
proof (induction ps arbitrary: ids)
  case (Cons e ps)
  obtain i p where e: "e = (i, p)" by (cases e)
  have "doc_ok root (dk_files d) (i, p)" using Cons.prems(2) by (simp add: e)
  note p = doc_okD [OF this]
  have "validate_index_file root (pd_raw_yaml_path p) ''profile YAML'' d = (d, Inr ())"
    using p Cons.prems(1) by (intro validate_index_file_ok) (auto simp: id_ok_def has_files_def)
  moreover have "(case pd_yaml_backup_path p of None \<Rightarrow> (d, Inr ())
      | Some b \<Rightarrow> validate_index_file root b ''profile backup'' d) = (d, Inr ())"
    using p Cons.prems(1)
    by (cases "pd_yaml_backup_path p")
      (auto simp: id_ok_def has_files_def intro!: validate_index_file_ok)
  moreover have "str_trim (pd_id p) \<noteq> [] \<and> pd_id p \<notin> set ids"
    using p Cons.prems(4) by (auto simp: id_ok_def e)
  moreover have "validate_profiles root (i # ids) (map snd ps) d = (d, Inr (rev (map fst ps) @ i # ids))"
    using Cons.prems by (intro Cons.IH) (auto simp: e)
  ultimately show ?case using p by (simp add: e)
qed simp

lemma validate_rules_ok:
  "\<forall>e \<in> set rs. rule_ok (set pids) e \<Longrightarrow> distinct (map fst rs) \<Longrightarrow> fst ` set rs \<inter> set ids = {} \<Longrightarrow>
     validate_rules pids ids (map snd rs) = Inr ()"
proof (induction rs arbitrary: ids)
  case (Cons e rs)
  obtain i r where e: "e = (i, r)" by (cases e)
  have r: "rd_id r = i" "str_trim i \<noteq> []" "rd_profile_id r \<in> set pids" "i \<notin> set ids"
    using Cons.prems by (auto simp: e rule_ok_def)
  have "validate_rules pids (i # ids) (map snd rs) = Inr ()"
    using Cons.prems by (intro Cons.IH) (auto simp: e)
  then show ?case using r by (simp add: e)
qed simp

lemma open_existing_inv:
  assumes "store_inv ext s d" "dk_faults d = []"
  shows "open_existing ext (st_root s) d = (d, Inr s)"
proof -
  note ok = store_invD [OF assms(1)]
  obtain bytes where b: "dk_files d (index_path (st_root s)) = Some bytes" "utf8_valid bytes"
    "ext_decode ext bytes = Inr (store_index_of s)"
    using assms(1) by (auto simp: store_inv_def index_current_def)
  have ps: "bmap_ok (st_profiles s)" "\<forall>e \<in> set (st_profiles s). doc_ok (st_root s) (dk_files d) e"
    and rs: "bmap_ok (st_rules s)" "\<forall>e \<in> set (st_rules s). rule_ok (profile_ids s) e"
    using ok by (simp_all add: store_ok_def)
  let ?ids = "rev (map fst (st_profiles s))"
  have vp: "validate_profiles (st_root s) [] (map snd (st_profiles s)) d = (d, Inr ?ids)"
    using validate_profiles_ok [OF assms(2) ps(2) bmap_ok_distinct [OF ps(1)], of "[]"] by simp
  have "set ?ids = profile_ids s" by (simp add: profile_ids_def)
  then have vr: "validate_rules ?ids [] (map snd (st_rules s)) = Inr ()"
    using rs by (intro validate_rules_ok bmap_ok_distinct) simp_all
  have act: "i \<in> set ?ids" if "st_active s = Some i" for i
    using ok that by (simp add: store_ok_def profile_ids_def)
  have v: "validate_store_index (st_root s) (store_index_of s) d = (d, Inr ())"
    using vp vr act by (cases "st_active s") (simp_all add: validate_store_index_def store_index_of_def)
  have kp: "map (\<lambda>p. (pd_id p, p)) (map snd (st_profiles s)) = st_profiles s"
    using ps(2) by (auto simp: doc_ok_def intro!: map_idI)
  have kr: "map (\<lambda>r. (rd_id r, r)) (map snd (st_rules s)) = st_rules s"
    using rs(2) by (auto simp: rule_ok_def intro!: map_idI)
  have "bmap_of_list (map (\<lambda>p. (pd_id p, p)) (si_profiles (store_index_of s))) = st_profiles s"
    "bmap_of_list (map (\<lambda>r. (rd_id r, r)) (si_rules (store_index_of s))) = st_rules s"
    using kp kr ps(1) rs(1) by (simp_all add: store_index_of_def bmap_of_list_sorted del: map_map)
  moreover have "st_initialization_error s = None" using ok by (simp add: store_ok_def)
  ultimately show ?thesis
    using b v by (simp add: open_existing_def read_index_def Let_def read_file_ok assms(2))
      (simp add: store_index_of_def)
qed

text \<open>A new root starts with an empty store that satisfies the invariant.\<close>

lemma open_store_new:
  assumes "codec_ok ext" "dk_faults d = []" "dk_files d (index_path root) = None"
    and "open_store ext root (Inr False) (Inr ()) d = (d', Inr s)"
  shows "store_inv ext s d' \<and> st_profiles s = [] \<and> st_root s = root"
proof -
  let ?s = "\<lparr>st_root = root, st_initialization_error = None, st_active = None, st_profiles = [], st_rules = []\<rparr>
    :: 'a store"
  have f: "next_fault d = (None, d)" using assms(2) by (simp add: next_fault_def)
  have sv: "save ext ?s d = (d', Inr ()) \<and> s = ?s"
    using assms(3,4) by (auto simp: open_store_def f Let_def split: prod.splits sum.splits)
  have ok: "store_ok ?s (dk_files d)" by (simp add: store_ok_def)
  have "keeps ext ?s d (commit_staged ext ?s d ?s ())"
    by (rule keeps_commit_staged [OF assms(1) ok refl])
  then show ?thesis using sv by (simp add: commit_staged_def keeps_def)
qed

subsection \<open>When a subscription is due\<close>

lemma parse_digits_append: "parse_digits (s @ t) acc =
    (case parse_digits s acc of None \<Rightarrow> None | Some n \<Rightarrow> parse_digits t n)"
  by (induction s arbitrary: acc) simp_all

lemma digit_code: "n < (10 :: nat) \<Longrightarrow> of_char (char_of (48 + n) :: char) = 48 + n"
  by (simp add: of_char_of)

lemma parse_digits_decimal: "parse_digits (decimal n) acc = Some (acc * 10 ^ length (decimal n) + n)"
proof (induction n arbitrary: acc rule: decimal.induct)
  case (1 n)
  show ?case
  proof (cases "n < 10")
    case True
    then show ?thesis by (simp add: decimal.simps [of n] digit_code)
  next
    case False
    have digit: "parse_digits [char_of (48 + n mod 10)] k = Some (k * 10 + n mod 10)" for k
      using digit_code [of "n mod 10"] by simp
    have "parse_digits (decimal n) acc =
        Some ((acc * 10 ^ length (decimal (n div 10)) + n div 10) * 10 + n mod 10)"
      using False 1 [OF False]
      by (subst decimal.simps) (simp only: parse_digits_append option.case digit if_False)
    also have "(acc * 10 ^ length (decimal (n div 10)) + n div 10) * 10 + n mod 10
        = acc * 10 ^ length (decimal n) + n"
    proof -
      have "length (decimal n) = Suc (length (decimal (n div 10)))"
        using False by (subst decimal.simps) simp
      then show ?thesis using div_mult_mod_eq [of n 10] by (simp add: algebra_simps)
    qed
    finally show ?thesis .
  qed
qed

lemma decimal_first: "\<exists>n < (10 :: nat). hd (decimal k) = char_of (48 + n)"
proof (induction k rule: decimal.induct)
  case (1 k)
  show ?case
  proof (cases "k < 10")
    case True
    then show ?thesis by (auto simp: decimal.simps [of k])
  next
    case False
    have "decimal (k div 10) \<noteq> []" by (subst decimal.simps) simp
    then have "hd (decimal k) = hd (decimal (k div 10))" using False by (subst decimal.simps) simp
    then show ?thesis using 1 [OF False] by simp
  qed
qed

lemma parse_u128_decimal: "n \<le> u128_max \<Longrightarrow> parse_u128 (decimal n) = Some n"
proof -
  assume n: "n \<le> u128_max"
  have ne: "decimal n \<noteq> []" by (subst decimal.simps) simp
  obtain k :: nat where "k < 10" "hd (decimal n) = char_of (48 + k)" using decimal_first by blast
  then have "(of_char (hd (decimal n)) :: nat) = 48 + k" using digit_code by simp
  then have "hd (decimal n) \<noteq> CHR ''+''" by auto
  then have "(case decimal n of c # r \<Rightarrow> if c = CHR ''+'' then r else decimal n | [] \<Rightarrow> decimal n) = decimal n"
    by (cases "decimal n") simp_all
  then show ?thesis
    using n ne parse_digits_decimal [of n 0] by (simp add: parse_u128_def Let_def)
qed

lemma sat_interval:
  "sat_mul128 (sat_mul128 (sat_mul128 h 60) 60) 1000000000 = min (h * 3600 * 1000000000) u128_max"
  by (simp add: sat_mul128_def u128_max_def min_def)

lemma refresh_due_iff:
  assumes "pd_subscription_metadata p = Some m" "pd_last_refresh_at p = Some (decimal t)" "t \<le> u128_max"
  shows "refresh_due_at p now \<longleftrightarrow> (\<exists>h > 0. md_update_interval_hours m = Some h \<and>
     min (t + min (h * 3600 * 1000000000) u128_max) u128_max \<le> now)"
  using assms
  by (auto simp: refresh_due_at_def next_refresh_at_def Let_def parse_u128_decimal sat_interval sat_add128_def
      split: option.splits)

subsection \<open>Further facts\<close>

text \<open>
  A subscription with a positive interval of h hours whose last refresh is the decimal time t is
  due at now exactly when now is at least t + h * 3600 * 10^9 nanoseconds (capped at the 128-bit
  maximum); without a positive interval it is never due.
\<close>

lemma refresh_due_exact:
  assumes "pd_subscription_metadata p = Some m" "pd_last_refresh_at p = Some (decimal t)" "t \<le> u128_max"
  shows "refresh_due_at p now \<longleftrightarrow> (\<exists>h > 0. md_update_interval_hours m = Some h \<and>
     min (t + min (h * 3600 * 1000000000) u128_max) u128_max \<le> now)"
  using refresh_due_iff [OF assms] .

end
