(* ===== verification/YamlValue.thy ===== *)
theory YamlValue
  imports PawsModel
begin

text \<open>
  The values of the YAML library and the helpers of \<open>crates/paws_profile/src/runtime_config.rs\<close> that
  read and write them. A mapping is the list of its entries: inserting replaces the value of a key
  in its place or appends, as the library documents; removing keeps the order of the other entries,
  an order that nothing here reads. The accessors look through tags, matching on a constructor does
  not.
\<close>

datatype yaml_number = PosInt nat | NegInt int | Float string

datatype yaml =
    YNull
  | YBool bool
  | YNumber yaml_number
  | YString string
  | YSequence "yaml list"
  | YMapping "(yaml \<times> yaml) list"
  | YTagged string yaml

type_synonym mapping = "(yaml \<times> yaml) list"

subsection \<open>The accessors of the library\<close>

fun untag :: "yaml \<Rightarrow> yaml" where
  "untag (YTagged _ v) = untag v"
| "untag v = v"

fun yaml_as_str :: "yaml \<Rightarrow> string option" where
  "yaml_as_str (YString s) = Some s"
| "yaml_as_str (YTagged _ v) = yaml_as_str v"
| "yaml_as_str _ = None"

fun yaml_as_bool :: "yaml \<Rightarrow> bool option" where
  "yaml_as_bool (YBool b) = Some b"
| "yaml_as_bool (YTagged _ v) = yaml_as_bool v"
| "yaml_as_bool _ = None"

fun yaml_as_u64 :: "yaml \<Rightarrow> nat option" where
  "yaml_as_u64 (YNumber (PosInt n)) = Some n"
| "yaml_as_u64 (YTagged _ v) = yaml_as_u64 v"
| "yaml_as_u64 _ = None"

fun yaml_as_sequence :: "yaml \<Rightarrow> yaml list option" where
  "yaml_as_sequence (YSequence vs) = Some vs"
| "yaml_as_sequence (YTagged _ v) = yaml_as_sequence v"
| "yaml_as_sequence _ = None"

fun yaml_as_mapping :: "yaml \<Rightarrow> mapping option" where
  "yaml_as_mapping (YMapping m) = Some m"
| "yaml_as_mapping (YTagged _ v) = yaml_as_mapping v"
| "yaml_as_mapping _ = None"

fun yaml_is_null :: "yaml \<Rightarrow> bool" where
  "yaml_is_null YNull = True"
| "yaml_is_null (YTagged _ v) = yaml_is_null v"
| "yaml_is_null _ = False"

text \<open>\<open>as_mapping_mut\<close>: the mapping below the tags is the one that changes.\<close>

fun set_mapping :: "mapping \<Rightarrow> yaml \<Rightarrow> yaml" where
  "set_mapping m (YTagged t v) = YTagged t (set_mapping m v)"
| "set_mapping m _ = YMapping m"

subsection \<open>Keys of a mapping\<close>

definition value_key :: "string \<Rightarrow> yaml" where "value_key key = YString key"

definition get_key :: "mapping \<Rightarrow> string \<Rightarrow> yaml option" where
  "get_key m key = map_of m (value_key key)"

definition insert_key :: "string \<Rightarrow> yaml \<Rightarrow> mapping \<Rightarrow> mapping" where
  "insert_key key v m = amap_put (value_key key) v m"

definition remove_key :: "string \<Rightarrow> mapping \<Rightarrow> mapping" where
  "remove_key key m = amap_del (value_key key) m"

text \<open>\<open>Value::get\<close> with a string.\<close>

definition yaml_get :: "yaml \<Rightarrow> string \<Rightarrow> yaml option" where
  "yaml_get v key = (case yaml_as_mapping v of None \<Rightarrow> None | Some m \<Rightarrow> get_key m key)"

definition put_string :: "string \<Rightarrow> string \<Rightarrow> mapping \<Rightarrow> mapping" where
  "put_string key value m = insert_key key (YString value) m"

definition put_bool :: "string \<Rightarrow> bool \<Rightarrow> mapping \<Rightarrow> mapping" where
  "put_bool key value m = insert_key key (YBool value) m"

text \<open>An \<open>i64\<close> becomes a number of the library by its sign.\<close>

definition put_i64 :: "string \<Rightarrow> int \<Rightarrow> mapping \<Rightarrow> mapping" where
  "put_i64 key value m =
    insert_key key (YNumber (if 0 \<le> value then PosInt (nat value) else NegInt value)) m"

definition put_string_sequence :: "string \<Rightarrow> string list \<Rightarrow> mapping \<Rightarrow> mapping" where
  "put_string_sequence key values m =
    (if values = [] then m else insert_key key (YSequence (map YString values)) m)"

definition get_string :: "mapping \<Rightarrow> string \<Rightarrow> string option" where
  "get_string m key = Option.bind (get_key m key) yaml_as_str"

definition get_string_list :: "mapping \<Rightarrow> string \<Rightarrow> string list" where
  "get_string_list m key =
    (case get_key m key of
       None \<Rightarrow> []
     | Some (YString text) \<Rightarrow> [text]
     | Some (YSequence items) \<Rightarrow> List.map_filter yaml_as_str items
     | Some _ \<Rightarrow> [])"

text \<open>\<open>root.remove(key).and_then(as_mapping).unwrap_or_default()\<close>, the section a setter starts from.\<close>

definition section_of :: "mapping \<Rightarrow> string \<Rightarrow> mapping" where
  "section_of root key =
    (case Option.bind (get_key root key) yaml_as_mapping of None \<Rightarrow> [] | Some m \<Rightarrow> m)"

subsection \<open>Laws\<close>

named_theorems yaml_laws

lemma value_key_eq [simp, yaml_laws]: "value_key a = value_key b \<longleftrightarrow> a = b"
  by (simp add: value_key_def)

lemma get_insert [simp, yaml_laws]:
  "get_key (insert_key k v m) j = (if j = k then Some v else get_key m j)"
  by (simp add: get_key_def insert_key_def)

lemma get_remove [simp, yaml_laws]:
  "get_key (remove_key k m) j = (if j = k then None else get_key m j)"
  by (simp add: get_key_def remove_key_def)

lemma get_empty [simp, yaml_laws]: "get_key [] k = None"
  by (simp add: get_key_def)

lemma get_put_string [simp, yaml_laws]:
  "get_key (put_string k v m) j = (if j = k then Some (YString v) else get_key m j)"
  by (simp add: put_string_def)

lemma get_put_bool [simp, yaml_laws]:
  "get_key (put_bool k v m) j = (if j = k then Some (YBool v) else get_key m j)"
  by (simp add: put_bool_def)

lemma get_put_i64 [simp, yaml_laws]:
  "get_key (put_i64 k (int n) m) j = (if j = k then Some (YNumber (PosInt n)) else get_key m j)"
  by (simp add: put_i64_def)

lemma get_put_i64_u16 [simp, yaml_laws]:
  "get_key (put_i64 k (uint (w :: u16)) m) j = (if j = k then Some (YNumber (PosInt (unat w))) else get_key m j)"
  by (simp add: put_i64_def)

lemma get_put_string_sequence [simp, yaml_laws]:
  "get_key (put_string_sequence k vs m) j =
     (if j = k \<and> vs \<noteq> [] then Some (YSequence (map YString vs)) else get_key m j)"
  by (simp add: put_string_sequence_def)

lemma as_mapping_set_mapping [simp]: "yaml_as_mapping (set_mapping m v) = Some m"
  by (induction v) simp_all

lemma as_mapping_untag: "yaml_as_mapping v = Some m \<longleftrightarrow> untag v = YMapping m"
  by (induction v) simp_all

lemma yaml_get_mapping [simp]: "yaml_get (YMapping m) k = get_key m k"
  by (simp add: yaml_get_def)

lemma yaml_get_set_mapping [simp]: "yaml_get (set_mapping m v) k = get_key m k"
  by (simp add: yaml_get_def)

end
