(* ===== verification/RuleText.thy ===== *)
theory RuleText
  imports YamlValue
begin

text \<open>
  The text of routing rules, \<open>crates/paws_profile/src/rules.rs\<close>: reading imported rule lists and
  normalising the rules the user makes from an activity. The YAML parser and the parsers of hosts and
  networks are arguments.
\<close>

definition BOM :: "string list" where "BOM = [[CHR 0xEF, CHR 0xBB, CHR 0xBF]]"

definition trim_bom :: "string \<Rightarrow> string" where "trim_bom s = trim_start_with BOM s"

subsection \<open>Imported rule lists\<close>

definition rule_fields :: "string \<Rightarrow> string list" where
  "rule_fields line = map str_trim (split_on (CHR '','') line)"

fun imported_rule_values_from :: "nat \<Rightarrow> yaml list \<Rightarrow> string list presult" where
  "imported_rule_values_from i [] = Inr []"
| "imported_rule_values_from i (v # vs) =
    (case (case yaml_as_str v of None \<Rightarrow> None
           | Some s \<Rightarrow> if str_trim s \<noteq> [] then Some (str_trim s) else None) of
       None \<Rightarrow> Inl (Core (''custom rule item '' @ decimal (i + 1) @ '' must be a non-empty string''))
     | Some line \<Rightarrow> rbind (imported_rule_values_from (i + 1) vs) (\<lambda>lines. Inr (line # lines)))"

definition imported_rule_values :: "yaml list \<Rightarrow> string list presult" where
  "imported_rule_values values = imported_rule_values_from 0 values"

fun imported_rule_yaml_sequence :: "yaml \<Rightarrow> string list presult" where
  "imported_rule_yaml_sequence (YSequence values) = imported_rule_values values"
| "imported_rule_yaml_sequence _ = Inl (Core ''the top-level rules field must be a YAML list'')"

definition imported_rule_text_lines :: "string \<Rightarrow> string list" where
  "imported_rule_text_lines content =
    filter (\<lambda>line. line \<noteq> [])
      (map (\<lambda>line. if take 2 line = ''- '' then str_trim (drop 2 line) else line)
        (filter (\<lambda>line. line \<noteq> [] \<and> hd line \<noteq> CHR ''#'')
          (map (\<lambda>line. str_trim (trim_bom (str_trim line))) (str_lines content))))"

definition validate_imported_rule_line :: "string \<Rightarrow> nat \<Rightarrow> unit presult" where
  "validate_imported_rule_line rule i =
    (let parts = rule_fields rule;
         ty = hd parts;
         first_argument = (case tl parts of [] \<Rightarrow> [] | a # _ \<Rightarrow> a) in
     if ty = [] \<or> first_argument = []
       \<or> (\<exists>c \<in> set ty. c \<in> {CHR '':'', CHR 0x0A, CHR 0x0D})
       \<or> (rule \<noteq> [] \<and> hd rule = CHR ''-'')
     then Inl (Core (''invalid custom rule at item '' @ decimal (i + 1) @ '': '' @ rule))
     else Inr ())"

fun validate_all :: "nat \<Rightarrow> string list \<Rightarrow> unit presult" where
  "validate_all i [] = Inr ()"
| "validate_all i (r # rs) =
    (case validate_imported_rule_line r i of Inl e \<Rightarrow> Inl e | Inr _ \<Rightarrow> validate_all (i + 1) rs)"

definition no_rules :: "'a presult" where
  "no_rules = Inl (Core ''the selected file does not contain custom rules'')"

definition parse_imported_rule_lines :: "(string \<Rightarrow> yaml option) \<Rightarrow> string \<Rightarrow> string list presult" where
  "parse_imported_rule_lines from_yaml rules_text =
    (let content = str_trim (trim_bom rules_text) in
     if content = [] then no_rules
     else rbind
       (case from_yaml content of
          Some (YMapping root) \<Rightarrow>
            (case map_of root (value_key ''rules'') of
               None \<Rightarrow> Inl (Core ''the selected YAML file does not contain a top-level rules list'')
             | Some v \<Rightarrow> imported_rule_yaml_sequence v)
        | Some (YSequence values) \<Rightarrow> imported_rule_values values
        | _ \<Rightarrow> Inr (imported_rule_text_lines content))
       (\<lambda>rules. if rules = [] then no_rules
          else rbind (validate_all 0 rules) (\<lambda>_. Inr rules)))"

subsection \<open>Rules made from an activity\<close>

text \<open>
  \<open>net_host\<close> is \<open>Host::parse\<close>; \<open>net_cidr\<close> and \<open>net_addr\<close> give the text of the truncated network
  that a CIDR or an address stands for, and whether it is IPv6.
\<close>

datatype host = HostDomain string | HostIpv4 | HostIpv6

record net =
  net_host :: "string \<Rightarrow> host option"
  net_cidr :: "string \<Rightarrow> (string \<times> bool) option"
  net_addr :: "string \<Rightarrow> (string \<times> bool) option"

record normalized_manual_rule =
  nmr_match_kind :: manual_rule_match_kind
  nmr_value :: string
  nmr_target :: string
  nmr_ipv6 :: bool

definition rule_selector :: "normalized_manual_rule \<Rightarrow> manual_rule_match_kind \<times> string" where
  "rule_selector r = (nmr_match_kind r, nmr_value r)"

definition rule_line :: "normalized_manual_rule \<Rightarrow> string" where
  "rule_line r = rule_type (nmr_match_kind r) (nmr_ipv6 r) @ '','' @ nmr_value r @ '','' @ nmr_target r"

definition trim_end_dots :: "string \<Rightarrow> string" where
  "trim_end_dots s = rev (dropWhile (\<lambda>c. c = CHR ''.'') (rev s))"

definition trim_start_dots :: "string \<Rightarrow> string" where
  "trim_start_dots s = dropWhile (\<lambda>c. c = CHR ''.'') s"

definition normalize_manual_rule_value ::
  "net \<Rightarrow> manual_rule_match_kind \<Rightarrow> string \<Rightarrow> (string \<times> bool) presult" where
  "normalize_manual_rule_value net match_kind value =
    (if match_kind = IpCidr then
       (let value = str_trim value in
        if CHR ''/'' \<in> set value then
          (case net_cidr net value of None \<Rightarrow> Inl (Core (''invalid IP/CIDR: '' @ value))
           | Some network \<Rightarrow> Inr network)
        else
          (case net_addr net value of None \<Rightarrow> Inl (Core (''invalid IP address: '' @ value))
           | Some network \<Rightarrow> Inr network))
     else
       (let value = trim_end_dots (str_trim value);
            value = (if match_kind = DomainSuffix then trim_start_dots value else value) in
        if value = [] \<or> (\<exists>c \<in> set value. c \<in> {CHR ''/'', CHR '','', CHR 0x0A, CHR 0x0D})
        then Inl (Core ''invalid manual rule domain'')
        else
          (case net_host net value of
             None \<Rightarrow> Inl (Core (''invalid manual rule domain: '' @ value))
           | Some (HostDomain domain) \<Rightarrow> Inr (to_ascii_lowercase domain, False)
           | Some _ \<Rightarrow> Inl (Core ''use IP/CIDR matching for an IP address''))))"

definition normalize_manual_rule_spec :: "net \<Rightarrow> manual_rule_spec \<Rightarrow> normalized_manual_rule presult" where
  "normalize_manual_rule_spec net spec =
    (let target = str_trim (mrs_target spec) in
     if target = [] \<or> (\<exists>c \<in> set target. c \<in> {CHR '','', CHR 0x0A, CHR 0x0D})
     then Inl (Core ''manual rule target must be a proxy group or DIRECT'')
     else
       let target = (if eq_ignore_ascii_case target ''DIRECT'' then ''DIRECT'' else target) in
       rbind (normalize_manual_rule_value net (mrs_match_kind spec) (mrs_value spec)) (\<lambda>(value, ipv6).
         Inr \<lparr>nmr_match_kind = mrs_match_kind spec, nmr_value = value, nmr_target = target,
              nmr_ipv6 = ipv6\<rparr>))"

definition match_kind_of_type :: "string \<Rightarrow> manual_rule_match_kind option" where
  "match_kind_of_type ty =
    (if ty = ''DOMAIN'' then Some Domain
     else if ty = ''DOMAIN-SUFFIX'' then Some DomainSuffix
     else if ty = ''IP-CIDR'' \<or> ty = ''IP-CIDR6'' then Some IpCidr
     else None)"

definition manual_rule_selector :: "net \<Rightarrow> string \<Rightarrow> (manual_rule_match_kind \<times> string) option" where
  "manual_rule_selector net text =
    (case rule_fields text of
       ty # value # _ \<Rightarrow>
         (case match_kind_of_type (to_ascii_uppercase ty) of
            None \<Rightarrow> None
          | Some match_kind \<Rightarrow>
              (case normalize_manual_rule_value net match_kind value of
                 Inl _ \<Rightarrow> None | Inr (value, _) \<Rightarrow> Some (match_kind, value)))
     | _ \<Rightarrow> None)"

subsection \<open>What they give\<close>

lemma rbind_Inr_cases: "rbind m f = Inr b \<Longrightarrow> (\<And>a. m = Inr a \<Longrightarrow> f a = Inr b \<Longrightarrow> P) \<Longrightarrow> P"
  by (auto simp: rbind_Inr)

text \<open>A rule line that can be used: a type and an argument, and not a list item by mistake.\<close>

definition rule_line_ok :: "string \<Rightarrow> bool" where
  "rule_line_ok rule \<longleftrightarrow>
     (\<exists>ty arg rest. rule_fields rule = ty # arg # rest \<and> ty \<noteq> [] \<and> arg \<noteq> [] \<and> CHR '':'' \<notin> set ty \<and>
        CHR 0x0A \<notin> set ty) \<and> hd rule \<noteq> CHR ''-''"

lemma rule_fields_not_Nil [simp]: "rule_fields s \<noteq> []"
  by (simp add: rule_fields_def)

lemma validate_imported_rule_line_Inr: "validate_imported_rule_line r i = Inr () \<Longrightarrow> rule_line_ok r"
proof -
  assume a: "validate_imported_rule_line r i = Inr ()"
  have "r \<noteq> []"
  proof
    assume "r = []"
    then have "hd (rule_fields r) = []" by (simp add: rule_fields_def)
    then show False using a by (simp add: validate_imported_rule_line_def Let_def)
  qed
  then show ?thesis
    using a by (cases "rule_fields r"; cases "tl (rule_fields r)")
      (auto simp: validate_imported_rule_line_def rule_line_ok_def Let_def split: if_splits)
qed

lemma validate_all_Inr: "validate_all i rs = Inr () \<Longrightarrow> r \<in> set rs \<Longrightarrow> rule_line_ok r"
  by (induction rs arbitrary: i) (auto split: sum.splits dest: validate_imported_rule_line_Inr)

lemma parse_imported_rule_lines_Inr:
  assumes "parse_imported_rule_lines from_yaml t = Inr rules"
  shows "rules \<noteq> [] \<and> (\<forall>r \<in> set rules. rule_line_ok r)"
proof -
  have "rules \<noteq> [] \<and> validate_all 0 rules = Inr ()"
    using assms
    by (auto simp: parse_imported_rule_lines_def no_rules_def Let_def elim!: rbind_Inr_cases split: if_splits)
  then show ?thesis using validate_all_Inr by blast
qed

text \<open>
  Parsers are stable when they read their own output as itself, and it stays one field of a rule line.
\<close>

definition plain_field :: "string \<Rightarrow> bool" where
  "plain_field v \<longleftrightarrow> CHR '','' \<notin> set v \<and> str_trim v = v"

definition plain_domain :: "string \<Rightarrow> bool" where
  "plain_domain d \<longleftrightarrow> d \<noteq> [] \<and> hd d \<noteq> CHR ''.'' \<and> last d \<noteq> CHR ''.'' \<and> plain_field d \<and>
     CHR ''/'' \<notin> set d \<and> CHR 0x0A \<notin> set d \<and> CHR 0x0D \<notin> set d"

definition net_stable :: "net \<Rightarrow> bool" where
  "net_stable net \<longleftrightarrow>
     (\<forall>v d. net_host net v = Some (HostDomain d) \<longrightarrow> plain_domain (to_ascii_lowercase d) \<and>
        net_host net (to_ascii_lowercase d) = Some (HostDomain (to_ascii_lowercase d))) \<and>
     (\<forall>v t v6. net_cidr net v = Some (t, v6) \<or> net_addr net v = Some (t, v6) \<longrightarrow>
        plain_field t \<and> CHR ''/'' \<in> set t \<and> net_cidr net t = Some (t, v6))"

lemma plain_domain_trim:
  "plain_domain d \<Longrightarrow> trim_end_dots (str_trim d) = d \<and> trim_start_dots d = d"
proof -
  assume p: "plain_domain d"
  have "trim_end_dots d = d"
    using p by (cases d rule: rev_cases) (auto simp: plain_domain_def trim_end_dots_def)
  moreover have "trim_start_dots d = d" using p by (cases d) (auto simp: plain_domain_def trim_start_dots_def)
  ultimately show ?thesis using p by (simp add: plain_domain_def plain_field_def)
qed

lemma normalize_value_stable:
  assumes "net_stable net" "normalize_manual_rule_value net k v = Inr (x, v6)"
  shows "normalize_manual_rule_value net k x = Inr (x, v6)" "plain_field x"
proof -
  have "normalize_manual_rule_value net k x = Inr (x, v6) \<and> plain_field x"
  proof (cases "k = IpCidr")
    case True
    then have "net_cidr net (str_trim v) = Some (x, v6) \<or> net_addr net (str_trim v) = Some (x, v6)"
      using assms(2) by (auto simp: normalize_manual_rule_value_def Let_def split: if_splits option.splits)
    then have "plain_field x" "CHR ''/'' \<in> set x" "net_cidr net x = Some (x, v6)"
      using assms(1) unfolding net_stable_def by blast+
    then show ?thesis using True by (simp add: normalize_manual_rule_value_def plain_field_def)
  next
    case False
    then obtain w d where d: "net_host net w = Some (HostDomain d)" "x = to_ascii_lowercase d" "v6 = False"
      using assms(2)
      by (auto simp: normalize_manual_rule_value_def Let_def split: if_splits option.splits host.splits)
    then have x: "plain_domain x" "net_host net x = Some (HostDomain x)"
      using assms(1) unfolding net_stable_def by blast+
    moreover have "to_ascii_lowercase x = x" using d(2) by simp
    ultimately show ?thesis
      using False d(3) plain_domain_trim [OF x(1)]
      by (auto simp: normalize_manual_rule_value_def Let_def plain_domain_def plain_field_def)
  qed
  then show "normalize_manual_rule_value net k x = Inr (x, v6)" "plain_field x" by simp_all
qed

lemma rule_type_facts:
  "str_trim (rule_type k v6) = rule_type k v6" "CHR '','' \<notin> set (rule_type k v6)"
  by (cases k; cases v6; simp add: str_simps printable_def)+

lemma match_kind_of_rule_type: "match_kind_of_type (to_ascii_uppercase (rule_type k v6)) = Some k"
  by (cases k; cases v6; simp add: match_kind_of_type_def to_ascii_uppercase_def ascii_upper_def)

lemma rule_fields_line:
  assumes "plain_field (nmr_value r)"
  shows "rule_fields (rule_line r) =
    rule_type (nmr_match_kind r) (nmr_ipv6 r) # nmr_value r # rule_fields (nmr_target r)"
proof -
  let ?ty = "rule_type (nmr_match_kind r) (nmr_ipv6 r)"
  have "split_on (CHR '','') (rule_line r) = ?ty # nmr_value r # split_on (CHR '','') (nmr_target r)"
    using assms rule_type_facts(2)
    by (simp add: rule_line_def split_on_append plain_field_def)
  then show ?thesis using assms by (simp add: rule_fields_def rule_type_facts plain_field_def)
qed

lemma normalize_manual_rule_spec_Inr:
  assumes "normalize_manual_rule_spec net spec = Inr r"
  shows "nmr_match_kind r = mrs_match_kind spec"
    "normalize_manual_rule_value net (mrs_match_kind spec) (mrs_value spec) = Inr (nmr_value r, nmr_ipv6 r)"
proof -
  have "\<exists>t. rbind (normalize_manual_rule_value net (mrs_match_kind spec) (mrs_value spec)) (\<lambda>(value, ipv6).
         Inr \<lparr>nmr_match_kind = mrs_match_kind spec, nmr_value = value, nmr_target = t, nmr_ipv6 = ipv6\<rparr>)
       = Inr r"
    using assms unfolding normalize_manual_rule_spec_def Let_def by (meson Inl_Inr_False)
  then show "nmr_match_kind r = mrs_match_kind spec"
    "normalize_manual_rule_value net (mrs_match_kind spec) (mrs_value spec) = Inr (nmr_value r, nmr_ipv6 r)"
    by (auto simp: rbind_Inr)
qed

lemma manual_rule_selector_line:
  assumes "net_stable net" "normalize_manual_rule_spec net spec = Inr r"
  shows "manual_rule_selector net (rule_line r) = Some (rule_selector r)"
proof -
  note v = normalize_manual_rule_spec_Inr [OF assms(2)]
  note st = normalize_value_stable [OF assms(1) v(2)]
  have f: "rule_fields (rule_line r) =
      rule_type (nmr_match_kind r) (nmr_ipv6 r) # nmr_value r # rule_fields (nmr_target r)"
    by (rule rule_fields_line [OF st(2)])
  show ?thesis
    by (simp add: manual_rule_selector_def f rule_selector_def match_kind_of_rule_type v(1) st(1))
qed

subsection \<open>A sample rule\<close>

definition sample_net :: net where
  "sample_net = \<lparr>net_host = (\<lambda>_. Some (HostDomain ''a'')), net_cidr = (\<lambda>_. None), net_addr = (\<lambda>_. None)\<rparr>"

definition sample_spec :: manual_rule_spec where
  "sample_spec = \<lparr>mrs_match_kind = Domain, mrs_value = ''a'', mrs_target = ''DIRECT''\<rparr>"

definition sample_rule :: normalized_manual_rule where
  "sample_rule = \<lparr>nmr_match_kind = Domain, nmr_value = ''a'', nmr_target = ''DIRECT'', nmr_ipv6 = False\<rparr>"

lemma sample_value: "normalize_manual_rule_value sample_net Domain ''a'' = Inr (''a'', False)"
  by (simp add: normalize_manual_rule_value_def sample_net_def Let_def str_simps printable_def trim_end_dots_def
      to_ascii_lowercase_def ascii_lower_def)

lemma sample_normalized: "normalize_manual_rule_spec sample_net sample_spec = Inr sample_rule"
  by (simp add: normalize_manual_rule_spec_def sample_value sample_spec_def sample_rule_def Let_def str_simps
      printable_def eq_ignore_ascii_case_def)

lemma sample_net_stable: "net_stable sample_net"
  by (simp add: net_stable_def sample_net_def plain_domain_def plain_field_def str_simps printable_def
      to_ascii_lowercase_def ascii_lower_def)

subsection \<open>Further facts\<close>

text \<open>
  The guard against commas in a manual rule's domain is applied before the host parser: with a
  parser that decodes percent escapes, as the URL library's does, the value a%2Cb is accepted and
  stored as a line with one field too many, whose target is no longer the one the user chose.
\<close>

lemma encoded_comma_adds_field:
  assumes "net_host net ''a%2Cb'' = Some (HostDomain ''a,b'')"
  shows "\<exists>rule. normalize_manual_rule_spec net \<lparr>mrs_match_kind = Domain, mrs_value = ''a%2Cb'', mrs_target = ''Proxy''\<rparr>
       = Inr rule \<and> split_on (CHR '','') (rule_line rule) = [''DOMAIN'', ''a'', ''b'', ''Proxy'']"
proof -
  have "normalize_manual_rule_value net Domain ''a%2Cb'' = Inr (''a,b'', False)"
    using assms by (simp add: normalize_manual_rule_value_def Let_def str_simps printable_def trim_end_dots_def
        to_ascii_lowercase_def ascii_lower_def)
  then show ?thesis
    by (simp add: normalize_manual_rule_spec_def Let_def str_simps printable_def eq_ignore_ascii_case_def
        to_ascii_lowercase_def ascii_lower_def rule_line_def)
qed

text \<open>
  What parse_imported_rule_lines accepts, from YAML or from text, is a non-empty list of lines
  that each have a type and an argument, are not list items by mistake, and have no colon or
  newline in the type; everything else is an error.
\<close>

lemma imported_rules_valid:
  assumes "parse_imported_rule_lines from_yaml t = Inr rules"
  shows "rules \<noteq> [] \<and> (\<forall>r \<in> set rules. hd r \<noteq> CHR ''-'' \<and> (\<exists>ty arg rest.
     map str_trim (split_on (CHR '','') r) = ty # arg # rest \<and> ty \<noteq> [] \<and> arg \<noteq> [] \<and>
     CHR '':'' \<notin> set ty \<and> CHR 0x0A \<notin> set ty))"
  using parse_imported_rule_lines_Inr [OF assms] by (auto simp: rule_line_ok_def rule_fields_def)

text \<open>
  The line a normalised manual rule is stored as is recognised again as a manual rule with the
  same selector, so that staging the same rule twice updates one line instead of stacking two,
  provided the host and network parsers read their own output as itself and put no comma in it.
\<close>

lemma manual_rule_selected_again:
  assumes "net_stable net" "normalize_manual_rule_spec net spec = Inr rule"
  shows "manual_rule_selector net (rule_line rule) = Some (rule_selector rule)"
  using assms by (rule manual_rule_selector_line)

end
