(* ===== verification/RuleStore.thy ===== *)
theory RuleStore
  imports StoreInvariant RuleText "HOL-Library.Product_Lexorder" "HOL-Library.Multiset"
begin

text \<open>
  The rules of the profile store, \<open>crates/paws_profile/src/lib.rs\<close>: listing them in order, importing,
  switching, reordering and deleting them, and staging the rule a user makes from an activity. Orders
  are \<open>u32\<close>.
\<close>

definition u32_max :: nat where "u32_max = 2 ^ 32 - 1"

definition as_u32 :: "nat \<Rightarrow> nat" where "as_u32 n = n mod 2 ^ 32"

definition MANUAL_ACTIVITY_RULE_SOURCE :: string where
  "MANUAL_ACTIVITY_RULE_SOURCE = ''manual:activity''"

definition rule_document_summary :: "rule_document \<Rightarrow> rule_summary" where
  "rule_document_summary r = \<lparr>rs_id = rd_id r, rs_profile_id = rd_profile_id r, rs_line = rd_line r,
     rs_enabled = rd_enabled r, rs_order = rd_order r, rs_source = rd_source r\<rparr>"

definition rules_of :: "string \<Rightarrow> 'y store \<Rightarrow> rule_document list" where
  "rules_of profile_id s = filter (\<lambda>r. rd_profile_id r = profile_id) (map snd (st_rules s))"

definition sorted_rules_of :: "string \<Rightarrow> 'y store \<Rightarrow> rule_document list" where
  "sorted_rules_of profile_id s = sort_key rd_order (rules_of profile_id s)"

definition rules_for_profile :: "string \<Rightarrow> 'y store \<Rightarrow> rule_summary list" where
  "rules_for_profile profile_id s = map rule_document_summary (sorted_rules_of profile_id s)"

definition active_rules :: "'y store \<Rightarrow> rule_summary list" where
  "active_rules s = (case st_active s of None \<Rightarrow> [] | Some i \<Rightarrow> rules_for_profile i s)"

definition enabled_rule_lines :: "string \<Rightarrow> 'y store \<Rightarrow> string list" where
  "enabled_rule_lines profile_id s =
     map rd_line (sort_key rd_order (filter rd_enabled (rules_of profile_id s)))"

definition put_rule :: "rule_document \<Rightarrow> 'y store \<Rightarrow> 'y store" where
  "put_rule r s = s\<lparr>st_rules := bput (rd_id r) r (st_rules s)\<rparr>"

text \<open>\<open>profile\<close>: the store is available and has the profile.\<close>

definition profile :: "string \<Rightarrow> 'y store \<Rightarrow> 'y profile_document presult" where
  "profile profile_id s =
    (case ensure_available s of Inl e \<Rightarrow> Inl e
     | Inr _ \<Rightarrow> (case map_of (st_profiles s) profile_id of
         None \<Rightarrow> Inl (ProfileNotFound profile_id) | Some p \<Rightarrow> Inr p))"

subsection \<open>Importing, switching, reordering, deleting\<close>

fun import_lines ::
  "clock \<Rightarrow> string \<Rightarrow> string \<Rightarrow> nat \<Rightarrow> nat \<Rightarrow> string list \<Rightarrow> 'y store \<Rightarrow> 'y store \<times> string list" where
  "import_lines ck profile_id source j next_order [] s = (s, [])"
| "import_lines ck profile_id source j next_order (l # ls) s =
    (let i = next_id ''rule'' ck j j;
         s = put_rule \<lparr>rd_id = i, rd_profile_id = profile_id, rd_line = l, rd_enabled = True,
               rd_order = next_order, rd_source = source\<rparr> s;
         (s, ids) = import_lines ck profile_id source (j + 1) (min (next_order + 1) u32_max) ls s in
     (s, i # ids))"

definition first_free_order :: "string \<Rightarrow> 'y store \<Rightarrow> nat" where
  "first_free_order profile_id s =
    min ((case map rd_order (rules_of profile_id s) of [] \<Rightarrow> 0 | os \<Rightarrow> Max (set os)) + 1) u32_max"

definition import_rules_for_profile ::
  "'y ext \<Rightarrow> (string \<Rightarrow> yaml option) \<Rightarrow> clock \<Rightarrow> string \<Rightarrow> string \<Rightarrow> string \<Rightarrow> 'y store \<Rightarrow> disk \<Rightarrow>
   ('y, string list) op_result" where
  "import_rules_for_profile ext from_yaml ck profile_id source rules_text s d =
    (case profile profile_id s of
       Inl e \<Rightarrow> refuse s d e
     | Inr _ \<Rightarrow>
    (case parse_imported_rule_lines from_yaml rules_text of
       Inl e \<Rightarrow> refuse s d e
     | Inr imported_rules \<Rightarrow>
         (let (staged, ids) =
            import_lines ck profile_id source 0 (first_free_order profile_id s) imported_rules s in
          commit_staged ext s d staged ids)))"

definition with_rule ::
  "'y store \<Rightarrow> disk \<Rightarrow> string \<Rightarrow> (rule_document \<Rightarrow> ('y, 'r) op_result) \<Rightarrow> ('y, 'r) op_result" where
  "with_rule s d rule_id f =
    (case map_of (st_rules s) rule_id of None \<Rightarrow> refuse s d (RuleNotFound rule_id) | Some r \<Rightarrow> f r)"

definition set_rule_enabled ::
  "'y ext \<Rightarrow> string \<Rightarrow> string \<Rightarrow> bool \<Rightarrow> 'y store \<Rightarrow> disk \<Rightarrow> ('y, unit) op_result" where
  "set_rule_enabled ext profile_id rule_id enabled s d =
    available s d (with_rule s d rule_id (\<lambda>r.
      if rd_profile_id r \<noteq> profile_id then refuse s d (RuleNotFound rule_id)
      else commit_staged ext s d
        (s\<lparr>st_rules := bput rule_id (r\<lparr>rd_enabled := enabled\<rparr>) (st_rules s)\<rparr>) ()))"

fun reorder ::
  "string \<Rightarrow> nat \<Rightarrow> string list \<Rightarrow> (string \<times> rule_document) list \<Rightarrow>
   (string \<times> rule_document) list presult" where
  "reorder profile_id i [] m = Inr m"
| "reorder profile_id i (rule_id # rest) m =
    (case map_of m rule_id of
       None \<Rightarrow> Inl (RuleNotFound rule_id)
     | Some r \<Rightarrow>
         if rd_profile_id r \<noteq> profile_id then Inl (RuleNotFound rule_id)
         else reorder profile_id (i + 1) rest (bput rule_id (r\<lparr>rd_order := as_u32 i\<rparr>) m))"

definition reorder_rules :: "'y ext \<Rightarrow> string \<Rightarrow> string list \<Rightarrow> 'y store \<Rightarrow> disk \<Rightarrow> ('y, unit) op_result" where
  "reorder_rules ext profile_id ordered_rule_ids s d =
    available s d
    (case reorder profile_id 0 ordered_rule_ids (st_rules s) of
       Inl e \<Rightarrow> refuse s d e
     | Inr m \<Rightarrow> commit_staged ext s d (s\<lparr>st_rules := m\<rparr>) ())"

definition delete_rule :: "'y ext \<Rightarrow> string \<Rightarrow> 'y store \<Rightarrow> disk \<Rightarrow> ('y, unit) op_result" where
  "delete_rule ext rule_id s d =
    available s d (with_rule s d rule_id (\<lambda>_.
      commit_staged ext s d (s\<lparr>st_rules := bdel rule_id (st_rules s)\<rparr>) ()))"

subsection \<open>Staging a manual rule\<close>

text \<open>The rules of the profile with the same selector, first in order first.\<close>

definition matching_rules ::
  "net \<Rightarrow> string \<Rightarrow> manual_rule_match_kind \<times> string \<Rightarrow> 'y store \<Rightarrow> rule_document list" where
  "matching_rules net profile_id sel s =
    sort_key rd_order (filter (\<lambda>r. manual_rule_selector net (rd_line r) = Some sel) (rules_of profile_id s))"

definition mutation_kind ::
  "rule_document \<Rightarrow> string \<Rightarrow> nat \<Rightarrow> manual_rule_mutation_kind" where
  "mutation_kind existing text matches =
    (let reordered = rd_order existing \<noteq> 0 \<or> matches > 1 in
     if str_trim (rd_line existing) \<noteq> text then Updated
     else if \<not> rd_enabled existing then Reenabled
     else if reordered then Updated
     else Unchanged)"

text \<open>The rule is written in place of the first match, or new; the other matches are removed.\<close>

definition place_rule ::
  "clock \<Rightarrow> string \<Rightarrow> string \<Rightarrow> rule_document list \<Rightarrow> (string \<times> rule_document) list \<Rightarrow>
   string \<times> manual_rule_mutation_kind \<times> string option \<times> (string \<times> rule_document) list" where
  "place_rule ck profile_id text matching m =
    (case matching of
       existing # _ \<Rightarrow>
         (rd_id existing, mutation_kind existing text (length matching),
          if str_trim (rd_line existing) \<noteq> text then Some (rd_line existing) else None,
          bput (rd_id existing)
            (existing\<lparr>rd_line := text, rd_enabled := True, rd_source := MANUAL_ACTIVITY_RULE_SOURCE\<rparr>) m)
     | [] \<Rightarrow>
         let i = next_id ''rule'' ck 0 0 in
         (i, Added, None,
          bput i \<lparr>rd_id = i, rd_profile_id = profile_id, rd_line = text, rd_enabled = True, rd_order = 0,
            rd_source = MANUAL_ACTIVITY_RULE_SOURCE\<rparr> m))"

definition set_order :: "string \<Rightarrow> nat \<Rightarrow> (string \<times> rule_document) list \<Rightarrow> (string \<times> rule_document) list" where
  "set_order i n m = (case map_of m i of None \<Rightarrow> m | Some r \<Rightarrow> bput i (r\<lparr>rd_order := n\<rparr>) m)"

fun renumber :: "nat \<Rightarrow> string list \<Rightarrow> (string \<times> rule_document) list \<Rightarrow> (string \<times> rule_document) list" where
  "renumber i [] m = m"
| "renumber i (r # rs) m = renumber (i + 1) rs (set_order r (as_u32 (i + 1)) m)"

definition order_first ::
  "string \<Rightarrow> string \<Rightarrow> (string \<times> rule_document) list \<Rightarrow> (string \<times> rule_document) list" where
  "order_first profile_id rule_id m =
    (let ordered = sort_key (\<lambda>r. (rd_order r, rd_id r))
           (filter (\<lambda>r. rd_profile_id r = profile_id \<and> rd_id r \<noteq> rule_id) (map snd m)) in
     renumber 0 (map rd_id ordered) (set_order rule_id 0 m))"

definition stage_manual_rule ::
  "net \<Rightarrow> clock \<Rightarrow> string \<Rightarrow> manual_rule_spec \<Rightarrow> 'y store \<Rightarrow> 'y store \<times> manual_rule_mutation presult" where
  "stage_manual_rule net ck profile_id spec s =
    (case profile profile_id s of Inl e \<Rightarrow> (s, Inl e) | Inr _ \<Rightarrow>
    (case normalize_manual_rule_spec net spec of Inl e \<Rightarrow> (s, Inl e) | Inr normalized \<Rightarrow>
     (let text = rule_line normalized;
          matching = matching_rules net profile_id (rule_selector normalized) s;
          (rule_id, kind, replaced_line, m) = place_rule ck profile_id text matching (st_rules s);
          duplicate_ids = map rd_id (drop 1 matching);
          m = fold bdel duplicate_ids m in
      (s\<lparr>st_rules := order_first profile_id rule_id m\<rparr>,
       Inr \<lparr>mrm_rule_id = rule_id, mrm_line = text, mrm_kind = kind, mrm_replaced_line = replaced_line,
            mrm_removed_duplicates = length duplicate_ids\<rparr>))))"

subsection \<open>The rules a profile lists\<close>

definition keyed :: "(string \<times> rule_document) list \<Rightarrow> bool" where
  "keyed m \<longleftrightarrow> bmap_ok m \<and> (\<forall>(i, r) \<in> set m. rd_id r = i)"

lemma store_ok_keyed: "store_ok s f \<Longrightarrow> keyed (st_rules s)"
  by (auto simp: store_ok_def keyed_def rule_ok_def)

lemma distinct_mapI: "distinct (map f xs) \<Longrightarrow> distinct xs"
  by (simp add: distinct_map)

lemma keyed_ids: "keyed m \<Longrightarrow> map rd_id (map snd m) = map fst m"
  by (auto simp: keyed_def)

lemma keyed_distinct: "keyed m \<Longrightarrow> distinct (map rd_id (map snd m))"
  unfolding keyed_ids by (simp add: keyed_def bmap_ok_distinct)

lemma keyed_docs: "keyed m \<Longrightarrow> r \<in> set (map snd m) \<longleftrightarrow> map_of m (rd_id r) = Some r"
proof -
  assume k: "keyed m"
  have "r \<in> set (map snd m) \<longleftrightarrow> (rd_id r, r) \<in> set m"
  proof
    assume "r \<in> set (map snd m)"
    then obtain i where "(i, r) \<in> set m" by auto
    then show "(rd_id r, r) \<in> set m" using k by (auto simp: keyed_def)
  qed (metis imageI list.set_map snd_conv)
  then show ?thesis using k bmap_in_map_of [of m] by (simp add: keyed_def)
qed

lemma keyed_lookup: "keyed m \<Longrightarrow> map_of m i = Some r \<Longrightarrow> rd_id r = i"
  by (auto simp: keyed_def dest!: map_of_SomeD)

lemma keyed_bput: "keyed m \<Longrightarrow> rd_id r = i \<Longrightarrow> keyed (bput i r m)"
  using set_bput [of i r m] by (auto simp: keyed_def bmap_ok_put)

lemma keyed_bdel: "keyed m \<Longrightarrow> keyed (bdel i m)"
  by (auto simp: keyed_def bmap_ok_del bdel_def bmap_ok_filter)

lemma keyed_set_order: "keyed m \<Longrightarrow> keyed (set_order i n m)"
  using keyed_lookup by (auto simp: set_order_def keyed_bput split: option.splits)

lemma keyed_renumber: "keyed m \<Longrightarrow> keyed (renumber i rs m)"
  by (induction rs arbitrary: i m) (simp_all add: keyed_set_order)

text \<open>A list with the profile's rules in ascending order is what sorting gives.\<close>

lemma sorted_listing:
  assumes "keyed m" "distinct (map rd_id ys)" "sorted_wrt (<) (map rd_order ys)"
    and "\<And>r. r \<in> set ys \<longleftrightarrow> map_of m (rd_id r) = Some r \<and> rd_profile_id r = profile_id"
  shows "sort_key rd_order (filter (\<lambda>r. rd_profile_id r = profile_id) (map snd m)) = ys"
proof (rule sort_key_inj_key_eq)
  let ?xs = "filter (\<lambda>r. rd_profile_id r = profile_id) (map snd m)"
  have set: "set ?xs = set ys" using assms(4) keyed_docs [OF assms(1)] by (auto simp del: set_map)
  have "distinct (map snd m)" using keyed_distinct [OF assms(1)] by (rule distinct_mapI)
  then have "distinct ?xs" by simp
  moreover have "distinct ys" using assms(2) by (rule distinct_mapI)
  ultimately show "mset ?xs = mset ys" using set set_eq_iff_mset_eq_distinct by blast
  have "distinct (map rd_order ys)" "sorted (map rd_order ys)"
    using assms(3) by (simp_all add: strict_sorted_iff)
  then show "inj_on rd_order (set ?xs)" "sorted (map rd_order ys)"
    unfolding set by (simp_all add: distinct_map)
qed

subsection \<open>Renumbering\<close>

lemma map_of_set_order:
  "map_of (set_order i n m) = (map_of m)(i := map_option (rd_order_update (\<lambda>_. n)) (map_of m i))"
  by (auto simp: set_order_def fun_eq_iff split: option.splits)

definition numbered :: "nat \<Rightarrow> rule_document list \<Rightarrow> rule_document list" where
  "numbered i rs = map (\<lambda>(n, r). r\<lparr>rd_order := as_u32 (n + 1)\<rparr>) (enumerate i rs)"

lemma numbered_simps [simp]:
  "numbered i [] = []" "numbered i (r # rs) = r\<lparr>rd_order := as_u32 (i + 1)\<rparr> # numbered (Suc i) rs"
  by (simp_all add: numbered_def)

lemma numbered_ids [simp]: "map rd_id (numbered i rs) = map rd_id rs"
  by (induction rs arbitrary: i) simp_all

lemma numbered_id_set: "rd_id ` set (numbered i rs) = rd_id ` set rs"
  by (induction rs arbitrary: i) simp_all

lemma map_of_renumber:
  "distinct (map rd_id rs) \<Longrightarrow> (\<And>r. r \<in> set rs \<Longrightarrow> map_of m (rd_id r) = Some r) \<Longrightarrow>
   map_of (renumber i (map rd_id rs) m) = map_of m ++ map_of (map (\<lambda>r. (rd_id r, r)) (numbered i rs))"
proof (induction rs arbitrary: i m)
  case (Cons r rs)
  let ?m = "set_order (rd_id r) (as_u32 (i + 1)) m"
  have same: "map_of ?m (rd_id q) = Some q" if "q \<in> set rs" for q
  proof -
    have "rd_id q \<noteq> rd_id r" using Cons.prems(1) that by (metis distinct.simps(2) image_eqI list.map(2) set_map)
    then show ?thesis using Cons.prems(2) that by (simp add: map_of_set_order)
  qed
  have "map_of (renumber i (map rd_id (r # rs)) m)
      = map_of ?m ++ map_of (map (\<lambda>r. (rd_id r, r)) (numbered (Suc i) rs))"
    using Cons.IH [of ?m "i + 1"] Cons.prems(1) same by simp
  also have "map_of ?m = (map_of m)(rd_id r \<mapsto> r\<lparr>rd_order := as_u32 (i + 1)\<rparr>)"
    using Cons.prems(2) [of r] by (simp add: map_of_set_order)
  also have "\<dots> ++ map_of (map (\<lambda>r. (rd_id r, r)) (numbered (Suc i) rs))
      = map_of m ++ map_of (map (\<lambda>r. (rd_id r, r)) (numbered i (r # rs)))"
  proof -
    have "fst ` set (map (\<lambda>r. (rd_id r, r)) (numbered (Suc i) rs)) = rd_id ` set (numbered (Suc i) rs)"
      by (simp add: image_image)
    also have "\<dots> = rd_id ` set rs" by (rule numbered_id_set)
    finally have "rd_id r \<notin> dom (map_of (map (\<lambda>r. (rd_id r, r)) (numbered (Suc i) rs)))"
      using Cons.prems(1) by (simp add: dom_map_of_conv_image_fst)
    then show ?thesis by (auto simp: fun_eq_iff map_add_def split: option.splits)
  qed
  finally show ?case .
qed simp

lemma numbered_orders:
  "i + length rs < 2 ^ 32 \<Longrightarrow> map rd_order (numbered i rs) = [i + 1 ..< i + 1 + length rs]"
proof (induction rs arbitrary: i)
  case (Cons r rs)
  then have "map rd_order (numbered (Suc i) rs) = [Suc i + 1 ..< Suc i + 1 + length rs]"
    by (intro Cons.IH) simp
  moreover have "as_u32 (i + 1) = i + 1" using Cons.prems by (simp add: as_u32_def)
  ultimately show ?case by (simp add: upt_conv_Cons del: upt_Suc)
qed simp

lemma numbered_strict:
  "i + length rs < 2 ^ 32 \<Longrightarrow> sorted_wrt (<) (map rd_order (numbered i rs))"
  by (simp only: numbered_orders sorted_wrt_upt)

lemma numbered_length [simp]: "length (numbered i rs) = length rs"
  by (simp add: numbered_def)

lemma numbered_positive:
  assumes "i + length rs < 2 ^ 32" "r \<in> set (numbered i rs)"
  shows "0 < rd_order r"
proof -
  have "rd_order r \<in> set (map rd_order (numbered i rs))" using assms(2) by simp
  then show ?thesis unfolding numbered_orders [OF assms(1)] by auto
qed

lemma numbered_profile:
  "r \<in> set (numbered i rs) \<Longrightarrow> \<forall>q \<in> set rs. rd_profile_id q = p \<Longrightarrow> rd_profile_id r = p"
  by (induction rs arbitrary: i) auto

text \<open>\<open>order_first\<close>: the chosen rule first, the others after it in the order they had.\<close>

definition others_in_order :: "string \<Rightarrow> string \<Rightarrow> (string \<times> rule_document) list \<Rightarrow> rule_document list" where
  "others_in_order profile_id rule_id m = sort_key (\<lambda>r. (rd_order r, rd_id r))
     (filter (\<lambda>r. rd_profile_id r = profile_id \<and> rd_id r \<noteq> rule_id) (map snd m))"

lemma map_of_order_first:
  assumes "keyed m" "map_of m i = Some r"
  shows "map_of (order_first p i m) = (map_of m)(i \<mapsto> r\<lparr>rd_order := 0\<rparr>) ++
    map_of (map (\<lambda>r. (rd_id r, r)) (numbered 0 (others_in_order p i m)))"
proof -
  let ?os = "others_in_order p i m"
  let ?m = "set_order i 0 m"
  have m: "map_of ?m = (map_of m)(i \<mapsto> r\<lparr>rd_order := 0\<rparr>)" using assms(2) by (simp add: map_of_set_order)
  have "distinct (map rd_id (filter (\<lambda>r. rd_profile_id r = p \<and> rd_id r \<noteq> i) (map snd m)))"
    using keyed_distinct [OF assms(1)] by (rule distinct_map_filter)
  then have "distinct (map rd_id ?os)" by (simp add: others_in_order_def distinct_map)
  moreover have "map_of ?m (rd_id q) = Some q" if "q \<in> set ?os" for q
    using that keyed_docs [OF assms(1)] by (auto simp: m others_in_order_def simp del: set_map)
  ultimately have "map_of (renumber 0 (map rd_id ?os) ?m)
      = map_of ?m ++ map_of (map (\<lambda>r. (rd_id r, r)) (numbered 0 ?os))"
    by (rule map_of_renumber)
  then show ?thesis by (simp add: order_first_def others_in_order_def Let_def m)
qed

lemma keyed_order_first: "keyed m \<Longrightarrow> keyed (order_first p i m)"
  by (simp add: order_first_def Let_def keyed_renumber keyed_set_order)

lemma map_of_docs:
  "distinct (map rd_id rs) \<Longrightarrow> map_of (map (\<lambda>r. (rd_id r, r)) rs) k = Some r \<longleftrightarrow> r \<in> set rs \<and> rd_id r = k"
  by (induction rs) (auto simp: image_iff)

lemma map_of_docs_None:
  "map_of (map (\<lambda>r. (rd_id r, r)) rs) k = None \<longleftrightarrow> k \<notin> rd_id ` set rs"
  by (auto simp: map_of_eq_None_iff image_image)

lemma order_first_listing:
  assumes k: "keyed m" and r: "map_of m i = Some r" "rd_profile_id r = p" and len: "length m < 2 ^ 32"
  shows "sort_key rd_order (filter (\<lambda>r. rd_profile_id r = p) (map snd (order_first p i m)))
    = r\<lparr>rd_order := 0\<rparr> # numbered 0 (others_in_order p i m)"
proof (rule sorted_listing)
  let ?os = "others_in_order p i m"
  show "keyed (order_first p i m)" using k by (rule keyed_order_first)
  have id: "rd_id r = i" using keyed_lookup [OF k r(1)] .
  have set_os: "set ?os = {q \<in> set (map snd m). rd_profile_id q = p \<and> rd_id q \<noteq> i}"
    by (simp add: others_in_order_def)
  have "distinct (map rd_id (filter (\<lambda>r. rd_profile_id r = p \<and> rd_id r \<noteq> i) (map snd m)))"
    using keyed_distinct [OF k] by (rule distinct_map_filter)
  then have dos: "distinct (map rd_id ?os)" by (simp add: others_in_order_def distinct_map)
  have nid: "rd_id ` set (numbered 0 ?os) = rd_id ` set ?os" by (rule numbered_id_set)
  have not: "i \<notin> rd_id ` set ?os" by (auto simp: set_os)
  show dys: "distinct (map rd_id (r\<lparr>rd_order := 0\<rparr> # numbered 0 ?os))"
    using dos not id nid by simp
  have "length ?os \<le> length m" by (simp add: others_in_order_def)
  then have l: "0 + length ?os < 2 ^ 32" using len by simp
  show "sorted_wrt (<) (map rd_order (r\<lparr>rd_order := 0\<rparr> # numbered 0 ?os))"
    using numbered_strict [OF l] numbered_positive [OF l] by simp
  fix q
  have dn: "distinct (map rd_id (numbered 0 ?os))" using dos by simp
  show "q \<in> set (r\<lparr>rd_order := 0\<rparr> # numbered 0 ?os) \<longleftrightarrow>
      map_of (order_first p i m) (rd_id q) = Some q \<and> rd_profile_id q = p"
  proof (cases "rd_id q \<in> rd_id ` set ?os")
    case True
    then have "map_of (order_first p i m) (rd_id q) = Some q \<longleftrightarrow> q \<in> set (numbered 0 ?os)"
    proof -
      let ?d = "map_of (map (\<lambda>r. (rd_id r, r)) (numbered 0 ?os))"
      have "rd_id q \<in> rd_id ` set (numbered 0 ?os)" using True by (simp only: nid)
      then have "?d (rd_id q) \<noteq> None" using map_of_docs_None by blast
      then have "map_of (order_first p i m) (rd_id q) = ?d (rd_id q)"
        by (auto simp: map_of_order_first [OF k r(1)])
      then show ?thesis using map_of_docs [OF dn] by simp
    qed
    moreover have "q \<noteq> r\<lparr>rd_order := 0\<rparr>" using True not id by auto
    moreover have "\<forall>q \<in> set ?os. rd_profile_id q = p" by (simp add: set_os)
    ultimately show ?thesis using numbered_profile by auto
  next
    case False
    then have n: "q \<notin> set (numbered 0 ?os)" using nid by blast
    have eq: "map_of (order_first p i m) (rd_id q) = ((map_of m)(i \<mapsto> r\<lparr>rd_order := 0\<rparr>)) (rd_id q)"
      using False map_of_docs_None [of "numbered 0 ?os" "rd_id q"] nid
      by (simp add: map_of_order_first [OF k r(1)] map_add_def)
    have "\<not> (map_of m (rd_id q) = Some q \<and> rd_profile_id q = p \<and> rd_id q \<noteq> i)"
      using False keyed_docs [OF k, of q] by (auto simp: set_os)
    then show ?thesis using n eq id r(2) by auto
  qed
qed

subsection \<open>What staging a manual rule does\<close>

text \<open>On a map in the order of its ids, the stable sort by order is the sort by order and id.\<close>

lemma insort_pair_sorted:
  "sorted (map (\<lambda>r. (rd_order r, rd_id r)) ys) \<Longrightarrow> \<forall>y \<in> set ys. rd_id x < rd_id y \<Longrightarrow>
     sorted (map (\<lambda>r. (rd_order r, rd_id r)) (insort_key rd_order x ys))"
  by (induction ys) (auto simp: set_insort_key less_eq_prod_simp)

lemma sort_order_id:
  assumes "sorted_wrt (<) (map rd_id xs)"
  shows "sort_key (\<lambda>r. (rd_order r, rd_id r)) xs = sort_key rd_order xs"
proof (rule sort_key_inj_key_eq)
  show "mset xs = mset (sort_key rd_order xs)" by simp
  show "inj_on (\<lambda>r. (rd_order r, rd_id r)) (set xs)"
  proof (rule inj_onI)
    fix x y
    assume "x \<in> set xs" "y \<in> set xs" "(rd_order x, rd_id x) = (rd_order y, rd_id y)"
    moreover have "inj_on rd_id (set xs)" using assms by (simp add: strict_sorted_iff distinct_map)
    ultimately show "x = y" by (auto dest: inj_onD)
  qed
  show "sorted (map (\<lambda>r. (rd_order r, rd_id r)) (sort_key rd_order xs))"
    using assms by (induction xs) (auto intro: insort_pair_sorted)
qed

lemma keyed_filter_ids:
  assumes "keyed m"
  shows "sorted_wrt (<) (map rd_id (filter P (map snd m)))"
proof -
  have "sorted_wrt (<) (map rd_id (map snd m))"
    unfolding keyed_ids [OF assms] using assms by (simp add: keyed_def bmap_ok_def)
  then have "sorted_wrt (\<lambda>x y. rd_id x < rd_id y) (map snd m)" by (simp only: sorted_wrt_map)
  then have "sorted_wrt (\<lambda>x y. rd_id x < rd_id y) (filter P (map snd m))" by (rule sorted_wrt_filter)
  then show ?thesis by (simp only: sorted_wrt_map)
qed

text \<open>Two keyed maps agree on a set of rules when they look the same there.\<close>

lemma keyed_listing_eq:
  assumes "keyed m" "keyed m'" "\<And>r. P r \<and> map_of m (rd_id r) = Some r \<longleftrightarrow> Q r \<and> map_of m' (rd_id r) = Some r"
  shows "filter P (map snd m) = filter Q (map snd m')"
proof -
  have "set (filter P (map snd m)) = set (filter Q (map snd m'))"
    using assms(3) keyed_docs [OF assms(1)] keyed_docs [OF assms(2)] by (auto simp del: set_map)
  then have ids: "map rd_id (filter P (map snd m)) = map rd_id (filter Q (map snd m'))"
    using keyed_filter_ids [OF assms(1)] keyed_filter_ids [OF assms(2)]
    by (intro strict_sorted_equal) (simp_all only: set_map)
  have "inj_on rd_id (set (filter P (map snd m)) \<union> set (filter Q (map snd m')))"
    using \<open>set (filter P (map snd m)) = _\<close> keyed_filter_ids [OF assms(1), of P]
    by (simp only: strict_sorted_iff distinct_map Un_absorb)
  then show ?thesis using ids by (simp only: inj_on_map_eq_map)
qed

lemma map_of_fold_bdel: "map_of (fold bdel ks m) k = (if k \<in> set ks then None else map_of m k)"
  by (induction ks arbitrary: m) auto

lemma keyed_fold_bdel: "keyed m \<Longrightarrow> keyed (fold bdel ks m)"
  by (induction ks arbitrary: m) (simp_all add: keyed_bdel)

text \<open>Order and position apart, a rule.\<close>

definition contents :: "rule_document list \<Rightarrow> rule_document list" where
  "contents rs = map (\<lambda>r. r\<lparr>rd_order := 0\<rparr>) rs"

lemma contents_numbered [simp]: "contents (numbered i rs) = contents rs"
  by (induction rs arbitrary: i) (simp_all add: contents_def)

lemma contents_append: "contents (r # rs) = r\<lparr>rd_order := 0\<rparr> # contents rs"
  by (simp add: contents_def)

lemma length_bput: "length (bput k v m) \<le> length m + 1"
  by (induction m) auto

lemma length_fold_bdel: "length (fold bdel ks m) \<le> length m"
proof (induction ks arbitrary: m)
  case (Cons k ks)
  have "length (bdel k m) \<le> length m" by (simp add: bdel_def)
  then show ?case using Cons.IH [of "bdel k m"] by simp
qed simp

definition selects :: "net \<Rightarrow> manual_rule_match_kind \<times> string \<Rightarrow> rule_document \<Rightarrow> bool" where
  "selects net sel r \<longleftrightarrow> manual_rule_selector net (rd_line r) = Some sel"

lemma matching_set:
  "set (matching_rules net p sel s) = {r \<in> set (map snd (st_rules s)). rd_profile_id r = p \<and> selects net sel r}"
  by (auto simp: matching_rules_def rules_of_def selects_def)

lemma matching_ids_distinct:
  "keyed (st_rules s) \<Longrightarrow> distinct (map rd_id (matching_rules net p sel s))"
proof -
  assume k: "keyed (st_rules s)"
  have "sorted_wrt (<) (map rd_id (filter (\<lambda>r. manual_rule_selector net (rd_line r) = Some sel
      \<and> rd_profile_id r = p) (map snd (st_rules s))))"
    by (rule keyed_filter_ids [OF k])
  then have "distinct (map rd_id (filter (\<lambda>r. manual_rule_selector net (rd_line r) = Some sel
      \<and> rd_profile_id r = p) (map snd (st_rules s))))"
    by (simp only: strict_sorted_iff)
  then show ?thesis by (simp add: matching_rules_def rules_of_def distinct_map conj_commute)
qed

text \<open>The map between placing the rule and renumbering.\<close>

definition placed :: "net \<Rightarrow> clock \<Rightarrow> string \<Rightarrow> string \<Rightarrow> manual_rule_match_kind \<times> string \<Rightarrow> 'y store \<Rightarrow>
    string \<times> (string \<times> rule_document) list" where
  "placed net ck p text sel s =
    (let matching = matching_rules net p sel s;
         (i, _, _, m) = place_rule ck p text matching (st_rules s) in
     (i, fold bdel (map rd_id (drop 1 matching)) m))"

lemma placed_spec:
  assumes "keyed (st_rules s)" "placed net ck p text sel s = (i, m)"
    and "matching_rules net p sel s = [] \<Longrightarrow> map_of (st_rules s) (next_id ''rule'' ck 0 0) = None"
  obtains r where "keyed m" "map_of m i = Some r" "rd_profile_id r = p" "rd_line r = text" "rd_enabled r"
    "rd_source r = MANUAL_ACTIVITY_RULE_SOURCE" "length m \<le> length (st_rules s) + 1"
    "\<And>k q. k \<noteq> i \<Longrightarrow> map_of m k = Some q \<longleftrightarrow>
       map_of (st_rules s) k = Some q \<and> \<not> (rd_profile_id q = p \<and> selects net sel q)"
    "\<And>q. map_of (st_rules s) i = Some q \<Longrightarrow> rd_profile_id q = p \<and> selects net sel q"
proof (cases "matching_rules net p sel s")
  case Nil
  let ?r = "\<lparr>rd_id = i, rd_profile_id = p, rd_line = text, rd_enabled = True, rd_order = 0,
    rd_source = MANUAL_ACTIVITY_RULE_SOURCE\<rparr>"
  have i: "i = next_id ''rule'' ck 0 0" and m: "m = bput i ?r (st_rules s)"
    using assms(2) Nil by (auto simp: placed_def place_rule_def Let_def)
  have new: "map_of (st_rules s) i = None" using assms(3) Nil i by simp
  have none: "\<not> (rd_profile_id q = p \<and> selects net sel q)" if "map_of (st_rules s) k = Some q" for k q
  proof -
    have "map_of (st_rules s) (rd_id q) = Some q" using that keyed_lookup [OF assms(1) that] by simp
    then have "q \<in> set (map snd (st_rules s))" using keyed_docs [OF assms(1)] by blast
    then show ?thesis using Nil matching_set [of net p sel s] by auto
  qed
  show ?thesis
  proof (rule that [of ?r])
    show "keyed m" using assms(1) by (simp add: m keyed_bput)
    show "length m \<le> length (st_rules s) + 1" using length_bput by (simp add: m)
    show "map_of m k = Some q \<longleftrightarrow> map_of (st_rules s) k = Some q \<and> \<not> (rd_profile_id q = p \<and> selects net sel q)"
      if "k \<noteq> i" for k q using that none by (auto simp: m)
  qed (simp_all add: m new)
next
  case (Cons e es)
  let ?r = "e\<lparr>rd_line := text, rd_enabled := True, rd_source := MANUAL_ACTIVITY_RULE_SOURCE\<rparr>"
  have i: "i = rd_id e" and m: "m = fold bdel (map rd_id es) (bput i ?r (st_rules s))"
    using assms(2) Cons by (auto simp: placed_def place_rule_def Let_def)
  have dist: "distinct (map rd_id (e # es))" using matching_ids_distinct [OF assms(1), of net p sel] Cons by simp
  have in_set: "q \<in> set (e # es) \<longleftrightarrow> map_of (st_rules s) (rd_id q) = Some q \<and> rd_profile_id q = p \<and> selects net sel q" for q
    using matching_set [of net p sel s] Cons keyed_docs [OF assms(1), of q] by (auto simp del: set_map)
  have e: "map_of (st_rules s) i = Some e" "rd_profile_id e = p" "selects net sel e"
    using in_set [of e] by (simp_all add: i)
  have ni: "i \<notin> set (map rd_id es)" using dist i by simp
  have look: "map_of m k = (if k \<in> set (map rd_id es) then None else if k = i then Some ?r else map_of (st_rules s) k)" for k
    by (simp add: m map_of_fold_bdel)
  show ?thesis
  proof (rule that [of ?r])
    show "keyed m" using assms(1) by (simp add: m i keyed_bput keyed_fold_bdel)
    show "length m \<le> length (st_rules s) + 1"
      using length_bput [of i ?r "st_rules s"] length_fold_bdel [of "map rd_id es" "bput i ?r (st_rules s)"]
      by (simp add: m)
    show "map_of m k = Some q \<longleftrightarrow> map_of (st_rules s) k = Some q \<and> \<not> (rd_profile_id q = p \<and> selects net sel q)"
      if "k \<noteq> i" for k q
    proof (cases "map_of (st_rules s) k = Some q")
      case True
      have q: "rd_id q = k" by (rule keyed_lookup [OF assms(1) True])
      have "k \<in> set (map rd_id es) \<longleftrightarrow> rd_profile_id q = p \<and> selects net sel q"
      proof
        assume "k \<in> set (map rd_id es)"
        then obtain x where x: "x \<in> set es" "rd_id x = k" by auto
        then have "map_of (st_rules s) k = Some x" "rd_profile_id x = p" "selects net sel x"
          using in_set [of x] by auto
        then show "rd_profile_id q = p \<and> selects net sel q" using True by simp
      next
        assume "rd_profile_id q = p \<and> selects net sel q"
        then have "q \<in> set (e # es)" using in_set [of q] True q by simp
        then show "k \<in> set (map rd_id es)" using that q i by auto
      qed
      then show ?thesis using True that by (simp add: look)
    next
      case False
      then show ?thesis using that by (simp add: look)
    qed
    show "rd_profile_id q = p \<and> selects net sel q" if "map_of (st_rules s) i = Some q" for q
      using that e by simp
  qed (use ni e look in simp_all)
qed

lemma stage_manual_rule_Inr:
  assumes "stage_manual_rule net ck p spec s = (s', Inr mu)"
  obtains rule i m where "normalize_manual_rule_spec net spec = Inr rule"
    "placed net ck p (rule_line rule) (rule_selector rule) s = (i, m)"
    "s' = s\<lparr>st_rules := order_first p i m\<rparr>" "mrm_rule_id mu = i" "mrm_line mu = rule_line rule"
    "ensure_available s = Inr ()" "map_of (st_profiles s) p \<noteq> None"
proof -
  have pr: "ensure_available s = Inr () \<and> map_of (st_profiles s) p \<noteq> None"
    using assms by (auto simp: stage_manual_rule_def profile_def split: sum.splits option.splits)
  obtain rule where rule: "normalize_manual_rule_spec net spec = Inr rule"
    using assms by (auto simp: stage_manual_rule_def split: sum.splits)
  let ?ms = "matching_rules net p (rule_selector rule) s"
  obtain i k l m where pl: "place_rule ck p (rule_line rule) ?ms (st_rules s) = (i, k, l, m)"
    by (metis prod_cases4)
  obtain q where q: "map_of (st_profiles s) p = Some q" using pr by blast
  have run: "stage_manual_rule net ck p spec s =
      (s\<lparr>st_rules := order_first p i (fold bdel (map rd_id (drop 1 ?ms)) m)\<rparr>,
       Inr \<lparr>mrm_rule_id = i, mrm_line = rule_line rule, mrm_kind = k, mrm_replaced_line = l,
            mrm_removed_duplicates = length (map rd_id (drop 1 ?ms))\<rparr>)"
    using pr q rule pl by (simp add: stage_manual_rule_def profile_def Let_def)
  have "placed net ck p (rule_line rule) (rule_selector rule) s = (i, fold bdel (map rd_id (drop 1 ?ms)) m)"
    using pl by (simp add: placed_def Let_def)
  then show ?thesis using that rule pr assms unfolding run by auto
qed

text \<open>
  What the profile's rules are after staging: the new rule first, then the old ones without those of
  the same selector, in the order they had.
\<close>

lemma stage_manual_rule_order:
  assumes k: "keyed (st_rules s)" and len: "length (st_rules s) + 1 < 2 ^ 32"
    and stage: "stage_manual_rule net ck p spec s = (s', Inr mu)"
      "normalize_manual_rule_spec net spec = Inr rule"
    and fresh: "matching_rules net p (rule_selector rule) s = [] \<Longrightarrow>
      map_of (st_rules s) (next_id ''rule'' ck 0 0) = None"
  obtains r where "sorted_rules_of p s' =
      r # numbered 0 (filter (\<lambda>q. \<not> selects net (rule_selector rule) q) (sorted_rules_of p s))"
    "rd_id r = mrm_rule_id mu" "rd_line r = mrm_line mu" "mrm_line mu = rule_line rule" "rd_enabled r"
    "rd_order r = 0" "keyed (st_rules s')"
    "\<And>q. q \<noteq> p \<Longrightarrow> rules_of q s' = rules_of q s"
proof -
  obtain i m where pl: "placed net ck p (rule_line rule) (rule_selector rule) s = (i, m)"
    and s': "s' = s\<lparr>st_rules := order_first p i m\<rparr>" and mu: "mrm_rule_id mu = i" "mrm_line mu = rule_line rule"
    using stage_manual_rule_Inr [OF stage(1)] stage(2) by (metis sum.inject(2))
  let ?sel = "rule_selector rule"
  obtain r where km: "keyed m" and r: "map_of m i = Some r" "rd_profile_id r = p" "rd_line r = rule_line rule"
      "rd_enabled r" and lm: "length m \<le> length (st_rules s) + 1"
    and other: "\<And>k q. k \<noteq> i \<Longrightarrow> map_of m k = Some q \<longleftrightarrow>
       map_of (st_rules s) k = Some q \<and> \<not> (rd_profile_id q = p \<and> selects net ?sel q)"
    and old: "\<And>q. map_of (st_rules s) i = Some q \<Longrightarrow> rd_profile_id q = p \<and> selects net ?sel q"
    using placed_spec [OF k pl fresh] by metis
  have id: "rd_id r = i" by (rule keyed_lookup [OF km r(1)])
  have "filter (\<lambda>q. rd_profile_id q = p \<and> rd_id q \<noteq> i) (map snd m)
      = filter (\<lambda>q. rd_profile_id q = p \<and> \<not> selects net ?sel q) (map snd (st_rules s))"
  proof (rule keyed_listing_eq [OF km k])
    fix x
    show "(rd_profile_id x = p \<and> rd_id x \<noteq> i) \<and> map_of m (rd_id x) = Some x \<longleftrightarrow>
        (rd_profile_id x = p \<and> \<not> selects net ?sel x) \<and> map_of (st_rules s) (rd_id x) = Some x"
      using other [of "rd_id x" x] old [of x] by (cases "rd_id x = i") auto
  qed
  also have "\<dots> = filter (\<lambda>q. \<not> selects net ?sel q) (rules_of p s)"
    by (simp add: rules_of_def conj_commute)
  finally have "others_in_order p i m
      = sort_key (\<lambda>q. (rd_order q, rd_id q)) (filter (\<lambda>q. \<not> selects net ?sel q) (rules_of p s))"
    by (simp only: others_in_order_def)
  also have "\<dots> = sort_key rd_order (filter (\<lambda>q. \<not> selects net ?sel q) (rules_of p s))"
    using keyed_filter_ids [OF k, of "\<lambda>q. \<not> selects net ?sel q \<and> rd_profile_id q = p"]
    by (intro sort_order_id) (simp add: rules_of_def conj_commute)
  finally have os: "others_in_order p i m = filter (\<lambda>q. \<not> selects net ?sel q) (sorted_rules_of p s)"
    by (simp add: sorted_rules_of_def filter_sort)
  have "sorted_rules_of p s' = r\<lparr>rd_order := 0\<rparr> # numbered 0 (others_in_order p i m)"
    using order_first_listing [OF km r(1,2)] lm len by (simp add: sorted_rules_of_def rules_of_def s')
  moreover have "keyed (st_rules s')" using km by (simp add: s' keyed_order_first)
  moreover have "rules_of q s' = rules_of q s" if q: "q \<noteq> p" for q
    unfolding rules_of_def s'
  proof (simp del: map_map, rule keyed_listing_eq [OF keyed_order_first [OF km] k])
    fix x :: rule_document
    have look: "map_of (order_first p i m) (rd_id x) = ((map_of m)(i \<mapsto> r\<lparr>rd_order := 0\<rparr>) ++
        map_of (map (\<lambda>r. (rd_id r, r)) (numbered 0 (others_in_order p i m)))) (rd_id x)"
      using map_of_order_first [OF km r(1)] by simp
    have inp: "rd_profile_id y = p" if "y \<in> set (numbered 0 (others_in_order p i m))" for y
      using that by (rule numbered_profile) (simp add: others_in_order_def)
    show "rd_profile_id x = q \<and> map_of (order_first p i m) (rd_id x) = Some x \<longleftrightarrow>
        rd_profile_id x = q \<and> map_of (st_rules s) (rd_id x) = Some x"
    proof (cases "map_of (map (\<lambda>r. (rd_id r, r)) (numbered 0 (others_in_order p i m))) (rd_id x)")
      case None
      then show ?thesis using look other [of "rd_id x" x] old [of x] q r(2) by (auto simp: map_add_def)
    next
      case (Some y)
      then have "y \<in> set (numbered 0 (others_in_order p i m))" by (auto dest!: map_of_SomeD)
      moreover have "rd_id x \<in> rd_id ` set (others_in_order p i m)"
        using Some map_of_docs_None numbered_id_set by (metis option.distinct(1))
      then obtain z where "z \<in> set (others_in_order p i m)" "rd_id z = rd_id x" by auto
      then have "map_of m (rd_id x) = Some z" "rd_id x \<noteq> i" "rd_profile_id z = p"
        using keyed_docs [OF km, of z] by (auto simp: others_in_order_def simp del: set_map)
      then have "map_of (st_rules s) (rd_id x) = Some z" using other by blast
      ultimately show ?thesis using look Some inp \<open>rd_profile_id z = p\<close> q by (auto simp: map_add_def)
    qed
  qed
  ultimately show ?thesis
    using id r(3,4) mu by (intro that [of "r\<lparr>rd_order := 0\<rparr>"]) (simp_all add: os)
qed

lemma enabled_rule_lines_sorted: "enabled_rule_lines p s = map rd_line (filter rd_enabled (sorted_rules_of p s))"
  by (simp add: enabled_rule_lines_def sorted_rules_of_def filter_sort)

lemma numbered_lines:
  "map rd_line (filter rd_enabled (numbered i rs)) = map rd_line (filter rd_enabled rs)"
  by (induction rs arbitrary: i) simp_all

subsection \<open>Reordering\<close>

lemma reorder_lookup:
  "reorder p i ids m = Inr m' \<Longrightarrow> distinct ids \<Longrightarrow> keyed m \<Longrightarrow> i + length ids \<le> 2 ^ 32 \<Longrightarrow>
     keyed m' \<and> (\<forall>k. k \<notin> set ids \<longrightarrow> map_of m' k = map_of m k) \<and>
     (\<forall>n < length ids. \<exists>r. map_of m (ids ! n) = Some r \<and> rd_profile_id r = p \<and>
        map_of m' (ids ! n) = Some (r\<lparr>rd_order := i + n\<rparr>))"
proof (induction ids arbitrary: i m)
  case (Cons j ids)
  obtain r where r: "map_of m j = Some r" "rd_profile_id r = p"
    "reorder p (i + 1) ids (bput j (r\<lparr>rd_order := as_u32 i\<rparr>) m) = Inr m'"
    using Cons.prems(1) by (auto split: option.splits if_splits)
  let ?m = "bput j (r\<lparr>rd_order := as_u32 i\<rparr>) m"
  have u: "as_u32 i = i" using Cons.prems(4) by (simp add: as_u32_def)
  have k: "keyed ?m" using Cons.prems(3) keyed_lookup [OF Cons.prems(3) r(1)] by (simp add: keyed_bput)
  have ih: "keyed m'" "\<And>k. k \<notin> set ids \<Longrightarrow> map_of m' k = map_of ?m k"
    "\<And>n. n < length ids \<Longrightarrow> \<exists>q. map_of ?m (ids ! n) = Some q \<and> rd_profile_id q = p \<and>
        map_of m' (ids ! n) = Some (q\<lparr>rd_order := i + 1 + n\<rparr>)"
    using Cons.IH [OF r(3) _ k] Cons.prems(2,4) by auto
  have step: "\<exists>q. map_of m ((j # ids) ! n) = Some q \<and> rd_profile_id q = p \<and>
      map_of m' ((j # ids) ! n) = Some (q\<lparr>rd_order := i + n\<rparr>)" if n: "n < length (j # ids)" for n
  proof (cases n)
    case 0
    then show ?thesis using r(1,2) ih(2) [of j] Cons.prems(2) u by simp
  next
    case (Suc l)
    have "ids ! l \<noteq> j" using Cons.prems(2) n Suc by (metis Suc_less_eq distinct.simps(2) length_Cons nth_mem)
    then show ?thesis using ih(3) [of l] n Suc by auto
  qed
  have "map_of m' k = map_of m k" if "k \<notin> set (j # ids)" for k
    using ih(2) [of k] that by simp
  then show ?case using ih(1) step by blast
qed simp

text \<open>Naming every rule of the profile once puts them in that order.\<close>

lemma reorder_listing:
  assumes run: "reorder p 0 ids (st_rules s) = Inr m" and k: "keyed (st_rules s)"
    and ids: "distinct ids" "length ids \<le> 2 ^ 32" "set ids = rd_id ` set (rules_of p s)"
  shows "map rd_id (sorted_rules_of p (s\<lparr>st_rules := m\<rparr>)) = ids"
proof -
  note lk = reorder_lookup [OF run ids(1) k]
  have km: "keyed m" and out: "\<And>j. j \<notin> set ids \<Longrightarrow> map_of m j = map_of (st_rules s) j"
    and at: "\<And>n. n < length ids \<Longrightarrow> \<exists>r. rd_profile_id r = p \<and> map_of m (ids ! n) = Some (r\<lparr>rd_order := n\<rparr>)"
    using lk ids(2) by fastforce+
  define ys where "ys = map (\<lambda>j. the (map_of m j)) ids"
  have nth: "rd_profile_id (ys ! n) = p \<and> rd_order (ys ! n) = n \<and> map_of m (ids ! n) = Some (ys ! n) \<and>
      rd_id (ys ! n) = ids ! n" if n: "n < length ids" for n
  proof -
    obtain r where r: "rd_profile_id r = p" "map_of m (ids ! n) = Some (r\<lparr>rd_order := n\<rparr>)" using at [OF n] by blast
    have "ys ! n = r\<lparr>rd_order := n\<rparr>" using r(2) n by (simp add: ys_def)
    moreover have "rd_id (r\<lparr>rd_order := n\<rparr>) = ids ! n" by (rule keyed_lookup [OF km r(2)])
    ultimately show ?thesis using r by simp
  qed
  have ysid: "map rd_id ys = ids" using nth by (intro nth_equalityI) (simp_all add: ys_def)
  have "map rd_order ys = [0 ..< length ids]" using nth by (intro nth_equalityI) (simp_all add: ys_def)
  then have ord: "sorted_wrt (<) (map rd_order ys)" by (simp only: sorted_wrt_upt)
  have mem: "r \<in> set ys \<longleftrightarrow> map_of m (rd_id r) = Some r \<and> rd_profile_id r = p" for r
  proof
    assume "r \<in> set ys"
    then obtain n where "n < length ids" "r = ys ! n" by (auto simp: in_set_conv_nth ys_def)
    then show "map_of m (rd_id r) = Some r \<and> rd_profile_id r = p" using nth by simp
  next
    assume a: "map_of m (rd_id r) = Some r \<and> rd_profile_id r = p"
    have "rd_id r \<in> set ids"
    proof (rule ccontr)
      assume n: "rd_id r \<notin> set ids"
      then have "r \<in> set (map snd (st_rules s))" using a out keyed_docs [OF k] by simp
      then have "r \<in> set (rules_of p s)" using a by (simp add: rules_of_def)
      then show False using n ids(3) by blast
    qed
    then obtain n where n: "n < length ids" "ids ! n = rd_id r" by (auto simp: in_set_conv_nth)
    have "map_of m (ids ! n) = Some (ys ! n)" using nth [OF n(1)] by blast
    then have "r = ys ! n" using a unfolding n(2) by simp
    then show "r \<in> set ys" using n(1) by (simp add: ys_def)
  qed
  have "sorted_rules_of p (s\<lparr>st_rules := m\<rparr>) = ys"
    using sorted_listing [OF km _ ord mem] ysid ids(1) by (simp add: sorted_rules_of_def rules_of_def)
  then show ?thesis using ysid by simp
qed

subsection \<open>Every rule operation keeps the store's invariant\<close>

lemma store_ok_rules:
  assumes "store_ok s f" "bmap_ok m" "\<forall>e \<in> set m. rule_ok (profile_ids s) e"
  shows "store_ok (s\<lparr>st_rules := m\<rparr>) f"
  using assms by (simp add: store_ok_def profile_ids_def)

lemma store_ok_rule_lookup:
  "store_ok s f \<Longrightarrow> map_of (st_rules s) i = Some r \<Longrightarrow> rule_ok (profile_ids s) (i, r)"
  using map_of_SomeD by (fastforce simp: store_ok_def)

lemma store_ok_bput_rule:
  assumes "store_ok s f" "rule_ok (profile_ids s) (i, r)"
  shows "store_ok (s\<lparr>st_rules := bput i r (st_rules s)\<rparr>) f"
proof (rule store_ok_rules [OF assms(1)])
  show "bmap_ok (bput i r (st_rules s))" using assms(1) by (simp add: store_ok_def bmap_ok_put)
  show "\<forall>e \<in> set (bput i r (st_rules s)). rule_ok (profile_ids s) e"
    using assms set_bput [of i r "st_rules s"] by (auto simp: store_ok_def)
qed

lemma keeps_with_rule:
  assumes "store_inv ext s d"
    and "\<And>r. map_of (st_rules s) i = Some r \<Longrightarrow> rule_ok (profile_ids s) (i, r) \<Longrightarrow> keeps ext s d (f r)"
  shows "keeps ext s d (with_rule s d i f)"
  using assms(2) store_ok_rule_lookup [OF store_invD [OF assms(1)], of i]
  by (cases "map_of (st_rules s) i") (auto simp: with_rule_def)

lemma keeps_set_rule_enabled:
  "codec_ok ext \<Longrightarrow> store_inv ext s d \<Longrightarrow> keeps ext s d (set_rule_enabled ext p i b s d)"
  unfolding set_rule_enabled_def
  by (frule store_invD)
    (auto intro!: keeps_available keeps_with_rule keeps_commit_staged store_ok_bput_rule simp: rule_ok_def)

lemma keeps_delete_rule:
  assumes "codec_ok ext" "store_inv ext s d"
  shows "keeps ext s d (delete_rule ext i s d)"
proof -
  have "store_ok (s\<lparr>st_rules := bdel i (st_rules s)\<rparr>) (dk_files d)"
    using store_invD [OF assms(2)]
    by (intro store_ok_rules) (auto simp: store_ok_def bmap_ok_del bdel_def bmap_ok_filter)
  then show ?thesis
    unfolding delete_rule_def using assms
    by (intro keeps_available keeps_with_rule keeps_commit_staged) simp_all
qed

lemma reorder_rules_ok:
  "reorder p i ids m = Inr m' \<Longrightarrow> bmap_ok m \<Longrightarrow> \<forall>e \<in> set m. rule_ok P e \<Longrightarrow>
     bmap_ok m' \<and> (\<forall>e \<in> set m'. rule_ok P e)"
proof (induction ids arbitrary: i m)
  case (Cons j ids)
  obtain r where r: "map_of m j = Some r" "reorder p (i + 1) ids (bput j (r\<lparr>rd_order := as_u32 i\<rparr>) m) = Inr m'"
    using Cons.prems(1) by (auto split: option.splits if_splits)
  have "rule_ok P (j, r)" using Cons.prems(3) map_of_SomeD [OF r(1)] by blast
  then have "\<forall>e \<in> set (bput j (r\<lparr>rd_order := as_u32 i\<rparr>) m). rule_ok P e"
    using Cons.prems(3) set_bput [of j "r\<lparr>rd_order := as_u32 i\<rparr>" m] by (auto simp: rule_ok_def)
  then show ?case using Cons.IH [OF r(2)] Cons.prems(2) by (simp add: bmap_ok_put)
qed simp

lemma keeps_reorder_rules:
  assumes "codec_ok ext" "store_inv ext s d"
  shows "keeps ext s d (reorder_rules ext p ids s d)"
proof (cases "reorder p 0 ids (st_rules s)")
  case (Inl e)
  then show ?thesis unfolding reorder_rules_def using assms by (intro keeps_available) simp_all
next
  case (Inr m)
  have "store_ok (s\<lparr>st_rules := m\<rparr>) (dk_files d)"
    using store_invD [OF assms(2)] reorder_rules_ok [OF Inr]
    by (intro store_ok_rules) (auto simp: store_ok_def)
  then show ?thesis
    unfolding reorder_rules_def using assms Inr by (intro keeps_available) (simp_all add: keeps_commit_staged)
qed

lemma import_lines_ok:
  "import_lines ck p src j n ls s = (s', ids) \<Longrightarrow> store_ok s f \<Longrightarrow> p \<in> profile_ids s \<Longrightarrow>
     store_ok s' f \<and> st_root s' = st_root s"
proof (induction ls arbitrary: j n s ids)
  case (Cons l ls)
  let ?r = "\<lparr>rd_id = next_id ''rule'' ck j j, rd_profile_id = p, rd_line = l, rd_enabled = True,
    rd_order = n, rd_source = src\<rparr>"
  obtain s1 ids1 where run: "import_lines ck p src (j + 1) (min (n + 1) u32_max) ls (put_rule ?r s) = (s1, ids1)"
    by (metis prod.exhaust)
  have s': "s' = s1" using Cons.prems(1) run by (simp add: Let_def)
  have "rule_ok (profile_ids s) (rd_id ?r, ?r)"
    using Cons.prems(3) by (simp add: rule_ok_def next_id_blank printable_def)
  then have "store_ok (put_rule ?r s) f"
    unfolding put_rule_def using Cons.prems(2) by (rule store_ok_bput_rule [rotated])
  then show ?case
    using Cons.IH [OF run [folded s']] Cons.prems(3) by (simp add: put_rule_def profile_ids_def)
qed simp

lemma keeps_import_rules:
  assumes "codec_ok ext" "store_inv ext s d"
  shows "keeps ext s d (import_rules_for_profile ext from_yaml ck p src t s d)"
proof (cases "profile p s")
  case (Inl e)
  then show ?thesis by (simp add: import_rules_for_profile_def)
next
  case (Inr doc)
  note ok = store_invD [OF assms(2)]
  have "map_of (st_profiles s) p = Some doc"
    using Inr by (auto simp: profile_def split: sum.splits option.splits)
  then have p: "p \<in> profile_ids s" using profile_lookup [OF ok] by simp
  show ?thesis
  proof (cases "parse_imported_rule_lines from_yaml t")
    case (Inl e)
    then show ?thesis using Inr by (simp add: import_rules_for_profile_def)
  next
    case (Inr rules)
    obtain s1 ids where run: "import_lines ck p src 0 (first_free_order p s) rules s = (s1, ids)"
      by (metis prod.exhaust)
    then show ?thesis
      using import_lines_ok [OF run ok p] \<open>profile p s = Inr doc\<close> Inr assms(1)
      by (simp add: import_rules_for_profile_def keeps_commit_staged)
  qed
qed

subsection \<open>A sample profile with two rules\<close>

definition sample_ids :: clock where
  "sample_ids = \<lparr>ck_now = (\<lambda>_. 7), ck_pid = 3, ck_sequence = 1\<rparr>"

definition sample_rule_doc :: "string \<Rightarrow> string \<Rightarrow> nat \<Rightarrow> rule_document" where
  "sample_rule_doc i text n = \<lparr>rd_id = i, rd_profile_id = ''p'', rd_line = text, rd_enabled = True,
     rd_order = n, rd_source = ''import''\<rparr>"

definition sample_rules :: "unit store" where
  "sample_rules = \<lparr>st_root = ''r'', st_initialization_error = None, st_active = None,
     st_profiles = [(''p'', \<lparr>pd_id = ''p'', pd_name = ''n'', pd_source = ''s'', pd_raw_yaml_path = ''f'',
       pd_user_overrides = [], pd_yaml_backup_path = None, pd_subscription_url = None, pd_updated_at = None,
       pd_last_refresh_at = None, pd_last_refresh_error = None, pd_selected_proxies = [], pd_upload_bytes = 0,
       pd_download_bytes = 0, pd_subscription_user_info = None, pd_subscription_metadata = None\<rparr>)],
     st_rules = [(''r1'', sample_rule_doc ''r1'' ''MATCH,Proxy'' 0),
       (''r2'', sample_rule_doc ''r2'' ''DOMAIN,a,Proxy'' 1)]\<rparr>"

lemma sample_rules_ok:
  "keyed (st_rules sample_rules)" "length (st_rules sample_rules) + 1 < 2 ^ 32"
  "map_of (st_rules sample_rules) (next_id ''rule'' sample_ids 0 0) = None"
proof -
  show "keyed (st_rules sample_rules)"
    by (simp add: keyed_def sample_rules_def sample_rule_doc_def bmap_ok_def)
qed (simp_all add: sample_rules_def next_id_def)

lemma sample_selectors:
  "manual_rule_selector sample_net ''MATCH,Proxy'' = None"
  "manual_rule_selector sample_net ''DOMAIN,a,Proxy'' = Some (Domain, ''a'')"
  by (simp_all add: manual_rule_selector_def rule_fields_def match_kind_of_type_def str_simps printable_def
      to_ascii_uppercase_def ascii_upper_def sample_value)

lemma sample_sorted: "sorted_rules_of ''p'' sample_rules =
    [sample_rule_doc ''r1'' ''MATCH,Proxy'' 0, sample_rule_doc ''r2'' ''DOMAIN,a,Proxy'' 1]"
  by (simp add: sorted_rules_of_def rules_of_def sample_rules_def sample_rule_doc_def)

lemma sample_staged: "\<exists>s mu. stage_manual_rule sample_net sample_ids ''p'' sample_spec sample_rules = (s, Inr mu)"
proof -
  have "profile ''p'' sample_rules = Inr (snd (hd (st_profiles sample_rules)))"
    by (simp add: profile_def sample_rules_def ensure_available_def)
  then show ?thesis by (simp add: stage_manual_rule_def sample_normalized Let_def split: prod.splits)
qed

subsection \<open>Further facts\<close>

text \<open>
  Reordering with a list that names every rule of the profile once makes the profile list its
  rules in exactly that order.
\<close>

lemma rules_reordered:
  assumes "reorder p 0 ids (st_rules s) = Inr m" "keyed (st_rules s)" "distinct ids" "length ids \<le> 2 ^ 32"
    and "set ids = rd_id ` set (rules_of p s)"
  shows "map rs_id (rules_for_profile p (s\<lparr>st_rules := m\<rparr>)) = ids"
  using reorder_listing [OF assms] by (simp add: rules_for_profile_def rule_document_summary_def comp_def)

subsection \<open>Properties\<close>



end
