(* ===== verification/StoreReach.thy ===== *)
theory StoreReach
  imports RuleStore
begin

text \<open>
  All operations of the profile store together, \<open>crates/paws_profile/src/lib.rs\<close>: a step relation with
  one rule per operation, and what holds of every store that opening and the operations can reach.
\<close>

definition rules_ok :: "string set \<Rightarrow> (string \<times> rule_document) list \<Rightarrow> bool" where
  "rules_ok P m \<longleftrightarrow> (\<forall>e \<in> set m. rule_ok P e)"

lemma rules_ok_bput: "rules_ok P m \<Longrightarrow> rule_ok P (i, r) \<Longrightarrow> rules_ok P (bput i r m)"
  using set_bput [of i r m] by (auto simp: rules_ok_def)

lemma rules_ok_set_order: "rules_ok P m \<Longrightarrow> rules_ok P (set_order i n m)"
proof (cases "map_of m i")
  case (Some r)
  assume a: "rules_ok P m"
  have "rule_ok P (i, r)" using a map_of_SomeD [OF Some] by (simp add: rules_ok_def)
  then have "rule_ok P (i, r\<lparr>rd_order := n\<rparr>)" by (simp add: rule_ok_def)
  then show ?thesis using rules_ok_bput [OF a] Some by (simp add: set_order_def)
qed (simp add: set_order_def)

lemma rules_ok_renumber: "rules_ok P m \<Longrightarrow> rules_ok P (renumber i rs m)"
  by (induction rs arbitrary: i m) (simp_all add: rules_ok_set_order)

lemma rules_ok_fold_bdel: "rules_ok P m \<Longrightarrow> rules_ok P (fold bdel ks m)"
proof (induction ks arbitrary: m)
  case (Cons k ks)
  have "rules_ok P (bdel k m)" using Cons.prems by (simp add: bdel_def rules_ok_def)
  then show ?case using Cons.IH by simp
qed simp

lemma rules_ok_place_rule:
  assumes "rules_ok P m" "p \<in> P" "\<And>r. r \<in> set matching \<Longrightarrow> rule_ok P (rd_id r, r)"
    and "place_rule ck p text matching m = (i, k, l, m')"
  shows "rules_ok P m'"
proof (cases matching)
  case Nil
  let ?r = "\<lparr>rd_id = next_id ''rule'' ck 0 0, rd_profile_id = p, rd_line = text, rd_enabled = True,
    rd_order = 0, rd_source = MANUAL_ACTIVITY_RULE_SOURCE\<rparr>"
  have "rule_ok P (rd_id ?r, ?r)"
    using assms(2) by (simp add: rule_ok_def next_id_blank printable_def)
  moreover have "m' = bput (rd_id ?r) ?r m" using assms(4) Nil by (auto simp: place_rule_def Let_def)
  ultimately show ?thesis using rules_ok_bput [OF assms(1)] by blast
next
  case (Cons e es)
  let ?r = "e\<lparr>rd_line := text, rd_enabled := True, rd_source := MANUAL_ACTIVITY_RULE_SOURCE\<rparr>"
  have "rule_ok P (rd_id e, ?r)" using assms(3) [of e] Cons by (simp add: rule_ok_def)
  moreover have "m' = bput (rd_id e) ?r m" using assms(4) Cons by (auto simp: place_rule_def)
  ultimately show ?thesis using rules_ok_bput [OF assms(1)] by blast
qed

lemma stage_manual_rule_ok:
  assumes ok: "store_ok s f" and stage: "stage_manual_rule net ck p spec s = (s', Inr mu)"
  shows "store_ok s' f \<and> st_root s' = st_root s"
proof -
  obtain rule i m where pl: "placed net ck p (rule_line rule) (rule_selector rule) s = (i, m)"
    and s': "s' = s\<lparr>st_rules := order_first p i m\<rparr>" and p: "map_of (st_profiles s) p \<noteq> None"
    using stage_manual_rule_Inr [OF stage] by metis
  let ?ms = "matching_rules net p (rule_selector rule) s"
  obtain k l m0 where place: "place_rule ck p (rule_line rule) ?ms (st_rules s) = (i, k, l, m0)"
    and m: "m = fold bdel (map rd_id (drop 1 ?ms)) m0"
    using pl by (auto simp: placed_def Let_def split: prod.splits)
  obtain doc where "map_of (st_profiles s) p = Some doc" using p by blast
  then have pin: "p \<in> profile_ids s" using profile_lookup [OF ok] by blast
  note key = store_ok_keyed [OF ok]
  have rules: "rules_ok (profile_ids s) (st_rules s)" using ok by (simp add: store_ok_def rules_ok_def)
  have ms: "rule_ok (profile_ids s) (rd_id r, r)" if "r \<in> set ?ms" for r
  proof -
    have "r \<in> set (map snd (st_rules s))" using that by (simp add: matching_set)
    then have "map_of (st_rules s) (rd_id r) = Some r" using keyed_docs [OF key] by blast
    then show "rule_ok (profile_ids s) (rd_id r, r)" by (rule store_ok_rule_lookup [OF ok])
  qed
  have "rules_ok (profile_ids s) m"
    unfolding m by (rule rules_ok_fold_bdel) (rule rules_ok_place_rule [OF rules pin ms place])
  then have all: "\<forall>e \<in> set (order_first p i m). rule_ok (profile_ids s) e"
    unfolding order_first_def Let_def rules_ok_def [symmetric]
    by (intro rules_ok_renumber rules_ok_set_order)
  have "keyed m0"
    using place key
    by (cases ?ms) (auto simp: place_rule_def Let_def keyed_bput)
  then have "keyed (order_first p i m)" unfolding m by (intro keyed_order_first keyed_fold_bdel)
  then have "bmap_ok (order_first p i m)" by (simp add: keyed_def)
  then show ?thesis unfolding s' using store_ok_rules [OF ok _ all] by simp
qed

subsection \<open>The steps\<close>

text \<open>
  A step is an operation whose transaction was rolled back completely if it failed. A manual rule is
  staged in a copy and then saved; a checkpoint was taken of this store's layout; an import is undone
  with the store as it was before.
\<close>

inductive store_step :: "'y ext \<Rightarrow> 'y store \<times> disk \<Rightarrow> 'y store \<times> disk \<Rightarrow> bool" for ext where
  Import: "import_profile_content_with_subscription_metadata ext ck nm src raw url info metadata s d = (s', d', r)
    \<Longrightarrow> clean r \<Longrightarrow> store_step ext (s, d) (s', d')"
| Replace: "replace_profile_content_and_subscription_metadata ext ck i raw info metadata identity s d = (s', d', r)
    \<Longrightarrow> clean r \<Longrightarrow> store_step ext (s, d) (s', d')"
| MarkFailed: "mark_profile_refresh_failed ext ck i message s d = (s', d', r) \<Longrightarrow> clean r \<Longrightarrow>
    store_step ext (s, d) (s', d')"
| UpdateContent: "update_profile_content ext ck i raw s d = (s', d', r) \<Longrightarrow> clean r \<Longrightarrow>
    store_step ext (s, d) (s', d')"
| UpdateSubscription: "update_profile_subscription ext i nm url s d = (s', d', r) \<Longrightarrow> clean r \<Longrightarrow>
    store_step ext (s, d) (s', d')"
| RestoreBackup: "restore_profile_backup ext ck i s d = (s', d', r) \<Longrightarrow> clean r \<Longrightarrow>
    store_step ext (s, d) (s', d')"
| RestoreCheckpoint: "checkpoint_ok cp \<Longrightarrow> restore_profile_checkpoint ext cp s d = (s', d', r) \<Longrightarrow> clean r \<Longrightarrow>
    store_step ext (s, d) (s', d')"
| Delete: "delete_profile ext i s d = (s', d', r) \<Longrightarrow> clean r \<Longrightarrow> store_step ext (s, d) (s', d')"
| RollbackImport: "store_ok previous m \<Longrightarrow> still_there previous s \<Longrightarrow>
    rollback_profile_import ext i previous s d = (s', d', r) \<Longrightarrow> clean r \<Longrightarrow>
    store_step ext (s, d) (s', d')"
| Traffic: "add_profile_traffic ext i up down s d = (s', d', r) \<Longrightarrow> clean r \<Longrightarrow> store_step ext (s, d) (s', d')"
| Activate: "set_active ext i s d = (s', d', r) \<Longrightarrow> clean r \<Longrightarrow> store_step ext (s, d) (s', d')"
| SelectProxy: "set_selected_proxy ext i g p s d = (s', d', r) \<Longrightarrow> clean r \<Longrightarrow> store_step ext (s, d) (s', d')"
| ImportRules: "import_rules_for_profile ext from_yaml ck i src text s d = (s', d', q) \<Longrightarrow> clean q \<Longrightarrow>
    store_step ext (s, d) (s', d')"
| EnableRule: "set_rule_enabled ext i rule_id b s d = (s', d', r) \<Longrightarrow> clean r \<Longrightarrow> store_step ext (s, d) (s', d')"
| ReorderRules: "reorder_rules ext i ids s d = (s', d', r) \<Longrightarrow> clean r \<Longrightarrow> store_step ext (s, d) (s', d')"
| DeleteRule: "delete_rule ext rule_id s d = (s', d', r) \<Longrightarrow> clean r \<Longrightarrow> store_step ext (s, d) (s', d')"
| ManualRule: "stage_manual_rule net ck i spec s = (staged, Inr mu) \<Longrightarrow>
    commit_staged ext s d staged () = (s', d', r) \<Longrightarrow> clean r \<Longrightarrow> store_step ext (s, d) (s', d')"

lemma keeps_clean:
  assumes "keeps ext s d (s', d', r)" "clean r" "store_inv ext s d"
  shows "store_inv ext s' d' \<and> st_root s' = st_root s"
proof (cases r)
  case (Inl e)
  then have "s' = s" "dk_files d' = dk_files d" using assms(1,2) by (simp_all add: keeps_def)
  then show ?thesis using assms(3) by (simp add: store_inv_def)
qed (use assms in \<open>simp add: keeps_def\<close>)

lemmas keeps_operations =
  keeps_import keeps_replace keeps_mark_failed keeps_update_content keeps_update_subscription
  keeps_restore_backup keeps_restore_checkpoint keeps_delete keeps_rollback_import keeps_traffic
  keeps_set_active keeps_set_selected keeps_import_rules keeps_set_rule_enabled keeps_reorder_rules
  keeps_delete_rule

lemma store_step_inv:
  assumes "codec_ok ext" "store_step ext (s, d) (s', d')" "store_inv ext s d"
  shows "store_inv ext s' d' \<and> st_root s' = st_root s"
  using assms(2)
proof (cases rule: store_step.cases)
  case (ManualRule net ck i spec staged mu r)
  have "store_ok staged (dk_files d) \<and> st_root staged = st_root s"
    by (rule stage_manual_rule_ok [OF store_invD [OF assms(3)] ManualRule(1)])
  then have "keeps ext s d (s', d', r)"
    unfolding ManualRule(2) [symmetric] using assms(1) by (intro keeps_commit_staged) simp_all
  then show ?thesis using ManualRule(3) assms(3) by (rule keeps_clean)
qed (metis assms(1,3) keeps_clean keeps_operations)+

inductive store_reach :: "'y ext \<Rightarrow> 'y store \<times> disk \<Rightarrow> 'y store \<times> disk \<Rightarrow> bool" for ext where
  Here: "store_reach ext c c"
| Step: "store_reach ext c c1 \<Longrightarrow> store_step ext c1 c2 \<Longrightarrow> store_reach ext c c2"

lemma store_reach_inv:
  assumes "store_reach ext c c'" "codec_ok ext" "store_inv ext (fst c) (snd c)"
  shows "store_inv ext (fst c') (snd c') \<and> st_root (fst c') = st_root (fst c)"
  using assms
proof (induction rule: store_reach.induct)
  case (Step c c1 c2)
  have "store_step ext (fst c1, snd c1) (fst c2, snd c2)" using Step.hyps(2) by simp
  then show ?case using Step.IH Step.prems store_step_inv by metis
qed simp

subsection \<open>A sample store\<close>

text \<open>An index codec over a fixed list of indices, and a run that imports a profile into a new store.\<close>

fun index_of :: "'a \<Rightarrow> 'a list \<Rightarrow> nat option" where
  "index_of x [] = None"
| "index_of x (y # ys) = (if y = x then Some 0 else map_option Suc (index_of x ys))"

lemma index_of_Some: "index_of x ys = Some k \<Longrightarrow> k < length ys \<and> ys ! k = x"
  by (induction ys arbitrary: k) (auto split: if_splits)

definition table_ext :: "'y store_index list \<Rightarrow> 'y ext" where
  "table_ext table = \<lparr>
     ext_encode = (\<lambda>index. case index_of index table of Some k \<Rightarrow> Inr (replicate k 65)
       | None \<Rightarrow> Inl ''unknown index''),
     ext_decode = (\<lambda>bs. if length bs < length table then Inr (table ! length bs) else Inl ''unknown index''),
     ext_normalize = Inr, ext_url_scheme = (\<lambda>_. Inr ''https''), ext_user_info_comment = (\<lambda>_. None),
     ext_metadata_comment = (\<lambda>_. None)\<rparr>"

lemma utf8_valid_letters: "utf8_valid (replicate k 65)"
  by (induction k) simp_all

lemma table_ext_ok: "codec_ok (table_ext table)"
  using index_of_Some by (fastforce simp: codec_ok_def table_ext_def utf8_valid_letters split: option.splits)

definition empty_store :: "unit store" where
  "empty_store = \<lparr>st_root = ''r'', st_initialization_error = None, st_active = None, st_profiles = [],
     st_rules = []\<rparr>"

definition sample_clock :: clock where
  "sample_clock = \<lparr>ck_now = (\<lambda>_. 7), ck_pid = 3, ck_sequence = 1\<rparr>"

definition sample_profile :: "unit profile_document" where
  "sample_profile = \<lparr>pd_id = ''profile-7-3-1'', pd_name = ''n'', pd_source = ''local'',
     pd_raw_yaml_path = ''profiles/profile-7-3-1.yaml'', pd_user_overrides = [],
     pd_yaml_backup_path = Some ''backups/profile-7-3-1.yaml'', pd_subscription_url = None,
     pd_updated_at = Some ''7'', pd_last_refresh_at = None, pd_last_refresh_error = None,
     pd_selected_proxies = [], pd_upload_bytes = 0, pd_download_bytes = 0,
     pd_subscription_user_info = None, pd_subscription_metadata = None\<rparr>"

definition sample_store :: "unit store" where
  "sample_store = empty_store\<lparr>st_active := Some ''profile-7-3-1'',
     st_profiles := [(''profile-7-3-1'', sample_profile)]\<rparr>"

definition sample_ext :: "unit ext" where
  "sample_ext = table_ext [store_index_of empty_store, store_index_of sample_store]"

definition sample_disk :: disk where
  "sample_disk = \<lparr>dk_files = [''r/profiles.json'' \<mapsto> []], dk_staged = Map.empty, dk_faults = []\<rparr>"

lemma sample_inv: "store_inv sample_ext empty_store sample_disk"
  by (simp add: store_inv_def store_ok_def empty_store_def index_current_def sample_disk_def index_path_def
      join_def sample_ext_def table_ext_def)

lemma sample_import:
  "\<exists>d. import_profile_content_with_subscription_metadata sample_ext sample_clock ''n'' ''local'' ''y'' None None None
     empty_store sample_disk = (sample_store, d, Inr ''profile-7-3-1'') \<and> dk_faults d = []"
proof -
  have i: "next_id ''profile'' sample_clock 0 0 = ''profile-7-3-1''"
    by (simp add: next_id_def sample_clock_def decimal.simps digit_chars)
  have n: "now_string sample_clock (Suc 0) = ''7''"
    by (simp add: now_string_def sample_clock_def decimal.simps digit_chars)
  have doc: "\<lparr>pd_id = ''profile-7-3-1'', pd_name = ''n'', pd_source = ''local'',
     pd_raw_yaml_path = raw_path_of ''profile-7-3-1'', pd_user_overrides = [],
     pd_yaml_backup_path = Some (backup_path_of ''profile-7-3-1''), pd_subscription_url = None,
     pd_updated_at = Some ''7'', pd_last_refresh_at = None, pd_last_refresh_error = None,
     pd_selected_proxies = [], pd_upload_bytes = 0, pd_download_bytes = 0,
     pd_subscription_user_info = None, pd_subscription_metadata = None\<rparr> = sample_profile"
    by (simp add: sample_profile_def raw_path_of_def backup_path_of_def)
  have put: "(put_profile ''profile-7-3-1'' sample_profile empty_store)\<lparr>st_active := Some ''profile-7-3-1''\<rparr> = sample_store"
    by (simp add: put_profile_def empty_store_def sample_store_def)
  have none: "st_active (put_profile ''profile-7-3-1'' sample_profile empty_store) = None"
    by (simp add: put_profile_def empty_store_def)
  have e: "encoded_index sample_ext sample_store = Inr [65]"
    by (simp add: encoded_index_def ensure_available_def sample_store_def empty_store_def sample_ext_def
        table_ext_def store_index_of_def)
  have ext: "ext_user_info_comment sample_ext t = None" "ext_metadata_comment sample_ext t = None"
    "ext_normalize sample_ext t = Inr t" for t
    by (simp_all add: sample_ext_def table_ext_def)
  have av: "ensure_available empty_store = Inr ()" by (simp add: ensure_available_def empty_store_def)
  have m: "merge_subscription_metadata None None = None" by (simp add: merge_subscription_metadata_def)
  show ?thesis
    by (simp add: import_profile_content_with_subscription_metadata_def available_def av ext m i n doc put none
        Let_def commit_staged_with_files_def e commit_files_def read_file_def next_fault_def sample_disk_def
        atomic_write_def set_file_def save_index_def)
qed

subsection \<open>Properties\<close>





end
