(* ===== verification/ProfileSettings.thy ===== *)
theory ProfileSettings
  imports YamlValue OrdMap
begin

text \<open>
  What the application reads from the YAML of a profile, \<open>crates/paws_profile/src/runtime_config.rs\<close>:
  the VPN options, the ports and the access to the controller. Every field is read strictly, a value
  of the wrong type is an error and never replaced by a default. \<open>ip_net\<close>, the parser of networks
  (whether the network is an IPv6 one), and the parser of the YAML text are arguments.
\<close>

definition CONTROLLER_LOOPBACK_HOST :: string where "CONTROLLER_LOOPBACK_HOST = ''127.0.0.1''"
definition CONTROLLER_LAN_HOST :: string where "CONTROLLER_LAN_HOST = ''0.0.0.0''"
definition CONTROLLER_SECRET_HEX_LENGTH :: nat where "CONTROLLER_SECRET_HEX_LENGTH = 64"

definition MEOW_V4_CLIENT :: string where "MEOW_V4_CLIENT = ''172.19.0.1/30''"
definition MEOW_V4_ROUTER :: string where "MEOW_V4_ROUTER = ''172.19.0.2''"
definition MEOW_V6_CLIENT :: string where "MEOW_V6_CLIENT = ''fdfe:dcba:9876::1/126''"

record controller_access_config =
  ca_allow_lan :: bool
  ca_secret :: "string option"

definition controller_access_default :: controller_access_config where
  "controller_access_default = \<lparr>ca_allow_lan = False, ca_secret = None\<rparr>"

definition is_ascii_hexdigit :: "char \<Rightarrow> bool" where
  "is_ascii_hexdigit c \<longleftrightarrow> (let n = of_char c :: nat in
     48 \<le> n \<and> n \<le> 57 \<or> 65 \<le> n \<and> n \<le> 70 \<or> 97 \<le> n \<and> n \<le> 102)"

definition controller_secret_is_valid :: "string \<Rightarrow> bool" where
  "controller_secret_is_valid secret \<longleftrightarrow>
     length secret = CONTROLLER_SECRET_HEX_LENGTH \<and> list_all is_ascii_hexdigit secret"

text \<open>\<open>ControllerSecretGenerator::generate\<close> on the bytes the system draws: two digits a byte.\<close>

definition hex_digit :: "nat \<Rightarrow> char" where
  "hex_digit n = ''0123456789abcdef'' ! n"

definition generate_secret :: "string + byte list \<Rightarrow> string presult" where
  "generate_secret drawn =
    (case drawn of
       Inl err \<Rightarrow> Inl (Core (''failed to generate controller secret: '' @ err))
     | Inr bs \<Rightarrow> Inr (concat (map (\<lambda>b. [hex_digit (unat b div 16), hex_digit (unat b mod 16)]) bs)))"

subsection \<open>Strict fields\<close>

definition invalid_profile_field :: "string \<Rightarrow> string \<Rightarrow> paws_error" where
  "invalid_profile_field field expected =
     Core (''profile field '' @ quoted field @ '' must be '' @ expected @ ''; refusing to use a default'')"

definition optional_mapping :: "mapping \<Rightarrow> string \<Rightarrow> mapping option presult" where
  "optional_mapping root key =
    (case get_key root key of
       None \<Rightarrow> Inr None
     | Some (YMapping value) \<Rightarrow> Inr (Some value)
     | Some _ \<Rightarrow> Inl (invalid_profile_field key ''a mapping''))"

definition strict_bool :: "yaml \<Rightarrow> string \<Rightarrow> bool presult" where
  "strict_bool value field = (case yaml_as_bool value of
     None \<Rightarrow> Inl (invalid_profile_field field ''a boolean'') | Some b \<Rightarrow> Inr b)"

definition strict_string :: "yaml \<Rightarrow> string \<Rightarrow> string presult" where
  "strict_string value field = (case yaml_as_str value of
     None \<Rightarrow> Inl (invalid_profile_field field ''a string'') | Some s \<Rightarrow> Inr s)"

definition strict_u16 :: "yaml \<Rightarrow> string \<Rightarrow> u16 presult" where
  "strict_u16 value field = (case yaml_as_u64 value of
     None \<Rightarrow> Inl (invalid_profile_field field ''an integer between 1 and 65535'')
   | Some n \<Rightarrow> if 0 < n \<and> n < 65536 then Inr (of_nat n)
       else Inl (invalid_profile_field field ''an integer between 1 and 65535''))"

definition aliased_field ::
  "mapping \<Rightarrow> string \<Rightarrow> string \<Rightarrow> (yaml \<Rightarrow> string \<Rightarrow> 'a presult) \<Rightarrow> 'a option presult" where
  "aliased_field m canonical legacy parse =
    rbind (transpose_result (map_option (\<lambda>value. parse value canonical) (get_key m canonical))) (\<lambda>c.
    rbind (transpose_result (map_option (\<lambda>value. parse value legacy) (get_key m legacy))) (\<lambda>l.
    (case (c, l) of
       (Some a, Some b) \<Rightarrow>
         if a \<noteq> b then Inl (Core (''profile fields '' @ quoted canonical @ '' and legacy alias ''
                                @ quoted legacy @ '' conflict''))
         else Inr (Some a)
     | (Some a, None) \<Rightarrow> Inr (Some a)
     | (None, b) \<Rightarrow> Inr b)))"

definition strict_string_list :: "mapping \<Rightarrow> string \<Rightarrow> string list option presult" where
  "strict_string_list m key =
    (case get_key m key of
       None \<Rightarrow> Inr None
     | Some (YString value) \<Rightarrow> Inr (Some [value])
     | Some (YSequence values) \<Rightarrow>
         rbind (collect_results (map (\<lambda>v. strict_string v key) values)) (\<lambda>vs. Inr (Some vs))
     | Some _ \<Rightarrow> Inl (invalid_profile_field key ''a string or list of strings''))"

subsection \<open>DNS servers\<close>

text \<open>Trimmed, without the empty and the repeated ones; the first occurrence stays.\<close>

fun normalize_servers_into :: "string list \<Rightarrow> string list \<Rightarrow> string list" where
  "normalize_servers_into normalized [] = normalized"
| "normalize_servers_into normalized (s # servers) =
    (let server = str_trim s in
     if server = [] \<or> server \<in> set normalized then normalize_servers_into normalized servers
     else normalize_servers_into (normalized @ [server]) servers)"

definition normalize_dns_optional_servers :: "string list \<Rightarrow> string list" where
  "normalize_dns_optional_servers servers = normalize_servers_into [] servers"

definition normalize_dns_servers :: "string list \<Rightarrow> string list" where
  "normalize_dns_servers servers =
    (let normalized = normalize_dns_optional_servers servers in
     if normalized = [] then dns_servers vpn_options_default else normalized)"

fun normalize_policy_into ::
  "(string \<times> string list) list \<Rightarrow> (string \<times> string list) list \<Rightarrow> (string \<times> string list) list" where
  "normalize_policy_into result [] = result"
| "normalize_policy_into result ((m, servers) # policy) =
    (let matcher = str_trim m; servers = normalize_dns_optional_servers servers in
     if matcher = [] \<or> servers = [] then normalize_policy_into result policy
     else normalize_policy_into (bput matcher servers result) policy)"

definition normalize_dns_policy :: "(string \<times> string list) list \<Rightarrow> (string \<times> string list) list" where
  "normalize_dns_policy policy = normalize_policy_into [] policy"

definition policy_servers :: "string \<Rightarrow> yaml \<Rightarrow> string list presult" where
  "policy_servers key servers =
    (case servers of
       YString server \<Rightarrow> Inr [server]
     | YSequence servers \<Rightarrow> collect_results (map (\<lambda>v. strict_string v key) servers)
     | _ \<Rightarrow> Inl (invalid_profile_field key ''a mapping of string lists''))"

fun read_policy ::
  "string \<Rightarrow> (string \<times> string list) list \<Rightarrow> mapping \<Rightarrow> (string \<times> string list) list presult" where
  "read_policy key result [] = Inr result"
| "read_policy key result ((matcher, servers) # entries) =
    rbind (strict_string matcher key) (\<lambda>matcher.
    if str_trim matcher = [] then Inl (invalid_profile_field key ''non-empty string keys'')
    else rbind (policy_servers key servers) (\<lambda>servers.
      let servers = normalize_dns_optional_servers servers in
      if servers = [] then Inl (invalid_profile_field key ''non-empty DNS server lists'')
      else read_policy key (bput (str_trim matcher) servers result) entries))"

definition strict_string_list_map ::
  "mapping \<Rightarrow> string \<Rightarrow> (string \<times> string list) list option presult" where
  "strict_string_list_map m key =
    (case get_key m key of
       None \<Rightarrow> Inr None
     | Some (YMapping entries) \<Rightarrow> rbind (read_policy key [] entries) (\<lambda>result. Inr (Some result))
     | Some _ \<Rightarrow> Inl (invalid_profile_field key ''a mapping of string lists''))"

subsection \<open>Networks, ports and access to the controller\<close>

fun validate_networks ::
  "(string \<Rightarrow> string + bool) \<Rightarrow> string list \<Rightarrow> string \<Rightarrow> bool option \<Rightarrow> unit presult" where
  "validate_networks ip_net [] field expected_ipv6 = Inr ()"
| "validate_networks ip_net (value # values) field expected_ipv6 =
    (case ip_net value of
       Inl err \<Rightarrow> Inl (Core (''profile field '' @ quoted field @ '' contains invalid network ''
                            @ quoted value @ '': '' @ err))
     | Inr is_ipv6 \<Rightarrow>
         if expected_ipv6 \<noteq> None \<and> expected_ipv6 \<noteq> Some is_ipv6 then
           Inl (Core (''profile field '' @ quoted field @ '' contains the wrong address family: '' @ value))
         else validate_networks ip_net values field expected_ipv6)"

definition network_ports_from_mapping :: "mapping \<Rightarrow> network_port_config presult" where
  "network_ports_from_mapping root =
    rbind (optional_mapping root ''paws'') (\<lambda>paws. (case paws of
      None \<Rightarrow> Inr network_port_config_default
    | Some paws \<Rightarrow>
        rbind (aliased_field paws ''mixed-port'' ''mixedPort'' strict_u16) (\<lambda>mp.
        rbind (aliased_field paws ''controller-port'' ''controllerPort'' strict_u16) (\<lambda>cp.
        rbind (aliased_field paws ''mixed-enabled'' ''mixedEnabled'' strict_bool) (\<lambda>me.
        rbind (aliased_field paws ''controller-enabled'' ''controllerEnabled'' strict_bool) (\<lambda>ce.
        network_port_config_validate
          \<lparr>mixed_port = (case mp of None \<Rightarrow> DEFAULT_MIXED_PORT | Some p \<Rightarrow> p),
           controller_port = (case cp of None \<Rightarrow> DEFAULT_CONTROLLER_PORT | Some p \<Rightarrow> p),
           mixed_enabled = (me = Some True), controller_enabled = (ce = Some True)\<rparr>))))))"

definition SECRET_REQUIRED :: paws_error where
  "SECRET_REQUIRED = Core ''LAN controller access requires a generated 64-character secret''"

definition controller_access_from_mapping :: "mapping \<Rightarrow> controller_access_config presult" where
  "controller_access_from_mapping root =
    rbind (optional_mapping root ''paws'') (\<lambda>paws. (case paws of
      None \<Rightarrow> Inr controller_access_default
    | Some paws \<Rightarrow>
        rbind (aliased_field paws ''controller-allow-lan'' ''controllerAllowLan'' strict_bool) (\<lambda>al.
        let allow_lan = (al = Some True) in
        rbind (aliased_field paws ''controller-secret'' ''controllerSecret'' strict_string) (\<lambda>secret.
        if (case secret of None \<Rightarrow> False | Some s \<Rightarrow> \<not> controller_secret_is_valid s) then
          Inl (invalid_profile_field ''controller-secret'' ''a 64-character hexadecimal string'')
        else if allow_lan \<and> secret = None then Inl SECRET_REQUIRED
        else Inr \<lparr>ca_allow_lan = allow_lan, ca_secret = secret\<rparr>))))"

text \<open>The readers that take the text.\<close>

definition with_root :: "(string \<Rightarrow> string + yaml) \<Rightarrow> string \<Rightarrow> (mapping \<Rightarrow> 'a presult) \<Rightarrow> 'a presult" where
  "with_root parse raw_yaml f =
    (case parse raw_yaml of
       Inl err \<Rightarrow> Inl (Core err)
     | Inr value \<Rightarrow> (case yaml_as_mapping value of
         None \<Rightarrow> Inl (Core ''profile root must be a YAML map'')
       | Some root \<Rightarrow> f root))"

definition controller_access_from_yaml :: "(string \<Rightarrow> string + yaml) \<Rightarrow> string \<Rightarrow> controller_access_config presult" where
  "controller_access_from_yaml parse raw_yaml = with_root parse raw_yaml controller_access_from_mapping"

definition network_ports_from_yaml :: "(string \<Rightarrow> string + yaml) \<Rightarrow> string \<Rightarrow> network_port_config presult" where
  "network_ports_from_yaml parse raw_yaml = with_root parse raw_yaml network_ports_from_mapping"

subsection \<open>The VPN options\<close>

definition normalize_vpn_stack :: "string \<Rightarrow> string presult" where
  "normalize_vpn_stack s = rbind (vpn_stack_try_from s) (\<lambda>st. Inr (vpn_stack_as_str st))"

definition read_ipv6 :: "mapping \<Rightarrow> vpn_options \<Rightarrow> vpn_options presult" where
  "read_ipv6 root options = (case get_key root ''ipv6'' of
     None \<Rightarrow> Inr options
   | Some v \<Rightarrow> rbind (strict_bool v ''ipv6'') (\<lambda>b. Inr (options\<lparr>ipv6 := b\<rparr>)))"

definition read_nameservers :: "mapping \<Rightarrow> vpn_options \<Rightarrow> vpn_options presult" where
  "read_nameservers dns options =
    rbind (strict_string_list dns ''nameserver'') (\<lambda>ns. (case ns of
      None \<Rightarrow> Inr options
    | Some servers \<Rightarrow>
        let nameservers = normalize_dns_optional_servers servers in
        if nameservers = [] then
          Inl (invalid_profile_field ''nameserver'' ''at least one non-empty DNS server'')
        else Inr (options\<lparr>dns_servers := nameservers\<rparr>)))"

definition read_dns :: "mapping \<Rightarrow> vpn_options \<Rightarrow> vpn_options presult" where
  "read_dns root options =
    rbind (optional_mapping root ''dns'') (\<lambda>dns. (case dns of
      None \<Rightarrow> Inr options
    | Some dns \<Rightarrow>
        rbind (read_nameservers dns options) (\<lambda>options.
        rbind (strict_string_list dns ''fallback'') (\<lambda>fb.
        rbind (strict_string_list_map dns ''nameserver-policy'') (\<lambda>policy.
        let options = (case fb of None \<Rightarrow> options
              | Some fallbacks \<Rightarrow> options\<lparr>dns_fallbacks := normalize_dns_optional_servers fallbacks\<rparr>) in
        Inr (case policy of None \<Rightarrow> options | Some p \<Rightarrow> options\<lparr>dns_nameserver_policy := p\<rparr>))))))"

definition read_engine :: "mapping \<Rightarrow> vpn_options \<Rightarrow> vpn_options presult" where
  "read_engine paws options =
    rbind (aliased_field paws ''engine'' ''vpnEngine'' strict_string) (\<lambda>eng. (case eng of
      None \<Rightarrow> Inr options
    | Some s \<Rightarrow> rbind (vpn_engine_try_from s) (\<lambda>e. Inr (options\<lparr>engine := e\<rparr>))))"

definition APPS_EXCLUSIVE :: paws_error where
  "APPS_EXCLUSIVE = Core ''VPN trustlist and blocklist cannot both be set''"

definition read_applications :: "mapping \<Rightarrow> vpn_options \<Rightarrow> vpn_options presult" where
  "read_applications paws options =
    rbind (strict_string_list paws ''trusted-applications'') (\<lambda>trusted.
    rbind (strict_string_list paws ''blocked-applications'') (\<lambda>blocked.
    let trusted = (case trusted of None \<Rightarrow> [] | Some l \<Rightarrow> l);
        blocked = (case blocked of None \<Rightarrow> [] | Some l \<Rightarrow> l) in
    if trusted \<noteq> [] \<and> blocked \<noteq> [] then Inl APPS_EXCLUSIVE
    else Inr (options\<lparr>trusted_applications := trusted, blocked_applications := blocked\<rparr>)))"

definition read_paws :: "mapping \<Rightarrow> vpn_options \<Rightarrow> vpn_options presult" where
  "read_paws root options =
    rbind (optional_mapping root ''paws'') (\<lambda>paws. (case paws of
      None \<Rightarrow> Inr options
    | Some paws \<Rightarrow>
        rbind (read_engine paws options) (\<lambda>options.
        rbind (read_applications paws options) (\<lambda>options.
        rbind (aliased_field paws ''system-proxy'' ''systemProxy'' strict_bool) (\<lambda>sp.
        let options = (case sp of None \<Rightarrow> options | Some b \<Rightarrow> options\<lparr>system_proxy := b\<rparr>) in
        rbind (aliased_field paws ''allow-bypass'' ''allowBypass'' strict_bool) (\<lambda>ab.
        Inr (case ab of None \<Rightarrow> options | Some b \<Rightarrow> options\<lparr>allow_bypass := b\<rparr>)))))))"

definition read_hijack :: "yaml \<Rightarrow> bool presult" where
  "read_hijack v =
    (case v of
       YBool enabled \<Rightarrow> Inr enabled
     | YSequence items \<Rightarrow>
         rbind (collect_results (map (\<lambda>item. strict_string item ''dns-hijack'') items)) (\<lambda>_. Inr (items \<noteq> []))
     | _ \<Rightarrow> Inl (invalid_profile_field ''dns-hijack'' ''a boolean or list of strings''))"

definition read_tun_device :: "mapping \<Rightarrow> vpn_options \<Rightarrow> vpn_options presult" where
  "read_tun_device tun options =
    rbind (case get_key tun ''mtu'' of
        None \<Rightarrow> Inr options
      | Some v \<Rightarrow> rbind (strict_u16 v ''mtu'') (\<lambda>n. Inr (options\<lparr>mtu := n\<rparr>))) (\<lambda>options.
    rbind (case get_key tun ''stack'' of
        None \<Rightarrow> Inr options
      | Some v \<Rightarrow> rbind (strict_string v ''stack'') (\<lambda>s. rbind (normalize_vpn_stack s) (\<lambda>st.
          Inr (options\<lparr>stack := st\<rparr>)))) (\<lambda>options.
    (case get_key tun ''dns-hijack'' of
        None \<Rightarrow> Inr options
      | Some v \<Rightarrow> rbind (read_hijack v) (\<lambda>b. Inr (options\<lparr>dns_hijacking := b\<rparr>)))))"

definition has_colon :: "string list \<Rightarrow> bool" where
  "has_colon xs \<longleftrightarrow> list_ex (\<lambda>x. CHR '':'' \<in> set x) xs"

definition tun_addresses :: "string list \<Rightarrow> string list \<Rightarrow> string list \<Rightarrow> vpn_options \<Rightarrow> vpn_options" where
  "tun_addresses inet4 inet6 route_addresses options =
    (let options = options\<lparr>addresses := if inet4 = [] then [MEOW_V4_CLIENT] else inet4\<rparr>;
         options = (if inet6 \<noteq> [] then options\<lparr>ipv6 := True, addresses := addresses options @ inet6\<rparr>
                    else options) in
     if route_addresses \<noteq> [] then
       options\<lparr>ipv6 := ipv6 options \<or> has_colon route_addresses, routes := route_addresses\<rparr>
     else options)"

definition read_tun_networks ::
  "(string \<Rightarrow> string + bool) \<Rightarrow> mapping \<Rightarrow> vpn_options \<Rightarrow> vpn_options presult" where
  "read_tun_networks ip_net tun options =
    rbind (strict_string_list tun ''inet4-address'') (\<lambda>inet4.
    rbind (strict_string_list tun ''inet6-address'') (\<lambda>inet6.
    rbind (strict_string_list tun ''route-address'') (\<lambda>route_addresses.
    let inet4 = (case inet4 of None \<Rightarrow> [] | Some l \<Rightarrow> l);
        inet6 = (case inet6 of None \<Rightarrow> [] | Some l \<Rightarrow> l);
        route_addresses = (case route_addresses of None \<Rightarrow> [] | Some l \<Rightarrow> l) in
    rbind (validate_networks ip_net inet4 ''inet4-address'' (Some False)) (\<lambda>_.
    rbind (validate_networks ip_net inet6 ''inet6-address'' (Some True)) (\<lambda>_.
    rbind (validate_networks ip_net route_addresses ''route-address'' None) (\<lambda>_.
    Inr (tun_addresses inet4 inet6 route_addresses options)))))))"

definition read_tun :: "(string \<Rightarrow> string + bool) \<Rightarrow> mapping \<Rightarrow> vpn_options \<Rightarrow> vpn_options presult" where
  "read_tun ip_net root options =
    rbind (optional_mapping root ''tun'') (\<lambda>tun. (case tun of
      None \<Rightarrow> Inr options
    | Some tun \<Rightarrow> rbind (read_tun_device tun options) (\<lambda>options. read_tun_networks ip_net tun options)))"

definition complete_options :: "vpn_options \<Rightarrow> vpn_options" where
  "complete_options options =
    (let options = (if ipv6 options \<and> \<not> has_colon (addresses options)
                    then options\<lparr>addresses := addresses options @ [MEOW_V6_CLIENT]\<rparr> else options);
         options = (if ipv6 options \<and> \<not> has_colon (routes options)
                    then options\<lparr>routes := routes options @ [''::/0'']\<rparr> else options) in
     if dns_addresses options = [] then options\<lparr>dns_addresses := [MEOW_V4_ROUTER]\<rparr> else options)"

definition vpn_options_from_mapping :: "(string \<Rightarrow> string + bool) \<Rightarrow> mapping \<Rightarrow> vpn_options presult" where
  "vpn_options_from_mapping ip_net root =
    rbind (read_ipv6 root vpn_options_default) (\<lambda>options.
    rbind (read_dns root options) (\<lambda>options.
    rbind (read_paws root options) (\<lambda>options.
    rbind (read_tun ip_net root options) (\<lambda>options. Inr (complete_options options)))))"

definition vpn_options_from_yaml ::
  "(string \<Rightarrow> string + yaml) \<Rightarrow> (string \<Rightarrow> string + bool) \<Rightarrow> string \<Rightarrow> vpn_options presult" where
  "vpn_options_from_yaml parse ip_net raw_yaml = with_root parse raw_yaml (vpn_options_from_mapping ip_net)"

definition validate_profile_app_config ::
  "(string \<Rightarrow> string + yaml) \<Rightarrow> (string \<Rightarrow> string + bool) \<Rightarrow> string \<Rightarrow> unit presult" where
  "validate_profile_app_config parse ip_net raw_yaml =
    rbind (vpn_options_from_yaml parse ip_net raw_yaml) (\<lambda>_.
    rbind (controller_access_from_yaml parse raw_yaml) (\<lambda>_.
    rbind (network_ports_from_yaml parse raw_yaml) (\<lambda>_. Inr ())))"

end
