(* ===== verification/SettingsOverlay.thy ===== *)
theory SettingsOverlay
  imports StoreReach ProfileSettings
begin

text \<open>
  The settings of a profile, \<open>crates/paws_profile/src/lib.rs\<close>: what a setter changes is kept beside
  the imported YAML, as overlays of the sections \<open>dns\<close>, \<open>tun\<close> and \<open>paws\<close>, and laid over the file
  each time the YAML is read. The YAML parser and printer, the network parser and the random bytes of
  a new secret are arguments.
\<close>

record yaml_io =
  yl_parse :: "string \<Rightarrow> string + yaml"
  yl_print :: "yaml \<Rightarrow> string + string"
  yl_ip_net :: "string \<Rightarrow> string + bool"

subsection \<open>Reading the YAML of a profile\<close>

fun patch_entries :: "mapping \<Rightarrow> mapping \<Rightarrow> mapping" where
  "patch_entries [] base = base"
| "patch_entries ((k, v) # patch) base =
     patch_entries patch (if yaml_is_null v then amap_del k base else amap_put k v base)"

definition overlay_section :: "string \<times> yaml \<Rightarrow> mapping \<Rightarrow> mapping" where
  "overlay_section e root = (case e of (key, overlay) \<Rightarrow>
     (case yaml_as_mapping overlay of
        Some patch \<Rightarrow> insert_key key (YMapping (patch_entries patch (section_of root key))) root
      | None \<Rightarrow> insert_key key overlay root))"

definition overlay_root :: "(string \<times> yaml) list \<Rightarrow> mapping \<Rightarrow> mapping" where
  "overlay_root overrides root = fold overlay_section overrides root"

definition read_to_string :: "string \<Rightarrow> disk \<Rightarrow> disk \<times> string presult" where
  "read_to_string path d =
    (case read_file path d of
       (d, Inl e) \<Rightarrow> (d, Inl e)
     | (d, Inr None) \<Rightarrow> (d, Inl (Io NOT_FOUND))
     | (d, Inr (Some content)) \<Rightarrow>
         (d, case from_utf8 content of
               None \<Rightarrow> Inl (Io ''stream did not contain valid UTF-8'') | Some text \<Rightarrow> Inr text))"

definition overlaid_text :: "yaml_io \<Rightarrow> (string \<times> yaml) list \<Rightarrow> string \<Rightarrow> string presult" where
  "overlaid_text io overrides raw =
    (if overrides = [] then Inr raw
     else case yl_parse io raw of
         Inl e \<Rightarrow> Inl (Core e)
       | Inr value \<Rightarrow> (case yaml_as_mapping value of
           None \<Rightarrow> Inl (Core ''Invalid profile root'')
         | Some root \<Rightarrow> (case yl_print io (set_mapping (overlay_root overrides root) value) of
             Inl e \<Rightarrow> Inl (Core e) | Inr text \<Rightarrow> Inr text)))"

definition raw_yaml :: "yaml_io \<Rightarrow> string \<Rightarrow> yaml store \<Rightarrow> disk \<Rightarrow> disk \<times> string presult" where
  "raw_yaml io profile_id s d =
    (case profile profile_id s of
       Inl e \<Rightarrow> (d, Inl e)
     | Inr p \<Rightarrow> (case read_to_string (join (st_root s) (pd_raw_yaml_path p)) d of
         (d, Inl e) \<Rightarrow> (d, Inl e)
       | (d, Inr raw) \<Rightarrow> (d, overlaid_text io (pd_user_overrides p) raw)))"

definition reading :: "yaml_io \<Rightarrow> string \<Rightarrow> (string \<Rightarrow> 'a presult) \<Rightarrow> yaml store \<Rightarrow> disk \<Rightarrow> disk \<times> 'a presult" where
  "reading io profile_id f s d =
    (case raw_yaml io profile_id s d of (d, Inl e) \<Rightarrow> (d, Inl e) | (d, Inr text) \<Rightarrow> (d, f text))"

definition vpn_options_for_profile :: "yaml_io \<Rightarrow> string \<Rightarrow> yaml store \<Rightarrow> disk \<Rightarrow> disk \<times> vpn_options presult" where
  "vpn_options_for_profile io i s d = reading io i (vpn_options_from_yaml (yl_parse io) (yl_ip_net io)) s d"

definition controller_access_for_profile ::
  "yaml_io \<Rightarrow> string \<Rightarrow> yaml store \<Rightarrow> disk \<Rightarrow> disk \<times> controller_access_config presult" where
  "controller_access_for_profile io i s d = reading io i (controller_access_from_yaml (yl_parse io)) s d"

definition network_ports_for_profile ::
  "yaml_io \<Rightarrow> string \<Rightarrow> yaml store \<Rightarrow> disk \<Rightarrow> disk \<times> network_port_config presult" where
  "network_ports_for_profile io i s d = reading io i (network_ports_from_yaml (yl_parse io)) s d"

definition active_raw_yaml :: "yaml_io \<Rightarrow> yaml store \<Rightarrow> disk \<Rightarrow> disk \<times> string presult" where
  "active_raw_yaml io s d = (case st_active s of
     None \<Rightarrow> (d, Inl (ProfileNotFound ''<active>'')) | Some i \<Rightarrow> raw_yaml io i s d)"

definition active_vpn_options :: "yaml_io \<Rightarrow> yaml store \<Rightarrow> disk \<Rightarrow> disk \<times> vpn_options presult" where
  "active_vpn_options io s d = (case st_active s of
     None \<Rightarrow> (d, Inl (ProfileNotFound ''<active>'')) | Some i \<Rightarrow> vpn_options_for_profile io i s d)"

subsection \<open>Saving an overlay\<close>

definition overlay_fields :: "string \<Rightarrow> string list" where
  "overlay_fields key =
    (if key = ''dns'' then [''nameserver'', ''fallback'', ''nameserver-policy'']
     else if key = ''tun'' then [''stack'', ''dns-hijack'']
     else if key = ''paws'' then
       [''engine'', ''system-proxy'', ''allow-bypass'', ''trusted-applications'', ''blocked-applications'',
        ''mixed-port'', ''mixed-enabled'', ''controller-port'', ''controller-enabled'',
        ''controller-allow-lan'', ''controller-secret'']
     else [])"

definition overlay_patch :: "yaml \<Rightarrow> string list \<Rightarrow> mapping" where
  "overlay_patch v names =
    fold (\<lambda>field patch. insert_key field (case yaml_get v field of None \<Rightarrow> YNull | Some x \<Rightarrow> x) patch) names []"

definition save_key :: "yaml \<Rightarrow> string \<Rightarrow> (string \<times> yaml) list \<Rightarrow> (string \<times> yaml) list" where
  "save_key value key overrides =
    (case yaml_get value key of
       None \<Rightarrow> overrides
     | Some v \<Rightarrow> bput key (YMapping (overlay_patch v (overlay_fields key))) overrides)"

definition save_settings_overlay ::
  "yaml ext \<Rightarrow> string \<Rightarrow> yaml \<Rightarrow> string list \<Rightarrow> 'r \<Rightarrow> yaml store \<Rightarrow> disk \<Rightarrow> (yaml, 'r) op_result" where
  "save_settings_overlay ext i value keys result s d =
    available s d (with_profile s d i (\<lambda>p.
      let p = p\<lparr>pd_user_overrides := fold (save_key value) keys (pd_user_overrides p)\<rparr> in
      commit_staged_with_files ext s d (put_profile i p s) [] result))"

subsection \<open>The setters\<close>

text \<open>The YAML of the profile as a setter starts from it; the message is for a root that is no mapping.\<close>

definition editing ::
  "yaml_io \<Rightarrow> string \<Rightarrow> string \<Rightarrow> yaml store \<Rightarrow> disk \<Rightarrow>
   (disk \<Rightarrow> yaml \<Rightarrow> mapping \<Rightarrow> (yaml, 'r) op_result) \<Rightarrow> (yaml, 'r) op_result" where
  "editing io i message s d f =
    (case raw_yaml io i s d of
       (d, Inl e) \<Rightarrow> refuse s d e
     | (d, Inr text) \<Rightarrow> (case yl_parse io text of
         Inl e \<Rightarrow> refuse s d (Core e)
       | Inr value \<Rightarrow> (case yaml_as_mapping value of
           None \<Rightarrow> refuse s d (Core message)
         | Some root \<Rightarrow> f d value root)))"

abbreviation (input) NO_ROOT :: string where "NO_ROOT \<equiv> ''profile root must be a YAML map''"

definition string_sequence :: "string list \<Rightarrow> yaml" where
  "string_sequence xs = YSequence (map YString xs)"

definition policy_mapping :: "(string \<times> string list) list \<Rightarrow> yaml" where
  "policy_mapping policy = YMapping (map (\<lambda>(m, servers). (value_key m, string_sequence servers)) policy)"

definition edit_dns ::
  "string list \<Rightarrow> string list \<Rightarrow> (string \<times> string list) list \<Rightarrow> mapping \<Rightarrow> mapping" where
  "edit_dns servers fallbacks policy root =
    (let dns = section_of root ''dns'';
         dns = insert_key ''nameserver'' (string_sequence (normalize_dns_servers servers)) dns;
         fallbacks = normalize_dns_optional_servers fallbacks;
         dns = (if fallbacks = [] then remove_key ''fallback'' dns
                else insert_key ''fallback'' (string_sequence fallbacks) dns);
         policy = normalize_dns_policy policy;
         dns = (if policy = [] then remove_key ''nameserver-policy'' dns
                else insert_key ''nameserver-policy'' (policy_mapping policy) dns) in
     insert_key ''dns'' (YMapping dns) (remove_key ''dns'' root))"

definition set_profile_dns_config ::
  "yaml ext \<Rightarrow> yaml_io \<Rightarrow> string \<Rightarrow> string list \<Rightarrow> string list \<Rightarrow> (string \<times> string list) list \<Rightarrow>
   yaml store \<Rightarrow> disk \<Rightarrow> (yaml, unit) op_result" where
  "set_profile_dns_config ext io i servers fallbacks policy s d =
    editing io i NO_ROOT s d (\<lambda>d value root.
      save_settings_overlay ext i (set_mapping (edit_dns servers fallbacks policy root) value) [''dns''] () s d)"

definition set_profile_dns_servers ::
  "yaml ext \<Rightarrow> yaml_io \<Rightarrow> string \<Rightarrow> string list \<Rightarrow> yaml store \<Rightarrow> disk \<Rightarrow> (yaml, unit) op_result" where
  "set_profile_dns_servers ext io i servers s d =
    (case vpn_options_for_profile io i s d of
       (d, Inl e) \<Rightarrow> refuse s d e
     | (d, Inr options) \<Rightarrow>
         set_profile_dns_config ext io i servers (dns_fallbacks options) (dns_nameserver_policy options) s d)"

definition edit_vpn_paws :: "vpn_engine \<Rightarrow> bool \<Rightarrow> bool \<Rightarrow> mapping \<Rightarrow> mapping" where
  "edit_vpn_paws e sys_proxy bypass root =
    (let paws = put_bool ''allow-bypass'' bypass (put_bool ''system-proxy'' sys_proxy
           (put_string ''engine'' (vpn_engine_as_str e) (section_of root ''paws''))) in
     insert_key ''paws'' (YMapping paws) (remove_key ''paws'' root))"

definition edit_vpn_tun :: "vpn_stack \<Rightarrow> bool \<Rightarrow> mapping \<Rightarrow> mapping" where
  "edit_vpn_tun st hijack root =
    (let tun = put_string ''stack'' (vpn_stack_as_str st) (section_of root ''tun'');
         tun = (if hijack then insert_key ''dns-hijack'' (YSequence [YString ''any:53'']) tun
                else put_bool ''dns-hijack'' False tun) in
     insert_key ''tun'' (YMapping tun) (remove_key ''tun'' root))"

definition set_profile_vpn_config_with_engine ::
  "yaml ext \<Rightarrow> yaml_io \<Rightarrow> string \<Rightarrow> string \<Rightarrow> bool \<Rightarrow> bool \<Rightarrow> bool \<Rightarrow> string \<Rightarrow>
   yaml store \<Rightarrow> disk \<Rightarrow> (yaml, unit) op_result" where
  "set_profile_vpn_config_with_engine ext io i eng sys_proxy hijack bypass stk s d =
    editing io i NO_ROOT s d (\<lambda>d value root.
      (case vpn_engine_try_from eng of Inl e \<Rightarrow> refuse s d e | Inr eng \<Rightarrow>
      (case vpn_stack_try_from stk of Inl e \<Rightarrow> refuse s d e | Inr stk \<Rightarrow>
       save_settings_overlay ext i
         (set_mapping (edit_vpn_tun stk hijack (edit_vpn_paws eng sys_proxy bypass root)) value)
         [''paws'', ''tun''] () s d)))"

definition set_profile_vpn_config ::
  "yaml ext \<Rightarrow> yaml_io \<Rightarrow> string \<Rightarrow> bool \<Rightarrow> bool \<Rightarrow> bool \<Rightarrow> string \<Rightarrow>
   yaml store \<Rightarrow> disk \<Rightarrow> (yaml, unit) op_result" where
  "set_profile_vpn_config ext io i sys_proxy hijack bypass stk s d =
    (case vpn_options_for_profile io i s d of
       (d, Inl e) \<Rightarrow> refuse s d e
     | (d, Inr options) \<Rightarrow> set_profile_vpn_config_with_engine ext io i
         (vpn_engine_as_str (engine options)) sys_proxy hijack bypass stk s d)"

definition app_name_ok :: "string \<Rightarrow> bool" where
  "app_name_ok app \<longleftrightarrow> length app \<le> 255 \<and> CHR ''.'' \<in> set app \<and>
     list_all (\<lambda>c. (let n = of_char c :: nat in 48 \<le> n \<and> n \<le> 57 \<or> 65 \<le> n \<and> n \<le> 90 \<or> 97 \<le> n \<and> n \<le> 122)
       \<or> c = CHR ''.'' \<or> c = CHR ''_'') app"

definition edit_applications :: "string list \<Rightarrow> string list \<Rightarrow> mapping \<Rightarrow> mapping" where
  "edit_applications trusted blocked root =
    (let paws = put_string_sequence ''blocked-applications'' blocked
           (put_string_sequence ''trusted-applications'' trusted (section_of root ''paws'')) in
     insert_key ''paws'' (YMapping paws) root)"

definition save_applications ::
  "yaml ext \<Rightarrow> yaml_io \<Rightarrow> string \<Rightarrow> string list \<Rightarrow> string list \<Rightarrow> yaml store \<Rightarrow> disk \<Rightarrow> (yaml, unit) op_result" where
  "save_applications ext io i trusted blocked s d =
    editing io i ''Invalid profile'' s d (\<lambda>d value root.
      save_settings_overlay ext i (set_mapping (edit_applications trusted blocked root) value) [''paws''] () s d)"

definition set_profile_vpn_config_with_apps_and_engine ::
  "yaml ext \<Rightarrow> yaml_io \<Rightarrow> string \<Rightarrow> string \<Rightarrow> bool \<Rightarrow> bool \<Rightarrow> bool \<Rightarrow> string \<Rightarrow> string list \<Rightarrow> string list \<Rightarrow>
   yaml store \<Rightarrow> disk \<Rightarrow> (yaml, unit) op_result" where
  "set_profile_vpn_config_with_apps_and_engine ext io i eng sys_proxy hijack bypass stk trusted blocked s d =
    (if trusted \<noteq> [] \<and> blocked \<noteq> [] then
       refuse s d (Core ''Choose either VPN trustlist or blocklist'')
     else if \<not> list_all app_name_ok (trusted @ blocked) then
       refuse s d (Core ''Invalid application bundle name'')
     else case set_profile_vpn_config_with_engine ext io i eng sys_proxy hijack bypass stk s d of
         (s, d, Inl e) \<Rightarrow> (s, d, Inl e)
       | (s, d, Inr _) \<Rightarrow> save_applications ext io i trusted blocked s d)"

definition set_profile_vpn_config_with_apps ::
  "yaml ext \<Rightarrow> yaml_io \<Rightarrow> string \<Rightarrow> bool \<Rightarrow> bool \<Rightarrow> bool \<Rightarrow> string \<Rightarrow> string list \<Rightarrow> string list \<Rightarrow>
   yaml store \<Rightarrow> disk \<Rightarrow> (yaml, unit) op_result" where
  "set_profile_vpn_config_with_apps ext io i sys_proxy hijack bypass stk trusted blocked s d =
    (case vpn_options_for_profile io i s d of
       (d, Inl e) \<Rightarrow> refuse s d e
     | (d, Inr options) \<Rightarrow> set_profile_vpn_config_with_apps_and_engine ext io i
         (vpn_engine_as_str (engine options)) sys_proxy hijack bypass stk trusted blocked s d)"

definition edit_network ::
  "network_port_config \<Rightarrow> bool \<Rightarrow> string option \<Rightarrow> mapping \<Rightarrow> mapping" where
  "edit_network ports allow_lan secret root =
    (let paws = section_of root ''paws'';
         paws = put_i64 ''mixed-port'' (int (unat (mixed_port ports))) paws;
         paws = put_bool ''mixed-enabled'' (mixed_enabled ports) paws;
         paws = put_i64 ''controller-port'' (int (unat (controller_port ports))) paws;
         paws = put_bool ''controller-enabled'' (controller_enabled ports) paws;
         paws = put_bool ''controller-allow-lan'' allow_lan paws;
         paws = (case secret of None \<Rightarrow> paws | Some sec \<Rightarrow> put_string ''controller-secret'' sec paws) in
     insert_key ''paws'' (YMapping paws) (remove_key ''paws'' root))"

definition kept_secret :: "mapping \<Rightarrow> string option" where
  "kept_secret paws =
    (case (case get_string paws ''controller-secret'' of None \<Rightarrow> get_string paws ''controllerSecret'' | x \<Rightarrow> x) of
       None \<Rightarrow> None
     | Some secret \<Rightarrow> if controller_secret_is_valid secret then Some secret else None)"

definition set_profile_network_config ::
  "yaml ext \<Rightarrow> yaml_io \<Rightarrow> string + byte list \<Rightarrow> string \<Rightarrow> network_port_config \<Rightarrow> bool \<Rightarrow>
   yaml store \<Rightarrow> disk \<Rightarrow> (yaml, network_port_config \<times> controller_access_config) op_result" where
  "set_profile_network_config ext io drawn i ports allow_lan s d =
    (case network_port_config_validate ports of Inl e \<Rightarrow> refuse s d e | Inr ports \<Rightarrow>
     editing io i NO_ROOT s d (\<lambda>d value root.
      (case (case kept_secret (section_of root ''paws'') of
               None \<Rightarrow> if allow_lan then rbind (generate_secret drawn) (\<lambda>sec. Inr (Some sec)) else Inr None
             | Some sec \<Rightarrow> Inr (Some sec)) of
         Inl e \<Rightarrow> refuse s d e
       | Inr secret \<Rightarrow>
           save_settings_overlay ext i (set_mapping (edit_network ports allow_lan secret root) value) [''paws'']
             (ports, \<lparr>ca_allow_lan = allow_lan, ca_secret = secret\<rparr>) s d)))"

end
