(* ===== verification/RuntimeYaml.thy ===== *)
theory RuntimeYaml
  imports SettingsOverlay
begin

text \<open>
  The configuration an engine runs with, \<open>crates/paws_profile/src/runtime_config.rs\<close> and
  \<open>ProfileStore::render_runtime_yaml\<close>: the YAML of the profile with everything the application manages
  removed or replaced. The hash of a provider name and the URL parser are arguments. Directories are no
  part of the disk; creating one can only fail.
\<close>

record render_lib =
  rl_hash :: "string \<Rightarrow> u64"
  rl_url_domain :: "string \<Rightarrow> bool option"

definition DEFAULT_TCP_CONNECT_TIMEOUT_SECONDS :: int where "DEFAULT_TCP_CONNECT_TIMEOUT_SECONDS = 10"

definition DEFAULT_PROXY_SUBSCRIPTION_RULES :: "string list" where
  "DEFAULT_PROXY_SUBSCRIPTION_RULES = [''GEOSITE,cn,DIRECT'', ''GEOIP,CN,DIRECT'', ''MATCH,Proxy'']"

subsection \<open>Strings\<close>

text \<open>\<open>split_once\<close> at the first occurrence of a text, \<open>rsplit_once\<close> at the last one of a character.\<close>

fun split_once :: "string \<Rightarrow> string \<Rightarrow> (string \<times> string) option" where
  "split_once sep s =
    (if take (length sep) s = sep then Some ([], drop (length sep) s)
     else case s of [] \<Rightarrow> None
       | c # r \<Rightarrow> map_option (\<lambda>(a, b). (c # a, b)) (split_once sep r))"

declare split_once.simps [simp del]

definition strip_prefix :: "string \<Rightarrow> string \<Rightarrow> string option" where
  "strip_prefix p s = (if take (length p) s = p then Some (drop (length p) s) else None)"

definition rsplit_once :: "char \<Rightarrow> string \<Rightarrow> (string \<times> string) option" where
  "rsplit_once c s = (let parts = split_on c s in
     if length parts \<le> 1 then None else Some (join_with [c] (butlast parts), last parts))"

definition parse_u16 :: "string \<Rightarrow> nat option" where
  "parse_u16 s = (case parse_u128 s of None \<Rightarrow> None | Some n \<Rightarrow> if n < 65536 then Some n else None)"

subsection \<open>What the application manages\<close>

definition APP_MANAGED_KEYS :: "string list" where
  "APP_MANAGED_KEYS =
    [''port'', ''socks-port'', ''redir-port'', ''tproxy-port'', ''mixed-port'', ''allow-lan'', ''bind-address'',
     ''lan-allowed-ips'', ''lan-disallowed-ips'', ''authentication'', ''skip-auth-prefixes'',
     ''external-controller'', ''external-controller-tls'', ''external-controller-unix'',
     ''external-controller-pipe'', ''external-ui'', ''external-ui-name'', ''external-ui-url'',
     ''external-controller-cors'', ''secret'', ''routing-mark'', ''interface-name'', ''tproxy-sni'',
     ''subscriptions'', ''listeners'']"

definition sanitize_app_managed_config :: "mapping \<Rightarrow> mapping" where
  "sanitize_app_managed_config root = fold remove_key APP_MANAGED_KEYS root"

definition APP_MANAGED_DNS_KEYS :: "string list" where
  "APP_MANAGED_DNS_KEYS =
    [''enhanced-mode'', ''fake-ip-range'', ''fake-ip-filter'', ''fake-ip-filter-mode'', ''fallback-filter'']"

definition remove_app_managed_dns_fields :: "mapping \<Rightarrow> mapping" where
  "remove_app_managed_dns_fields dns = fold remove_key APP_MANAGED_DNS_KEYS dns"

definition sanitize_app_managed_dns_for_validation :: "mapping \<Rightarrow> mapping" where
  "sanitize_app_managed_dns_for_validation root =
    (case get_key root ''dns'' of
       Some (YMapping dns) \<Rightarrow> insert_key ''dns'' (YMapping (put_bool ''use-system-hosts'' False
         (remove_key ''default-nameserver'' (remove_key ''listen'' (remove_app_managed_dns_fields dns))))) root
     | _ \<Rightarrow> root)"

definition remove_app_managed_geodata_fields :: "mapping \<Rightarrow> mapping" where
  "remove_app_managed_geodata_fields root =
    (case get_key root ''geodata'' of
       Some (YMapping geodata) \<Rightarrow> insert_key ''geodata'' (YMapping (fold remove_key
         [''auto-update'', ''auto-update-interval'', ''url'', ''geodata-mode'', ''geodata-loader'', ''geoip-matcher'']
         geodata)) root
     | _ \<Rightarrow> root)"

definition controller_addr :: "string \<Rightarrow> u16 \<Rightarrow> string" where
  "controller_addr host port = host @ '':'' @ decimal (unat port)"

definition patch_controller_access :: "controller_access_config \<Rightarrow> u16 \<Rightarrow> mapping \<Rightarrow> mapping presult" where
  "patch_controller_access access port root =
    (if ca_allow_lan access then
       (case ca_secret access of
          Some secret \<Rightarrow>
            if controller_secret_is_valid secret then
              Inr (put_string ''secret'' secret
                (put_string ''external-controller'' (controller_addr CONTROLLER_LAN_HOST port) root))
            else Inl SECRET_REQUIRED
        | None \<Rightarrow> Inl SECRET_REQUIRED)
     else Inr (remove_key ''secret''
       (put_string ''external-controller'' (controller_addr CONTROLLER_LOOPBACK_HOST port) root)))"

definition GEOX_BASE :: string where
  "GEOX_BASE = ''https://github.com/MetaCubeX/meta-rules-dat/releases/download/latest/''"

definition patch_geox_url :: "mapping \<Rightarrow> mapping" where
  "patch_geox_url root =
    (let geox = section_of root ''geox-url'';
         geox = put_string ''asn'' (GEOX_BASE @ ''GeoLite2-ASN.mmdb'')
           (put_string ''mmdb'' (GEOX_BASE @ ''country.mmdb'')
           (put_string ''geosite'' (GEOX_BASE @ ''geosite.dat'')
           (put_string ''geoip'' (GEOX_BASE @ ''geoip.dat'') geox))) in
     insert_key ''geox-url'' (YMapping geox) (remove_key ''geox-url'' root))"

definition create_dir_all :: "disk \<Rightarrow> disk \<times> unit presult" where
  "create_dir_all d = (case next_fault d of (Some e, d) \<Rightarrow> (d, Inl (Io e)) | (None, d) \<Rightarrow> (d, Inr ()))"

definition patch_geodata_paths :: "string \<Rightarrow> mapping \<Rightarrow> disk \<Rightarrow> disk \<times> mapping presult" where
  "patch_geodata_paths store_root root d =
    (let geodata_dir = join store_root ''geodata'' in
     (case create_dir_all d of
        (d, Inl e) \<Rightarrow> (d, Inl e)
      | (d, Inr _) \<Rightarrow>
          let geodata = put_string ''geosite-path'' (join geodata_dir ''geosite.dat'')
                (put_string ''asn-path'' (join geodata_dir ''GeoLite2-ASN.mmdb'')
                (put_string ''mmdb-path'' (join geodata_dir ''Country.mmdb'') [])) in
          (d, Inr (insert_key ''geodata'' (YMapping geodata) (remove_key ''geodata'' root)))))"

definition patch_tun :: "vpn_options \<Rightarrow> mapping \<Rightarrow> mapping" where
  "patch_tun options root =
    (let tun = put_bool ''auto-route'' True (put_string ''stack'' (stack options)
           (put_i64 ''mtu'' (uint (mtu options)) (put_string ''device'' ''Paws'' (put_bool ''enable'' True []))));
         tun = (if dns_hijacking options then insert_key ''dns-hijack'' (YSequence [YString ''any:53'']) tun
                else tun) in
     insert_key ''tun'' (YMapping tun) root)"

text \<open>The configuration of an application without a profile.\<close>

definition default_runtime_yaml :: string where
  "default_runtime_yaml = concat (map (\<lambda>line. line @ [CHR 0x0A])
    [''mixed-port: '' @ decimal (unat (mixed_port network_port_config_default)),
     ''mode: rule'', ''log-level: info'',
     ''tcp-connect-timeout: '' @ decimal (nat DEFAULT_TCP_CONNECT_TIMEOUT_SECONDS),
     ''external-controller: '' @ controller_addr CONTROLLER_LOOPBACK_HOST (controller_port network_port_config_default),
     ''dns:'', ''  enable: true'', ''  listen: 127.0.0.1:1053'',
     ''  default-nameserver:'', ''    - 223.5.5.5'', ''    - 119.29.29.29'',
     ''  nameserver:'', ''    - 223.5.5.5'', ''    - 119.29.29.29'',
     ''  fallback:'', ''    - 1.1.1.1'', ''    - 8.8.8.8'',
     ''  nameserver-policy:'',
     ''    geosite:cn:'', ''      - 223.5.5.5'', ''      - 119.29.29.29'',
     ''    geosite:geolocation-!cn:'', ''      - 1.1.1.1'', ''      - 8.8.8.8'',
     ''proxies: []'', ''proxy-groups:'', ''  - name: Proxy'', ''    type: select'', ''    proxies:'', ''      - DIRECT'',
     ''rules:'', ''  - MATCH,DIRECT''])"

subsection \<open>The DNS section\<close>

definition encrypted_dns_server_uses_hostname :: "render_lib \<Rightarrow> string \<Rightarrow> bool" where
  "encrypted_dns_server_uses_hostname lib server =
    (case split_once ''://'' server of
       None \<Rightarrow> False
     | Some (scheme, _) \<Rightarrow>
         if scheme \<notin> {''https'', ''tls'', ''quic'', ''h3''} then False
         else (case rl_url_domain lib server of None \<Rightarrow> True | Some b \<Rightarrow> b))"

definition dns_config_needs_default_nameserver :: "render_lib \<Rightarrow> vpn_options \<Rightarrow> bool" where
  "dns_config_needs_default_nameserver lib options =
    list_ex (encrypted_dns_server_uses_hostname lib)
      (dns_servers options @ dns_fallbacks options @ concat (map snd (dns_nameserver_policy options)))"

definition default_dns_bootstrap_servers :: "render_lib \<Rightarrow> vpn_options \<Rightarrow> string list" where
  "default_dns_bootstrap_servers lib options =
    DEFAULT_CHINA_DNS_SERVERS @
    filter (\<lambda>_. dns_config_needs_default_nameserver lib options) DEFAULT_GLOBAL_DNS_FALLBACKS"

text \<open>A proxy name server that is the listener the application replaces.\<close>

definition is_own_listener :: "nat option \<Rightarrow> yaml \<Rightarrow> bool" where
  "is_own_listener original_port server =
    (case yaml_as_str server of
       None \<Rightarrow> False
     | Some server \<Rightarrow>
         let endpoint = (case strip_prefix ''udp://'' server of Some e \<Rightarrow> e
               | None \<Rightarrow> (case strip_prefix ''tcp://'' server of Some e \<Rightarrow> e | None \<Rightarrow> server)) in
         (case rsplit_once (CHR '':'') endpoint of
            None \<Rightarrow> False
          | Some (host, port) \<Rightarrow>
              (case parse_u16 port of
                 None \<Rightarrow> False
               | Some port \<Rightarrow> host \<in> {''127.0.0.1'', ''localhost'', ''[::1]'', ''0.0.0.0''} \<and>
                   (Some port = original_port \<or> port = 1053))))"

definition drop_own_listener :: "mapping \<Rightarrow> mapping" where
  "drop_own_listener dns =
    (let original_port = Option.bind (get_string dns ''listen'')
           (\<lambda>listen. parse_u16 (last (split_on (CHR '':'') listen))) in
     (case get_key dns ''proxy-server-nameserver'' of
        Some (YSequence servers) \<Rightarrow>
          let servers = filter (\<lambda>server. \<not> is_own_listener original_port server) servers in
          if servers = [] then remove_key ''proxy-server-nameserver'' dns
          else insert_key ''proxy-server-nameserver'' (YSequence servers) dns
      | _ \<Rightarrow> dns))"

definition patch_dns :: "render_lib \<Rightarrow> vpn_options \<Rightarrow> mapping \<Rightarrow> mapping" where
  "patch_dns lib options root =
    (let dns = drop_own_listener (section_of root ''dns'');
         dns = put_string ''listen'' ''127.0.0.1:1053'' (put_bool ''enable'' True dns);
         dns = insert_key ''nameserver'' (string_sequence (dns_servers options)) dns;
         dns = (if dns_fallbacks options \<noteq> []
                then insert_key ''fallback'' (string_sequence (dns_fallbacks options)) dns
                else remove_key ''fallback'' dns);
         dns = (if dns_nameserver_policy options \<noteq> []
                then insert_key ''nameserver-policy'' (policy_mapping (dns_nameserver_policy options)) dns
                else remove_key ''nameserver-policy'' dns);
         dns = put_bool ''use-system-hosts'' False (remove_app_managed_dns_fields dns);
         dns = insert_key ''default-nameserver'' (string_sequence (default_dns_bootstrap_servers lib options)) dns in
     insert_key ''dns'' (YMapping dns) (remove_key ''dns'' root))"

subsection \<open>Generated subscription rules\<close>

definition rule_is :: "string \<Rightarrow> yaml \<Rightarrow> bool" where
  "rule_is expected v = (case yaml_as_str v of None \<Rightarrow> False | Some s \<Rightarrow> eq_ignore_ascii_case s expected)"

definition looks_like_generated_proxy_subscription :: "mapping \<Rightarrow> bool" where
  "looks_like_generated_proxy_subscription root =
    (case Option.bind (get_key root ''proxies'') yaml_as_sequence of
       None \<Rightarrow> False
     | Some proxies \<Rightarrow>
         let proxy_names = List.map_filter (\<lambda>p. get_string p ''name'') (List.map_filter yaml_as_mapping proxies) in
         if proxy_names = [] \<or> length proxy_names \<noteq> length proxies then False
         else (case Option.bind (get_key root ''proxy-groups'') yaml_as_sequence of
             Some [YMapping g] \<Rightarrow>
               get_string g ''name'' = Some ''Proxy'' \<and> get_string g ''type'' = Some ''select'' \<and>
               get_string_list g ''proxies'' = proxy_names @ [''DIRECT'']
           | _ \<Rightarrow> False))"

definition upgrade_legacy_generated_subscription_rules :: "mapping \<Rightarrow> mapping" where
  "upgrade_legacy_generated_subscription_rules root =
    (if (case Option.bind (get_key root ''rules'') yaml_as_sequence of
           Some [rule] \<Rightarrow> rule_is ''MATCH,Proxy'' rule | _ \<Rightarrow> False)
        \<and> looks_like_generated_proxy_subscription root
     then insert_key ''rules'' (string_sequence DEFAULT_PROXY_SUBSCRIPTION_RULES) root else root)"

text \<open>\<open>path.metadata().map(len > 0).unwrap_or(false)\<close>; so do \<open>exists\<close> and \<open>is_file\<close> below answer.\<close>

definition file_has_content :: "string \<Rightarrow> disk \<Rightarrow> disk \<times> bool" where
  "file_has_content path d =
    (case next_fault d of (Some _, d) \<Rightarrow> (d, False)
     | (None, d) \<Rightarrow> (d, dk_files d path \<noteq> None \<and> dk_files d path \<noteq> Some []))"

definition prune_unavailable_default_subscription_rules :: "string \<Rightarrow> mapping \<Rightarrow> disk \<Rightarrow> disk \<times> mapping" where
  "prune_unavailable_default_subscription_rules store_root root d =
    (case get_key root ''rules'' of
       Some (YSequence rules) \<Rightarrow>
         if length rules \<noteq> length DEFAULT_PROXY_SUBSCRIPTION_RULES \<or>
            \<not> list_all2 (\<lambda>actual expected. rule_is expected actual) rules DEFAULT_PROXY_SUBSCRIPTION_RULES
         then (d, root)
         else
           let (d, geosite) = file_has_content (join (join store_root ''geodata'') ''geosite.dat'') d;
               (d, geoip) = file_has_content (join (join store_root ''geodata'') ''Country.mmdb'') d in
           (d, insert_key ''rules'' (YSequence (filter (\<lambda>rule. yaml_as_str rule = None \<or>
              (\<not> rule_is (DEFAULT_PROXY_SUBSCRIPTION_RULES ! 0) rule \<or> geosite) \<and>
              (\<not> rule_is (DEFAULT_PROXY_SUBSCRIPTION_RULES ! 1) rule \<or> geoip)) rules)) root)
     | _ \<Rightarrow> (d, root))"

subsection \<open>Provider caches\<close>

text \<open>One underscore for each character that is not allowed: its continuation bytes go.\<close>

definition sanitize_char :: "char \<Rightarrow> string" where
  "sanitize_char c =
    (if is_ascii_alphanumeric c \<or> c = CHR ''-'' \<or> c = CHR ''_'' \<or> c = CHR ''.'' then [c]
     else if 128 \<le> (of_char c :: nat) \<and> (of_char c :: nat) < 192 then [] else ''_'')"

definition trim_dots :: "string \<Rightarrow> string" where
  "trim_dots s = rev (dropWhile (\<lambda>c. c = CHR ''.'') (rev (dropWhile (\<lambda>c. c = CHR ''.'') s)))"

fun hex_digits :: "nat \<Rightarrow> nat \<Rightarrow> string" where
  "hex_digits 0 n = []"
| "hex_digits (Suc k) n = hex_digits k (n div 16) @ [hex_digit (n mod 16)]"

definition provider_cache_file_name :: "(string \<Rightarrow> u64) \<Rightarrow> string \<Rightarrow> string" where
  "provider_cache_file_name hash nm =
    (let base = trim_dots (concat (map sanitize_char nm)) in
     if base \<noteq> [] \<and> base = nm then base @ ''.yaml''
     else (if base = [] then ''provider'' else base) @ ''-'' @ hex_digits 16 (unat (hash nm)) @ ''.yaml'')"

definition provider_type_is :: "mapping \<Rightarrow> string \<Rightarrow> bool" where
  "provider_type_is provider expected =
    (case Option.bind (get_key provider ''type'') yaml_as_str of
       None \<Rightarrow> False | Some t \<Rightarrow> eq_ignore_ascii_case t expected)"

definition path_exists :: "string \<Rightarrow> disk \<Rightarrow> disk \<times> bool" where
  "path_exists path d = (case next_fault d of (Some _, d) \<Rightarrow> (d, False) | (None, d) \<Rightarrow> (d, dk_files d path \<noteq> None))"

definition copy_file :: "string \<Rightarrow> string \<Rightarrow> disk \<Rightarrow> disk \<times> unit presult" where
  "copy_file src dst d =
    (case next_fault d of (Some e, d) \<Rightarrow> (d, Inl (Io e))
     | (None, d) \<Rightarrow> (case dk_files d src of
         None \<Rightarrow> (d, Inl (Io NOT_FOUND)) | Some content \<Rightarrow> (set_file dst (Some content) d, Inr ())))"

definition migrate_cache :: "string \<Rightarrow> string \<Rightarrow> disk \<Rightarrow> disk \<times> unit presult" where
  "migrate_cache legacy_path path d =
    (case path_exists path d of
       (d, True) \<Rightarrow> (d, Inr ())
     | (d, False) \<Rightarrow> (case path_exists legacy_path d of
         (d, True) \<Rightarrow> copy_file legacy_path path d
       | (d, False) \<Rightarrow> (d, Inr ())))"

fun rewrite_providers ::
  "(string \<Rightarrow> u64) \<Rightarrow> string \<Rightarrow> string \<Rightarrow> bool \<Rightarrow> mapping \<Rightarrow> disk \<Rightarrow> disk \<times> mapping presult" where
  "rewrite_providers hash cache_dir legacy_dir trim_inline [] d = (d, Inr [])"
| "rewrite_providers hash cache_dir legacy_dir trim_inline ((nm, provider) # providers) d =
    (let rest = (\<lambda>provider d. (case rewrite_providers hash cache_dir legacy_dir trim_inline providers d of
           (d, Inl e) \<Rightarrow> (d, Inl e) | (d, Inr ps) \<Rightarrow> (d, Inr ((nm, provider) # ps)))) in
     (case (nm, provider) of
        (YString n, YMapping p) \<Rightarrow>
          if trim_inline \<and> provider_type_is p ''inline'' then
            rest (YMapping (remove_key ''interval'' (remove_key ''path'' p))) d
          else
            let file_name = provider_cache_file_name hash n; path = join cache_dir file_name in
            (case migrate_cache (join legacy_dir file_name) path d of
               (d, Inl e) \<Rightarrow> (d, Inl e)
             | (d, Inr _) \<Rightarrow> rest (YMapping (insert_key ''path'' (YString path) p)) d)
      | _ \<Rightarrow> rest provider d))"

definition rewrite_provider_kind ::
  "(string \<Rightarrow> u64) \<Rightarrow> string \<Rightarrow> string \<Rightarrow> string \<Rightarrow> bool \<Rightarrow> mapping \<Rightarrow> disk \<Rightarrow> disk \<times> mapping presult" where
  "rewrite_provider_kind hash key cache_dir legacy_dir trim_inline root d =
    (case get_key root key of
       Some (YMapping providers) \<Rightarrow>
         (case create_dir_all d of
            (d, Inl e) \<Rightarrow> (d, Inl e)
          | (d, Inr _) \<Rightarrow> (case rewrite_providers hash cache_dir legacy_dir trim_inline providers d of
              (d, Inl e) \<Rightarrow> (d, Inl e)
            | (d, Inr ps) \<Rightarrow> (d, Inr (insert_key key (YMapping ps) root))))
     | _ \<Rightarrow> (d, Inr root))"

definition rewrite_provider_paths ::
  "(string \<Rightarrow> u64) \<Rightarrow> string \<Rightarrow> string \<Rightarrow> mapping \<Rightarrow> disk \<Rightarrow> disk \<times> mapping presult" where
  "rewrite_provider_paths hash store_root profile_id root d =
    (case rewrite_provider_kind hash ''proxy-providers'' (join (join store_root ''runtime/providers/proxy'') profile_id)
            (join (join store_root ''providers/proxy'') profile_id) False root d of
       (d, Inl e) \<Rightarrow> (d, Inl e)
     | (d, Inr root) \<Rightarrow>
         rewrite_provider_kind hash ''rule-providers'' (join (join store_root ''runtime/providers/rule'') profile_id)
           (join (join store_root ''providers/rule'') profile_id) True root d)"

subsection \<open>Rules\<close>

definition is_match_rule :: "yaml \<Rightarrow> bool" where
  "is_match_rule rule = (case yaml_as_str rule of None \<Rightarrow> False
     | Some line \<Rightarrow> take 6 (to_ascii_uppercase (str_trim_start line)) = ''MATCH,'')"

fun dedup_rules_from :: "bool \<Rightarrow> yaml list \<Rightarrow> yaml list" where
  "dedup_rules_from seen_match [] = []"
| "dedup_rules_from seen_match (rule # rules) =
    (if is_match_rule rule then
       if seen_match then dedup_rules_from seen_match rules else rule # dedup_rules_from True rules
     else rule # dedup_rules_from seen_match rules)"

definition dedup_rules :: "yaml list \<Rightarrow> yaml list" where
  "dedup_rules rules = dedup_rules_from False rules"

definition merge_rules :: "string list \<Rightarrow> mapping \<Rightarrow> mapping" where
  "merge_rules extra_rules root =
    (if extra_rules = [] then root
     else
       let original = (case Option.bind (get_key root ''rules'') yaml_as_sequence of None \<Rightarrow> [] | Some rs \<Rightarrow> rs) in
       insert_key ''rules'' (YSequence (dedup_rules (map YString extra_rules @ original))) (remove_key ''rules'' root))"

subsection \<open>Rendering\<close>

definition patch_scalars :: "runtime_mode \<Rightarrow> vpn_options \<Rightarrow> network_port_config \<Rightarrow> mapping \<Rightarrow> mapping" where
  "patch_scalars mode options ports root =
    (let root = put_string ''log-level'' ''info'' (put_bool ''ipv6'' (ipv6 options)
           (put_string ''mode'' (runtime_mode_as_str mode) (sanitize_app_managed_config root)));
         root = (if get_key root ''tcp-connect-timeout'' = None
                 then put_i64 ''tcp-connect-timeout'' DEFAULT_TCP_CONNECT_TIMEOUT_SECONDS root else root) in
     put_i64 ''mixed-port'' (uint (mixed_port ports)) root)"

definition render_root ::
  "render_lib \<Rightarrow> string \<Rightarrow> string \<Rightarrow> string list \<Rightarrow> runtime_mode \<Rightarrow> vpn_options \<Rightarrow> mapping \<Rightarrow> disk \<Rightarrow>
   disk \<times> mapping presult" where
  "render_root lib store_root profile_id lines mode options root d =
    (case controller_access_from_mapping root of Inl e \<Rightarrow> (d, Inl e) | Inr access \<Rightarrow>
    (case network_ports_from_mapping root of Inl e \<Rightarrow> (d, Inl e) | Inr ports \<Rightarrow>
    (case patch_controller_access access (controller_port ports) (patch_scalars mode options ports root) of
       Inl e \<Rightarrow> (d, Inl e) | Inr root \<Rightarrow>
    (case patch_geodata_paths store_root (patch_geox_url root) d of
       (d, Inl e) \<Rightarrow> (d, Inl e) | (d, Inr root) \<Rightarrow>
       let (d, root) = prune_unavailable_default_subscription_rules store_root
             (upgrade_legacy_generated_subscription_rules root) d in
       (case rewrite_provider_paths (rl_hash lib) store_root profile_id
               (patch_tun options (patch_dns lib options root)) d of
          (d, Inl e) \<Rightarrow> (d, Inl e)
        | (d, Inr root) \<Rightarrow> (d, Inr (merge_rules lines root)))))))"

definition render_runtime_yaml ::
  "yaml_io \<Rightarrow> render_lib \<Rightarrow> string \<Rightarrow> runtime_mode \<Rightarrow> vpn_options \<Rightarrow> yaml store \<Rightarrow> disk \<Rightarrow> disk \<times> string presult" where
  "render_runtime_yaml io lib profile_id mode options s d =
    (case raw_yaml io profile_id s d of
       (d, Inl e) \<Rightarrow> (d, Inl e)
     | (d, Inr text) \<Rightarrow> (case yl_parse io text of
         Inl e \<Rightarrow> (d, Inl (Core e))
       | Inr v \<Rightarrow> (case yaml_as_mapping v of
           None \<Rightarrow> (d, Inl (Core ''profile root must be a YAML map''))
         | Some root \<Rightarrow>
             (case render_root lib (st_root s) profile_id (enabled_rule_lines profile_id s) mode options root d of
                (d, Inl e) \<Rightarrow> (d, Inl e)
              | (d, Inr root) \<Rightarrow> (d, (case yl_print io (set_mapping root v) of
                  Inl e \<Rightarrow> Inl (Core e) | Inr text \<Rightarrow> Inr text))))))"

definition runtime_yaml_path :: "string \<Rightarrow> string \<Rightarrow> string" where
  "runtime_yaml_path root profile_id = join (join root ''runtime'') (profile_id @ ''.yaml'')"

definition write_runtime_yaml :: "string \<Rightarrow> string \<Rightarrow> yaml store \<Rightarrow> disk \<Rightarrow> disk \<times> unit presult" where
  "write_runtime_yaml profile_id text s d =
    (case ensure_available s of Inl e \<Rightarrow> (d, Inl e)
     | Inr _ \<Rightarrow> atomic_write (runtime_yaml_path (st_root s) profile_id) (str_bytes text) d)"

definition build_runtime_yaml ::
  "yaml_io \<Rightarrow> render_lib \<Rightarrow> string \<Rightarrow> runtime_mode \<Rightarrow> vpn_options \<Rightarrow> yaml store \<Rightarrow> disk \<Rightarrow> disk \<times> string presult" where
  "build_runtime_yaml io lib profile_id mode options s d =
    (case render_runtime_yaml io lib profile_id mode options s d of
       (d, Inl e) \<Rightarrow> (d, Inl e)
     | (d, Inr text) \<Rightarrow> (case write_runtime_yaml profile_id text s d of
         (d, Inl e) \<Rightarrow> (d, Inl e) | (d, Inr _) \<Rightarrow> (d, Inr text)))"

end
