(* ===== verification/SubscriptionText.thy ===== *)
theory SubscriptionText
  imports RuntimeYaml
begin

text \<open>
  What a subscription says about itself, \<open>crates/paws_profile/src/subscription.rs\<close>: the user information
  and the metadata in its headers and its leading comments, and the text encodings they are read
  through. The URL parser, percent decoding, base64 and JSON are arguments (\<open>link_lib\<close>).
\<close>

subsection \<open>The libraries\<close>

text \<open>\<open>url::Url\<close> by its accessors; \<open>query_pairs\<close> are decoded.\<close>

record parsed_url =
  url_scheme :: string
  url_username :: string
  url_password :: "string option"
  url_host_str :: "string option"
  url_port_number :: "u16 option"
  url_fragment :: "string option"
  url_query_pairs :: "(string \<times> string) list"

text \<open>\<open>serde_json::Value\<close>; an object lists its entries in the order of its iterator.\<close>

datatype json =
    JNull
  | JBool bool
  | JNumber yaml_number
  | JString string
  | JArray "json list"
  | JObject "(string \<times> json) list"

record link_lib =
  ll_url :: "string \<Rightarrow> string + parsed_url"
  ll_form :: "string \<Rightarrow> (string \<times> string) list"
  ll_percent :: "string \<Rightarrow> string"
  ll_base64 :: "string \<Rightarrow> byte list option"
  ll_base64_url :: "string \<Rightarrow> byte list option"
  ll_json :: "string \<Rightarrow> string + json"
  ll_yaml :: yaml_io

subsection \<open>Strings\<close>

definition trim_char :: "char \<Rightarrow> string \<Rightarrow> string" where
  "trim_char c s = rev (dropWhile (\<lambda>x. x = c) (rev (dropWhile (\<lambda>x. x = c) s)))"

text \<open>\<open>splitn(n, c)\<close>: at most \<open>n\<close> parts, the last with the rest.\<close>

fun splitn :: "nat \<Rightarrow> char \<Rightarrow> string \<Rightarrow> string list" where
  "splitn 0 c s = []"
| "splitn (Suc 0) c s = [s]"
| "splitn (Suc (Suc n)) c s =
    (case split_once [c] s of None \<Rightarrow> [s] | Some (a, b) \<Rightarrow> a # splitn (Suc n) c b)"

definition parse_u64 :: "string \<Rightarrow> nat option" where
  "parse_u64 s = (case parse_u128 s of None \<Rightarrow> None | Some n \<Rightarrow> if n < 2 ^ 64 then Some n else None)"

definition parse_i64 :: "string \<Rightarrow> int option" where
  "parse_i64 s =
    (case s of
       c # r \<Rightarrow>
         if c = CHR ''-'' then
           (if r = [] then None
            else case parse_digits r 0 of None \<Rightarrow> None
              | Some n \<Rightarrow> if n \<le> 2 ^ 63 then Some (- int n) else None)
         else (case parse_u128 s of None \<Rightarrow> None | Some n \<Rightarrow> if n < 2 ^ 63 then Some (int n) else None)
     | [] \<Rightarrow> None)"

subsection \<open>User information\<close>

record userinfo_parts =
  up_upload :: "nat option"
  up_download :: "nat option"
  up_total :: "nat option"
  up_expire :: "string option"

definition userinfo_part :: "string \<Rightarrow> userinfo_parts \<Rightarrow> userinfo_parts" where
  "userinfo_part part u =
    (case split_once ''='' part of None \<Rightarrow> u
     | Some (key, value) \<Rightarrow>
         let key = to_ascii_lowercase (str_trim key); value = str_trim value in
         if key = ''upload'' then u\<lparr>up_upload := parse_u64 value\<rparr>
         else if key = ''download'' then u\<lparr>up_download := parse_u64 value\<rparr>
         else if key = ''total'' then u\<lparr>up_total := parse_u64 value\<rparr>
         else if key = ''expire'' then u\<lparr>up_expire :=
           (case parse_u64 value of None \<Rightarrow> None | Some e \<Rightarrow> if 0 < e then Some (decimal e) else None)\<rparr>
         else u)"

definition parse_subscription_userinfo :: "string \<Rightarrow> subscription_user_info option" where
  "parse_subscription_userinfo header =
    (let u = fold userinfo_part (split_on (CHR '';'') header)
           \<lparr>up_upload = None, up_download = None, up_total = None, up_expire = None\<rparr> in
     if up_upload u = None \<and> up_download u = None \<and> up_total u = None \<and> up_expire u = None then None
     else Some \<lparr>ui_upload_bytes = (case up_upload u of None \<Rightarrow> 0 | Some n \<Rightarrow> n),
                ui_download_bytes = (case up_download u of None \<Rightarrow> 0 | Some n \<Rightarrow> n),
                ui_total_bytes = up_total u, ui_expire_at = up_expire u\<rparr>)"

text \<open>The comments before the first line with content.\<close>

definition COMMENT_BOM :: string where "COMMENT_BOM = [CHR 0xEF, CHR 0xBB, CHR 0xBF]"

fun comments_of :: "string list \<Rightarrow> string list" where
  "comments_of [] = []"
| "comments_of (line # rest) =
    (let line = str_trim (trim_start_with [COMMENT_BOM] (str_trim line)) in
     if line = [] then comments_of rest
     else case strip_prefix ''#'' line of None \<Rightarrow> [] | Some comment \<Rightarrow> str_trim comment # comments_of rest)"

definition leading_subscription_comments :: "string \<Rightarrow> string list" where
  "leading_subscription_comments raw_profile = comments_of (str_lines raw_profile)"

definition comment_payload :: "string \<Rightarrow> string \<Rightarrow> string" where
  "comment_payload name comment =
    (case split_once '':'' comment of None \<Rightarrow> comment
     | Some (key, value) \<Rightarrow> if eq_ignore_ascii_case (str_trim key) name then str_trim value else comment)"

fun find_some :: "('a \<Rightarrow> 'b option) \<Rightarrow> 'a list \<Rightarrow> 'b option" where
  "find_some f [] = None"
| "find_some f (x # xs) = (case f x of None \<Rightarrow> find_some f xs | Some y \<Rightarrow> Some y)"

definition parse_subscription_userinfo_comment :: "string \<Rightarrow> subscription_user_info option" where
  "parse_subscription_userinfo_comment raw_profile =
    find_some (\<lambda>comment. parse_subscription_userinfo (comment_payload ''subscription-userinfo'' comment))
      (leading_subscription_comments raw_profile)"

subsection \<open>Metadata\<close>

definition decode_subscription_header_text :: "link_lib \<Rightarrow> string \<Rightarrow> string option" where
  "decode_subscription_header_text lib value =
    (let value = str_trim (trim_char (CHR 0x22) (str_trim value)) in
     if value = [] then None
     else let text = str_trim (trim_char (CHR 0x22) (str_trim (ll_percent lib value))) in
       if text = [] then None else Some text)"

definition clean_subscription_url :: "link_lib \<Rightarrow> string \<Rightarrow> string option" where
  "clean_subscription_url lib value =
    (case decode_subscription_header_text lib value of None \<Rightarrow> None
     | Some value \<Rightarrow> (case ll_url lib value of Inl _ \<Rightarrow> None
         | Inr url \<Rightarrow> if url_scheme url \<in> {''http'', ''https''} then Some value else None))"

definition parse_subscription_metadata ::
  "link_lib \<Rightarrow> string option \<Rightarrow> string option \<Rightarrow> string option \<Rightarrow> string option \<Rightarrow> subscription_metadata option" where
  "parse_subscription_metadata lib title update_interval web_page_url support_url =
    (let title = Option.bind title (decode_subscription_header_text lib);
         hours = Option.bind update_interval (\<lambda>value. parse_u64 (str_trim value));
         web = Option.bind web_page_url (clean_subscription_url lib);
         support = Option.bind support_url (clean_subscription_url lib) in
     if title = None \<and> hours = None \<and> web = None \<and> support = None then None
     else Some \<lparr>md_title = title, md_update_interval_hours = hours, md_web_page_url = web, md_support_url = support\<rparr>)"

definition split_subscription_metadata_part :: "string \<Rightarrow> (string \<times> string) option" where
  "split_subscription_metadata_part part =
    (case (case split_once ''='' part of None \<Rightarrow> split_once '':'' part | x \<Rightarrow> x) of None \<Rightarrow> None
     | Some (key, value) \<Rightarrow>
         let key = to_ascii_lowercase (map (\<lambda>c. if c = CHR ''_'' then CHR ''-'' else c) (str_trim key));
             value = str_trim value in
         if key = [] \<or> value = [] then None else Some (key, value))"

record metadata_parts =
  mp_title :: "string option"
  mp_interval :: "string option"
  mp_web :: "string option"
  mp_support :: "string option"

definition metadata_part :: "string \<Rightarrow> metadata_parts \<Rightarrow> metadata_parts" where
  "metadata_part part m =
    (case split_subscription_metadata_part part of None \<Rightarrow> m
     | Some (key, value) \<Rightarrow>
         if key = ''profile-title'' \<and> mp_title m = None then m\<lparr>mp_title := Some value\<rparr>
         else if key \<in> {''profile-update-interval'', ''update-interval''} \<and> mp_interval m = None
           then m\<lparr>mp_interval := Some value\<rparr>
         else if key \<in> {''profile-web-page-url'', ''web-page-url''} \<and> mp_web m = None then m\<lparr>mp_web := Some value\<rparr>
         else if key = ''support-url'' \<and> mp_support m = None then m\<lparr>mp_support := Some value\<rparr>
         else m)"

definition parse_subscription_metadata_comment :: "link_lib \<Rightarrow> string \<Rightarrow> subscription_metadata option" where
  "parse_subscription_metadata_comment lib raw_profile =
    (let m = fold (\<lambda>comment. fold metadata_part
               (split_on (CHR '';'') (comment_payload ''subscription-metadata'' comment)))
           (leading_subscription_comments raw_profile)
           \<lparr>mp_title = None, mp_interval = None, mp_web = None, mp_support = None\<rparr> in
     parse_subscription_metadata lib (mp_title m) (mp_interval m) (mp_web m) (mp_support m))"

fun filename_from :: "link_lib \<Rightarrow> string list \<Rightarrow> string option \<Rightarrow> string option" where
  "filename_from lib [] fallback = fallback"
| "filename_from lib (part # parts) fallback =
    (case split_once ''='' part of None \<Rightarrow> filename_from lib parts fallback
     | Some (key, value) \<Rightarrow>
         let key = to_ascii_lowercase (str_trim key); value = str_trim value in
         if key = ''filename*'' then
           decode_subscription_header_text lib
             (case strip_prefix [CHR ''U'', CHR ''T'', CHR ''F'', CHR ''-'', CHR ''8'', CHR 0x27, CHR 0x27] value of
                None \<Rightarrow> value | Some v \<Rightarrow> v)
         else filename_from lib parts
           (if key = ''filename'' then decode_subscription_header_text lib value else fallback))"

definition parse_content_disposition_filename :: "link_lib \<Rightarrow> string \<Rightarrow> string option" where
  "parse_content_disposition_filename lib header = filename_from lib (drop 1 (split_on (CHR '';'') header)) None"

end
