(* ===== verification/SubscriptionLinks.thy ===== *)
theory SubscriptionLinks
  imports SubscriptionText
begin

text \<open>
  The proxy links of a subscription, \<open>crates/paws_profile/src/subscription.rs\<close>: one function per kind of
  link gives the proxy's mapping, and the proxies of a subscription become the YAML of a profile.
\<close>

type_synonym query = "string \<Rightarrow> string option"

subsection \<open>Queries\<close>

definition or_insert :: "string \<Rightarrow> string \<Rightarrow> query \<Rightarrow> query" where
  "or_insert k v m = (if m k = None then m(k \<mapsto> v) else m)"

definition insert_query_value :: "string \<times> string \<Rightarrow> query \<Rightarrow> query" where
  "insert_query_value kv m = or_insert (fst kv) (snd kv) (or_insert (to_ascii_lowercase (fst kv)) (snd kv) m)"

definition query_map :: "parsed_url \<Rightarrow> query" where
  "query_map url = fold insert_query_value (url_query_pairs url) (\<lambda>_. None)"

definition raw_query_map :: "link_lib \<Rightarrow> string \<Rightarrow> query" where
  "raw_query_map lib q = fold insert_query_value (ll_form lib q) (\<lambda>_. None)"

definition query_get :: "query \<Rightarrow> string \<Rightarrow> string option" where
  "query_get q key = (case q key of None \<Rightarrow> q (to_ascii_lowercase key) | x \<Rightarrow> x)"

definition query_get_any :: "query \<Rightarrow> string list \<Rightarrow> string option" where
  "query_get_any q keys =
    (case find_some (query_get q) keys of None \<Rightarrow> None | Some v \<Rightarrow> if v = [] then None else Some v)"

definition truthy_value :: "string \<Rightarrow> bool" where
  "truthy_value value \<longleftrightarrow> to_ascii_lowercase (str_trim value) \<in> {''1'', ''true'', ''yes'', ''allow''}"

definition parse_boolish_value :: "string \<Rightarrow> bool option" where
  "parse_boolish_value value =
    (let v = to_ascii_lowercase (str_trim value) in
     if v \<in> {''1'', ''true'', ''yes'', ''allow'', ''on''} then Some True
     else if v \<in> {[], ''0'', ''false'', ''no'', ''none'', ''off'', ''deny''} then Some False
     else None)"

definition tls_enabled_value :: "string \<Rightarrow> bool" where
  "tls_enabled_value value \<longleftrightarrow> to_ascii_lowercase (str_trim value) \<notin> {[], ''0'', ''false'', ''none''}"

definition truthy_query :: "query \<Rightarrow> string \<Rightarrow> bool" where
  "truthy_query q key = (case query_get q key of None \<Rightarrow> False | Some v \<Rightarrow> truthy_value v)"

definition query_bool :: "query \<Rightarrow> string \<Rightarrow> bool option" where
  "query_bool q key = Option.bind (query_get q key) parse_boolish_value"

definition truthy_query_any :: "query \<Rightarrow> string list \<Rightarrow> bool" where
  "truthy_query_any q keys = list_ex (truthy_query q) keys"

text \<open>\<open>if let Some(value) = .. { put_string(..) }\<close> and its siblings.\<close>

definition put_some :: "string \<Rightarrow> string option \<Rightarrow> mapping \<Rightarrow> mapping" where
  "put_some key value proxy = (case value of None \<Rightarrow> proxy | Some v \<Rightarrow> put_string key v proxy)"

definition put_flag :: "string \<Rightarrow> bool \<Rightarrow> mapping \<Rightarrow> mapping" where
  "put_flag key condition proxy = (if condition then put_bool key True proxy else proxy)"

definition non_empty :: "string option \<Rightarrow> string option" where
  "non_empty value = (case value of None \<Rightarrow> None | Some v \<Rightarrow> if v = [] then None else Some v)"

definition INSECURE_KEYS :: "string list" where
  "INSECURE_KEYS = [''allowInsecure'', ''allow-insecure'', ''allow_insecure'', ''insecure'', ''skip-cert-verify'']"

definition split_list :: "string \<Rightarrow> string list" where
  "split_list value = filter (\<lambda>item. item \<noteq> []) (map str_trim (split_on (CHR '','') value))"

definition parse_positive_i64 :: "string \<Rightarrow> int option" where
  "parse_positive_i64 value =
    (case parse_i64 (str_trim value) of None \<Rightarrow> None | Some n \<Rightarrow> if 0 < n then Some n else None)"

subsection \<open>Base64\<close>

definition decode_base64_candidates :: "link_lib \<Rightarrow> string \<Rightarrow> string list" where
  "decode_base64_candidates lib value =
    (if value = [] then []
     else let t = str_trim value;
              padded = t @ replicate ((4 - length t mod 4) mod 4) (CHR ''='') in
       List.map_filter (\<lambda>decode. Option.bind (decode padded) from_utf8) [ll_base64 lib, ll_base64_url lib])"

definition decode_base64_text :: "link_lib \<Rightarrow> string \<Rightarrow> string option" where
  "decode_base64_text lib value = find_some (\<lambda>t.
     if str_contains t ''://'' \<or> (case yl_parse (ll_yaml lib) t of Inl _ \<Rightarrow> False | Inr _ \<Rightarrow> True) then Some t else None)
     (decode_base64_candidates lib value)"

definition decode_base64_component :: "link_lib \<Rightarrow> string \<Rightarrow> string option" where
  "decode_base64_component lib value =
    (case decode_base64_candidates lib value of [] \<Rightarrow> None | t # _ \<Rightarrow> Some t)"

definition is_ascii_whitespace :: "char \<Rightarrow> bool" where
  "is_ascii_whitespace c \<longleftrightarrow> (of_char c :: nat) \<in> {9, 10, 12, 13, 32}"

definition subscription_candidates :: "link_lib \<Rightarrow> string \<Rightarrow> string list" where
  "subscription_candidates lib raw_profile =
    remdups_adj (str_trim raw_profile # List.map_filter (decode_base64_text lib)
      [str_trim raw_profile, filter (\<lambda>c. \<not> is_ascii_whitespace c) raw_profile])"

subsection \<open>URLs\<close>

definition subscription_error :: "string \<Rightarrow> paws_error" where
  "subscription_error e = Core (''invalid subscription link: '' @ e)"

definition url_host :: "parsed_url \<Rightarrow> string presult" where
  "url_host url = (case url_host_str url of None \<Rightarrow> Inl (Core ''subscription link missing host'') | Some h \<Rightarrow> Inr h)"

definition url_port :: "parsed_url \<Rightarrow> u16 presult" where
  "url_port url = (case url_port_number url of None \<Rightarrow> Inl (Core ''subscription link missing port'') | Some p \<Rightarrow> Inr p)"

definition password_of :: "link_lib \<Rightarrow> parsed_url \<Rightarrow> string" where
  "password_of lib url = (case url_password url of None \<Rightarrow> [] | Some p \<Rightarrow> ll_percent lib p)"

definition url_credentials :: "link_lib \<Rightarrow> parsed_url \<Rightarrow> (string \<times> string) option" where
  "url_credentials lib url =
    (let username = ll_percent lib (url_username url); password = password_of lib url in
     if username = [] \<and> password = [] then None else Some (username, password))"

definition fragment_name :: "link_lib \<Rightarrow> parsed_url \<Rightarrow> string option" where
  "fragment_name lib url = non_empty (map_option (ll_percent lib) (url_fragment url))"

definition proxy_name_from_query :: "query \<Rightarrow> string option" where
  "proxy_name_from_query q = query_get_any q
     [''remarks'', ''remark'', ''name'', ''ps'', ''alias'', ''node'', ''node-name'', ''nodeName'']"

definition default_proxy_name :: "string \<Rightarrow> parsed_url \<Rightarrow> string" where
  "default_proxy_name prefix url = prefix @ ''-'' @ filter (\<lambda>c. c \<noteq> CHR ''['' \<and> c \<noteq> CHR '']'')
     (case url_host_str url of None \<Rightarrow> ''proxy'' | Some h \<Rightarrow> h)"

definition proxy_name_from_url :: "link_lib \<Rightarrow> parsed_url \<Rightarrow> query \<Rightarrow> string \<Rightarrow> string" where
  "proxy_name_from_url lib url q prefix =
    (case fragment_name lib url of Some n \<Rightarrow> n
     | None \<Rightarrow> (case proxy_name_from_query q of Some n \<Rightarrow> n | None \<Rightarrow> default_proxy_name prefix url))"

definition proxy_base :: "string \<Rightarrow> string \<Rightarrow> string \<Rightarrow> u16 \<Rightarrow> mapping" where
  "proxy_base nm proxy_type server port =
    put_i64 ''port'' (uint port) (put_string ''server'' server (put_string ''type'' proxy_type (put_string ''name'' nm [])))"

subsection \<open>Options shared by several kinds of link\<close>

definition apply_query_udp_option :: "query \<Rightarrow> bool \<Rightarrow> mapping \<Rightarrow> mapping" where
  "apply_query_udp_option q by_default proxy =
    (case query_bool q ''udp'' of Some udp \<Rightarrow> put_bool ''udp'' udp proxy
     | None \<Rightarrow> if by_default then put_bool ''udp'' True proxy else proxy)"

definition apply_query_common_proxy_options :: "query \<Rightarrow> mapping \<Rightarrow> mapping" where
  "apply_query_common_proxy_options q proxy =
    put_flag ''tfo'' (truthy_query_any q [''tfo'', ''fast-open'', ''fast_open'', ''fastOpen''])
      (put_flag ''udp'' (truthy_query q ''udp'') proxy)"

definition header_part :: "string \<Rightarrow> mapping \<Rightarrow> mapping" where
  "header_part part headers =
    (case (case split_once ''='' part of None \<Rightarrow> split_once '':'' part | x \<Rightarrow> x) of None \<Rightarrow> headers
     | Some (key, value) \<Rightarrow>
         let key = str_trim key; value = str_trim value in
         if key \<noteq> [] \<and> value \<noteq> [] then put_string key value headers else headers)"

definition apply_http_header_query_options :: "query \<Rightarrow> mapping \<Rightarrow> mapping" where
  "apply_http_header_query_options q proxy =
    (case query_get_any q [''headers'', ''header''] of None \<Rightarrow> proxy
     | Some raw_headers \<Rightarrow>
         let headers = fold header_part (filter (\<lambda>part. part \<noteq> []) (map str_trim
               (concat (map (split_on (CHR '','')) (split_on (CHR '';'') raw_headers))))) [] in
         if headers = [] then proxy else insert_key ''headers'' (YMapping headers) proxy)"

definition vless_tls_enabled :: "query \<Rightarrow> bool" where
  "vless_tls_enabled q \<longleftrightarrow>
    (case q ''security'' of None \<Rightarrow> False
     | Some v \<Rightarrow> to_ascii_lowercase (str_trim v) \<in> {''tls'', ''reality''}) \<or>
    truthy_query_any q [''tls'', ''enable-tls'', ''enable_tls'', ''enableTls'']"

definition put_opts :: "string \<Rightarrow> mapping \<Rightarrow> mapping \<Rightarrow> mapping" where
  "put_opts key opts proxy = (if opts = [] then proxy else insert_key key (YMapping opts) proxy)"

definition put_ws_opts ::
  "string option \<Rightarrow> string option \<Rightarrow> string option \<Rightarrow> string option \<Rightarrow> mapping \<Rightarrow> mapping" where
  "put_ws_opts path host max_early_data early_data_header_name proxy =
    (let opts = put_some ''path'' path [];
         opts = (case host of None \<Rightarrow> opts
           | Some h \<Rightarrow> insert_key ''headers'' (YMapping (put_string ''Host'' h [])) opts);
         opts = (case Option.bind max_early_data parse_positive_i64 of None \<Rightarrow> opts
           | Some n \<Rightarrow> put_i64 ''max-early-data'' n opts);
         opts = put_some ''early-data-header-name'' early_data_header_name opts in
     put_opts ''ws-opts'' opts proxy)"

definition put_grpc_opts :: "string option \<Rightarrow> string option \<Rightarrow> mapping \<Rightarrow> mapping" where
  "put_grpc_opts service_name mode proxy =
    put_opts ''grpc-opts'' (put_some ''grpc-mode'' mode (put_some ''grpc-service-name'' service_name [])) proxy"

definition put_h2_opts :: "string option \<Rightarrow> string option \<Rightarrow> mapping \<Rightarrow> mapping" where
  "put_h2_opts path host proxy =
    put_opts ''h2-opts'' ((case host of None \<Rightarrow> id | Some h \<Rightarrow> put_string_sequence ''host'' (split_list h))
      (put_some ''path'' path [])) proxy"

definition put_http_upgrade_opts :: "string option \<Rightarrow> string option \<Rightarrow> mapping \<Rightarrow> mapping" where
  "put_http_upgrade_opts path host proxy =
    put_opts ''http-upgrade-opts'' (put_some ''host'' host (put_some ''path'' path [])) proxy"

definition apply_query_transport_options :: "query \<Rightarrow> mapping \<Rightarrow> mapping" where
  "apply_query_transport_options q proxy =
    (let network = map_option to_ascii_lowercase (case q ''type'' of None \<Rightarrow> q ''network'' | x \<Rightarrow> x);
         proxy = put_some ''network'' network proxy in
     if network = Some ''ws'' then
       put_ws_opts (query_get_any q [''path'', ''wsPath'']) (query_get_any q [''host'', ''wsHost''])
         (query_get_any q [''ed'', ''maxEarlyData'', ''max-early-data''])
         (query_get_any q [''eh'', ''earlyDataHeaderName'', ''early-data-header-name'']) proxy
     else if network = Some ''grpc'' then
       put_grpc_opts (query_get_any q [''serviceName'', ''service'', ''service-name'', ''grpc-service-name'', ''path''])
         (query_get_any q [''mode'', ''grpc-mode'']) proxy
     else if network = Some ''h2'' then
       put_h2_opts (query_get_any q [''path'', ''h2Path'']) (query_get_any q [''host'', ''h2Host'']) proxy
     else if network = Some ''httpupgrade'' then
       put_http_upgrade_opts (query_get_any q [''path'', ''httpUpgradePath''])
         (query_get_any q [''host'', ''httpUpgradeHost'']) proxy
     else proxy)"

definition apply_query_tls_options :: "query \<Rightarrow> mapping \<Rightarrow> mapping" where
  "apply_query_tls_options q proxy =
    (let proxy = put_some ''client-fingerprint''
           (query_get_any q [''fp'', ''fingerprint'', ''client-fingerprint'', ''clientFingerprint'']) proxy;
         websocket = (case query_get_any q [''type'', ''network''] of None \<Rightarrow> False
           | Some network \<Rightarrow> eq_ignore_ascii_case network ''ws'');
         proxy = (case q ''alpn'' of None \<Rightarrow> proxy
           | Some alpn \<Rightarrow> put_string_sequence ''alpn'' (if websocket then [''http/1.1''] else split_list alpn) proxy);
         reality = (case q ''security'' of None \<Rightarrow> False | Some s \<Rightarrow> eq_ignore_ascii_case s ''reality'') in
     if reality then put_opts ''reality-opts''
       (put_some ''spider-x'' (query_get_any q [''spx'', ''spiderX'', ''spider-x''])
       (put_some ''short-id'' (query_get_any q [''sid'', ''shortId'', ''short-id''])
       (put_some ''public-key'' (query_get_any q [''pbk'', ''publicKey'', ''public-key'']) []))) proxy
     else proxy)"

definition query_without_fragment :: "string \<Rightarrow> string" where
  "query_without_fragment value =
    (case split_once ''?'' value of None \<Rightarrow> []
     | Some (_, q) \<Rightarrow> (case split_once ''#'' q of None \<Rightarrow> q | Some (q, _) \<Rightarrow> q))"

definition apply_ss_plugin_options :: "link_lib \<Rightarrow> string \<Rightarrow> mapping \<Rightarrow> mapping" where
  "apply_ss_plugin_options lib q proxy =
    (let q = raw_query_map lib q in
     (case q ''plugin'' of None \<Rightarrow> proxy
      | Some plugin_value \<Rightarrow>
          (case map str_trim (split_on (CHR '';'') plugin_value) of [] \<Rightarrow> proxy
           | plugin # parts \<Rightarrow>
               if plugin = [] then proxy
               else
                 let inline_opts = join_with '';'' (filter (\<lambda>part. part \<noteq> []) parts);
                     explicit_opts = (case query_get_any q [''plugin-opts'', ''pluginOpts'', ''pluginopts''] of
                       None \<Rightarrow> [] | Some x \<Rightarrow> x);
                     opts = join_with '';'' (filter (\<lambda>part. str_trim part \<noteq> []) [inline_opts, explicit_opts]);
                     plugin = to_ascii_lowercase plugin;
                     proxy = put_string ''plugin'' (if plugin \<in> {''obfs'', ''obfs-local'', ''simple-obfs''}
                       then ''obfs'' else plugin) proxy in
                 if opts = [] then proxy else put_string ''plugin-opts'' opts proxy)))"

end
