(* ===== verification/SubscriptionParse.thy ===== *)
theory SubscriptionParse
  imports SubscriptionLinks
begin

text \<open>
  The parsers of the ten kinds of proxy link, the YAML of a subscription's proxies and the normal form
  of an imported profile, \<open>crates/paws_profile/src/subscription.rs\<close>.
\<close>

subsection \<open>Links that are URLs\<close>

definition parsed :: "link_lib \<Rightarrow> string \<Rightarrow> (parsed_url \<Rightarrow> 'a presult) \<Rightarrow> 'a presult" where
  "parsed lib link f = (case ll_url lib link of Inl e \<Rightarrow> Inl (subscription_error e) | Inr url \<Rightarrow> f url)"

text \<open>\<open>proxy_base(proxy_name_from_url(..), kind, url_host(..)?, url_port(..)?)\<close>.\<close>

definition url_proxy :: "link_lib \<Rightarrow> parsed_url \<Rightarrow> string \<Rightarrow> string \<Rightarrow> mapping presult" where
  "url_proxy lib url prefix kind =
    rbind (url_host url) (\<lambda>host. rbind (url_port url) (\<lambda>port.
      Inr (proxy_base (proxy_name_from_url lib url (query_map url) prefix) kind host port)))"

definition parse_vless_link :: "link_lib \<Rightarrow> string \<Rightarrow> mapping presult" where
  "parse_vless_link lib link = parsed lib link (\<lambda>url. let q = query_map url in
    rbind (url_proxy lib url ''VLESS'' ''vless'') (\<lambda>proxy.
      let proxy = put_string ''uuid'' (ll_percent lib (url_username url)) proxy;
          proxy = put_flag ''tls'' (vless_tls_enabled q) (apply_query_udp_option q True proxy);
          proxy = put_some ''servername'' (query_get_any q [''sni'', ''serverName'', ''servername'']) proxy;
          proxy = put_flag ''skip-cert-verify'' (truthy_query_any q INSECURE_KEYS) proxy;
          proxy = put_some ''flow'' (q ''flow'') proxy;
          proxy = put_some ''encryption''
            (map_option to_ascii_lowercase (non_empty (map_option str_trim (q ''encryption'')))) proxy in
      Inr (apply_query_tls_options q (apply_query_transport_options q (apply_query_common_proxy_options q proxy)))))"

definition parse_trojan_link :: "link_lib \<Rightarrow> string \<Rightarrow> mapping presult" where
  "parse_trojan_link lib link = parsed lib link (\<lambda>url. let q = query_map url in
    rbind (url_proxy lib url ''Trojan'' ''trojan'') (\<lambda>proxy.
      let proxy = put_string ''password'' (ll_percent lib (url_username url)) proxy;
          proxy = put_some ''sni'' (query_get_any q [''sni'', ''peer'', ''serverName'', ''servername''])
            (apply_query_udp_option q True proxy);
          proxy = put_flag ''skip-cert-verify'' (truthy_query_any q INSECURE_KEYS) proxy in
      Inr (apply_query_tls_options q (apply_query_transport_options q (apply_query_common_proxy_options q proxy)))))"

definition HOP_KEYS :: "string list" where
  "HOP_KEYS = [''ports'', ''mport'', ''port-hopping'', ''port_hopping'', ''portHopping'']"

definition list_option :: "string \<Rightarrow> string option \<Rightarrow> mapping \<Rightarrow> mapping" where
  "list_option key value proxy = (case value of None \<Rightarrow> proxy | Some v \<Rightarrow> put_string_sequence key (split_list v) proxy)"

definition windows_and_flags :: "query \<Rightarrow> mapping \<Rightarrow> mapping" where
  "windows_and_flags q proxy =
    (let proxy = put_some ''down'' (query_get_any q [''down'', ''downmbps'', ''downMbps''])
           (put_some ''up'' (query_get_any q [''up'', ''upmbps'', ''upMbps'']) proxy);
         proxy = put_some ''ports'' (query_get_any q HOP_KEYS) proxy;
         proxy = put_some ''recv-window-conn''
           (query_get_any q [''recv-window-conn'', ''recv_window_conn'', ''recvWindowConn'']) proxy;
         proxy = put_some ''recv-window'' (query_get_any q [''recv-window'', ''recv_window'', ''recvWindow'']) proxy;
         proxy = put_flag ''disable-mtu-discovery'' (truthy_query_any q
           [''disable-mtu-discovery'', ''disable_mtu_discovery'', ''disableMtuDiscovery'']) proxy in
     put_flag ''fast-open'' (truthy_query_any q [''fast-open'', ''fast_open'', ''fastOpen'']) proxy)"

definition parse_hysteria2_link :: "link_lib \<Rightarrow> string \<Rightarrow> mapping presult" where
  "parse_hysteria2_link lib link = parsed lib link (\<lambda>url. let q = query_map url in
    rbind (url_proxy lib url ''Hysteria2'' ''hysteria2'') (\<lambda>proxy.
      let username = ll_percent lib (url_username url);
          proxy = put_some ''password''
            (case query_get_any q [''password'', ''auth'', ''auth-str'', ''auth_str'', ''authStr''] of
               None \<Rightarrow> non_empty (Some username) | x \<Rightarrow> x) proxy;
          proxy = put_some ''sni'' (query_get_any q [''sni'', ''peer'', ''serverName'', ''servername'']) proxy;
          proxy = put_flag ''skip-cert-verify'' (truthy_query_any q INSECURE_KEYS) proxy;
          proxy = put_some ''obfs'' (non_empty (q ''obfs'')) (list_option ''alpn'' (q ''alpn'') proxy);
          proxy = put_some ''obfs-password''
            (query_get_any q [''obfs-password'', ''obfsPassword'', ''obfs_password'']) proxy in
      Inr (windows_and_flags q proxy)))"

definition parse_hysteria_link :: "link_lib \<Rightarrow> string \<Rightarrow> mapping presult" where
  "parse_hysteria_link lib link = parsed lib link (\<lambda>url. let q = query_map url in
    rbind (url_proxy lib url ''Hysteria'' ''hysteria'') (\<lambda>proxy.
      let username = ll_percent lib (url_username url);
          proxy = put_some ''auth-str''
            (case query_get_any q [''auth'', ''auth-str'', ''auth_str'', ''authStr'', ''authString''] of
               None \<Rightarrow> non_empty (Some username) | x \<Rightarrow> x) proxy;
          proxy = put_some ''protocol'' (non_empty (q ''protocol'')) proxy;
          proxy = put_some ''sni'' (query_get_any q [''sni'', ''peer'', ''serverName'', ''servername'']) proxy;
          proxy = put_flag ''skip-cert-verify'' (truthy_query_any q INSECURE_KEYS) proxy;
          proxy = put_some ''obfs'' (non_empty (q ''obfs'')) (list_option ''alpn'' (q ''alpn'') proxy) in
      Inr (windows_and_flags q proxy)))"

definition parse_tuic_link :: "link_lib \<Rightarrow> string \<Rightarrow> mapping presult" where
  "parse_tuic_link lib link = parsed lib link (\<lambda>url.
    let q = query_map url; uuid = ll_percent lib (url_username url); password = password_of lib url in
    if uuid = [] then Inl (Core ''tuic missing uuid'')
    else if password = [] then Inl (Core ''tuic missing password'')
    else rbind (url_proxy lib url ''TUIC'' ''tuic'') (\<lambda>proxy.
      let proxy = put_string ''password'' password (put_string ''uuid'' uuid proxy);
          proxy = put_some ''sni'' (query_get_any q [''sni'', ''serverName'', ''servername'']) proxy;
          proxy = put_flag ''skip-cert-verify'' (truthy_query_any q INSECURE_KEYS) proxy;
          proxy = list_option ''alpn'' (q ''alpn'') proxy;
          proxy = put_some ''congestion-controller''
            (query_get_any q [''congestion-controller'', ''congestion_control'', ''congestionControl'']) proxy;
          proxy = put_some ''udp-relay-mode''
            (query_get_any q [''udp-relay-mode'', ''udp_relay_mode'', ''udpRelayMode'']) proxy;
          proxy = put_flag ''disable-sni'' (truthy_query_any q [''disable-sni'', ''disable_sni'', ''disableSni'']) proxy;
          proxy = put_flag ''reduce-rtt'' (truthy_query_any q [''reduce-rtt'', ''reduce_rtt'', ''reduceRtt'']) proxy;
          proxy = put_some ''request-timeout''
            (query_get_any q [''request-timeout'', ''request_timeout'', ''requestTimeout'']) proxy;
          proxy = put_some ''heartbeat-interval''
            (query_get_any q [''heartbeat-interval'', ''heartbeat_interval'', ''heartbeatInterval'']) proxy;
          proxy = put_some ''max-udp-relay-packet-size'' (query_get_any q
            [''max-udp-relay-packet-size'', ''max_udp_relay_packet_size'', ''maxUdpRelayPacketSize'']) proxy in
      Inr (put_flag ''fast-open'' (truthy_query_any q [''fast-open'', ''fast_open'', ''fastOpen'']) proxy)))"

definition put_credentials :: "(string \<times> string) option \<Rightarrow> mapping \<Rightarrow> mapping" where
  "put_credentials credentials proxy = (case credentials of None \<Rightarrow> proxy
     | Some (username, password) \<Rightarrow> put_string ''password'' password (put_string ''username'' username proxy))"

definition parse_http_link :: "link_lib \<Rightarrow> string \<Rightarrow> mapping presult" where
  "parse_http_link lib link = parsed lib link (\<lambda>url. let q = query_map url in
    rbind (url_proxy lib url ''HTTP'' ''http'') (\<lambda>proxy.
      let proxy = put_credentials (url_credentials lib url) proxy;
          proxy = put_flag ''tls'' (url_scheme url = ''https'' \<or> truthy_query q ''tls'') proxy;
          proxy = put_flag ''skip-cert-verify'' (truthy_query_any q INSECURE_KEYS) proxy in
      Inr (apply_http_header_query_options q proxy)))"

definition parse_socks5_link :: "link_lib \<Rightarrow> string \<Rightarrow> mapping presult" where
  "parse_socks5_link lib link = parsed lib link (\<lambda>url. let q = query_map url in
    rbind (url_proxy lib url ''SOCKS5'' ''socks5'') (\<lambda>proxy.
      let proxy = put_credentials (url_credentials lib url) proxy;
          proxy = put_flag ''tls'' (truthy_query q ''tls'') proxy;
          proxy = put_flag ''skip-cert-verify'' (truthy_query_any q INSECURE_KEYS) proxy in
      Inr (apply_query_common_proxy_options q proxy)))"

subsection \<open>Links with encoded parts\<close>

definition strip_link_scheme :: "string \<Rightarrow> string \<Rightarrow> string option" where
  "strip_link_scheme link scheme =
    (if length scheme \<le> length link \<and> eq_ignore_ascii_case (take (length scheme) link) scheme
     then Some (drop (length scheme) link) else None)"

definition or_error :: "'a option \<Rightarrow> string \<Rightarrow> 'a presult" where
  "or_error x message = (case x of None \<Rightarrow> Inl (Core message) | Some a \<Rightarrow> Inr a)"

definition before :: "string \<Rightarrow> string \<Rightarrow> string" where
  "before sep s = (case split_once sep s of None \<Rightarrow> s | Some (a, _) \<Rightarrow> a)"

definition ss_user :: "link_lib \<Rightarrow> parsed_url \<Rightarrow> (string \<times> string) presult" where
  "ss_user lib url =
    (case url_password url of
       Some password \<Rightarrow> Inr (ll_percent lib (url_username url), ll_percent lib password)
     | None \<Rightarrow> rbind (or_error (decode_base64_text lib (ll_percent lib (url_username url))) ''invalid ss user info'')
         (\<lambda>decoded. or_error (split_once '':'' decoded) ''invalid ss cipher/password''))"

definition parse_ss_link :: "link_lib \<Rightarrow> string \<Rightarrow> mapping presult" where
  "parse_ss_link lib link =
    rbind (or_error (strip_link_scheme link ''ss://'') ''invalid ss subscription link'') (\<lambda>without_scheme.
    let fragment = map_option snd (split_once ''#'' without_scheme);
        body = before ''?'' (before ''#'' without_scheme);
        q = query_without_fragment without_scheme in
    rbind (if CHR ''@'' \<in> set body then Inr body
           else or_error (decode_base64_component lib body) ''invalid ss subscription link'') (\<lambda>sip002.
    parsed lib (''ss://'' @ sip002) (\<lambda>url.
    let query_values = raw_query_map lib q in
    rbind (ss_user lib url) (\<lambda>(cipher, password).
    let nm = (case non_empty (map_option (ll_percent lib) fragment) of Some n \<Rightarrow> n
          | None \<Rightarrow> (case proxy_name_from_query query_values of Some n \<Rightarrow> n | None \<Rightarrow> default_proxy_name ''SS'' url)) in
    rbind (url_host url) (\<lambda>host. rbind (url_port url) (\<lambda>port.
      let proxy = put_string ''password'' password (put_string ''cipher'' cipher (proxy_base nm ''ss'' host port));
          proxy = apply_ss_plugin_options lib q (apply_query_udp_option query_values True proxy) in
      Inr (apply_query_common_proxy_options (raw_query_map lib q) proxy)))))))"

definition ssr_query_base64_any :: "link_lib \<Rightarrow> query \<Rightarrow> string list \<Rightarrow> string option" where
  "ssr_query_base64_any lib q keys = Option.bind (query_get_any q keys) (decode_base64_component lib)"

definition part_at :: "string list \<Rightarrow> nat \<Rightarrow> string option" where
  "part_at parts i = (if i < length parts then Some (parts ! i) else None)"

definition ssr_part :: "string list \<Rightarrow> nat \<Rightarrow> string \<Rightarrow> string presult" where
  "ssr_part parts i what = or_error (non_empty (part_at parts i)) (''ssr missing '' @ what)"

definition parse_ssr_link :: "link_lib \<Rightarrow> string \<Rightarrow> mapping presult" where
  "parse_ssr_link lib link =
    rbind (or_error (strip_link_scheme link ''ssr://'') ''invalid ssr subscription link'') (\<lambda>encoded.
    rbind (or_error (decode_base64_component lib (str_trim encoded)) ''invalid ssr subscription link'') (\<lambda>decoded.
    let (endpoint, q) = (case split_once ''/?'' decoded of Some x \<Rightarrow> x
          | None \<Rightarrow> (case split_once ''?'' decoded of Some x \<Rightarrow> x | None \<Rightarrow> (decoded, [])));
        parts = splitn 6 (CHR '':'') endpoint in
    rbind (ssr_part parts 0 ''server'') (\<lambda>server.
    rbind (or_error (Option.bind (part_at parts 1) parse_u16) ''ssr missing port'') (\<lambda>port.
    rbind (ssr_part parts 2 ''protocol'') (\<lambda>protocol.
    rbind (ssr_part parts 3 ''cipher'') (\<lambda>cipher.
    rbind (ssr_part parts 4 ''obfs'') (\<lambda>obfs.
    rbind (or_error (non_empty (Option.bind (part_at parts 5) (decode_base64_component lib))) ''ssr missing password'')
      (\<lambda>password.
      let q = raw_query_map lib q;
          nm = (case non_empty (ssr_query_base64_any lib q [''remarks'', ''remark'', ''name'', ''ps'']) of
            Some n \<Rightarrow> n | None \<Rightarrow> ''SSR-'' @ server);
          proxy = put_string ''password'' password (put_string ''cipher'' cipher
            (proxy_base nm ''ssr'' server (word_of_nat port)));
          proxy = put_string ''obfs'' obfs (put_string ''protocol'' protocol proxy);
          proxy = put_some ''protocol-param'' (non_empty (ssr_query_base64_any lib q [''protoparam'', ''proto-param'',
            ''protoParam'', ''protocol-param'', ''protocolParam'', ''protocol_param''])) proxy;
          proxy = put_some ''obfs-param'' (non_empty (ssr_query_base64_any lib q
            [''obfsparam'', ''obfs-param'', ''obfsParam'', ''obfs_param''])) proxy;
          proxy = put_some ''group'' (non_empty (ssr_query_base64_any lib q [''group'', ''groupName'', ''group-name''])) proxy in
      Inr (apply_query_udp_option q True proxy)))))))))"

subsection \<open>JSON\<close>

definition json_value_any :: "json \<Rightarrow> string list \<Rightarrow> json option" where
  "json_value_any value keys =
    (case value of
       JObject entries \<Rightarrow>
         (case find_some (map_of entries) keys of Some v \<Rightarrow> Some v
          | None \<Rightarrow> find_some (\<lambda>key. find_some (\<lambda>(candidate, v).
              if eq_ignore_ascii_case candidate key then Some v else None) entries) keys)
     | _ \<Rightarrow> None)"

definition json_str_any :: "json \<Rightarrow> string list \<Rightarrow> string option" where
  "json_str_any value keys = (case json_value_any value keys of Some (JString s) \<Rightarrow> non_empty (Some s) | _ \<Rightarrow> None)"

definition json_u16_any :: "json \<Rightarrow> string list \<Rightarrow> nat option" where
  "json_u16_any value keys =
    (case json_value_any value keys of
       Some (JString s) \<Rightarrow> parse_u16 s
     | Some (JNumber (PosInt n)) \<Rightarrow> if n < 65536 then Some n else None
     | _ \<Rightarrow> None)"

definition json_i64_any :: "json \<Rightarrow> string list \<Rightarrow> int option" where
  "json_i64_any value keys =
    (case json_value_any value keys of
       Some (JString s) \<Rightarrow> parse_i64 s
     | Some (JNumber (PosInt n)) \<Rightarrow> if n < 2 ^ 63 then Some (int n) else None
     | Some (JNumber (NegInt i)) \<Rightarrow> Some i
     | _ \<Rightarrow> None)"

definition json_truthy_any :: "json \<Rightarrow> string list \<Rightarrow> bool" where
  "json_truthy_any value keys =
    (case json_value_any value keys of
       Some (JBool b) \<Rightarrow> b
     | Some (JString s) \<Rightarrow> truthy_value s
     | Some (JNumber n) \<Rightarrow> n = PosInt 1
     | _ \<Rightarrow> False)"

definition vmess_transport :: "json \<Rightarrow> string option \<Rightarrow> mapping \<Rightarrow> mapping" where
  "vmess_transport value network proxy =
    (if network = Some ''ws'' then
       put_ws_opts (json_str_any value [''path'', ''wsPath'']) (json_str_any value [''host'', ''wsHost''])
         (json_str_any value [''ed'', ''maxEarlyData'', ''max-early-data''])
         (json_str_any value [''eh'', ''earlyDataHeaderName'', ''early-data-header-name'']) proxy
     else if network = Some ''grpc'' then
       put_grpc_opts (json_str_any value [''path'', ''serviceName'', ''service'', ''service-name'', ''grpc-service-name''])
         (json_str_any value [''mode'', ''grpc-mode'']) proxy
     else if network = Some ''h2'' then
       put_h2_opts (json_str_any value [''path'', ''h2Path'']) (json_str_any value [''host'', ''h2Host'']) proxy
     else if network = Some ''httpupgrade'' then
       put_http_upgrade_opts (json_str_any value [''path'', ''httpUpgradePath''])
         (json_str_any value [''host'', ''httpUpgradeHost'']) proxy
     else proxy)"

definition vmess_cipher :: "json \<Rightarrow> string option" where
  "vmess_cipher value =
    (case json_str_any value [''scy'', ''cipher''] of Some c \<Rightarrow> Some c
     | None \<Rightarrow> (case json_str_any value [''security''] of None \<Rightarrow> None
         | Some s \<Rightarrow> if eq_ignore_ascii_case s ''tls'' \<or> eq_ignore_ascii_case s ''none'' then None else Some s))"

definition vmess_proxy :: "json \<Rightarrow> mapping presult" where
  "vmess_proxy value =
    rbind (or_error (json_str_any value [''add'', ''server'', ''address'', ''addr'']) ''vmess missing server'') (\<lambda>server.
    rbind (or_error (json_u16_any value [''port'']) ''vmess missing port'') (\<lambda>port.
    let nm = (case json_str_any value [''ps'', ''name'', ''remarks'', ''remark'', ''alias'', ''node-name''] of
          None \<Rightarrow> ''VMess'' | Some n \<Rightarrow> n);
        proxy = put_some ''uuid'' (json_str_any value [''id'', ''uuid''])
          (proxy_base nm ''vmess'' server (word_of_nat port));
        proxy = (case json_i64_any value [''aid'', ''alterId'', ''alter_id''] of None \<Rightarrow> proxy
          | Some n \<Rightarrow> put_i64 ''alterId'' n proxy);
        security_is_tls = (case json_str_any value [''security''] of None \<Rightarrow> False
          | Some s \<Rightarrow> eq_ignore_ascii_case s ''tls'');
        proxy = put_some ''cipher'' (vmess_cipher value) proxy;
        proxy = put_flag ''tls'' ((case json_str_any value [''tls''] of None \<Rightarrow> False
          | Some t \<Rightarrow> tls_enabled_value t) \<or> security_is_tls) proxy;
        proxy = put_flag ''skip-cert-verify'' (json_truthy_any value INSECURE_KEYS) proxy;
        network = map_option to_ascii_lowercase (json_str_any value [''net'', ''type'', ''network'']);
        proxy = put_some ''network'' network proxy;
        proxy = put_some ''servername'' (json_str_any value [''sni'', ''servername'', ''serverName'']) proxy;
        proxy = put_some ''client-fingerprint''
          (json_str_any value [''fp'', ''fingerprint'', ''client-fingerprint'', ''clientFingerprint'']) proxy;
        proxy = (case json_str_any value [''alpn''] of None \<Rightarrow> proxy
          | Some alpn \<Rightarrow> put_string_sequence ''alpn'' (if network = Some ''ws'' then [''http/1.1''] else split_list alpn) proxy);
        proxy = put_flag ''udp'' (json_truthy_any value [''udp'']) proxy;
        proxy = put_flag ''tfo'' (json_truthy_any value [''tfo'', ''fast-open'', ''fast_open'', ''fastOpen'']) proxy in
    Inr (vmess_transport value network proxy)))"

definition parse_vmess_link :: "link_lib \<Rightarrow> string \<Rightarrow> mapping presult" where
  "parse_vmess_link lib link =
    rbind (or_error (strip_link_scheme link ''vmess://'') ''invalid vmess subscription link'') (\<lambda>encoded.
    rbind (or_error (decode_base64_text lib (str_trim encoded)) ''invalid vmess subscription link'') (\<lambda>decoded.
    (case ll_json lib decoded of Inl e \<Rightarrow> Inl (Core (''invalid vmess JSON: '' @ e)) | Inr value \<Rightarrow> vmess_proxy value)))"

subsection \<open>Subscriptions\<close>

definition link_scheme :: "string \<Rightarrow> string" where
  "link_scheme link = (case split_once '':'' link of None \<Rightarrow> [] | Some (scheme, _) \<Rightarrow> scheme)"

definition parse_subscription_link :: "link_lib \<Rightarrow> string \<Rightarrow> mapping option presult" where
  "parse_subscription_link lib link =
    (let scheme = to_ascii_lowercase (link_scheme link); some = (\<lambda>r. rbind r (\<lambda>proxy. Inr (Some proxy))) in
     if scheme = ''vless'' then some (parse_vless_link lib link)
     else if scheme = ''trojan'' then some (parse_trojan_link lib link)
     else if scheme = ''ss'' then some (parse_ss_link lib link)
     else if scheme = ''ssr'' then some (parse_ssr_link lib link)
     else if scheme = ''vmess'' then some (parse_vmess_link lib link)
     else if scheme = ''hysteria2'' \<or> scheme = ''hy2'' then some (parse_hysteria2_link lib link)
     else if scheme = ''hysteria'' then some (parse_hysteria_link lib link)
     else if scheme = ''tuic'' then some (parse_tuic_link lib link)
     else if scheme = ''http'' \<or> scheme = ''https'' then some (parse_http_link lib link)
     else if scheme = ''socks'' \<or> scheme = ''socks5'' then some (parse_socks5_link lib link)
     else Inr None)"

fun dedup_names_from :: "(string \<Rightarrow> nat) \<Rightarrow> mapping list \<Rightarrow> mapping list" where
  "dedup_names_from counts [] = []"
| "dedup_names_from counts (proxy # proxies) =
    (case get_string proxy ''name'' of
       None \<Rightarrow> proxy # dedup_names_from counts proxies
     | Some nm \<Rightarrow>
         (if 0 < counts nm then put_string ''name'' (nm @ '' '' @ decimal (counts nm + 1)) proxy else proxy)
         # dedup_names_from (counts(nm := counts nm + 1)) proxies)"

definition dedup_proxy_names :: "mapping list \<Rightarrow> mapping list" where
  "dedup_proxy_names proxies = dedup_names_from (\<lambda>_. 0) proxies"

definition APP_MIXED_PROXY_PORT :: u16 where "APP_MIXED_PROXY_PORT = DEFAULT_MIXED_PORT"

definition proxy_subscription_root :: "mapping list \<Rightarrow> mapping" where
  "proxy_subscription_root proxies =
    (let proxies = dedup_proxy_names proxies;
         proxy_names = List.map_filter (\<lambda>proxy. get_string proxy ''name'') proxies;
         root = put_string ''log-level'' ''info'' (put_string ''mode'' ''rule''
           (put_i64 ''mixed-port'' (uint APP_MIXED_PROXY_PORT) []));
         root = insert_key ''proxies'' (YSequence (map YMapping proxies)) root;
         group = insert_key ''proxies'' (YSequence (map YString proxy_names @ [YString ''DIRECT'']))
           (put_string ''type'' ''select'' (put_string ''name'' ''Proxy'' []));
         root = insert_key ''proxy-groups'' (YSequence [YMapping group]) root in
     insert_key ''rules'' (YSequence (map YString DEFAULT_PROXY_SUBSCRIPTION_RULES)) root)"

definition proxy_subscription_yaml :: "yaml_io \<Rightarrow> mapping list \<Rightarrow> string presult" where
  "proxy_subscription_yaml io proxies =
    (case yl_print io (YMapping (proxy_subscription_root proxies)) of Inl e \<Rightarrow> Inl (Core e) | Inr text \<Rightarrow> Inr text)"

definition is_subscription_comment_line :: "string \<Rightarrow> bool" where
  "is_subscription_comment_line line \<longleftrightarrow>
    strip_prefix ''#'' line \<noteq> None \<or> strip_prefix ''//'' line \<noteq> None \<or> strip_prefix '';'' line \<noteq> None"

definition link_lines :: "string \<Rightarrow> string list" where
  "link_lines content =
    filter (\<lambda>line. line \<noteq> [] \<and> \<not> is_subscription_comment_line line) (map str_trim (str_lines content))"

fun parse_links :: "link_lib \<Rightarrow> string list \<Rightarrow> mapping list \<Rightarrow> paws_error option \<Rightarrow> mapping list \<times> paws_error option" where
  "parse_links lib [] proxies first_parse_error = (proxies, first_parse_error)"
| "parse_links lib (line # rest) proxies first_parse_error =
    (case parse_subscription_link lib line of
       Inr (Some proxy) \<Rightarrow> parse_links lib rest (proxies @ [proxy]) first_parse_error
     | Inr None \<Rightarrow> parse_links lib rest proxies first_parse_error
     | Inl e \<Rightarrow> parse_links lib rest proxies (case first_parse_error of None \<Rightarrow> Some e | x \<Rightarrow> x))"

definition subscription_links_to_yaml :: "link_lib \<Rightarrow> string \<Rightarrow> string option presult" where
  "subscription_links_to_yaml lib content =
    (let (proxies, first_parse_error) = parse_links lib (link_lines content) [] None in
     if proxies = [] then (case first_parse_error of Some e \<Rightarrow> Inl e | None \<Rightarrow> Inr None)
     else rbind (proxy_subscription_yaml (ll_yaml lib) proxies) (\<lambda>text. Inr (Some text)))"

definition NOT_A_PROFILE :: paws_error where
  "NOT_A_PROFILE = Core ''profile root must be a YAML map or supported proxy subscription''"

definition normalize_yaml :: "yaml_io \<Rightarrow> string \<Rightarrow> string presult" where
  "normalize_yaml io raw =
    (case yl_parse io raw of Inl e \<Rightarrow> Inl (Core e)
     | Inr (YMapping m) \<Rightarrow>
         rbind (validate_profile_app_config (yl_parse io) (yl_ip_net io) raw) (\<lambda>_.
           (case yl_print io (YMapping m) of Inl e \<Rightarrow> Inl (Core e) | Inr text \<Rightarrow> Inr text))
     | Inr _ \<Rightarrow> Inl NOT_A_PROFILE)"

fun first_subscription :: "link_lib \<Rightarrow> string list \<Rightarrow> string option presult" where
  "first_subscription lib [] = Inr None"
| "first_subscription lib (candidate # candidates) =
    rbind (subscription_links_to_yaml lib candidate) (\<lambda>r.
      case r of Some text \<Rightarrow> Inr (Some text) | None \<Rightarrow> first_subscription lib candidates)"

definition normalize_profile_content :: "link_lib \<Rightarrow> string \<Rightarrow> string presult" where
  "normalize_profile_content lib raw_profile =
    (case normalize_yaml (ll_yaml lib) raw_profile of
       Inr text \<Rightarrow> Inr text
     | Inl _ \<Rightarrow>
         rbind (first_subscription lib (subscription_candidates lib raw_profile)) (\<lambda>r.
           case r of Some text \<Rightarrow> Inr text | None \<Rightarrow> normalize_yaml (ll_yaml lib) raw_profile))"

definition sanitize_profile_for_meow_validation :: "yaml_io \<Rightarrow> string \<Rightarrow> string presult" where
  "sanitize_profile_for_meow_validation io raw =
    (case yl_parse io raw of Inl e \<Rightarrow> Inl (Core e)
     | Inr v \<Rightarrow> (case yaml_as_mapping v of None \<Rightarrow> Inl NOT_A_PROFILE
       | Some root \<Rightarrow>
           (case yl_print io (set_mapping (remove_app_managed_geodata_fields
               (sanitize_app_managed_dns_for_validation (sanitize_app_managed_config root))) v) of
              Inl e \<Rightarrow> Inl (Core e) | Inr text \<Rightarrow> Inr text)))"

definition sanitize_profile_for_meow_validation_at ::
  "yaml_io \<Rightarrow> string \<Rightarrow> string \<Rightarrow> disk \<Rightarrow> disk \<times> string presult" where
  "sanitize_profile_for_meow_validation_at io raw store_root d =
    (case sanitize_profile_for_meow_validation io raw of Inl e \<Rightarrow> (d, Inl e)
     | Inr sanitized \<Rightarrow> (case yl_parse io sanitized of Inl e \<Rightarrow> (d, Inl (Core e))
       | Inr v \<Rightarrow> (case yaml_as_mapping v of None \<Rightarrow> (d, Inl NOT_A_PROFILE)
         | Some root \<Rightarrow> (case patch_geodata_paths store_root root d of
             (d, Inl e) \<Rightarrow> (d, Inl e)
           | (d, Inr root) \<Rightarrow>
               let (d, root) = prune_unavailable_default_subscription_rules store_root root d in
               (d, case yl_print io (set_mapping root v) of Inl e \<Rightarrow> Inl (Core e) | Inr text \<Rightarrow> Inr text)))))"

end
