(* ===== verification/SettingsEffect.thy ===== *)
theory SettingsEffect
  imports SettingsOverlay
begin

text \<open>
  What the setters of \<open>crates/paws_profile/src/lib.rs\<close> leave behind: how overlays are laid over the
  sections of the file, and what the readers of the settings see after a setter has saved.
\<close>

subsection \<open>Lists of servers\<close>

definition servers_ok :: "string list \<Rightarrow> bool" where
  "servers_ok xs \<longleftrightarrow> distinct xs \<and> (\<forall>x \<in> set xs. x \<noteq> [] \<and> str_trim x = x)"

lemma servers_ok_Nil [simp]: "servers_ok []"
  by (simp add: servers_ok_def)

lemma servers_ok_snoc: "servers_ok (acc @ [x]) \<longleftrightarrow> servers_ok acc \<and> x \<notin> set acc \<and> x \<noteq> [] \<and> str_trim x = x"
  by (auto simp: servers_ok_def)

lemma normalize_into_ok: "servers_ok acc \<Longrightarrow> servers_ok (normalize_servers_into acc xs)"
proof (induction xs arbitrary: acc)
  case (Cons x xs)
  then show ?case by (simp add: Let_def servers_ok_snoc)
qed simp

lemma normalize_into_id: "servers_ok (acc @ xs) \<Longrightarrow> normalize_servers_into acc xs = acc @ xs"
proof (induction xs arbitrary: acc)
  case (Cons x xs)
  then have "x \<noteq> []" "str_trim x = x" "x \<notin> set acc" by (auto simp: servers_ok_def)
  then show ?case using Cons.IH [of "acc @ [x]"] Cons.prems by simp
qed simp

lemma normalize_ok [simp]: "servers_ok (normalize_dns_optional_servers xs)"
  by (simp add: normalize_dns_optional_servers_def normalize_into_ok)

lemma normalize_id: "servers_ok xs \<Longrightarrow> normalize_dns_optional_servers xs = xs"
  using normalize_into_id [of "[]" xs] by (simp add: normalize_dns_optional_servers_def)

lemma normalize_idem [simp]: "normalize_dns_optional_servers (normalize_dns_optional_servers xs) = normalize_dns_optional_servers xs"
  by (simp add: normalize_id)

lemma normalize_into_set: "set (normalize_servers_into acc xs) = set acc \<union> (str_trim ` set xs - {[]})"
  by (induction acc xs rule: normalize_servers_into.induct) (auto simp: Let_def)

lemma normalize_set: "set (normalize_dns_optional_servers xs) = str_trim ` set xs - {[]}"
  by (simp add: normalize_dns_optional_servers_def normalize_into_set)

lemma default_servers_ok: "servers_ok DEFAULT_CHINA_DNS_SERVERS" "servers_ok DEFAULT_GLOBAL_DNS_FALLBACKS"
  by (simp_all add: servers_ok_def DEFAULT_CHINA_DNS_SERVERS_def DEFAULT_GLOBAL_DNS_FALLBACKS_def str_simps printable_def)

lemma normalize_dns_servers_ok: "servers_ok (normalize_dns_servers xs) \<and> normalize_dns_servers xs \<noteq> []"
  using default_servers_ok by (simp add: normalize_dns_servers_def Let_def vpn_options_default_def)
    (simp add: DEFAULT_CHINA_DNS_SERVERS_def)

definition policy_ok :: "(string \<times> string list) list \<Rightarrow> bool" where
  "policy_ok policy \<longleftrightarrow> bmap_ok policy \<and>
     (\<forall>(m, servers) \<in> set policy. m \<noteq> [] \<and> str_trim m = m \<and> servers \<noteq> [] \<and> servers_ok servers)"

lemma policy_ok_put:
  "policy_ok policy \<Longrightarrow> str_trim m \<noteq> [] \<Longrightarrow> servers \<noteq> [] \<Longrightarrow> servers_ok servers \<Longrightarrow>
   policy_ok (bput (str_trim m) servers policy)"
  unfolding policy_ok_def by (intro conjI bmap_ok_put bput_all) auto

lemma policy_ok_Nil [simp]: "policy_ok []"
  by (simp add: policy_ok_def)

lemma normalize_policy_ok: "policy_ok acc \<Longrightarrow> policy_ok (normalize_policy_into acc policy)"
proof (induction policy arbitrary: acc)
  case (Cons e policy)
  then show ?case by (cases e) (simp add: Let_def policy_ok_put)
qed simp

lemma normalize_dns_policy_ok [simp]: "policy_ok (normalize_dns_policy policy)"
  by (simp add: normalize_dns_policy_def normalize_policy_ok)

lemma read_policy_ok: "read_policy key acc entries = Inr policy \<Longrightarrow> policy_ok acc \<Longrightarrow> policy_ok policy"
proof (induction entries arbitrary: acc)
  case (Cons e entries)
  then show ?case
    by (cases e) (auto simp: rbind_Inr Let_def split: if_splits intro!: Cons.IH policy_ok_put)
qed simp

lemma read_policy_back: "policy_ok (acc @ policy) \<Longrightarrow>
  read_policy key acc (map (\<lambda>(m, servers). (value_key m, string_sequence servers)) policy) = Inr (acc @ policy)"
proof (induction policy arbitrary: acc)
  case (Cons e policy)
  obtain m servers where e: "e = (m, servers)" by (cases e)
  have "m \<noteq> []" "str_trim m = m" "servers \<noteq> []" "servers_ok servers" using Cons.prems by (auto simp: e policy_ok_def)
  moreover have "bput m servers acc = acc @ [(m, servers)]"
    using Cons.prems by (intro bput_last) (auto simp: e policy_ok_def bmap_ok_def sorted_wrt_append)
  moreover have "policy_ok ((acc @ [(m, servers)]) @ policy)" using Cons.prems by (simp add: e)
  ultimately show ?case using Cons.IH [of "acc @ [(m, servers)]"]
    by (simp add: e value_key_def strict_string_def policy_servers_def string_sequence_def
        normalize_id comp_def collect_results_map_Inr [where f = "\<lambda>x. x", simplified])
qed simp

subsection \<open>Laying overlays over a mapping\<close>

definition overlaid :: "mapping \<Rightarrow> yaml \<Rightarrow> yaml" where
  "overlaid base w = (case yaml_as_mapping w of Some patch \<Rightarrow> YMapping (patch_entries patch base) | None \<Rightarrow> w)"

lemma overlay_section_key:
  "get_key (overlay_section (k, w) root) j = (if j = k then Some (overlaid (section_of root k) w) else get_key root j)"
  by (simp add: overlay_section_def overlaid_def split: option.split)

lemma section_of_key: "get_key a k = get_key b k \<Longrightarrow> section_of a k = section_of b k"
  by (simp add: section_of_def)

lemma get_overlay_root:
  "distinct (map fst ov) \<Longrightarrow> get_key (overlay_root ov root) k =
     (case map_of ov k of None \<Rightarrow> get_key root k | Some w \<Rightarrow> Some (overlaid (section_of root k) w))"
proof (induction ov arbitrary: root)
  case (Cons e ov)
  obtain j w where e: "e = (j, w)" by (cases e)
  let ?r = "overlay_section e root"
  have d: "distinct (map fst ov)" "j \<notin> fst ` set ov" using Cons.prems by (simp_all add: e)
  have ih: "get_key (overlay_root ov ?r) k =
      (case map_of ov k of None \<Rightarrow> get_key ?r k | Some w \<Rightarrow> Some (overlaid (section_of ?r k) w))"
    by (rule Cons.IH [OF d(1)])
  have same: "section_of ?r k = section_of root k" if "k \<noteq> j"
    using that by (intro section_of_key) (simp add: e overlay_section_key)
  have "map_of ov j = None" using d(2) by (simp add: map_of_eq_None_iff)
  then show ?case using ih same
    by (auto simp: e overlay_root_def overlay_section_key split: option.split)
qed (simp add: overlay_root_def)

lemma get_patch_entries:
  "distinct (map fst patch) \<Longrightarrow> get_key (patch_entries patch base) f =
     (case map_of patch (value_key f) of None \<Rightarrow> get_key base f
      | Some v \<Rightarrow> if yaml_is_null v then None else Some v)"
proof (induction patch arbitrary: base)
  case (Cons e patch)
  obtain k v where e: "e = (k, v)" by (cases e)
  have "map_of patch k = None" using Cons.prems by (simp add: e map_of_eq_None_iff)
  then show ?case using Cons by (auto simp: e get_key_def split: option.split)
qed simp

lemma map_of_fold_insert:
  "map_of (fold (\<lambda>f m. insert_key f (g f) m) names base) (value_key j) =
     (if j \<in> set names then Some (g j) else map_of base (value_key j))"
  by (induction names arbitrary: base) (auto simp: insert_key_def)

lemma amap_ok_fold_insert: "amap_ok base \<Longrightarrow> amap_ok (fold (\<lambda>f m. insert_key f (g f) m) names base)"
  by (induction names arbitrary: base) (auto simp: insert_key_def)

text \<open>What a saved field is read back as: nothing when it is missing or null.\<close>

definition saved :: "yaml option \<Rightarrow> yaml option" where
  "saved v = (case v of None \<Rightarrow> None | Some x \<Rightarrow> if yaml_is_null x then None else Some x)"

lemma get_overlaid_patch:
  "overlaid base (YMapping (overlay_patch v names)) = YMapping (patch_entries (overlay_patch v names) base)"
  "get_key (patch_entries (overlay_patch v names) base) f =
     (if f \<in> set names then saved (yaml_get v f) else get_key base f)"
proof -
  show "overlaid base (YMapping (overlay_patch v names)) = YMapping (patch_entries (overlay_patch v names) base)"
    by (simp add: overlaid_def)
  have "amap_ok (overlay_patch v names)"
    unfolding overlay_patch_def by (intro amap_ok_fold_insert) (simp add: amap_ok_def)
  then have "distinct (map fst (overlay_patch v names))" by (simp add: amap_ok_def)
  then show "get_key (patch_entries (overlay_patch v names) base) f =
     (if f \<in> set names then saved (yaml_get v f) else get_key base f)"
    by (simp add: get_patch_entries overlay_patch_def map_of_fold_insert saved_def split: option.split)
qed

subsection \<open>The overlays of a document\<close>

text \<open>Every overlay the setters save has exactly the fields of its section.\<close>

definition overlays_ok :: "(string \<times> yaml) list \<Rightarrow> bool" where
  "overlays_ok ov \<longleftrightarrow> bmap_ok ov \<and>
     (\<forall>k w. map_of ov k = Some w \<longrightarrow> (\<exists>v. w = YMapping (overlay_patch v (overlay_fields k))))"

lemma overlays_ok_Nil [simp]: "overlays_ok []"
  by (simp add: overlays_ok_def)

lemma overlays_ok_save_key: "overlays_ok ov \<Longrightarrow> overlays_ok (save_key value k ov)"
  by (auto simp: overlays_ok_def save_key_def split: option.split)

lemma overlays_ok_save: "overlays_ok ov \<Longrightarrow> overlays_ok (fold (save_key value) ks ov)"
  by (induction ks arbitrary: ov) (simp_all add: overlays_ok_save_key)

lemma map_of_save:
  "map_of (fold (save_key value) ks ov) k =
     (if k \<in> set ks then (case yaml_get value k of None \<Rightarrow> map_of ov k
        | Some v \<Rightarrow> Some (YMapping (overlay_patch v (overlay_fields k)))) else map_of ov k)"
  by (induction ks arbitrary: ov) (auto simp: save_key_def split: option.splits)

text \<open>
  The section a saved value is read back as: the saved fields from the value, the rest from the file.
\<close>

lemma get_saved_root:
  assumes "overlays_ok ov"
  shows "get_key (overlay_root (fold (save_key value) ks ov) root) k =
    (if k \<in> set ks \<and> yaml_get value k \<noteq> None then
       Some (YMapping (patch_entries (overlay_patch (the (yaml_get value k)) (overlay_fields k)) (section_of root k)))
     else get_key (overlay_root ov root) k)"
proof -
  have "distinct (map fst (fold (save_key value) ks ov))" "distinct (map fst ov)"
    using assms overlays_ok_save by (simp_all add: overlays_ok_def bmap_ok_distinct)
  then show ?thesis by (auto simp: get_overlay_root map_of_save get_overlaid_patch split: option.split)
qed

text \<open>A field that no overlay owns is read from the file.\<close>

lemma get_unowned:
  assumes "overlays_ok ov" "f \<notin> set (overlay_fields k)"
  shows "get_key (section_of (overlay_root ov root) k) f = get_key (section_of root k) f"
proof -
  have d: "distinct (map fst ov)" using assms(1) by (simp add: overlays_ok_def bmap_ok_distinct)
  show ?thesis
  proof (cases "map_of ov k")
    case None
    then have "get_key (overlay_root ov root) k = get_key root k" using d by (simp add: get_overlay_root)
    then have "section_of (overlay_root ov root) k = section_of root k" by (rule section_of_key)
    then show ?thesis by simp
  next
    case (Some w)
    then obtain v where "w = YMapping (overlay_patch v (overlay_fields k))"
      using assms(1) by (auto simp: overlays_ok_def)
    then have "get_key (overlay_root ov root) k =
        Some (YMapping (patch_entries (overlay_patch v (overlay_fields k)) (section_of root k)))"
      using d Some by (simp add: get_overlay_root get_overlaid_patch)
    then have "section_of (overlay_root ov root) k = patch_entries (overlay_patch v (overlay_fields k)) (section_of root k)"
      by (simp add: section_of_def)
    then show ?thesis using assms(2) by (simp add: get_overlaid_patch)
  qed
qed

text \<open>The fields of a section after saving it: the saved value for the owned ones, as before for the rest.\<close>

lemma saved_section:
  assumes "overlays_ok ov" "k \<in> set ks" "yaml_get value k = Some (YMapping m)"
    "\<And>f. f \<notin> set (overlay_fields k) \<Longrightarrow> get_key m f = get_key (section_of (overlay_root ov root) k) f"
  shows "\<exists>m'. get_key (overlay_root (fold (save_key value) ks ov) root) k = Some (YMapping m') \<and>
    (\<forall>f. get_key m' f = (if f \<in> set (overlay_fields k) then saved (get_key m f) else get_key m f))"
  using assms by (simp add: get_saved_root get_overlaid_patch get_unowned)

subsection \<open>The YAML a profile has\<close>

definition prints_back :: "yaml_io \<Rightarrow> yaml \<Rightarrow> bool" where
  "prints_back io v \<longleftrightarrow> (\<exists>text. yl_print io v = Inr text \<and> yl_parse io text = Inr v)"

definition file_value :: "yaml_io \<Rightarrow> yaml store \<Rightarrow> disk \<Rightarrow> yaml profile_document \<Rightarrow> yaml option" where
  "file_value io s d p =
    (case dk_files d (join (st_root s) (pd_raw_yaml_path p)) of None \<Rightarrow> None | Some content \<Rightarrow>
    (case from_utf8 content of None \<Rightarrow> None | Some raw \<Rightarrow>
    (case yl_parse io raw of Inl _ \<Rightarrow> None | Inr v \<Rightarrow> Some v)))"

definition effective_root :: "yaml_io \<Rightarrow> string \<Rightarrow> yaml store \<Rightarrow> disk \<Rightarrow> mapping option" where
  "effective_root io i s d =
    (case map_of (st_profiles s) i of None \<Rightarrow> None | Some p \<Rightarrow>
     map_option (overlay_root (pd_user_overrides p)) (Option.bind (file_value io s d p) yaml_as_mapping))"

text \<open>The YAML library reads back what it prints.\<close>

definition yaml_codec_ok :: "yaml_io \<Rightarrow> bool" where
  "yaml_codec_ok io \<longleftrightarrow> (\<forall>v. prints_back io v)"

text \<open>
  No system call fails, the store is consistent and the file of the profile holds a mapping.
\<close>

definition readable :: "yaml_io \<Rightarrow> string \<Rightarrow> yaml store \<Rightarrow> disk \<Rightarrow> bool" where
  "readable io i s d \<longleftrightarrow> dk_faults d = [] \<and> store_ok s (dk_files d) \<and>
     (\<exists>p value root. map_of (st_profiles s) i = Some p \<and> file_value io s d p = Some value \<and>
        yaml_as_mapping value = Some root \<and> overlays_ok (pd_user_overrides p))"

lemma readable_raw:
  assumes "yaml_codec_ok io" "readable io i s d"
  obtains tx v root where "raw_yaml io i s d = (d, Inr tx)" "yl_parse io tx = Inr v"
    "yaml_as_mapping v = Some root" "effective_root io i s d = Some root"
proof -
  from assms(2) obtain p v froot where r: "dk_faults d = []" "store_ok s (dk_files d)"
    "map_of (st_profiles s) i = Some p" "file_value io s d p = Some v" "yaml_as_mapping v = Some froot"
    by (auto simp: readable_def)
  from r(4) obtain content raw where f: "dk_files d (join (st_root s) (pd_raw_yaml_path p)) = Some content"
    "from_utf8 content = Some raw" "yl_parse io raw = Inr v"
    by (auto simp: file_value_def split: option.splits sum.splits)
  have e: "effective_root io i s d = Some (overlay_root (pd_user_overrides p) froot)"
    using r by (simp add: effective_root_def)
  have raw: "raw_yaml io i s d = (d, overlaid_text io (pd_user_overrides p) raw)"
    using r f by (simp add: raw_yaml_def profile_def store_ok_available [OF r(2)] read_to_string_def read_file_ok)
  show ?thesis
  proof (cases "pd_user_overrides p = []")
    case True
    then show ?thesis using that raw e f r(5) by (simp add: overlaid_text_def overlay_root_def)
  next
    case False
    from assms(1) obtain tx where "yl_print io (set_mapping (overlay_root (pd_user_overrides p) froot) v) = Inr tx"
      "yl_parse io tx = Inr (set_mapping (overlay_root (pd_user_overrides p) froot) v)"
      by (auto simp: yaml_codec_ok_def prints_back_def)
    then show ?thesis using that raw e f r(5) False by (simp add: overlaid_text_def)
  qed
qed

lemma reading_root:
  assumes "yaml_codec_ok io" "readable io i s d" "effective_root io i s d = Some root"
  shows "reading io i (\<lambda>text. with_root (yl_parse io) text f) s d = (d, f root)"
  by (rule readable_raw [OF assms(1,2)]) (use assms(3) in \<open>simp add: reading_def with_root_def\<close>)

lemma settings_of_root:
  assumes "yaml_codec_ok io" "readable io i s d" "effective_root io i s d = Some root"
  shows "vpn_options_for_profile io i s d = (d, vpn_options_from_mapping (yl_ip_net io) root)"
    "controller_access_for_profile io i s d = (d, controller_access_from_mapping root)"
    "network_ports_for_profile io i s d = (d, network_ports_from_mapping root)"
  using reading_root [OF assms, of "vpn_options_from_mapping (yl_ip_net io)"]
    reading_root [OF assms, of controller_access_from_mapping] reading_root [OF assms, of network_ports_from_mapping]
  by (simp_all add: vpn_options_for_profile_def controller_access_for_profile_def network_ports_for_profile_def
      vpn_options_from_yaml_def [abs_def] controller_access_from_yaml_def [abs_def] network_ports_from_yaml_def [abs_def])

lemma editing_root:
  assumes "yaml_codec_ok io" "readable io i s d" "effective_root io i s d = Some root"
  shows "\<exists>v. \<forall>f. editing io i message s d f = f d v root"
  by (rule readable_raw [OF assms(1,2)]) (use assms(3) in \<open>simp add: editing_def, blast\<close>)

subsection \<open>What a setter leaves\<close>

lemma commit_files_no_faults:
  "commit_files ip index [] d = (d', r) \<Longrightarrow> dk_faults d = [] \<Longrightarrow> dk_faults d' = []"
  by (auto simp: commit_files_def save_index_def atomic_write_def next_fault_def set_file_def
      split: sum.splits)

lemma commit_no_files:
  assumes "commit_staged_with_files ext s d staged [] v = (s', d', Inr r)"
  shows "s' = staged \<and> r = v \<and> (\<exists>content. dk_files d' = (dk_files d)(index_path (st_root staged) \<mapsto> content)) \<and>
    (dk_faults d = [] \<longrightarrow> dk_faults d' = [])"
proof -
  obtain d1 q where c: "commit_files (index_path (st_root staged)) (encoded_index ext staged) [] d = (d1, q)"
    by (cases "commit_files (index_path (st_root staged)) (encoded_index ext staged) [] d")
  then have "q = Inr ()" "d1 = d'" "s' = staged" "r = v"
    using assms by (cases q; simp add: commit_staged_with_files_def)+
  then show ?thesis
    using commit_files_Inr [OF c [unfolded \<open>q = Inr ()\<close>]] commit_files_no_faults [OF c] by auto
qed

lemma save_settings_root:
  assumes "readable io i s d" "effective_root io i s d = Some root"
    and "save_settings_overlay ext i value ks res s d = (s', d', Inr r)"
  obtains ov froot where "r = res" "overlays_ok ov" "root = overlay_root ov froot"
    "effective_root io i s' d' = Some (overlay_root (fold (save_key value) ks ov) froot)" "readable io i s' d'"
proof -
  from assms(1) obtain p fvalue froot where r: "store_ok s (dk_files d)"
    "map_of (st_profiles s) i = Some p" "file_value io s d p = Some fvalue" "yaml_as_mapping fvalue = Some froot"
    "overlays_ok (pd_user_overrides p)"
    by (auto simp: readable_def)
  let ?p = "p\<lparr>pd_user_overrides := fold (save_key value) ks (pd_user_overrides p)\<rparr>"
  have "commit_staged_with_files ext s d (put_profile i ?p s) [] res = (s', d', Inr r)"
    using assms(3) r(1,2)
    by (simp add: save_settings_overlay_def available_def store_ok_available with_profile_def Let_def)
  from commit_no_files [OF this] obtain content where c: "s' = put_profile i ?p s" "r = res"
    "dk_files d' = (dk_files d)(index_path (st_root s) \<mapsto> content)" "dk_faults d' = []"
    using assms(1) by (auto simp: readable_def)
  have doc: "doc_ok (st_root s) (dk_files d) (i, p)" using r(1,2) profile_lookup by blast
  have path: "pd_raw_yaml_path p = raw_path_of i" using doc doc_okD by blast
  have "raw_path_of i \<noteq> ''profiles.json''" by (simp add: raw_path_of_def)
  then have fv: "file_value io s' d' ?p = file_value io s d p"
    using path by (simp add: file_value_def c(1,3) index_path_def)
  then have "effective_root io i s' d' = Some (overlay_root (pd_user_overrides ?p) froot)"
    using r(3,4) by (simp add: effective_root_def c(1) put_profile_def)
  moreover have "root = overlay_root (pd_user_overrides p) froot"
    using assms(2) r(2,3,4) by (simp add: effective_root_def)
  moreover have "doc_ok (st_root s) (dk_files d) (i, ?p)" by (rule doc_ok_same [OF doc]) simp_all
  then have "store_ok s' (dk_files d)" unfolding c(1) by (intro store_ok_put_profile r(1))
  then have "store_ok s' (dk_files d')" by (rule store_ok_mono) (simp add: c(3))
  then have "readable io i s' d'"
    using r(3-5) fv c(4) by (auto simp: readable_def c(1) put_profile_def overlays_ok_save)
  ultimately show ?thesis using that c(2) r(5) by simp
qed

text \<open>
  The sections after a setter saved a value: in the saved ones the owned fields are the value's, every
  other field and every other section is as it was.
\<close>

lemma save_settings_sections:
  assumes "readable io i s d" "effective_root io i s d = Some root"
    and "save_settings_overlay ext i (set_mapping root2 value) ks res s d = (s', d', Inr r)"
  shows "r = res \<and> readable io i s' d' \<and> (\<exists>root3. effective_root io i s' d' = Some root3 \<and>
    (\<forall>k. k \<notin> set ks \<longrightarrow> get_key root3 k = get_key root k) \<and>
    (\<forall>k m. k \<in> set ks \<longrightarrow> get_key root2 k = Some (YMapping m) \<longrightarrow>
       (\<forall>f. f \<notin> set (overlay_fields k) \<longrightarrow> get_key m f = get_key (section_of root k) f) \<longrightarrow>
       (\<exists>m'. get_key root3 k = Some (YMapping m') \<and>
         (\<forall>f. get_key m' f = (if f \<in> set (overlay_fields k) then saved (get_key m f) else get_key m f)))))"
  using assms
proof (rule save_settings_root)
  fix ov froot
  let ?r = "overlay_root (fold (save_key (set_mapping root2 value)) ks ov) froot"
  assume a: "r = res" "overlays_ok ov" "root = overlay_root ov froot" "effective_root io i s' d' = Some ?r"
    "readable io i s' d'"
  have "get_key ?r k = get_key root k" if "k \<notin> set ks" for k
    using that a(2,3) by (simp add: get_saved_root)
  moreover have "\<exists>m'. get_key ?r k = Some (YMapping m') \<and>
      (\<forall>f. get_key m' f = (if f \<in> set (overlay_fields k) then saved (get_key m f) else get_key m f))"
    if "k \<in> set ks" "get_key root2 k = Some (YMapping m)"
      "\<forall>f. f \<notin> set (overlay_fields k) \<longrightarrow> get_key m f = get_key (section_of root k) f" for k m
    by (rule saved_section [OF a(2) that(1)]) (use that(2,3) in \<open>simp_all add: a(3)\<close>)
  ultimately show ?thesis using a(1,4,5) by blast
qed

subsection \<open>The section of the application\<close>

lemma strict_string_list_saved:
  "strict_string_list m k = Inr r \<Longrightarrow> get_key m' k = saved (get_key m k) \<Longrightarrow> strict_string_list m' k = Inr r"
  by (auto simp: strict_string_list_def saved_def split: option.splits yaml.splits)

lemma strict_string_list_cong:
  "get_key m' k = get_key m k \<Longrightarrow> strict_string_list m' k = strict_string_list m k"
  by (simp add: strict_string_list_def)

lemma read_sections_cong:
  "get_key root' ''ipv6'' = get_key root ''ipv6'' \<Longrightarrow> read_ipv6 root' opts = read_ipv6 root opts"
  "get_key root' ''dns'' = get_key root ''dns'' \<Longrightarrow> read_dns root' opts = read_dns root opts"
  "get_key root' ''paws'' = get_key root ''paws'' \<Longrightarrow> read_paws root' opts = read_paws root opts"
  "get_key root' ''tun'' = get_key root ''tun'' \<Longrightarrow> read_tun ip_net root' opts = read_tun ip_net root opts"
  by (simp_all add: read_ipv6_def read_dns_def read_paws_def read_tun_def optional_mapping_def)

lemma read_ipv6_keeps:
  "read_ipv6 root opts = Inr opts' \<Longrightarrow> trusted_applications opts' = trusted_applications opts \<and>
     blocked_applications opts' = blocked_applications opts \<and> addresses opts' = addresses opts"
  by (auto simp: read_ipv6_def rbind_Inr split: option.splits)

lemma read_nameservers_keeps:
  "read_nameservers dns opts = Inr opts' \<Longrightarrow> trusted_applications opts' = trusted_applications opts \<and>
     blocked_applications opts' = blocked_applications opts \<and> addresses opts' = addresses opts"
  by (auto simp: read_nameservers_def rbind_Inr Let_def split: option.splits if_splits)

lemma read_dns_keeps:
  "read_dns root opts = Inr opts' \<Longrightarrow> trusted_applications opts' = trusted_applications opts \<and>
     blocked_applications opts' = blocked_applications opts \<and> addresses opts' = addresses opts"
  by (auto simp: read_dns_def rbind_Inr Let_def dest!: read_nameservers_keeps split: option.splits)

text \<open>The values the section \<open>paws\<close> gives, and the options they make.\<close>

definition app_list :: "mapping \<Rightarrow> string \<Rightarrow> string list presult" where
  "app_list paws key = rbind (strict_string_list paws key) (\<lambda>l. Inr (case l of None \<Rightarrow> [] | Some l \<Rightarrow> l))"

definition engine_field :: "mapping \<Rightarrow> vpn_engine option presult" where
  "engine_field paws = rbind (aliased_field paws ''engine'' ''vpnEngine'' strict_string)
     (\<lambda>s. transpose_result (map_option vpn_engine_try_from s))"

definition or_else :: "'a option \<Rightarrow> 'a \<Rightarrow> 'a" where
  "or_else x v = (case x of None \<Rightarrow> v | Some a \<Rightarrow> a)"

lemma or_else_simps [simp]: "or_else None v = v" "or_else (Some a) v = a"
  by (simp_all add: or_else_def)

lemma read_engine_eq:
  "read_engine paws opts = rbind (engine_field paws) (\<lambda>e. Inr (opts\<lparr>engine := or_else e (engine opts)\<rparr>))"
  by (cases "aliased_field paws ''engine'' ''vpnEngine'' strict_string")
    (auto simp: read_engine_def engine_field_def transpose_result_def rbind_def or_else_def
      split: option.split sum.split)

lemma read_applications_eq:
  "read_applications paws opts =
     rbind (app_list paws ''trusted-applications'') (\<lambda>t. rbind (app_list paws ''blocked-applications'') (\<lambda>b.
       if t \<noteq> [] \<and> b \<noteq> [] then Inl APPS_EXCLUSIVE
       else Inr (opts\<lparr>trusted_applications := t, blocked_applications := b\<rparr>)))"
  by (cases "strict_string_list paws ''trusted-applications''"; cases "strict_string_list paws ''blocked-applications''")
    (simp_all add: read_applications_def app_list_def Let_def)

definition paws_options ::
  "vpn_engine option \<Rightarrow> string list \<Rightarrow> string list \<Rightarrow> bool option \<Rightarrow> bool option \<Rightarrow> vpn_options \<Rightarrow> vpn_options" where
  "paws_options e t b sp bp opts = opts\<lparr>engine := or_else e (engine opts), trusted_applications := t,
     blocked_applications := b, system_proxy := or_else sp (system_proxy opts),
     allow_bypass := or_else bp (allow_bypass opts)\<rparr>"

lemma read_paws_Some:
  assumes "get_key root ''paws'' = Some (YMapping m)"
  shows "read_paws root opts = rbind (engine_field m) (\<lambda>e. rbind (app_list m ''trusted-applications'') (\<lambda>t.
    rbind (app_list m ''blocked-applications'') (\<lambda>b. if t \<noteq> [] \<and> b \<noteq> [] then Inl APPS_EXCLUSIVE else
    rbind (aliased_field m ''system-proxy'' ''systemProxy'' strict_bool) (\<lambda>sp.
    rbind (aliased_field m ''allow-bypass'' ''allowBypass'' strict_bool) (\<lambda>bp.
    Inr (paws_options e t b sp bp opts))))))"
  using assms
  by (cases "engine_field m"; cases "app_list m ''trusted-applications''"; cases "app_list m ''blocked-applications''";
      cases "aliased_field m ''system-proxy'' ''systemProxy'' strict_bool";
      cases "aliased_field m ''allow-bypass'' ''allowBypass'' strict_bool")
    (auto simp: read_paws_def optional_mapping_def read_engine_eq read_applications_eq paws_options_def or_else_def
      Let_def split: option.split)

lemma read_paws_None: "get_key root ''paws'' = None \<Longrightarrow> read_paws root opts = Inr opts"
  by (simp add: read_paws_def optional_mapping_def)

lemma read_paws_cases:
  assumes "read_paws root opts = Inr opts'"
  obtains (absent) "get_key root ''paws'' = None" "opts' = opts"
  | (present) m e t b sp bp where "get_key root ''paws'' = Some (YMapping m)" "engine_field m = Inr e"
      "app_list m ''trusted-applications'' = Inr t" "app_list m ''blocked-applications'' = Inr b"
      "t = [] \<or> b = []" "aliased_field m ''system-proxy'' ''systemProxy'' strict_bool = Inr sp"
      "aliased_field m ''allow-bypass'' ''allowBypass'' strict_bool = Inr bp"
      "opts' = paws_options e t b sp bp opts"
proof (cases "get_key root ''paws''")
  case None
  then show ?thesis using assms absent by (simp add: read_paws_None)
next
  case (Some v)
  then obtain m where v: "v = YMapping m"
    using assms by (cases v) (simp_all add: read_paws_def optional_mapping_def)
  show ?thesis
    using assms present [OF Some [unfolded v]]
    unfolding read_paws_Some [OF Some [unfolded v]] by (auto simp: rbind_Inr split: if_splits)
qed

lemma read_paws_keeps: "read_paws root opts = Inr opts' \<Longrightarrow> addresses opts' = addresses opts"
  by (erule read_paws_cases) (simp_all add: paws_options_def)

text \<open>The fields a VPN setter writes, as the readers see them.\<close>

definition no_vpn_aliases :: "mapping \<Rightarrow> bool" where
  "no_vpn_aliases paws \<longleftrightarrow> get_key paws ''vpnEngine'' = None \<and> get_key paws ''systemProxy'' = None \<and>
     get_key paws ''allowBypass'' = None"

definition vpn_fields_set :: "vpn_engine \<Rightarrow> bool \<Rightarrow> bool \<Rightarrow> mapping \<Rightarrow> bool" where
  "vpn_fields_set e sp bp paws \<longleftrightarrow> get_key paws ''engine'' = Some (YString (vpn_engine_as_str e)) \<and>
     get_key paws ''system-proxy'' = Some (YBool sp) \<and> get_key paws ''allow-bypass'' = Some (YBool bp)"

lemma read_vpn_fields:
  assumes "vpn_fields_set e sp bp paws" "no_vpn_aliases paws"
  shows "engine_field paws = Inr (Some e)"
    "aliased_field paws ''system-proxy'' ''systemProxy'' strict_bool = Inr (Some sp)"
    "aliased_field paws ''allow-bypass'' ''allowBypass'' strict_bool = Inr (Some bp)"
  using assms by (simp_all add: vpn_fields_set_def no_vpn_aliases_def engine_field_def aliased_field_def
      strict_string_def strict_bool_def)

lemma app_list_saved:
  "app_list m k = Inr r \<Longrightarrow> get_key m' k = saved (get_key m k) \<Longrightarrow> app_list m' k = Inr r"
  unfolding app_list_def rbind_Inr by (metis strict_string_list_saved)

lemma app_list_empty [simp]: "app_list [] k = Inr []"
  by (simp add: app_list_def strict_string_list_def)

text \<open>The application lists a profile has.\<close>

lemma apps_of_options:
  assumes "read_paws root opts = Inr opts'" "trusted_applications opts = []" "blocked_applications opts = []"
  shows "app_list (section_of root ''paws'') ''trusted-applications'' = Inr (trusted_applications opts')"
    "app_list (section_of root ''paws'') ''blocked-applications'' = Inr (blocked_applications opts')"
  using assms by (auto simp: section_of_def paws_options_def elim!: read_paws_cases)

lemma read_paws_set:
  assumes "read_paws root opts = Inr opts'" "trusted_applications opts = []" "blocked_applications opts = []"
    "get_key root' ''paws'' = Some (YMapping m)" "vpn_fields_set e sp bp m" "no_vpn_aliases m"
    "app_list m ''trusted-applications'' = Inr t" "app_list m ''blocked-applications'' = Inr b"
  shows "read_paws root' opts = (if t \<noteq> [] \<and> b \<noteq> [] then Inl APPS_EXCLUSIVE
    else Inr (opts'\<lparr>engine := e, trusted_applications := t, blocked_applications := b, system_proxy := sp,
      allow_bypass := bp\<rparr>))"
  using assms(1-3) read_vpn_fields [OF assms(5,6)] assms(7,8)
  by (auto simp: read_paws_Some [OF assms(4)] paws_options_def elim!: read_paws_cases)

subsection \<open>The section of the TUN\<close>

definition mtu_field :: "mapping \<Rightarrow> u16 option presult" where
  "mtu_field tun = transpose_result (map_option (\<lambda>v. strict_u16 v ''mtu'') (get_key tun ''mtu''))"

definition tun_networks ::
  "(string \<Rightarrow> string + bool) \<Rightarrow> mapping \<Rightarrow> (string list \<times> string list \<times> string list) presult" where
  "tun_networks ip_net tun =
    rbind (app_list tun ''inet4-address'') (\<lambda>inet4. rbind (app_list tun ''inet6-address'') (\<lambda>inet6.
    rbind (app_list tun ''route-address'') (\<lambda>rts.
    rbind (validate_networks ip_net inet4 ''inet4-address'' (Some False)) (\<lambda>_.
    rbind (validate_networks ip_net inet6 ''inet6-address'' (Some True)) (\<lambda>_.
    rbind (validate_networks ip_net rts ''route-address'' None) (\<lambda>_. Inr (inet4, inet6, rts)))))))"

lemma read_tun_networks_eq:
  "read_tun_networks ip_net tun opts =
     rbind (tun_networks ip_net tun) (\<lambda>(inet4, inet6, rts). Inr (tun_addresses inet4 inet6 rts opts))"
  unfolding read_tun_networks_def tun_networks_def app_list_def Let_def rbind_def
  by (simp split: sum.split)

definition stack_field :: "mapping \<Rightarrow> string option presult" where
  "stack_field tun = transpose_result
     (map_option (\<lambda>v. rbind (strict_string v ''stack'') normalize_vpn_stack) (get_key tun ''stack''))"

definition hijack_field :: "mapping \<Rightarrow> bool option presult" where
  "hijack_field tun = transpose_result (map_option read_hijack (get_key tun ''dns-hijack''))"

definition device_options :: "u16 option \<Rightarrow> string option \<Rightarrow> bool option \<Rightarrow> vpn_options \<Rightarrow> vpn_options" where
  "device_options n st hj opts = opts\<lparr>mtu := or_else n (mtu opts), stack := or_else st (stack opts),
     dns_hijacking := or_else hj (dns_hijacking opts)\<rparr>"

lemma read_field_eq:
  "(case get_key tun ''mtu'' of None \<Rightarrow> Inr opts
      | Some v \<Rightarrow> rbind (strict_u16 v ''mtu'') (\<lambda>n. Inr (opts\<lparr>mtu := n\<rparr>))) =
     rbind (mtu_field tun) (\<lambda>n. Inr (opts\<lparr>mtu := or_else n (mtu opts)\<rparr>))"
  "(case get_key tun ''stack'' of None \<Rightarrow> Inr opts
      | Some v \<Rightarrow> rbind (strict_string v ''stack'') (\<lambda>s. rbind (normalize_vpn_stack s) (\<lambda>st.
          Inr (opts\<lparr>stack := st\<rparr>)))) =
     rbind (stack_field tun) (\<lambda>st. Inr (opts\<lparr>stack := or_else st (stack opts)\<rparr>))"
  "(case get_key tun ''dns-hijack'' of None \<Rightarrow> Inr opts
      | Some v \<Rightarrow> rbind (read_hijack v) (\<lambda>b. Inr (opts\<lparr>dns_hijacking := b\<rparr>))) =
     rbind (hijack_field tun) (\<lambda>b. Inr (opts\<lparr>dns_hijacking := or_else b (dns_hijacking opts)\<rparr>))"
  by (auto simp: mtu_field_def stack_field_def hijack_field_def transpose_result_def rbind_def or_else_def
      split: option.split sum.split)

lemma read_tun_device_eq:
  "read_tun_device tun opts = rbind (mtu_field tun) (\<lambda>n. rbind (stack_field tun) (\<lambda>st.
     rbind (hijack_field tun) (\<lambda>hj. Inr (device_options n st hj opts))))"
  unfolding read_tun_device_def read_field_eq
  by (cases "mtu_field tun"; cases "stack_field tun"; cases "hijack_field tun")
    (simp_all add: device_options_def)

lemma read_tun_Some:
  assumes "get_key root ''tun'' = Some (YMapping m)"
  shows "read_tun ip_net root opts = rbind (mtu_field m) (\<lambda>n. rbind (stack_field m) (\<lambda>st.
    rbind (hijack_field m) (\<lambda>hj. rbind (tun_networks ip_net m) (\<lambda>(a, b, c).
    Inr (tun_addresses a b c (device_options n st hj opts))))))"
  using assms
  by (cases "mtu_field m"; cases "stack_field m"; cases "hijack_field m")
    (simp_all add: read_tun_def optional_mapping_def read_tun_device_eq read_tun_networks_eq)

lemma read_tun_None: "get_key root ''tun'' = None \<Longrightarrow> read_tun ip_net root opts = Inr opts"
  by (simp add: read_tun_def optional_mapping_def)

definition tun_fields_set :: "vpn_stack \<Rightarrow> bool \<Rightarrow> mapping \<Rightarrow> bool" where
  "tun_fields_set st hj tun \<longleftrightarrow> get_key tun ''stack'' = Some (YString (vpn_stack_as_str st)) \<and>
     (\<exists>v. get_key tun ''dns-hijack'' = Some v \<and> read_hijack v = Inr hj)"

lemma tun_fields:
  "tun_fields_set st hj tun \<Longrightarrow> stack_field tun = Inr (Some (vpn_stack_as_str st))"
  "tun_fields_set st hj tun \<Longrightarrow> hijack_field tun = Inr (Some hj)"
  by (auto simp: tun_fields_set_def stack_field_def hijack_field_def strict_string_def normalize_vpn_stack_def)

lemma tun_networks_empty: "tun_networks ip_net [] = Inr ([], [], [])" "mtu_field [] = Inr None"
  by (simp_all add: tun_networks_def mtu_field_def)

lemma read_tun_cases:
  assumes "read_tun ip_net root opts = Inr opts'"
  obtains (absent) "get_key root ''tun'' = None" "opts' = opts"
  | (present) m n st hj a b c where "get_key root ''tun'' = Some (YMapping m)" "mtu_field m = Inr n"
      "stack_field m = Inr st" "hijack_field m = Inr hj" "tun_networks ip_net m = Inr (a, b, c)"
      "opts' = tun_addresses a b c (device_options n st hj opts)"
proof (cases "get_key root ''tun''")
  case None
  then show ?thesis using assms absent by (simp add: read_tun_None)
next
  case (Some v)
  then obtain m where v: "v = YMapping m"
    using assms by (cases v) (simp_all add: read_tun_def optional_mapping_def)
  show ?thesis
    using assms present [OF Some [unfolded v]] by (auto simp: read_tun_Some [OF Some [unfolded v]] rbind_Inr)
qed

lemma device_options_set:
  "tun_addresses a b c (device_options n (Some st) (Some hj) opts) =
     (tun_addresses a b c (device_options n st' hj' opts))\<lparr>stack := st, dns_hijacking := hj\<rparr>"
  by (cases opts) (simp add: tun_addresses_def device_options_def Let_def)

lemma read_tun_set:
  assumes "read_tun ip_net root opts = Inr opts'" "addresses opts = [MEOW_V4_CLIENT]"
    "get_key root' ''tun'' = Some (YMapping m)" "tun_fields_set st hj m"
    "\<And>f. f \<notin> {''stack'', ''dns-hijack''} \<Longrightarrow> get_key m f = get_key (section_of root ''tun'') f"
  shows "read_tun ip_net root' opts = Inr (opts'\<lparr>stack := vpn_stack_as_str st, dns_hijacking := hj\<rparr>)"
proof -
  have same: "mtu_field m = mtu_field (section_of root ''tun'')"
    "tun_networks ip_net m = tun_networks ip_net (section_of root ''tun'')"
    using assms(5) by (simp_all add: mtu_field_def tun_networks_def app_list_def strict_string_list_def)
  note r = read_tun_Some [OF assms(3)] same tun_fields [OF assms(4)]
  from assms(1) show ?thesis
  proof (cases rule: read_tun_cases)
    case absent
    then have b: "section_of root ''tun'' = []" by (simp add: section_of_def)
    have "tun_addresses [] [] [] (device_options None (Some (vpn_stack_as_str st)) (Some hj) opts) =
        opts\<lparr>stack := vpn_stack_as_str st, dns_hijacking := hj\<rparr>"
      using assms(2) by (cases opts) (simp add: tun_addresses_def device_options_def Let_def)
    then show ?thesis using absent by (simp add: r b tun_networks_empty)
  next
    case (present m' n st' hj' a b c)
    then have b: "section_of root ''tun'' = m'" by (simp add: section_of_def)
    show ?thesis using present by (simp add: r b device_options_set [of a b c n _ _ opts st' hj'])
  qed
qed

text \<open>The sections are read independently: options of the application section pass through.\<close>

definition app_options :: "vpn_engine \<Rightarrow> string list \<Rightarrow> string list \<Rightarrow> bool \<Rightarrow> bool \<Rightarrow> vpn_options \<Rightarrow> vpn_options" where
  "app_options e t b sp bp opts = opts\<lparr>engine := e, trusted_applications := t, blocked_applications := b,
     system_proxy := sp, allow_bypass := bp\<rparr>"

lemma tun_app_frame:
  "tun_addresses a b c (device_options n st hj (app_options e t bl sp bp opts)) =
     app_options e t bl sp bp (tun_addresses a b c (device_options n st hj opts))"
  by (cases opts) (simp add: tun_addresses_def device_options_def app_options_def Let_def)

lemma read_tun_frame:
  "read_tun ip_net root opts = Inr opts' \<Longrightarrow>
     read_tun ip_net root (app_options e t b sp bp opts) = Inr (app_options e t b sp bp opts')"
  by (elim read_tun_cases) (simp_all add: read_tun_None read_tun_Some tun_app_frame)

lemma complete_options_frame:
  "complete_options (opts\<lparr>stack := st, dns_hijacking := hj\<rparr>) = (complete_options opts)\<lparr>stack := st, dns_hijacking := hj\<rparr>"
  "complete_options (app_options e t b sp bp opts) = app_options e t b sp bp (complete_options opts)"
  by (cases opts; simp add: complete_options_def app_options_def Let_def)+

lemma vpn_options_stages:
  assumes "vpn_options_from_mapping ip_net root = Inr opts"
  obtains o1 o2 o3 o4 where "read_ipv6 root vpn_options_default = Inr o1" "read_dns root o1 = Inr o2"
    "read_paws root o2 = Inr o3" "read_tun ip_net root o3 = Inr o4" "opts = complete_options o4"
    "trusted_applications o2 = []" "blocked_applications o2 = []" "addresses o3 = [MEOW_V4_CLIENT]"
proof -
  from assms obtain o1 o2 o3 o4 where r: "read_ipv6 root vpn_options_default = Inr o1" "read_dns root o1 = Inr o2"
    "read_paws root o2 = Inr o3" "read_tun ip_net root o3 = Inr o4" "opts = complete_options o4"
    by (auto simp: vpn_options_from_mapping_def rbind_Inr)
  then show ?thesis
    using that [OF r] read_ipv6_keeps [OF r(1)] read_dns_keeps [OF r(2)] read_paws_keeps [OF r(3)]
    by (simp add: vpn_options_default_def MEOW_V4_CLIENT_def)
qed

text \<open>Reading a mapping whose application and TUN sections a setter wrote.\<close>

lemma vpn_options_set:
  assumes "vpn_options_from_mapping ip_net root = Inr opts"
    "get_key root' ''ipv6'' = get_key root ''ipv6''" "get_key root' ''dns'' = get_key root ''dns''"
    "get_key root' ''paws'' = Some (YMapping paws)" "vpn_fields_set e sp bp paws" "no_vpn_aliases paws"
    "app_list paws ''trusted-applications'' = Inr t" "app_list paws ''blocked-applications'' = Inr b"
    "get_key root' ''tun'' = Some (YMapping tun)" "tun_fields_set st hj tun"
    "\<And>f. f \<notin> {''stack'', ''dns-hijack''} \<Longrightarrow> get_key tun f = get_key (section_of root ''tun'') f"
  shows "vpn_options_from_mapping ip_net root' = (if t \<noteq> [] \<and> b \<noteq> [] then Inl APPS_EXCLUSIVE
    else Inr (opts\<lparr>engine := e, trusted_applications := t, blocked_applications := b, system_proxy := sp,
      allow_bypass := bp, stack := vpn_stack_as_str st, dns_hijacking := hj\<rparr>))"
  using assms(1)
proof (rule vpn_options_stages)
  fix o1 o2 o3 o4
  assume o: "read_ipv6 root vpn_options_default = Inr o1" "read_dns root o1 = Inr o2"
    "read_paws root o2 = Inr o3" "read_tun ip_net root o3 = Inr o4" "opts = complete_options o4"
    "trusted_applications o2 = []" "blocked_applications o2 = []" "addresses o3 = [MEOW_V4_CLIENT]"
  let ?u = "app_options e t b sp bp"
  have p: "read_paws root' o2 = (if t \<noteq> [] \<and> b \<noteq> [] then Inl APPS_EXCLUSIVE else Inr (?u o3))"
    using read_paws_set [OF o(3,6,7) assms(4-8)] by (simp add: app_options_def)
  have "addresses (?u o3) = [MEOW_V4_CLIENT]" using o(8) by (simp add: app_options_def)
  from read_tun_set [OF read_tun_frame [OF o(4)] this assms(9,10,11)]
  have tun: "read_tun ip_net root' (?u o3) = Inr ((?u o4)\<lparr>stack := vpn_stack_as_str st, dns_hijacking := hj\<rparr>)"
    by simp
  have "vpn_options_from_mapping ip_net root' = rbind (read_paws root' o2) (\<lambda>opts.
      rbind (read_tun ip_net root' opts) (\<lambda>opts. Inr (complete_options opts)))"
    using o(1,2) by (simp add: vpn_options_from_mapping_def read_sections_cong(1) [OF assms(2)]
        read_sections_cong(2) [OF assms(3)])
  also have "\<dots> = (if t \<noteq> [] \<and> b \<noteq> [] then Inl APPS_EXCLUSIVE
      else Inr (complete_options ((?u o4)\<lparr>stack := vpn_stack_as_str st, dns_hijacking := hj\<rparr>)))"
    unfolding p by (simp only: tun rbind_simps split: if_split) blast
  finally show ?thesis unfolding complete_options_frame o(5) [symmetric] by (simp only: app_options_def)
qed

subsection \<open>The setters\<close>

lemma overlay_fields_simps:
  "set (overlay_fields ''dns'') = {''nameserver'', ''fallback'', ''nameserver-policy''}"
  "set (overlay_fields ''tun'') = {''stack'', ''dns-hijack''}"
  "set (overlay_fields ''paws'') = {''engine'', ''system-proxy'', ''allow-bypass'', ''trusted-applications'',
     ''blocked-applications'', ''mixed-port'', ''mixed-enabled'', ''controller-port'', ''controller-enabled'',
     ''controller-allow-lan'', ''controller-secret''}"
  by (simp_all add: overlay_fields_def)

lemma saved_simps [simp]:
  "saved None = None" "saved (Some (YBool b)) = Some (YBool b)" "saved (Some (YString x)) = Some (YString x)"
  "saved (Some (YNumber n)) = Some (YNumber n)" "saved (Some (YSequence xs)) = Some (YSequence xs)"
  "saved (Some (YMapping m)) = Some (YMapping m)"
  by (simp_all add: saved_def)

lemma get_edit_paws:
  "get_key (edit_vpn_paws e sp bp root) k =
     (if k = ''paws'' then Some (YMapping (put_bool ''allow-bypass'' bp (put_bool ''system-proxy'' sp
        (put_string ''engine'' (vpn_engine_as_str e) (section_of root ''paws''))))) else get_key root k)"
  by (simp add: edit_vpn_paws_def)

lemma get_edit_tun:
  "\<exists>m v. (\<forall>k. get_key (edit_vpn_tun st hj root) k = (if k = ''tun'' then Some (YMapping m) else get_key root k)) \<and>
     (\<forall>f. get_key m f = (if f = ''dns-hijack'' then Some v
        else if f = ''stack'' then Some (YString (vpn_stack_as_str st)) else get_key (section_of root ''tun'') f)) \<and>
     read_hijack v = Inr hj \<and> saved (Some v) = Some v"
  by (cases hj)
    (auto simp: edit_vpn_tun_def read_hijack_def strict_string_def
      intro!: exI [of _ "YBool False"] exI [of _ "YSequence [YString ''any:53'']"])

text \<open>The sections after the VPN setter, field by field.\<close>

lemma vpn_setter_root:
  assumes "yaml_codec_ok io" "readable io i s d" "effective_root io i s d = Some root"
    "set_profile_vpn_config_with_engine ext io i eng sp hj bp stk s d = (s', d', Inr ())"
  obtains e st root' paws tun where "vpn_engine_try_from eng = Inr e" "vpn_stack_try_from stk = Inr st"
    "effective_root io i s' d' = Some root'" "readable io i s' d'"
    "\<And>k. k \<notin> {''paws'', ''tun''} \<Longrightarrow> get_key root' k = get_key root k"
    "get_key root' ''paws'' = Some (YMapping paws)" "vpn_fields_set e sp bp paws"
    "\<And>f. f \<notin> {''engine'', ''system-proxy'', ''allow-bypass''} \<Longrightarrow> get_key paws f =
       (if f \<in> set (overlay_fields ''paws'') then saved (get_key (section_of root ''paws'') f)
        else get_key (section_of root ''paws'') f)"
    "get_key root' ''tun'' = Some (YMapping tun)" "tun_fields_set st hj tun"
    "\<And>f. f \<notin> {''stack'', ''dns-hijack''} \<Longrightarrow> get_key tun f = get_key (section_of root ''tun'') f"
proof -
  from editing_root [OF assms(1,2,3)] obtain v
    where ed: "\<forall>f :: disk \<Rightarrow> yaml \<Rightarrow> mapping \<Rightarrow> (yaml, unit) op_result. editing io i NO_ROOT s d f = f d v root"
    by blast
  have "editing io i NO_ROOT s d (\<lambda>d value root.
      (case vpn_engine_try_from eng of Inl e \<Rightarrow> refuse s d e | Inr eng \<Rightarrow>
      (case vpn_stack_try_from stk of Inl e \<Rightarrow> refuse s d e | Inr stk \<Rightarrow>
       save_settings_overlay ext i (set_mapping (edit_vpn_tun stk hj (edit_vpn_paws eng sp bp root)) value)
         [''paws'', ''tun''] () s d))) = (s', d', Inr ())"
    using assms(4) by (simp add: set_profile_vpn_config_with_engine_def)
  then obtain e st where es: "vpn_engine_try_from eng = Inr e" "vpn_stack_try_from stk = Inr st"
    and save: "save_settings_overlay ext i (set_mapping (edit_vpn_tun st hj (edit_vpn_paws e sp bp root)) v)
      [''paws'', ''tun''] () s d = (s', d', Inr ())"
    unfolding spec [OF ed] by (auto simp: refuse_def split: sum.splits)
  let ?e = "edit_vpn_paws e sp bp root"
  let ?pm = "put_bool ''allow-bypass'' bp (put_bool ''system-proxy'' sp
        (put_string ''engine'' (vpn_engine_as_str e) (section_of root ''paws'')))"
  obtain m w where m: "\<And>k. get_key (edit_vpn_tun st hj ?e) k = (if k = ''tun'' then Some (YMapping m) else get_key ?e k)"
    "\<And>f. get_key m f = (if f = ''dns-hijack'' then Some w
        else if f = ''stack'' then Some (YString (vpn_stack_as_str st)) else get_key (section_of ?e ''tun'') f)"
    "read_hijack w = Inr hj" "saved (Some w) = Some w"
    using get_edit_tun [of st hj ?e] by blast
  have tsec: "section_of ?e ''tun'' = section_of root ''tun''"
    by (rule section_of_key) (simp add: get_edit_paws)
  from save_settings_sections [OF assms(2,3) save] obtain root' where r:
    "effective_root io i s' d' = Some root'" "readable io i s' d'"
    "\<forall>k. k \<notin> set [''paws'', ''tun''] \<longrightarrow> get_key root' k = get_key root k"
    and sect: "\<forall>k m'. k \<in> set [''paws'', ''tun''] \<longrightarrow> get_key (edit_vpn_tun st hj ?e) k = Some (YMapping m') \<longrightarrow>
       (\<forall>f. f \<notin> set (overlay_fields k) \<longrightarrow> get_key m' f = get_key (section_of root k) f) \<longrightarrow>
       (\<exists>m''. get_key root' k = Some (YMapping m'') \<and>
         (\<forall>f. get_key m'' f = (if f \<in> set (overlay_fields k) then saved (get_key m' f) else get_key m' f)))"
    by blast
  obtain paws where paws: "get_key root' ''paws'' = Some (YMapping paws)"
    "\<And>f. get_key paws f = (if f \<in> set (overlay_fields ''paws'') then saved (get_key ?pm f) else get_key ?pm f)"
    using sect [rule_format, of "''paws''" ?pm] by (auto simp: m(1) get_edit_paws overlay_fields_simps)
  obtain tun where tun: "get_key root' ''tun'' = Some (YMapping tun)"
    "\<And>f. get_key tun f = (if f \<in> set (overlay_fields ''tun'') then saved (get_key m f) else get_key m f)"
    using sect [rule_format, of "''tun''" m] by (auto simp: m(1,2) tsec overlay_fields_simps)
  show ?thesis
  proof (rule that [OF es r(1,2) _ paws(1) _ _ tun(1)])
    show "vpn_fields_set e sp bp paws"
      by (simp add: vpn_fields_set_def paws(2) overlay_fields_simps)
    show "tun_fields_set st hj tun"
      using m(3,4) by (simp add: tun_fields_set_def tun(2) m(2) overlay_fields_simps)
    show "get_key paws f = (if f \<in> set (overlay_fields ''paws'') then saved (get_key (section_of root ''paws'') f)
        else get_key (section_of root ''paws'') f)" if "f \<notin> {''engine'', ''system-proxy'', ''allow-bypass''}" for f
      using that by (simp add: paws(2))
    show "get_key tun f = get_key (section_of root ''tun'') f" if "f \<notin> {''stack'', ''dns-hijack''}" for f
      using that by (simp add: tun(2) m(2) overlay_fields_simps tsec)
    show "get_key root' k = get_key root k" if "k \<notin> {''paws'', ''tun''}" for k
      using that r(3) by simp
  qed
qed

text \<open>The setters that save one section.\<close>

lemma section_setter:
  assumes "readable io i s d" "effective_root io i s d = Some root"
    "save_settings_overlay ext i (set_mapping root2 v) [k] res s d = (s', d', Inr r)"
    "get_key root2 k = Some (YMapping m)"
    "\<forall>f. f \<notin> set (overlay_fields k) \<longrightarrow> get_key m f = get_key (section_of root k) f"
  obtains root' m' where "r = res" "readable io i s' d'" "effective_root io i s' d' = Some root'"
    "\<And>j. j \<noteq> k \<Longrightarrow> get_key root' j = get_key root j" "get_key root' k = Some (YMapping m')"
    "\<And>f. get_key m' f = (if f \<in> set (overlay_fields k) then saved (get_key m f) else get_key m f)"
proof -
  from save_settings_sections [OF assms(1-3)] obtain root' where r: "r = res" "readable io i s' d'"
    "effective_root io i s' d' = Some root'" "\<forall>j. j \<notin> set [k] \<longrightarrow> get_key root' j = get_key root j"
    and sect: "\<forall>j m. j \<in> set [k] \<longrightarrow> get_key root2 j = Some (YMapping m) \<longrightarrow>
       (\<forall>f. f \<notin> set (overlay_fields j) \<longrightarrow> get_key m f = get_key (section_of root j) f) \<longrightarrow>
       (\<exists>m'. get_key root' j = Some (YMapping m') \<and>
         (\<forall>f. get_key m' f = (if f \<in> set (overlay_fields j) then saved (get_key m f) else get_key m f)))"
    by blast
  from sect [rule_format, of k m] assms(4,5) obtain m' where "get_key root' k = Some (YMapping m')"
    "\<forall>f. get_key m' f = (if f \<in> set (overlay_fields k) then saved (get_key m f) else get_key m f)"
    by auto
  with r show ?thesis by (intro that) auto
qed

lemma app_list_sequence: "get_key m k = Some (YSequence (map YString xs)) \<Longrightarrow> app_list m k = Inr xs"
  by (simp add: app_list_def strict_string_list_def comp_def strict_string_def collect_results_map_Inr
      [where f = "\<lambda>x. x", simplified])

lemma applications_setter_root:
  assumes "yaml_codec_ok io" "readable io i s d" "effective_root io i s d = Some root"
    "save_applications ext io i t b s d = (s', d', Inr ())"
  obtains root' paws where "readable io i s' d'" "effective_root io i s' d' = Some root'"
    "\<And>j. j \<noteq> ''paws'' \<Longrightarrow> get_key root' j = get_key root j" "get_key root' ''paws'' = Some (YMapping paws)"
    "\<And>f. f \<notin> {''trusted-applications'', ''blocked-applications''} \<Longrightarrow> get_key paws f =
       (if f \<in> set (overlay_fields ''paws'') then saved (get_key (section_of root ''paws'') f)
        else get_key (section_of root ''paws'') f)"
    "get_key paws ''trusted-applications'' = (if t = [] then saved (get_key (section_of root ''paws'') ''trusted-applications'')
       else Some (YSequence (map YString t)))"
    "get_key paws ''blocked-applications'' = (if b = [] then saved (get_key (section_of root ''paws'') ''blocked-applications'')
       else Some (YSequence (map YString b)))"
proof -
  from editing_root [OF assms(1,2,3)] obtain v
    where ed: "\<forall>f :: disk \<Rightarrow> yaml \<Rightarrow> mapping \<Rightarrow> (yaml, unit) op_result. editing io i ''Invalid profile'' s d f = f d v root"
    by blast
  have save: "save_settings_overlay ext i (set_mapping (edit_applications t b root) v) [''paws''] () s d = (s', d', Inr ())"
    using assms(4) unfolding save_applications_def spec [OF ed] .
  let ?m = "put_string_sequence ''blocked-applications'' b
      (put_string_sequence ''trusted-applications'' t (section_of root ''paws''))"
  have e: "get_key (edit_applications t b root) ''paws'' = Some (YMapping ?m)"
    by (simp add: edit_applications_def)
  have m: "\<forall>f. f \<notin> set (overlay_fields ''paws'') \<longrightarrow> get_key ?m f = get_key (section_of root ''paws'') f"
    by (simp add: overlay_fields_simps)
  obtain root' paws where r: "() = ()" "readable io i s' d'" "effective_root io i s' d' = Some root'"
    "\<And>j. j \<noteq> ''paws'' \<Longrightarrow> get_key root' j = get_key root j" "get_key root' ''paws'' = Some (YMapping paws)"
    "\<And>f. get_key paws f = (if f \<in> set (overlay_fields ''paws'') then saved (get_key ?m f) else get_key ?m f)"
    by (rule section_setter [OF assms(2,3) save e m]) (rule that)
  show ?thesis
  proof (rule that [OF r(2-5)])
    show "get_key paws f = (if f \<in> set (overlay_fields ''paws'') then saved (get_key (section_of root ''paws'') f)
        else get_key (section_of root ''paws'') f)"
      if "f \<notin> {''trusted-applications'', ''blocked-applications''}" for f
      using that by (simp add: r(6))
  qed (simp_all add: r(6) overlay_fields_simps)
qed

text \<open>
  The application lists after the setter: an empty list does not replace the one the profile has.
\<close>

definition kept_list :: "string list \<Rightarrow> string list \<Rightarrow> string list" where
  "kept_list new old = (if new = [] then old else new)"

lemma saved_saved [simp]: "saved (saved x) = saved x"
  by (simp add: saved_def split: option.split)

lemma options_keep_apps:
  "read_tun ip_net root opts = Inr opts' \<Longrightarrow>
     trusted_applications (complete_options opts') = trusted_applications opts \<and>
     blocked_applications (complete_options opts') = blocked_applications opts"
  by (erule read_tun_cases) (simp_all add: complete_options_def tun_addresses_def device_options_def Let_def)

lemma app_lists_of:
  assumes "vpn_options_from_mapping ip_net root = Inr opts"
  shows "app_list (section_of root ''paws'') ''trusted-applications'' = Inr (trusted_applications opts)"
    "app_list (section_of root ''paws'') ''blocked-applications'' = Inr (blocked_applications opts)"
  by (rule vpn_options_stages [OF assms]; simp add: apps_of_options options_keep_apps)+

lemma vpn_apps_read_back:
  assumes "yaml_codec_ok io" "readable io i s d" "effective_root io i s d = Some root"
    "vpn_options_from_mapping (yl_ip_net io) root = Inr opts" "no_vpn_aliases (section_of root ''paws'')"
    "set_profile_vpn_config_with_apps_and_engine ext io i eng sp hj bp stk tr bl s d = (s', d', Inr ())"
  shows "\<exists>e st. vpn_engine_try_from eng = Inr e \<and> vpn_stack_try_from stk = Inr st \<and>
    vpn_options_for_profile io i s' d' = (d',
      (let t = kept_list tr (trusted_applications opts); b = kept_list bl (blocked_applications opts) in
       if t \<noteq> [] \<and> b \<noteq> [] then Inl APPS_EXCLUSIVE
       else Inr (opts\<lparr>engine := e, trusted_applications := t, blocked_applications := b, system_proxy := sp,
         allow_bypass := bp, stack := vpn_stack_as_str st, dns_hijacking := hj\<rparr>)))"
proof -
  from assms(6) obtain s1 d1 where first:
      "set_profile_vpn_config_with_engine ext io i eng sp hj bp stk s d = (s1, d1, Inr ())"
    and second: "save_applications ext io i tr bl s1 d1 = (s', d', Inr ())"
    by (auto simp: set_profile_vpn_config_with_apps_and_engine_def refuse_def split: if_splits prod.splits sum.splits)
  obtain e st root1 paws1 tun where v:
    "vpn_engine_try_from eng = Inr e" "vpn_stack_try_from stk = Inr st"
    "effective_root io i s1 d1 = Some root1" "readable io i s1 d1"
    "\<And>k. k \<notin> {''paws'', ''tun''} \<Longrightarrow> get_key root1 k = get_key root k"
    "get_key root1 ''paws'' = Some (YMapping paws1)" "vpn_fields_set e sp bp paws1"
    "\<And>f. f \<notin> {''engine'', ''system-proxy'', ''allow-bypass''} \<Longrightarrow> get_key paws1 f =
       (if f \<in> set (overlay_fields ''paws'') then saved (get_key (section_of root ''paws'') f)
        else get_key (section_of root ''paws'') f)"
    "get_key root1 ''tun'' = Some (YMapping tun)" "tun_fields_set st hj tun"
    "\<And>f. f \<notin> {''stack'', ''dns-hijack''} \<Longrightarrow> get_key tun f = get_key (section_of root ''tun'') f"
    by (rule vpn_setter_root [OF assms(1-3) first]) (rule that)
  have p1: "section_of root1 ''paws'' = paws1" using v(6) by (simp add: section_of_def)
  obtain root' paws where a:
    "readable io i s' d'" "effective_root io i s' d' = Some root'"
    "\<And>j. j \<noteq> ''paws'' \<Longrightarrow> get_key root' j = get_key root1 j" "get_key root' ''paws'' = Some (YMapping paws)"
    "\<And>f. f \<notin> {''trusted-applications'', ''blocked-applications''} \<Longrightarrow> get_key paws f =
       (if f \<in> set (overlay_fields ''paws'') then saved (get_key paws1 f) else get_key paws1 f)"
    "get_key paws ''trusted-applications'' = (if tr = [] then saved (get_key paws1 ''trusted-applications'')
       else Some (YSequence (map YString tr)))"
    "get_key paws ''blocked-applications'' = (if bl = [] then saved (get_key paws1 ''blocked-applications'')
       else Some (YSequence (map YString bl)))"
    by (rule applications_setter_root [OF assms(1) v(4,3) second, unfolded p1]) (rule that)
  have set: "vpn_fields_set e sp bp paws" using v(7) by (simp add: vpn_fields_set_def a(5) overlay_fields_simps)
  have no_alias: "no_vpn_aliases paws" using assms(5) by (simp add: no_vpn_aliases_def a(5) v(8) overlay_fields_simps)
  note lists = app_lists_of [OF assms(4)]
  have t: "app_list paws ''trusted-applications'' = Inr (kept_list tr (trusted_applications opts))"
  proof (cases "tr = []")
    case True
    then show ?thesis using lists(1)
      by (simp add: kept_list_def) (erule app_list_saved, simp add: a(6) v(8) overlay_fields_simps)
  qed (simp add: kept_list_def app_list_sequence a(6))
  have b: "app_list paws ''blocked-applications'' = Inr (kept_list bl (blocked_applications opts))"
  proof (cases "bl = []")
    case True
    then show ?thesis using lists(2)
      by (simp add: kept_list_def) (erule app_list_saved, simp add: a(7) v(8) overlay_fields_simps)
  qed (simp add: kept_list_def app_list_sequence a(7))
  have opt: "vpn_options_from_mapping (yl_ip_net io) root' = (let t = kept_list tr (trusted_applications opts); b = kept_list bl (blocked_applications opts) in
       if t \<noteq> [] \<and> b \<noteq> [] then Inl APPS_EXCLUSIVE
       else Inr (opts\<lparr>engine := e, trusted_applications := t, blocked_applications := b, system_proxy := sp,
         allow_bypass := bp, stack := vpn_stack_as_str st, dns_hijacking := hj\<rparr>))"
    unfolding Let_def
    by (rule vpn_options_set [OF assms(4) _ _ a(4) set no_alias t b _ v(10,11)]) (simp_all add: a(3) v(5,9))
  show ?thesis
    by (intro exI conjI, rule v(1), rule v(2), simp only: settings_of_root(1) [OF assms(1) a(1,2)] opt)
qed

lemma vpn_settings_read_back:
  assumes "yaml_codec_ok io" "readable io i s d" "effective_root io i s d = Some root"
    "vpn_options_from_mapping (yl_ip_net io) root = Inr opts" "no_vpn_aliases (section_of root ''paws'')"
    "set_profile_vpn_config_with_engine ext io i eng sp hj bp stk s d = (s', d', Inr ())"
  shows "\<exists>e st. vpn_engine_try_from eng = Inr e \<and> vpn_stack_try_from stk = Inr st \<and> readable io i s' d' \<and>
    vpn_options_for_profile io i s' d' = (d', Inr (opts\<lparr>engine := e, system_proxy := sp, allow_bypass := bp,
      stack := vpn_stack_as_str st, dns_hijacking := hj\<rparr>))"
proof -
  obtain e st root' paws tun where v:
    "vpn_engine_try_from eng = Inr e" "vpn_stack_try_from stk = Inr st"
    "effective_root io i s' d' = Some root'" "readable io i s' d'"
    "\<And>k. k \<notin> {''paws'', ''tun''} \<Longrightarrow> get_key root' k = get_key root k"
    "get_key root' ''paws'' = Some (YMapping paws)" "vpn_fields_set e sp bp paws"
    "\<And>f. f \<notin> {''engine'', ''system-proxy'', ''allow-bypass''} \<Longrightarrow> get_key paws f =
       (if f \<in> set (overlay_fields ''paws'') then saved (get_key (section_of root ''paws'') f)
        else get_key (section_of root ''paws'') f)"
    "get_key root' ''tun'' = Some (YMapping tun)" "tun_fields_set st hj tun"
    "\<And>f. f \<notin> {''stack'', ''dns-hijack''} \<Longrightarrow> get_key tun f = get_key (section_of root ''tun'') f"
    by (rule vpn_setter_root [OF assms(1-3,6)]) (rule that)
  have no_alias: "no_vpn_aliases paws" using assms(5) by (simp add: no_vpn_aliases_def v(8) overlay_fields_simps)
  note lists = app_lists_of [OF assms(4)]
  have t: "app_list paws ''trusted-applications'' = Inr (trusted_applications opts)"
    by (rule app_list_saved [OF lists(1)]) (simp add: v(8) overlay_fields_simps)
  have b: "app_list paws ''blocked-applications'' = Inr (blocked_applications opts)"
    by (rule app_list_saved [OF lists(2)]) (simp add: v(8) overlay_fields_simps)
  have one: "trusted_applications opts = [] \<or> blocked_applications opts = []"
    by (rule vpn_options_stages [OF assms(4)]) (auto simp: options_keep_apps paws_options_def elim!: read_paws_cases)
  have "vpn_options_from_mapping (yl_ip_net io) root' =
    (if trusted_applications opts \<noteq> [] \<and> blocked_applications opts \<noteq> [] then Inl APPS_EXCLUSIVE
     else Inr (opts\<lparr>engine := e, trusted_applications := trusted_applications opts,
       blocked_applications := blocked_applications opts, system_proxy := sp,
       allow_bypass := bp, stack := vpn_stack_as_str st, dns_hijacking := hj\<rparr>))"
    by (rule vpn_options_set [OF assms(4) _ _ v(6,7) no_alias t b v(9-11)]) (simp_all add: v(5))
  also have "\<dots> = Inr (opts\<lparr>engine := e, system_proxy := sp, allow_bypass := bp,
      stack := vpn_stack_as_str st, dns_hijacking := hj\<rparr>)"
    using one by (cases opts) auto
  finally have opt: "vpn_options_from_mapping (yl_ip_net io) root' = Inr (opts\<lparr>engine := e, system_proxy := sp,
      allow_bypass := bp, stack := vpn_stack_as_str st, dns_hijacking := hj\<rparr>)" .
  show ?thesis
    by (intro exI conjI, rule v(1), rule v(2), rule v(4), simp only: settings_of_root(1) [OF assms(1) v(4,3)] opt)
qed

text \<open>With an engine under its old name, the setter leaves a profile that cannot be read any more.\<close>

lemma vpn_alias_conflict:
  assumes "yaml_codec_ok io" "readable io i s d" "effective_root io i s d = Some root"
    "vpn_options_from_mapping (yl_ip_net io) root = Inr opts"
    "get_key (section_of root ''paws'') ''vpnEngine'' = Some (YString old)"
    "set_profile_vpn_config_with_engine ext io i eng sp hj bp stk s d = (s', d', Inr ())"
    "vpn_engine_try_from eng = Inr e" "old \<noteq> vpn_engine_as_str e"
  shows "vpn_options_for_profile io i s' d' =
    (d', Inl (Core (''profile fields '' @ quoted ''engine'' @ '' and legacy alias '' @ quoted ''vpnEngine'' @ '' conflict'')))"
proof -
  obtain e' st root' paws tun where v:
    "vpn_engine_try_from eng = Inr e'" "vpn_stack_try_from stk = Inr st"
    "effective_root io i s' d' = Some root'" "readable io i s' d'"
    "\<And>k. k \<notin> {''paws'', ''tun''} \<Longrightarrow> get_key root' k = get_key root k"
    "get_key root' ''paws'' = Some (YMapping paws)" "vpn_fields_set e' sp bp paws"
    "\<And>f. f \<notin> {''engine'', ''system-proxy'', ''allow-bypass''} \<Longrightarrow> get_key paws f =
       (if f \<in> set (overlay_fields ''paws'') then saved (get_key (section_of root ''paws'') f)
        else get_key (section_of root ''paws'') f)"
    "get_key root' ''tun'' = Some (YMapping tun)" "tun_fields_set st hj tun"
    "\<And>f. f \<notin> {''stack'', ''dns-hijack''} \<Longrightarrow> get_key tun f = get_key (section_of root ''tun'') f"
    by (rule vpn_setter_root [OF assms(1-3,6)]) (rule that)
  have "e' = e" using v(1) assms(7) by simp
  have "get_key paws ''vpnEngine'' = Some (YString old)" using assms(5) by (simp add: v(8) overlay_fields_simps)
  moreover have "get_key paws ''engine'' = Some (YString (vpn_engine_as_str e))"
    using v(7) \<open>e' = e\<close> by (simp add: vpn_fields_set_def)
  ultimately have "engine_field paws = Inl (Core (''profile fields '' @ quoted ''engine'' @ '' and legacy alias ''
      @ quoted ''vpnEngine'' @ '' conflict''))"
    using assms(8) by (simp add: engine_field_def aliased_field_def strict_string_def)
  then have p: "read_paws root' o2 = Inl (Core (''profile fields '' @ quoted ''engine'' @ '' and legacy alias ''
      @ quoted ''vpnEngine'' @ '' conflict''))" for o2
    by (simp add: read_paws_Some [OF v(6)])
  have same: "get_key root' ''ipv6'' = get_key root ''ipv6''" "get_key root' ''dns'' = get_key root ''dns''"
    by (simp_all add: v(5))
  obtain o1 o2 where o: "read_ipv6 root vpn_options_default = Inr o1" "read_dns root o1 = Inr o2"
    by (rule vpn_options_stages [OF assms(4)]) (rule that)
  show ?thesis
    unfolding settings_of_root(1) [OF assms(1) v(4,3)]
    by (simp add: vpn_options_from_mapping_def read_sections_cong(1) [OF same(1)] read_sections_cong(2) [OF same(2)] o p)
qed

subsection \<open>The DNS setters\<close>

lemma strict_list_sequence: "get_key m k = Some (string_sequence xs) \<Longrightarrow> strict_string_list m k = Inr (Some xs)"
  by (simp add: strict_string_list_def string_sequence_def comp_def strict_string_def collect_results_map_Inr
      [where f = "\<lambda>x. x", simplified])

lemma strict_map_policy:
  "get_key m k = Some (policy_mapping policy) \<Longrightarrow> policy_ok policy \<Longrightarrow> strict_string_list_map m k = Inr (Some policy)"
  using read_policy_back [of "[]" policy k] by (simp add: strict_string_list_map_def policy_mapping_def)

text \<open>What the readers make of a DNS section: the options are replaced by what it has.\<close>

definition dns_section_options :: "string list \<Rightarrow> string list \<Rightarrow> (string \<times> string list) list \<Rightarrow> vpn_options \<Rightarrow> vpn_options" where
  "dns_section_options servers fallbacks policy opts = opts\<lparr>dns_servers := servers, dns_fallbacks := fallbacks,
     dns_nameserver_policy := policy\<rparr>"

definition dns_fields_set ::
  "string list \<Rightarrow> string list \<Rightarrow> (string \<times> string list) list \<Rightarrow> mapping \<Rightarrow> bool" where
  "dns_fields_set servers fallbacks policy dns \<longleftrightarrow>
     get_key dns ''nameserver'' = Some (string_sequence servers) \<and>
     get_key dns ''fallback'' = (if fallbacks = [] then None else Some (string_sequence fallbacks)) \<and>
     get_key dns ''nameserver-policy'' = (if policy = [] then None else Some (policy_mapping policy))"

lemma read_dns_set:
  assumes "get_key root' ''dns'' = Some (YMapping dns)" "dns_fields_set servers fallbacks policy dns"
    "servers_ok servers" "servers \<noteq> []" "servers_ok fallbacks" "policy_ok policy"
  shows "read_dns root' opts = Inr (dns_section_options servers (if fallbacks = [] then dns_fallbacks opts else fallbacks)
    (if policy = [] then dns_nameserver_policy opts else policy) opts)"
proof -
  have ns: "strict_string_list dns ''nameserver'' = Inr (Some servers)"
    using assms(2) by (intro strict_list_sequence) (simp add: dns_fields_set_def)
  have fb: "strict_string_list dns ''fallback'' = Inr (if fallbacks = [] then None else Some fallbacks)"
  proof (cases "fallbacks = []")
    case True
    then show ?thesis using assms(2) by (simp add: dns_fields_set_def strict_string_list_def)
  next
    case False
    then show ?thesis using assms(2) strict_list_sequence [of dns "''fallback''" fallbacks] by (simp add: dns_fields_set_def)
  qed
  have pol: "strict_string_list_map dns ''nameserver-policy'' = Inr (if policy = [] then None else Some policy)"
  proof (cases "policy = []")
    case True
    then show ?thesis using assms(2) by (simp add: dns_fields_set_def strict_string_list_map_def)
  next
    case False
    then show ?thesis using assms(2,6) strict_map_policy [of dns "''nameserver-policy''" policy]
      by (simp add: dns_fields_set_def)
  qed
  show ?thesis
    using assms(1,3,4,5) by (cases opts) (simp add: read_dns_def optional_mapping_def read_nameservers_def ns fb pol
        normalize_id dns_section_options_def)
qed

text \<open>The DNS fields pass through the other sections.\<close>

lemma read_paws_dns_frame:
  "read_paws root opts = Inr opts' \<Longrightarrow>
     read_paws root (dns_section_options a b c opts) = Inr (dns_section_options a b c opts')"
  by (erule read_paws_cases)
    (auto simp: read_paws_None read_paws_Some paws_options_def dns_section_options_def)

lemma read_tun_dns_frame:
  "read_tun ip_net root opts = Inr opts' \<Longrightarrow>
     read_tun ip_net root (dns_section_options a b c opts) = Inr (dns_section_options a b c opts')"
  by (erule read_tun_cases)
    (auto simp: read_tun_None read_tun_Some device_options_def tun_addresses_def dns_section_options_def Let_def)

lemma complete_dns_frame:
  "complete_options (dns_section_options a b c opts) = dns_section_options a b c (complete_options opts)"
  by (cases opts) (simp add: complete_options_def dns_section_options_def Let_def)

lemma read_dns_overwritten:
  assumes "read_dns root opts = Inr opts'"
  shows "dns_section_options a b c opts' = dns_section_options a b c opts"
proof -
  have ns: "read_nameservers dns opts = Inr o1 \<Longrightarrow> dns_section_options a b c o1 = dns_section_options a b c opts" for dns o1
    by (auto simp: read_nameservers_def rbind_Inr Let_def dns_section_options_def split: option.splits if_splits)
  show ?thesis
  proof (cases "get_key root ''dns''")
    case None
    then show ?thesis using assms by (simp add: read_dns_def optional_mapping_def)
  next
    case (Some v)
    then obtain dns where v: "v = YMapping dns"
      using assms by (cases v) (simp_all add: read_dns_def optional_mapping_def)
    then obtain o1 fb pol where r: "read_nameservers dns opts = Inr o1"
      "opts' = (case pol of None \<Rightarrow> (case fb of None \<Rightarrow> o1 | Some fallbacks \<Rightarrow> o1\<lparr>dns_fallbacks := normalize_dns_optional_servers fallbacks\<rparr>)
        | Some p \<Rightarrow> (case fb of None \<Rightarrow> o1 | Some fallbacks \<Rightarrow> o1\<lparr>dns_fallbacks := normalize_dns_optional_servers fallbacks\<rparr>)\<lparr>dns_nameserver_policy := p\<rparr>)"
      using assms Some by (simp add: read_dns_def optional_mapping_def rbind_Inr Let_def) metis
    have "dns_section_options a b c opts' = dns_section_options a b c o1"
      by (cases fb; cases pol) (simp_all add: r(2) dns_section_options_def)
    then show ?thesis using ns [OF r(1)] by simp
  qed
qed

lemma dns_setter_root:
  assumes "yaml_codec_ok io" "readable io i s d" "effective_root io i s d = Some root"
    "set_profile_dns_config ext io i servers fallbacks policy s d = (s', d', Inr ())"
  obtains root' dns where "readable io i s' d'" "effective_root io i s' d' = Some root'"
    "\<And>j. j \<noteq> ''dns'' \<Longrightarrow> get_key root' j = get_key root j" "get_key root' ''dns'' = Some (YMapping dns)"
    "dns_fields_set (normalize_dns_servers servers) (normalize_dns_optional_servers fallbacks) (normalize_dns_policy policy) dns"
    "\<And>f. f \<notin> set (overlay_fields ''dns'') \<Longrightarrow> get_key dns f = get_key (section_of root ''dns'') f"
proof -
  from editing_root [OF assms(1-3)] obtain v
    where ed: "\<forall>f :: disk \<Rightarrow> yaml \<Rightarrow> mapping \<Rightarrow> (yaml, unit) op_result. editing io i NO_ROOT s d f = f d v root"
    by blast
  have save: "save_settings_overlay ext i (set_mapping (edit_dns servers fallbacks policy root) v) [''dns''] () s d = (s', d', Inr ())"
    using assms(4) unfolding set_profile_dns_config_def spec [OF ed] .
  obtain m where m: "get_key (edit_dns servers fallbacks policy root) ''dns'' = Some (YMapping m)"
    "dns_fields_set (normalize_dns_servers servers) (normalize_dns_optional_servers fallbacks) (normalize_dns_policy policy) m"
    "\<forall>f. f \<notin> set (overlay_fields ''dns'') \<longrightarrow> get_key m f = get_key (section_of root ''dns'') f"
    by (simp add: edit_dns_def Let_def dns_fields_set_def overlay_fields_simps)
  obtain root' dns where r: "() = ()" "readable io i s' d'" "effective_root io i s' d' = Some root'"
    "\<And>j. j \<noteq> ''dns'' \<Longrightarrow> get_key root' j = get_key root j" "get_key root' ''dns'' = Some (YMapping dns)"
    "\<And>f. get_key dns f = (if f \<in> set (overlay_fields ''dns'') then saved (get_key m f) else get_key m f)"
    by (rule section_setter [OF assms(2,3) save m(1,3)]) (rule that)
  show ?thesis
  proof (rule that [OF r(2-5)])
    show "dns_fields_set (normalize_dns_servers servers) (normalize_dns_optional_servers fallbacks) (normalize_dns_policy policy) dns"
      using m(2) by (auto simp: dns_fields_set_def r(6) overlay_fields_simps string_sequence_def policy_mapping_def)
    show "get_key dns f = get_key (section_of root ''dns'') f" if "f \<notin> set (overlay_fields ''dns'')" for f
      using that m(3) by (simp add: r(6))
  qed
qed

lemma dns_settings_read_back:
  assumes "yaml_codec_ok io" "readable io i s d" "effective_root io i s d = Some root"
    "vpn_options_from_mapping (yl_ip_net io) root = Inr opts"
    "set_profile_dns_config ext io i servers fallbacks policy s d = (s', d', Inr ())"
  shows "vpn_options_for_profile io i s' d' = (d', Inr (dns_section_options (normalize_dns_servers servers)
    (let f = normalize_dns_optional_servers fallbacks in if f = [] then dns_fallbacks vpn_options_default else f)
    (let p = normalize_dns_policy policy in if p = [] then dns_nameserver_policy vpn_options_default else p) opts))"
proof -
  obtain root' dns where r: "readable io i s' d'" "effective_root io i s' d' = Some root'"
    "\<And>j. j \<noteq> ''dns'' \<Longrightarrow> get_key root' j = get_key root j" "get_key root' ''dns'' = Some (YMapping dns)"
    "dns_fields_set (normalize_dns_servers servers) (normalize_dns_optional_servers fallbacks) (normalize_dns_policy policy) dns"
    "\<And>f. f \<notin> set (overlay_fields ''dns'') \<Longrightarrow> get_key dns f = get_key (section_of root ''dns'') f"
    by (rule dns_setter_root [OF assms(1-3,5)]) (rule that)
  obtain o1 o2 o3 o4 where o: "read_ipv6 root vpn_options_default = Inr o1" "read_dns root o1 = Inr o2"
    "read_paws root o2 = Inr o3" "read_tun (yl_ip_net io) root o3 = Inr o4" "opts = complete_options o4"
    by (rule vpn_options_stages [OF assms(4)]) (rule that)
  have d1: "dns_fallbacks o1 = dns_fallbacks vpn_options_default"
    "dns_nameserver_policy o1 = dns_nameserver_policy vpn_options_default"
    using o(1) by (auto simp: read_ipv6_def rbind_Inr split: option.splits)
  let ?w = "dns_section_options (normalize_dns_servers servers)
    (let f = normalize_dns_optional_servers fallbacks in if f = [] then dns_fallbacks vpn_options_default else f)
    (let p = normalize_dns_policy policy in if p = [] then dns_nameserver_policy vpn_options_default else p)"
  have same: "get_key root' ''ipv6'' = get_key root ''ipv6''" "get_key root' ''paws'' = get_key root ''paws''"
    "get_key root' ''tun'' = get_key root ''tun''" by (simp_all add: r(3))
  have "read_dns root' o1 = Inr (?w o1)"
    using read_dns_set [OF r(4,5)] normalize_dns_servers_ok by (simp add: d1 Let_def)
  then have rd: "read_dns root' o1 = Inr (?w o2)" by (simp add: read_dns_overwritten [OF o(2)])
  show ?thesis
    unfolding settings_of_root(1) [OF assms(1) r(1,2)] vpn_options_from_mapping_def
      read_sections_cong(1) [OF same(1)] o(1) rbind_simps rd read_sections_cong(3) [OF same(2)]
      read_paws_dns_frame [OF o(3)] read_sections_cong(4) [OF same(3)] read_tun_dns_frame [OF o(4)]
      complete_dns_frame o(5) ..
qed

subsection \<open>The network setter\<close>

definition no_network_aliases :: "mapping \<Rightarrow> bool" where
  "no_network_aliases paws \<longleftrightarrow> get_key paws ''mixedPort'' = None \<and> get_key paws ''controllerPort'' = None \<and>
     get_key paws ''mixedEnabled'' = None \<and> get_key paws ''controllerEnabled'' = None \<and>
     get_key paws ''controllerAllowLan'' = None"

lemma hex_digit_ok: "n < 16 \<Longrightarrow> is_ascii_hexdigit (hex_digit n)"
proof -
  have "\<forall>n \<in> set [0 ..< 16]. is_ascii_hexdigit (hex_digit n)" by code_simp
  then show "n < 16 \<Longrightarrow> is_ascii_hexdigit (hex_digit n)" by simp
qed

lemma generate_secret_valid:
  assumes "generate_secret (Inr bs) = Inr sec" "length bs = 32"
  shows "controller_secret_is_valid sec"
proof -
  have "is_ascii_hexdigit (hex_digit (unat (b :: byte) div 16))" "is_ascii_hexdigit (hex_digit (unat b mod 16))" for b
    using unat_byte_less [of b] by (auto intro!: hex_digit_ok less_mult_imp_div_less)
  moreover have "length (concat (map (\<lambda>b. [hex_digit (unat b div 16), hex_digit (unat b mod 16)]) bs)) = 2 * length bs"
    by (induction bs) simp_all
  ultimately show ?thesis
    using assms by (auto simp: generate_secret_def controller_secret_is_valid_def CONTROLLER_SECRET_HEX_LENGTH_def
        list_all_iff)
qed

lemma aliased_string:
  "aliased_field m c l strict_string = Inr r \<Longrightarrow> (case get_string m c of None \<Rightarrow> get_string m l | x \<Rightarrow> x) = r"
  by (cases "get_key m c"; cases "get_key m l")
    (auto simp: aliased_field_def get_string_def strict_string_def split: option.splits if_splits)

text \<open>The secret a readable profile has.\<close>

lemma kept_secret_of_access:
  assumes "controller_access_from_mapping root = Inr acc"
  shows "kept_secret (section_of root ''paws'') = ca_secret acc"
    "aliased_field (section_of root ''paws'') ''controller-secret'' ''controllerSecret'' strict_string = Inr (ca_secret acc)"
    "\<And>sec. ca_secret acc = Some sec \<Longrightarrow> controller_secret_is_valid sec"
proof -
  have "aliased_field (section_of root ''paws'') ''controller-secret'' ''controllerSecret'' strict_string = Inr (ca_secret acc) \<and>
      (\<forall>sec. ca_secret acc = Some sec \<longrightarrow> controller_secret_is_valid sec)"
  proof (cases "get_key root ''paws''")
    case None
    then show ?thesis using assms
      by (simp add: controller_access_from_mapping_def optional_mapping_def section_of_def aliased_field_def
          controller_access_default_def)
        (auto simp: controller_access_default_def)
  next
    case (Some v)
    then obtain paws where v: "v = YMapping paws"
      using assms by (cases v) (simp_all add: controller_access_from_mapping_def optional_mapping_def)
    obtain al secret where "aliased_field paws ''controller-secret'' ''controllerSecret'' strict_string = Inr secret"
      "(if (case secret of None \<Rightarrow> False | Some s \<Rightarrow> \<not> controller_secret_is_valid s) then
          Inl (invalid_profile_field ''controller-secret'' ''a 64-character hexadecimal string'')
        else if al = Some True \<and> secret = None then Inl SECRET_REQUIRED
        else Inr \<lparr>ca_allow_lan = (al = Some True), ca_secret = secret\<rparr>) = Inr acc"
      using assms Some v
      by (simp only: controller_access_from_mapping_def optional_mapping_def option.case yaml.case rbind_simps Let_def)
        (auto simp only: rbind_Inr)
    then show ?thesis using Some v by (cases secret) (auto simp: section_of_def split: if_splits)
  qed
  then show a: "aliased_field (section_of root ''paws'') ''controller-secret'' ''controllerSecret'' strict_string = Inr (ca_secret acc)"
    and v: "\<And>sec. ca_secret acc = Some sec \<Longrightarrow> controller_secret_is_valid sec" by auto
  show "kept_secret (section_of root ''paws'') = ca_secret acc"
    using aliased_string [OF a] v by (cases "ca_secret acc") (simp_all add: kept_secret_def)
qed

lemma network_setter_root:
  assumes "yaml_codec_ok io" "readable io i s d" "effective_root io i s d = Some root"
    "set_profile_network_config ext io drawn i ports allow_lan s d = (s', d', Inr (p, a))"
  obtains root' paws secret where "network_port_config_validate ports = Inr ports" "p = ports"
    "a = \<lparr>ca_allow_lan = allow_lan, ca_secret = secret\<rparr>"
    "secret = kept_secret (section_of root ''paws'') \<or> allow_lan \<and> kept_secret (section_of root ''paws'') = None \<and>
       (\<exists>sec. generate_secret drawn = Inr sec \<and> secret = Some sec)"
    "allow_lan \<longrightarrow> secret \<noteq> None"
    "readable io i s' d'" "effective_root io i s' d' = Some root'" "get_key root' ''paws'' = Some (YMapping paws)"
    "get_key paws ''mixed-port'' = Some (YNumber (PosInt (unat (mixed_port ports))))"
    "get_key paws ''controller-port'' = Some (YNumber (PosInt (unat (controller_port ports))))"
    "get_key paws ''mixed-enabled'' = Some (YBool (mixed_enabled ports))"
    "get_key paws ''controller-enabled'' = Some (YBool (controller_enabled ports))"
    "get_key paws ''controller-allow-lan'' = Some (YBool allow_lan)"
    "get_key paws ''controller-secret'' = (case secret of None \<Rightarrow>
       saved (get_key (section_of root ''paws'') ''controller-secret'') | Some sec \<Rightarrow> Some (YString sec))"
    "\<forall>f. f \<notin> set (overlay_fields ''paws'') \<longrightarrow> get_key paws f = get_key (section_of root ''paws'') f"
proof -
  let ?k = "kept_secret (section_of root ''paws'')"
  have val: "network_port_config_validate ports = Inr ports"
    using assms(4) network_port_config_validate_Inr
    by (auto simp: set_profile_network_config_def refuse_def split: sum.splits)
  from editing_root [OF assms(1-3)] obtain v
    where ed: "\<forall>f :: disk \<Rightarrow> yaml \<Rightarrow> mapping \<Rightarrow> (yaml, network_port_config \<times> controller_access_config) op_result.
      editing io i NO_ROOT s d f = f d v root"
    by blast
  obtain secret where sec: "(case ?k of
        None \<Rightarrow> if allow_lan then rbind (generate_secret drawn) (\<lambda>sec. Inr (Some sec)) else Inr None
      | Some sec \<Rightarrow> Inr (Some sec)) = Inr secret"
    and save: "save_settings_overlay ext i (set_mapping (edit_network ports allow_lan secret root) v) [''paws'']
      (ports, \<lparr>ca_allow_lan = allow_lan, ca_secret = secret\<rparr>) s d = (s', d', Inr (p, a))"
    using assms(4) unfolding set_profile_network_config_def val sum.case spec [OF ed]
    by (auto simp: refuse_def split: sum.splits)
  have which: "secret = ?k \<or> allow_lan \<and> ?k = None \<and> (\<exists>sec. generate_secret drawn = Inr sec \<and> secret = Some sec)"
    "allow_lan \<longrightarrow> secret \<noteq> None"
    using sec by (cases ?k; auto simp: rbind_Inr split: if_splits)+
  obtain m where m: "get_key (edit_network ports allow_lan secret root) ''paws'' = Some (YMapping m)"
    "get_key m ''mixed-port'' = Some (YNumber (PosInt (unat (mixed_port ports))))"
    "get_key m ''controller-port'' = Some (YNumber (PosInt (unat (controller_port ports))))"
    "get_key m ''mixed-enabled'' = Some (YBool (mixed_enabled ports))"
    "get_key m ''controller-enabled'' = Some (YBool (controller_enabled ports))"
    "get_key m ''controller-allow-lan'' = Some (YBool allow_lan)"
    "get_key m ''controller-secret'' = (case secret of None \<Rightarrow> get_key (section_of root ''paws'') ''controller-secret''
       | Some sec \<Rightarrow> Some (YString sec))"
    "\<forall>f. f \<notin> set (overlay_fields ''paws'') \<longrightarrow> get_key m f = get_key (section_of root ''paws'') f"
    by (cases secret) (simp_all add: edit_network_def Let_def overlay_fields_simps)
  obtain root' paws where r: "(p, a) = (ports, \<lparr>ca_allow_lan = allow_lan, ca_secret = secret\<rparr>)"
    "readable io i s' d'" "effective_root io i s' d' = Some root'"
    "\<And>j. j \<noteq> ''paws'' \<Longrightarrow> get_key root' j = get_key root j" "get_key root' ''paws'' = Some (YMapping paws)"
    "\<And>f. get_key paws f = (if f \<in> set (overlay_fields ''paws'') then saved (get_key m f) else get_key m f)"
    by (rule section_setter [OF assms(2,3) save m(1,8)]) (rule that)
  have pa: "p = ports" "a = \<lparr>ca_allow_lan = allow_lan, ca_secret = secret\<rparr>" using r(1) by simp_all
  show ?thesis
    by (rule that [OF val pa which r(2,3,5)])
      (use m in \<open>simp_all add: r(6) overlay_fields_simps split: option.split\<close>)
qed

lemma strict_u16_back: "0 < unat (w :: u16) \<Longrightarrow> strict_u16 (YNumber (PosInt (unat w))) f = Inr w"
  using unat_u16_less [of w] by (simp add: strict_u16_def)

lemma drawn_secret_valid:
  "generate_secret drawn = Inr sec \<Longrightarrow> \<forall>bs. drawn = Inr bs \<longrightarrow> length bs = 32 \<Longrightarrow> controller_secret_is_valid sec"
  by (cases drawn) (simp add: generate_secret_def, metis generate_secret_valid)

lemma aliased_absent:
  assumes "aliased_field m c l strict_string = Inr None" "get_key m' l = get_key m l" "get_key m' c = saved (get_key m c)"
  shows "aliased_field m' c l strict_string = Inr None"
  using assms by (cases "get_key m c"; cases "get_key m l")
    (auto simp: aliased_field_def rbind_Inr transpose_result_def split: option.splits if_splits)

lemma aliased_replaced:
  assumes "aliased_field m c l strict_string = Inr r" "get_key m' l = get_key m l" "get_key m' c = Some (YString x)"
    "r = Some x \<or> r = None"
  shows "aliased_field m' c l strict_string = Inr (Some x)"
  using assms by (cases "get_key m c"; cases "get_key m l")
    (auto simp: aliased_field_def strict_string_def split: option.splits if_splits)

lemma network_settings_read_back:
  assumes "yaml_codec_ok io" "readable io i s d" "effective_root io i s d = Some root"
    "controller_access_from_mapping root = Inr acc" "no_network_aliases (section_of root ''paws'')"
    "\<forall>bs. drawn = Inr bs \<longrightarrow> length bs = 32"
    "set_profile_network_config ext io drawn i ports allow_lan s d = (s', d', Inr (p, a))"
  shows "p = ports \<and> ca_allow_lan a = allow_lan \<and> (ca_secret acc \<noteq> None \<longrightarrow> ca_secret a = ca_secret acc) \<and>
    (\<forall>sec. ca_secret a = Some sec \<longrightarrow> controller_secret_is_valid sec) \<and> (allow_lan \<longrightarrow> ca_secret a \<noteq> None) \<and>
    readable io i s' d' \<and>
    network_ports_for_profile io i s' d' = (d', Inr p) \<and> controller_access_for_profile io i s' d' = (d', Inr a)"
proof -
  obtain root' paws secret where n: "network_port_config_validate ports = Inr ports" "p = ports"
    "a = \<lparr>ca_allow_lan = allow_lan, ca_secret = secret\<rparr>"
    "secret = kept_secret (section_of root ''paws'') \<or> allow_lan \<and> kept_secret (section_of root ''paws'') = None \<and>
       (\<exists>sec. generate_secret drawn = Inr sec \<and> secret = Some sec)"
    "allow_lan \<longrightarrow> secret \<noteq> None"
    "readable io i s' d'" "effective_root io i s' d' = Some root'" "get_key root' ''paws'' = Some (YMapping paws)"
    "get_key paws ''mixed-port'' = Some (YNumber (PosInt (unat (mixed_port ports))))"
    "get_key paws ''controller-port'' = Some (YNumber (PosInt (unat (controller_port ports))))"
    "get_key paws ''mixed-enabled'' = Some (YBool (mixed_enabled ports))"
    "get_key paws ''controller-enabled'' = Some (YBool (controller_enabled ports))"
    "get_key paws ''controller-allow-lan'' = Some (YBool allow_lan)"
    "get_key paws ''controller-secret'' = (case secret of None \<Rightarrow>
       saved (get_key (section_of root ''paws'') ''controller-secret'') | Some sec \<Rightarrow> Some (YString sec))"
    "\<forall>f. f \<notin> set (overlay_fields ''paws'') \<longrightarrow> get_key paws f = get_key (section_of root ''paws'') f"
    by (rule network_setter_root [OF assms(1-3,7)]) (rule that)
  have al: "get_key paws ''mixedPort'' = None" "get_key paws ''controllerPort'' = None" "get_key paws ''mixedEnabled'' = None"
    "get_key paws ''controllerEnabled'' = None" "get_key paws ''controllerAllowLan'' = None"
    "get_key paws ''controllerSecret'' = get_key (section_of root ''paws'') ''controllerSecret''"
    using assms(5) n(15) by (simp_all add: no_network_aliases_def overlay_fields_simps)
  have pos: "0 < unat (mixed_port ports)" "0 < unat (controller_port ports)"
    using n(1) by (simp_all add: network_port_config_validate_Inr)
  have eta: "\<lparr>mixed_port = mixed_port ports, controller_port = controller_port ports,
      mixed_enabled = mixed_enabled ports, controller_enabled = controller_enabled ports\<rparr> = ports"
    by (cases ports) simp
  have "network_ports_from_mapping root' = Inr ports"
    by (simp add: network_ports_from_mapping_def optional_mapping_def aliased_field_def n(8-12) al(1-4)
        strict_u16_back pos strict_bool_def eta n(1))
  moreover have sec: "aliased_field paws ''controller-secret'' ''controllerSecret'' strict_string = Inr secret"
  proof (cases secret)
    case None
    then have "ca_secret acc = None" using n(4) kept_secret_of_access(1) [OF assms(4)] by auto
    then show ?thesis using aliased_absent [OF _ al(6)] kept_secret_of_access(2) [OF assms(4)] None n(14) by simp
  next
    case (Some x)
    then have "ca_secret acc = Some x \<or> ca_secret acc = None"
      using n(4) kept_secret_of_access(1) [OF assms(4)] by auto
    then show ?thesis
      using aliased_replaced [OF kept_secret_of_access(2) [OF assms(4)] al(6)] Some n(14) by simp
  qed
  moreover have valid: "controller_secret_is_valid x" if "secret = Some x" for x
    using n(4) kept_secret_of_access [OF assms(4)] assms(6) that
    by (auto dest: drawn_secret_valid)
  moreover have "controller_access_from_mapping root' = Inr a"
    using n(5) sec valid by (cases secret)
      (simp_all add: controller_access_from_mapping_def optional_mapping_def n(3,8) Let_def
        aliased_field_def [of paws "''controller-allow-lan''"] n(13) al(5) strict_bool_def)
  moreover have "ca_secret acc \<noteq> None \<Longrightarrow> ca_secret a = ca_secret acc"
    using n(3,4) kept_secret_of_access(1) [OF assms(4)] by auto
  ultimately show ?thesis using settings_of_root(2,3) [OF assms(1) n(6,7)] n(2,3,5,6) by simp
qed

subsection \<open>What every options value promises\<close>

definition stack_ok :: "string \<Rightarrow> bool" where
  "stack_ok st \<longleftrightarrow> st \<in> {vpn_stack_as_str Smoltcp, vpn_stack_as_str Lwip}"

definition options_core_ok :: "vpn_options \<Rightarrow> bool" where
  "options_core_ok opts \<longleftrightarrow> dns_servers opts \<noteq> [] \<and> servers_ok (dns_servers opts) \<and> servers_ok (dns_fallbacks opts) \<and>
     policy_ok (dns_nameserver_policy opts) \<and> (trusted_applications opts = [] \<or> blocked_applications opts = []) \<and>
     0 < unat (mtu opts) \<and> stack_ok (stack opts) \<and> dns_addresses opts \<noteq> [] \<and> routes opts \<noteq> []"

definition options_net_ok :: "vpn_options \<Rightarrow> bool" where
  "options_net_ok opts \<longleftrightarrow> addresses opts \<noteq> [] \<and>
     (\<not> ipv6 opts \<longrightarrow> \<not> has_colon (addresses opts) \<and> \<not> has_colon (routes opts))"

text \<open>The network parser takes no text with a colon for an IPv4 network.\<close>

definition ip_net_ok :: "(string \<Rightarrow> string + bool) \<Rightarrow> bool" where
  "ip_net_ok ip_net \<longleftrightarrow> (\<forall>x. ip_net x = Inr False \<longrightarrow> CHR '':'' \<notin> set x)"

lemma default_core_ok: "options_core_ok vpn_options_default"
  using default_servers_ok
  by (simp add: options_core_ok_def vpn_options_default_def stack_ok_def policy_ok_def bmap_ok_Cons str_simps printable_def
      DEFAULT_CHINA_DNS_SERVERS_def DEFAULT_GLOBAL_DNS_FALLBACKS_def)

lemma default_net_ok: "options_net_ok vpn_options_default"
  by (simp add: options_net_ok_def vpn_options_default_def has_colon_def)

lemma read_ipv6_core_ok: "read_ipv6 root opts = Inr o1 \<Longrightarrow> options_core_ok opts \<Longrightarrow> options_core_ok o1"
  by (auto simp: read_ipv6_def rbind_Inr options_core_ok_def split: option.splits)

lemma read_ipv6_net_ok: "read_ipv6 root opts = Inr o1 \<Longrightarrow> options_net_ok opts \<Longrightarrow> options_net_ok opts \<Longrightarrow>
   \<not> has_colon (addresses opts) \<Longrightarrow> \<not> has_colon (routes opts) \<Longrightarrow>
   options_net_ok o1 \<and> addresses o1 = addresses opts \<and> routes o1 = routes opts"
  by (auto simp: read_ipv6_def rbind_Inr options_net_ok_def split: option.splits)

lemma read_dns_core_ok:
  assumes "read_dns root opts = Inr o1" "options_core_ok opts"
  shows "options_core_ok o1 \<and> addresses o1 = addresses opts \<and> routes o1 = routes opts \<and> ipv6 o1 = ipv6 opts"
proof -
  have ns: "options_core_ok o2 \<and> addresses o2 = addresses opts \<and> routes o2 = routes opts \<and> ipv6 o2 = ipv6 opts"
    if "read_nameservers dns opts = Inr o2" for dns o2
    using that assms(2) by (auto simp: read_nameservers_def rbind_Inr Let_def options_core_ok_def split: option.splits if_splits)
  have pol: "policy_ok p" if "strict_string_list_map dns k = Inr (Some p)" for dns k p
    using that by (auto simp: strict_string_list_map_def rbind_Inr read_policy_ok split: option.splits yaml.splits)
  show ?thesis
  proof (cases "get_key root ''dns''")
    case None
    then show ?thesis using assms by (simp add: read_dns_def optional_mapping_def)
  next
    case (Some v)
    then obtain dns where v: "v = YMapping dns"
      using assms by (cases v) (simp_all add: read_dns_def optional_mapping_def)
    then obtain o2 fb p where r: "read_nameservers dns opts = Inr o2"
      "strict_string_list_map dns ''nameserver-policy'' = Inr p"
      "o1 = (case p of None \<Rightarrow> (case fb of None \<Rightarrow> o2 | Some fallbacks \<Rightarrow> o2\<lparr>dns_fallbacks := normalize_dns_optional_servers fallbacks\<rparr>)
        | Some q \<Rightarrow> (case fb of None \<Rightarrow> o2 | Some fallbacks \<Rightarrow> o2\<lparr>dns_fallbacks := normalize_dns_optional_servers fallbacks\<rparr>)\<lparr>dns_nameserver_policy := q\<rparr>)"
      using assms Some by (simp add: read_dns_def optional_mapping_def rbind_Inr Let_def) metis
    show ?thesis
      using ns [OF r(1)] pol [of dns _] r(2) by (cases fb; cases p) (simp_all add: r(3) options_core_ok_def)
  qed
qed

lemma read_paws_core_ok:
  "read_paws root opts = Inr o1 \<Longrightarrow> options_core_ok opts \<Longrightarrow>
     options_core_ok o1 \<and> addresses o1 = addresses opts \<and> routes o1 = routes opts \<and> ipv6 o1 = ipv6 opts"
  by (erule read_paws_cases) (auto simp: options_core_ok_def paws_options_def)

lemma strict_u16_positive: "strict_u16 v f = Inr n \<Longrightarrow> 0 < unat n"
  by (auto simp: strict_u16_def take_bit_nat_eq_self unat_u16_of_nat split: option.splits if_splits)

lemma stack_field_ok: "stack_field tun = Inr (Some st) \<Longrightarrow> stack_ok st"
proof -
  have "normalize_vpn_stack s = Inr st \<Longrightarrow> stack_ok st" for s st
    by (auto simp: normalize_vpn_stack_def rbind_Inr stack_ok_def) (metis vpn_stack_as_str.simps vpn_stack.exhaust)
  then show "stack_field tun = Inr (Some st) \<Longrightarrow> stack_ok st"
    by (auto simp: stack_field_def transpose_result_def rbind_Inr split: option.splits)
qed

lemma mtu_field_ok: "mtu_field tun = Inr (Some n) \<Longrightarrow> 0 < unat n"
  by (auto simp: mtu_field_def transpose_result_def rbind_Inr strict_u16_positive split: option.splits)

lemma validate_networks_v4:
  "validate_networks ip_net xs f (Some False) = Inr u \<Longrightarrow> ip_net_ok ip_net \<Longrightarrow> \<not> has_colon xs"
  by (induction xs) (auto simp: has_colon_def ip_net_ok_def split: sum.splits if_splits)

lemma tun_networks_v4: "tun_networks ip_net m = Inr (a, b, c) \<Longrightarrow> ip_net_ok ip_net \<Longrightarrow> \<not> has_colon a"
  by (auto simp: tun_networks_def rbind_Inr dest: validate_networks_v4)

lemma tun_addresses_ok:
  assumes "\<not> has_colon a" "options_core_ok opts" "\<not> has_colon (routes opts)"
  shows "options_core_ok (tun_addresses a b c opts) \<and> options_net_ok (tun_addresses a b c opts)"
  using assms by (auto simp: tun_addresses_def options_core_ok_def options_net_ok_def Let_def has_colon_def MEOW_V4_CLIENT_def)

lemma read_tun_ok:
  assumes "read_tun ip_net root opts = Inr o1" "ip_net_ok ip_net" "options_core_ok opts" "options_net_ok opts"
    "\<not> has_colon (routes opts)"
  shows "options_core_ok o1 \<and> options_net_ok o1"
  using assms(1)
proof (cases rule: read_tun_cases)
  case (present m n st hj a b c)
  have "options_core_ok (device_options n st hj opts)"
    using assms(3) mtu_field_ok [of m] stack_field_ok [of m] present(2,3)
    by (cases n; cases st) (simp_all add: options_core_ok_def device_options_def)
  then show ?thesis
    using tun_networks_v4 [OF present(5) assms(2)] assms(5) unfolding present(6)
    by (intro tun_addresses_ok) (simp_all add: device_options_def)
qed (use assms in simp)

definition options_ok :: "vpn_options \<Rightarrow> bool" where
  "options_ok opts \<longleftrightarrow> options_core_ok opts \<and> addresses opts \<noteq> [] \<and>
     (has_colon (addresses opts) \<longleftrightarrow> ipv6 opts) \<and> (has_colon (routes opts) \<longleftrightarrow> ipv6 opts)"

lemma complete_options_ok:
  "options_core_ok opts \<Longrightarrow> options_net_ok opts \<Longrightarrow> options_ok (complete_options opts)"
  by (auto simp: complete_options_def options_ok_def options_core_ok_def options_net_ok_def Let_def has_colon_def
      MEOW_V6_CLIENT_def)

lemma vpn_options_ok:
  assumes "vpn_options_from_mapping ip_net root = Inr opts" "ip_net_ok ip_net"
  shows "options_ok opts"
proof (rule vpn_options_stages [OF assms(1)])
  fix o1 o2 o3 o4
  assume o: "read_ipv6 root vpn_options_default = Inr o1" "read_dns root o1 = Inr o2"
    "read_paws root o2 = Inr o3" "read_tun ip_net root o3 = Inr o4" "opts = complete_options o4"
  have d: "\<not> has_colon (addresses vpn_options_default)" "\<not> has_colon (routes vpn_options_default)"
    by (simp_all add: vpn_options_default_def has_colon_def)
  note n1 = read_ipv6_net_ok [OF o(1) default_net_ok default_net_ok d]
  note c1 = read_ipv6_core_ok [OF o(1) default_core_ok]
  note c2 = read_dns_core_ok [OF o(2) c1]
  note c3 = read_paws_core_ok [OF o(3) conjunct1 [OF c2]]
  have "options_net_ok o3" using n1 c2 c3 d by (auto simp: options_net_ok_def)
  moreover have "\<not> has_colon (routes o3)" using n1 c2 c3 d by simp
  ultimately have "options_core_ok o4 \<and> options_net_ok o4" using read_tun_ok [OF o(4) assms(2)] c3 by simp
  then show "options_ok opts" unfolding o(5) by (simp add: complete_options_ok)
qed

end
