(* ===== verification/SettingsProperties.thy ===== *)
theory SettingsProperties
  imports SettingsEffect "HOL-Library.Countable"
begin

text \<open>
  The settings of a profile, \<open>crates/paws_profile/src/lib.rs\<close> and \<open>runtime_config.rs\<close>: a setter
  succeeds when nothing fails, and the readers then see what it set. A profile that still has a setting
  under its old name is the exception.
\<close>

subsection \<open>Saving succeeds\<close>

lemma commit_succeeds:
  assumes "dk_faults d = []" "encoded_index ext staged = Inr content"
  shows "\<exists>d'. commit_staged_with_files ext s d staged [] v = (staged, d', Inr v)"
  using assms by (simp add: commit_staged_with_files_def commit_files_def save_index_def atomic_write_def next_fault_def)

definition encodes :: "yaml ext \<Rightarrow> bool" where
  "encodes ext \<longleftrightarrow> (\<forall>index. \<exists>bytes. ext_encode ext index = Inr bytes)"

lemma save_settings_succeeds:
  assumes "readable io i s d" "encodes ext"
  shows "\<exists>s' d'. save_settings_overlay ext i value ks res s d = (s', d', Inr res)"
proof -
  from assms(1) obtain p where r: "dk_faults d = []" "store_ok s (dk_files d)" "map_of (st_profiles s) i = Some p"
    by (auto simp: readable_def)
  let ?s = "put_profile i (p\<lparr>pd_user_overrides := fold (save_key value) ks (pd_user_overrides p)\<rparr>) s"
  obtain bytes where "ext_encode ext (store_index_of ?s) = Inr bytes" using assms(2) by (auto simp: encodes_def)
  then have "encoded_index ext ?s = Inr bytes"
    using store_ok_available [OF r(2)] by (simp add: encoded_index_def ensure_available_def put_profile_def)
  from commit_succeeds [OF r(1) this, of s res] obtain d' where
    "commit_staged_with_files ext s d ?s [] res = (?s, d', Inr res)" by blast
  then show ?thesis
    using r(2,3) by (simp add: save_settings_overlay_def available_def store_ok_available with_profile_def Let_def)
qed

lemma vpn_setter_succeeds:
  assumes "yaml_codec_ok io" "readable io i s d" "effective_root io i s d = Some root" "encodes ext"
    "vpn_engine_try_from eng = Inr e" "vpn_stack_try_from stk = Inr st"
  shows "\<exists>s' d'. set_profile_vpn_config_with_engine ext io i eng sp hj bp stk s d = (s', d', Inr ())"
proof -
  from editing_root [OF assms(1-3)] obtain v
    where ed: "\<forall>f :: disk \<Rightarrow> yaml \<Rightarrow> mapping \<Rightarrow> (yaml, unit) op_result. editing io i NO_ROOT s d f = f d v root"
    by blast
  show ?thesis
    unfolding set_profile_vpn_config_with_engine_def spec [OF ed] assms(5,6) sum.case
    by (rule save_settings_succeeds [OF assms(2,4)])
qed

lemma applications_setter_succeeds:
  assumes "yaml_codec_ok io" "readable io i s d" "effective_root io i s d = Some root" "encodes ext"
  shows "\<exists>s' d'. save_applications ext io i t b s d = (s', d', Inr ())"
proof -
  from editing_root [OF assms(1-3)] obtain v
    where ed: "\<forall>f :: disk \<Rightarrow> yaml \<Rightarrow> mapping \<Rightarrow> (yaml, unit) op_result. editing io i ''Invalid profile'' s d f = f d v root"
    by blast
  show ?thesis
    unfolding save_applications_def spec [OF ed] by (rule save_settings_succeeds [OF assms(2,4)])
qed

lemma vpn_apps_setter_succeeds:
  assumes "yaml_codec_ok io" "readable io i s d" "effective_root io i s d = Some root" "encodes ext"
    "vpn_engine_try_from eng = Inr e" "vpn_stack_try_from stk = Inr st" "tr = [] \<or> bl = []"
    "list_all app_name_ok (tr @ bl)"
  shows "\<exists>s' d'. set_profile_vpn_config_with_apps_and_engine ext io i eng sp hj bp stk tr bl s d = (s', d', Inr ())"
proof -
  obtain s1 d1 where first: "set_profile_vpn_config_with_engine ext io i eng sp hj bp stk s d = (s1, d1, Inr ())"
    using vpn_setter_succeeds [OF assms(1-6)] by blast
  obtain root1 where r: "effective_root io i s1 d1 = Some root1" "readable io i s1 d1"
    by (rule vpn_setter_root [OF assms(1-3) first]) (rule that)
  show ?thesis
    using applications_setter_succeeds [OF assms(1) r(2,1) assms(4), of tr bl] assms(7,8)
    by (auto simp: set_profile_vpn_config_with_apps_and_engine_def first)
qed

lemma dns_setter_succeeds:
  assumes "yaml_codec_ok io" "readable io i s d" "effective_root io i s d = Some root" "encodes ext"
  shows "\<exists>s' d'. set_profile_dns_config ext io i servers fallbacks policy s d = (s', d', Inr ())"
proof -
  from editing_root [OF assms(1-3)] obtain v
    where ed: "\<forall>f :: disk \<Rightarrow> yaml \<Rightarrow> mapping \<Rightarrow> (yaml, unit) op_result. editing io i NO_ROOT s d f = f d v root"
    by blast
  show ?thesis
    unfolding set_profile_dns_config_def spec [OF ed] by (rule save_settings_succeeds [OF assms(2,4)])
qed

lemma network_setter_succeeds:
  assumes "yaml_codec_ok io" "readable io i s d" "effective_root io i s d = Some root" "encodes ext"
    "network_port_config_validate ports = Inr ports" "generate_secret drawn = Inr sec"
  shows "\<exists>s' d' a. set_profile_network_config ext io drawn i ports allow_lan s d = (s', d', Inr (ports, a))"
proof -
  from editing_root [OF assms(1-3)] obtain v
    where ed: "\<forall>f :: disk \<Rightarrow> yaml \<Rightarrow> mapping \<Rightarrow> (yaml, network_port_config \<times> controller_access_config) op_result.
      editing io i NO_ROOT s d f = f d v root"
    by blast
  obtain secret where "(case kept_secret (section_of root ''paws'') of
        None \<Rightarrow> if allow_lan then rbind (generate_secret drawn) (\<lambda>sec. Inr (Some sec)) else Inr None
      | Some sec \<Rightarrow> Inr (Some sec)) = Inr secret"
    using assms(6) by (cases "kept_secret (section_of root ''paws'')"; cases allow_lan) auto
  moreover obtain s' d' where "save_settings_overlay ext i (set_mapping (edit_network ports allow_lan secret root) v)
      [''paws''] (ports, \<lparr>ca_allow_lan = allow_lan, ca_secret = secret\<rparr>) s d =
      (s', d', Inr (ports, \<lparr>ca_allow_lan = allow_lan, ca_secret = secret\<rparr>))"
    using save_settings_succeeds [OF assms(2,4), of "set_mapping (edit_network ports allow_lan secret root) v"
      "[''paws'']" "(ports, \<lparr>ca_allow_lan = allow_lan, ca_secret = secret\<rparr>)"] by blast
  ultimately have "set_profile_network_config ext io drawn i ports allow_lan s d =
      (s', d', Inr (ports, \<lparr>ca_allow_lan = allow_lan, ca_secret = secret\<rparr>))"
    unfolding set_profile_network_config_def assms(5) sum.case spec [OF ed] by simp
  then show ?thesis by blast
qed

subsection \<open>A sample profile\<close>

instance yaml_number :: countable by countable_datatype
instance yaml :: countable by countable_datatype

text \<open>A codec of YAML values by their number, and a profile whose file holds a given mapping.\<close>

definition sample_io :: yaml_io where
  "sample_io = \<lparr>yl_parse = \<lambda>t. Inr (from_nat (length t)), yl_print = \<lambda>v. Inr (replicate (to_nat v) (CHR ''a'')),
     yl_ip_net = \<lambda>_. Inl ''no network''\<rparr>"

lemma sample_io_ok: "yaml_codec_ok sample_io"
  by (simp add: yaml_codec_ok_def prints_back_def sample_io_def)

definition sample_yaml_ext :: "yaml ext" where
  "sample_yaml_ext = \<lparr>ext_encode = \<lambda>_. Inr [], ext_decode = \<lambda>_. Inl ''none'', ext_normalize = Inr,
     ext_url_scheme = Inr, ext_user_info_comment = \<lambda>_. None, ext_metadata_comment = \<lambda>_. None\<rparr>"

lemma sample_yaml_ext_encodes: "encodes sample_yaml_ext"
  by (simp add: encodes_def sample_yaml_ext_def)

definition yaml_profile :: "yaml profile_document" where
  "yaml_profile = \<lparr>pd_id = ''p'', pd_name = ''P'', pd_source = ''local'', pd_raw_yaml_path = raw_path_of ''p'',
     pd_user_overrides = [], pd_yaml_backup_path = None, pd_subscription_url = None, pd_updated_at = None,
     pd_last_refresh_at = None, pd_last_refresh_error = None, pd_selected_proxies = [], pd_upload_bytes = 0,
     pd_download_bytes = 0, pd_subscription_user_info = None, pd_subscription_metadata = None\<rparr>"

definition yaml_store :: "yaml store" where
  "yaml_store = \<lparr>st_root = ''/r'', st_initialization_error = None, st_active = Some ''p'',
     st_profiles = [(''p'', yaml_profile)],
     st_rules = [(''r'', \<lparr>rd_id = ''r'', rd_profile_id = ''p'', rd_line = ''DOMAIN,a.b,Proxy'', rd_enabled = True,
       rd_order = 0, rd_source = ''manual''\<rparr>)]\<rparr>"

definition yaml_disk :: "mapping \<Rightarrow> disk" where
  "yaml_disk root = \<lparr>dk_files = [join ''/r'' (raw_path_of ''p'') \<mapsto> replicate (to_nat (YMapping root)) 97],
     dk_staged = \<lambda>_. None, dk_faults = []\<rparr>"

lemma yaml_store_ok: "store_ok yaml_store (dk_files (yaml_disk root))"
proof -
  have "id_ok ''p''"
    by (simp add: id_ok_def path_is_safe_def raw_path_of_def backup_path_of_def str_simps printable_def)
  then show ?thesis
    by (simp add: store_ok_def yaml_store_def yaml_profile_def yaml_disk_def doc_ok_def canonical_def has_files_def
        profile_ids_def bmap_ok_Cons rule_ok_def str_simps printable_def)
qed

lemma yaml_file_value: "file_value sample_io yaml_store (yaml_disk root) yaml_profile = Some (YMapping root)"
proof -
  have "from_utf8 (replicate n 97) = Some (bytes_str (replicate n 97))" for n
    by (intro from_utf8_ascii) simp
  then show ?thesis
    by (simp add: file_value_def yaml_disk_def yaml_store_def yaml_profile_def sample_io_def)
qed

lemma yaml_sample:
  "readable sample_io ''p'' yaml_store (yaml_disk root)"
  "effective_root sample_io ''p'' yaml_store (yaml_disk root) = Some root"
proof -
  have p: "map_of (st_profiles yaml_store) ''p'' = Some yaml_profile" "pd_user_overrides yaml_profile = []"
    by (simp_all add: yaml_store_def yaml_profile_def)
  show "readable sample_io ''p'' yaml_store (yaml_disk root)"
    unfolding readable_def
    by (intro conjI exI [of _ yaml_profile] exI [of _ "YMapping root"] exI [of _ root] yaml_store_ok yaml_file_value)
      (simp_all add: p yaml_disk_def)
  show "effective_root sample_io ''p'' yaml_store (yaml_disk root) = Some root"
    by (simp add: effective_root_def p yaml_file_value overlay_root_def)
qed

text \<open>A profile without settings has the default options.\<close>

lemma empty_profile_options: "vpn_options_from_mapping ip_net [] = Inr vpn_options_default"
  by (simp add: vpn_options_from_mapping_def read_ipv6_def read_dns_def read_paws_def read_tun_def optional_mapping_def
      complete_options_def vpn_options_default_def)

subsection \<open>Further facts\<close>

text \<open>
  Setting the DNS configuration of a profile and reading it back gives the servers trimmed,
  without empty and repeated entries and in their order, and the cleaned fallbacks and policy;
  nothing else of the options changes. An empty list of fallbacks or an empty policy does not
  clear them: reading back gives the built-in defaults.
\<close>

lemma dns_settings_take_effect:
  assumes "yaml_codec_ok io" "readable io i s d" "encodes ext" "effective_root io i s d = Some root"
    and "vpn_options_for_profile io i s d = (d, Inr opts)"
  shows "\<exists>s' d'. set_profile_dns_config ext io i servers fallbacks policy s d = (s', d', Inr ()) \<and>
    vpn_options_for_profile io i s' d' = (d', Inr (opts\<lparr>dns_servers := normalize_dns_servers servers,
      dns_fallbacks := (if normalize_dns_optional_servers fallbacks = [] then DEFAULT_GLOBAL_DNS_FALLBACKS
        else normalize_dns_optional_servers fallbacks),
      dns_nameserver_policy := (if normalize_dns_policy policy = [] then dns_nameserver_policy vpn_options_default
        else normalize_dns_policy policy)\<rparr>))"
proof -
  have "vpn_options_from_mapping (yl_ip_net io) root = Inr opts"
    using assms(5) settings_of_root(1) [OF assms(1,2,4)] by simp
  moreover have "dns_fallbacks vpn_options_default = DEFAULT_GLOBAL_DNS_FALLBACKS" by (simp add: vpn_options_default_def)
  moreover obtain s' d' where "set_profile_dns_config ext io i servers fallbacks policy s d = (s', d', Inr ())"
    using dns_setter_succeeds [OF assms(1,2,4,3)] by blast
  ultimately show ?thesis
    using dns_settings_read_back [OF assms(1,2,4), of opts] by (auto simp: dns_section_options_def Let_def)
qed

subsection \<open>Properties\<close>

text \<open>
  C26. Setting the VPN options of a profile succeeds when no system call fails and the engine and
  the stack are known, and reading the profile back gives exactly the options it had with the new
  values, the lists of applications, the DNS servers and the networks included. The profile must
  not hold one of the settings under its old name, and the YAML library must read back what it
  prints.
\<close>

theorem vpn_settings_take_effect:
  assumes "yaml_codec_ok io" "readable io i s d" "encodes ext" "effective_root io i s d = Some root"
    and "vpn_options_for_profile io i s d = (d, Inr opts)" "no_vpn_aliases (section_of root ''paws'')"
    and "vpn_engine_try_from eng = Inr e" "vpn_stack_try_from stk = Inr st"
  shows "\<exists>s' d'. set_profile_vpn_config_with_engine ext io i eng sys_proxy hijack bypass stk s d = (s', d', Inr ()) \<and>
    readable io i s' d' \<and>
    vpn_options_for_profile io i s' d' = (d', Inr (opts\<lparr>engine := e, system_proxy := sys_proxy,
      allow_bypass := bypass, stack := vpn_stack_as_str st, dns_hijacking := hijack\<rparr>))"
proof -
  have o: "vpn_options_from_mapping (yl_ip_net io) root = Inr opts"
    using assms(5) settings_of_root(1) [OF assms(1,2,4)] by simp
  obtain s' d' where set: "set_profile_vpn_config_with_engine ext io i eng sys_proxy hijack bypass stk s d = (s', d', Inr ())"
    using vpn_setter_succeeds [OF assms(1,2,4,3,7,8)] by blast
  from vpn_settings_read_back [OF assms(1,2,4) o assms(6) set] assms(7,8) set show ?thesis by auto
qed

theorem vpn_settings_take_effect_witness:
  "\<exists>s' d'. set_profile_vpn_config_with_engine sample_yaml_ext sample_io ''p'' ''meow'' True False True ''lwip''
      yaml_store (yaml_disk []) = (s', d', Inr ()) \<and>
    vpn_options_for_profile sample_io ''p'' s' d' = (d', Inr (vpn_options_default\<lparr>engine := Meow, system_proxy := True,
      allow_bypass := True, stack := ''lwip'', dns_hijacking := False\<rparr>))"
proof -
  have e: "vpn_engine_try_from ''meow'' = Inr Meow" "vpn_stack_try_from ''lwip'' = Inr Lwip"
    using vpn_engine_round_trip [of Meow] vpn_stack_round_trip [of Lwip] by simp_all
  have o: "vpn_options_for_profile sample_io ''p'' yaml_store (yaml_disk []) = (yaml_disk [], Inr vpn_options_default)"
    using settings_of_root(1) [OF sample_io_ok yaml_sample] by (simp add: empty_profile_options)
  show ?thesis
    using vpn_settings_take_effect [OF sample_io_ok yaml_sample(1) sample_yaml_ext_encodes yaml_sample(2) o _ e,
        of True False True]
    by (simp add: no_vpn_aliases_def section_of_def) blast
qed



text \<open>
  C28. Whatever YAML a profile has, options that are read from it are well formed: at least one
  DNS server, server lists and policy trimmed and without repetitions, not both application lists,
  a positive MTU, a known stack, addresses, routes and DNS addresses present, and IPv6 addresses
  and routes exactly when IPv6 is on. The network parser must take no text with a colon for an
  IPv4 network.
\<close>

theorem vpn_options_well_formed:
  assumes "ip_net_ok ip_net" "vpn_options_from_yaml parse ip_net raw = Inr opts"
  shows "dns_servers opts \<noteq> [] \<and> servers_ok (dns_servers opts) \<and> servers_ok (dns_fallbacks opts) \<and>
    policy_ok (dns_nameserver_policy opts) \<and> (trusted_applications opts = [] \<or> blocked_applications opts = []) \<and>
    0 < unat (mtu opts) \<and> stack opts \<in> {''netstack-smoltcp'', ''lwip''} \<and>
    addresses opts \<noteq> [] \<and> routes opts \<noteq> [] \<and> dns_addresses opts \<noteq> [] \<and>
    (has_colon (addresses opts) \<longleftrightarrow> ipv6 opts) \<and> (has_colon (routes opts) \<longleftrightarrow> ipv6 opts)"
proof -
  obtain root where "vpn_options_from_mapping ip_net root = Inr opts"
    using assms(2) by (auto simp: vpn_options_from_yaml_def with_root_def split: sum.splits option.splits)
  from vpn_options_ok [OF this assms(1)] show ?thesis
    by (simp add: options_ok_def options_core_ok_def stack_ok_def)
qed

theorem vpn_options_well_formed_witness:
  "\<exists>opts. vpn_options_from_yaml (\<lambda>_. Inr (YMapping [(YString ''ipv6'', YBool True)])) (\<lambda>_. Inl ''no'') ''ipv6: true'' = Inr opts \<and>
    ipv6 opts \<and> has_colon (addresses opts)"
proof -
  have o: "vpn_options_from_yaml (\<lambda>_. Inr (YMapping [(YString ''ipv6'', YBool True)])) (\<lambda>_. Inl ''no'') ''ipv6: true'' =
      Inr (complete_options (vpn_options_default\<lparr>ipv6 := True\<rparr>))"
    by (simp add: vpn_options_from_yaml_def with_root_def vpn_options_from_mapping_def read_ipv6_def read_dns_def
        read_paws_def read_tun_def optional_mapping_def get_key_def value_key_def strict_bool_def)
  have "ipv6 (complete_options (vpn_options_default\<lparr>ipv6 := True\<rparr>))" by (simp add: complete_options_def Let_def)
  moreover have "ip_net_ok (\<lambda>_. Inl ''no'')" by (simp add: ip_net_ok_def)
  ultimately show ?thesis using vpn_options_well_formed [OF _ o] o by blast
qed

text \<open>
  C29. The setter of the application lists accepts an empty list but does not clear the list the
  profile has. When the trust list is set for a profile with a block list, or the other way round,
  the setter succeeds with both lists saved, and from then on the options of the profile cannot be
  read.
\<close>

theorem app_lists_are_merged:
  assumes "yaml_codec_ok io" "readable io i s d" "encodes ext" "effective_root io i s d = Some root"
    and "vpn_options_for_profile io i s d = (d, Inr opts)" "no_vpn_aliases (section_of root ''paws'')"
    and "vpn_engine_try_from eng = Inr e" "vpn_stack_try_from stk = Inr st"
    and "trusted = [] \<or> blocked = []" "list_all app_name_ok (trusted @ blocked)"
  shows "\<exists>s' d'. set_profile_vpn_config_with_apps_and_engine ext io i eng sys_proxy hijack bypass stk trusted blocked s d =
      (s', d', Inr ()) \<and>
    vpn_options_for_profile io i s' d' = (d',
      (let t = (if trusted = [] then trusted_applications opts else trusted);
           b = (if blocked = [] then blocked_applications opts else blocked) in
       if t \<noteq> [] \<and> b \<noteq> [] then Inl (Core ''VPN trustlist and blocklist cannot both be set'')
       else Inr (opts\<lparr>engine := e, trusted_applications := t, blocked_applications := b, system_proxy := sys_proxy,
         allow_bypass := bypass, stack := vpn_stack_as_str st, dns_hijacking := hijack\<rparr>)))"
proof -
  have o: "vpn_options_from_mapping (yl_ip_net io) root = Inr opts"
    using assms(5) settings_of_root(1) [OF assms(1,2,4)] by simp
  obtain s' d' where set: "set_profile_vpn_config_with_apps_and_engine ext io i eng sys_proxy hijack bypass stk trusted
      blocked s d = (s', d', Inr ())"
    using vpn_apps_setter_succeeds [OF assms(1,2,4,3,7-10)] by blast
  from vpn_apps_read_back [OF assms(1,2,4) o assms(6) set] assms(7,8) set show ?thesis
    unfolding kept_list_def APPS_EXCLUSIVE_def by auto
qed

theorem app_lists_are_merged_witness:
  "\<exists>s' d'. set_profile_vpn_config_with_apps_and_engine sample_yaml_ext sample_io ''p'' ''auto'' False True False ''lwip''
      [''a.b''] [] yaml_store (yaml_disk [(YString ''paws'', YMapping [(YString ''blocked-applications'', YString ''c.d'')])]) =
      (s', d', Inr ()) \<and>
    vpn_options_for_profile sample_io ''p'' s' d' = (d', Inl (Core ''VPN trustlist and blocklist cannot both be set''))"
proof -
  let ?root = "[(YString ''paws'', YMapping [(YString ''blocked-applications'', YString ''c.d'')])]"
  have e: "vpn_engine_try_from ''auto'' = Inr Auto" "vpn_stack_try_from ''lwip'' = Inr Lwip"
    using vpn_engine_round_trip [of Auto] vpn_stack_round_trip [of Lwip] by simp_all
  have opts: "vpn_options_from_mapping ip_net ?root = Inr (vpn_options_default\<lparr>blocked_applications := [''c.d'']\<rparr>)" for ip_net
    by (simp add: vpn_options_from_mapping_def read_ipv6_def read_dns_def read_paws_def read_tun_def optional_mapping_def
        get_key_def value_key_def read_engine_def read_applications_def aliased_field_def strict_string_list_def
        complete_options_def vpn_options_default_def)
  have o: "vpn_options_for_profile sample_io ''p'' yaml_store (yaml_disk ?root) =
      (yaml_disk ?root, Inr (vpn_options_default\<lparr>blocked_applications := [''c.d'']\<rparr>))"
    using settings_of_root(1) [OF sample_io_ok yaml_sample] by (simp add: opts)
  have no_alias: "no_vpn_aliases (section_of ?root ''paws'')"
    by (simp add: no_vpn_aliases_def section_of_def get_key_def value_key_def)
  have "list_all app_name_ok ([''a.b''] @ [])" by (simp add: app_name_ok_def)
  from app_lists_are_merged [OF sample_io_ok yaml_sample(1) sample_yaml_ext_encodes yaml_sample(2) o no_alias e _ this]
  show ?thesis by (simp add: Let_def)
qed

text \<open>
  C30. When the YAML of a profile names its engine under the old name vpnEngine, setting another
  engine succeeds, and from then on the options of the profile cannot be read: the overlay holds
  only the new name, and both names now conflict.
\<close>

theorem alias_makes_profile_unreadable:
  assumes "yaml_codec_ok io" "readable io i s d" "encodes ext" "effective_root io i s d = Some root"
    and "vpn_options_for_profile io i s d = (d, Inr opts)"
    and "get_key (section_of root ''paws'') ''vpnEngine'' = Some (YString old)"
    and "vpn_engine_try_from eng = Inr e" "vpn_stack_try_from stk = Inr st" "old \<noteq> vpn_engine_as_str e"
  shows "\<exists>s' d'. set_profile_vpn_config_with_engine ext io i eng sys_proxy hijack bypass stk s d = (s', d', Inr ()) \<and>
    vpn_options_for_profile io i s' d' = (d', Inl (Core (''profile fields '' @ quoted ''engine''
      @ '' and legacy alias '' @ quoted ''vpnEngine'' @ '' conflict'')))"
proof -
  have "vpn_options_from_mapping (yl_ip_net io) root = Inr opts"
    using assms(5) settings_of_root(1) [OF assms(1,2,4)] by simp
  then show ?thesis
    using vpn_setter_succeeds [OF assms(1,2,4,3,7,8)] vpn_alias_conflict [OF assms(1,2,4) _ assms(6) _ assms(7,9)] by blast
qed

theorem alias_makes_profile_unreadable_witness:
  "\<exists>s' d'. set_profile_vpn_config_with_engine sample_yaml_ext sample_io ''p'' ''meow'' False True False ''lwip'' yaml_store
      (yaml_disk [(YString ''paws'', YMapping [(YString ''vpnEngine'', YString ''auto'')])]) = (s', d', Inr ()) \<and>
    (\<exists>err. vpn_options_for_profile sample_io ''p'' s' d' = (d', Inl err))"
proof -
  let ?root = "[(YString ''paws'', YMapping [(YString ''vpnEngine'', YString ''auto'')])]"
  have e: "vpn_engine_try_from ''meow'' = Inr Meow" "vpn_engine_try_from ''auto'' = Inr Auto"
    "vpn_stack_try_from ''lwip'' = Inr Lwip"
    using vpn_engine_round_trip [of Meow] vpn_engine_round_trip [of Auto] vpn_stack_round_trip [of Lwip] by simp_all
  have opts: "vpn_options_from_mapping ip_net ?root = Inr vpn_options_default" for ip_net
    by (simp add: vpn_options_from_mapping_def read_ipv6_def read_dns_def read_paws_def read_tun_def optional_mapping_def
        get_key_def value_key_def read_engine_def read_applications_def aliased_field_def strict_string_list_def
        strict_string_def e complete_options_def vpn_options_default_def)
  have o: "vpn_options_for_profile sample_io ''p'' yaml_store (yaml_disk ?root) = (yaml_disk ?root, Inr vpn_options_default)"
    using settings_of_root(1) [OF sample_io_ok yaml_sample] by (simp add: opts)
  have old: "get_key (section_of ?root ''paws'') ''vpnEngine'' = Some (YString ''auto'')"
    by (simp add: section_of_def get_key_def value_key_def)
  have "''auto'' \<noteq> vpn_engine_as_str Meow" by simp
  from alias_makes_profile_unreadable [OF sample_io_ok yaml_sample(1) sample_yaml_ext_encodes yaml_sample(2) o old e(1,3) this]
  show ?thesis by blast
qed

end
