(* ===== verification/SubscriptionProperties.thy ===== *)
theory SubscriptionProperties
  imports SubscriptionParse SettingsProperties
begin

text \<open>
  What an imported subscription becomes: which proxies its links give, how its profile is written, and
  what a profile in normal form is.
\<close>

subsection \<open>The mapping of a proxy\<close>

definition BASE_KEYS :: "string list" where
  "BASE_KEYS = [''name'', ''type'', ''server'', ''port'']"

definition proxy_is :: "string \<Rightarrow> mapping \<Rightarrow> bool" where
  "proxy_is kind p \<longleftrightarrow> (\<exists>nm server port. nm \<noteq> [] \<and> get_key p ''name'' = Some (YString nm) \<and>
     get_key p ''type'' = Some (YString kind) \<and> get_key p ''server'' = Some (YString server) \<and>
     get_key p ''port'' = Some (YNumber (PosInt port)) \<and> port < 65536)"

lemma proxy_is_cong: "(\<And>k. k \<in> set BASE_KEYS \<Longrightarrow> get_key q k = get_key p k) \<Longrightarrow> proxy_is kind q = proxy_is kind p"
  by (simp add: BASE_KEYS_def proxy_is_def)

text \<open>An option is a key outside the base; setting options keeps a proxy what it is.\<close>

definition option_key :: "string \<Rightarrow> bool" where "option_key key \<longleftrightarrow> key \<notin> set BASE_KEYS"

named_theorems proxy_keeps

lemma proxy_is_insert [proxy_keeps]: "option_key key \<Longrightarrow> proxy_is kind (insert_key key v p) = proxy_is kind p"
  by (rule proxy_is_cong) (auto simp: option_key_def)

lemma proxy_is_put [proxy_keeps]:
  "option_key key \<Longrightarrow> proxy_is kind (put_string key s p) = proxy_is kind p"
  "option_key key \<Longrightarrow> proxy_is kind (put_bool key b p) = proxy_is kind p"
  "option_key key \<Longrightarrow> proxy_is kind (put_i64 key n p) = proxy_is kind p"
  "option_key key \<Longrightarrow> proxy_is kind (put_some key x p) = proxy_is kind p"
  "option_key key \<Longrightarrow> proxy_is kind (put_flag key b p) = proxy_is kind p"
  "option_key key \<Longrightarrow> proxy_is kind (put_opts key m p) = proxy_is kind p"
  "option_key key \<Longrightarrow> proxy_is kind (put_string_sequence key ss p) = proxy_is kind p"
  "option_key key \<Longrightarrow> proxy_is kind (list_option key x p) = proxy_is kind p"
  by (simp_all add: put_string_def put_bool_def put_i64_def put_some_def put_flag_def put_opts_def list_option_def
      put_string_sequence_def proxy_is_insert split: option.splits)

lemma option_keys [simp]: "option_key key \<longleftrightarrow> key \<noteq> ''name'' \<and> key \<noteq> ''type'' \<and> key \<noteq> ''server'' \<and> key \<noteq> ''port''"
  by (simp add: option_key_def BASE_KEYS_def)

lemma proxy_is_transport [proxy_keeps]:
  "proxy_is kind (put_ws_opts a b c d p) = proxy_is kind p"
  "proxy_is kind (put_grpc_opts a b p) = proxy_is kind p"
  "proxy_is kind (put_h2_opts a b p) = proxy_is kind p"
  "proxy_is kind (put_http_upgrade_opts a b p) = proxy_is kind p"
  by (simp_all add: put_ws_opts_def put_grpc_opts_def put_h2_opts_def put_http_upgrade_opts_def proxy_keeps Let_def)

lemma proxy_is_options [proxy_keeps]:
  "proxy_is kind (apply_query_udp_option q b p) = proxy_is kind p"
  "proxy_is kind (apply_query_common_proxy_options q p) = proxy_is kind p"
  "proxy_is kind (apply_http_header_query_options q p) = proxy_is kind p"
  "proxy_is kind (put_credentials c p) = proxy_is kind p"
  "proxy_is kind (windows_and_flags q p) = proxy_is kind p"
  by (simp_all add: apply_query_udp_option_def apply_query_common_proxy_options_def proxy_keeps
      apply_http_header_query_options_def put_credentials_def windows_and_flags_def Let_def
      split: option.splits)

lemma proxy_is_plugin [proxy_keeps]: "proxy_is kind (apply_ss_plugin_options lib s p) = proxy_is kind p"
  by (simp add: apply_ss_plugin_options_def proxy_keeps Let_def split: option.split list.split)

lemma proxy_is_query_transport [proxy_keeps]:
  "proxy_is kind (apply_query_transport_options q p) = proxy_is kind p"
  by (simp add: apply_query_transport_options_def proxy_keeps Let_def)

lemma proxy_is_tls [proxy_keeps]: "proxy_is kind (apply_query_tls_options q p) = proxy_is kind p"
  by (simp add: apply_query_tls_options_def proxy_keeps Let_def split: option.split)

lemma proxy_is_vmess_transport [proxy_keeps]: "proxy_is kind (vmess_transport v n p) = proxy_is kind p"
  by (simp add: vmess_transport_def proxy_keeps)

lemma proxy_base_is: "nm \<noteq> [] \<Longrightarrow> proxy_is kind (proxy_base nm kind server port)"
  by (simp add: proxy_is_def proxy_base_def)

lemma find_some_Some: "find_some f xs = Some y \<Longrightarrow> \<exists>x \<in> set xs. f x = Some y"
  by (induction xs) (auto split: option.splits)

lemma query_get_any_not_Nil: "query_get_any q keys = Some v \<Longrightarrow> v \<noteq> []"
  by (auto simp: query_get_any_def split: option.splits if_splits)

lemma non_empty_not_Nil: "non_empty v = Some w \<Longrightarrow> w \<noteq> []"
  by (auto simp: non_empty_def split: option.splits if_splits)

lemma json_str_not_Nil: "json_str_any v keys = Some s \<Longrightarrow> s \<noteq> []"
  by (auto simp: json_str_any_def dest: non_empty_not_Nil split: option.splits json.splits)

lemma proxy_name_not_Nil: "proxy_name_from_url lib url q prefix \<noteq> []"
  by (auto simp: proxy_name_from_url_def default_proxy_name_def fragment_name_def proxy_name_from_query_def
      dest: non_empty_not_Nil query_get_any_not_Nil split: option.splits)

lemma parsed_Inr: "parsed lib link f = Inr b \<longleftrightarrow> (\<exists>url. ll_url lib link = Inr url \<and> f url = Inr b)"
  by (simp add: parsed_def split: sum.splits)

lemma url_proxy_is: "url_proxy lib url prefix kind = Inr p \<Longrightarrow> proxy_is kind p"
  by (auto simp: url_proxy_def rbind_Inr proxy_base_is proxy_name_not_Nil)

subsection \<open>The parsers\<close>

lemma url_links_are:
  "parse_vless_link lib link = Inr p \<Longrightarrow> proxy_is ''vless'' p"
  "parse_trojan_link lib link = Inr p \<Longrightarrow> proxy_is ''trojan'' p"
  "parse_hysteria2_link lib link = Inr p \<Longrightarrow> proxy_is ''hysteria2'' p"
  "parse_hysteria_link lib link = Inr p \<Longrightarrow> proxy_is ''hysteria'' p"
  "parse_tuic_link lib link = Inr p \<Longrightarrow> proxy_is ''tuic'' p"
  "parse_http_link lib link = Inr p \<Longrightarrow> proxy_is ''http'' p"
  "parse_socks5_link lib link = Inr p \<Longrightarrow> proxy_is ''socks5'' p"
  unfolding parse_vless_link_def parse_trojan_link_def parse_hysteria2_link_def parse_hysteria_link_def
    parse_tuic_link_def parse_http_link_def parse_socks5_link_def parsed_Inr Let_def
  by (auto simp: rbind_Inr proxy_keeps split: if_splits dest: url_proxy_is)

lemma ss_link_is: "parse_ss_link lib link = Inr p \<Longrightarrow> proxy_is ''ss'' p"
proof -
  have nm: "(case non_empty (map_option (ll_percent lib) fragment) of Some n \<Rightarrow> n
      | None \<Rightarrow> (case proxy_name_from_query q of Some n \<Rightarrow> n | None \<Rightarrow> default_proxy_name ''SS'' url)) \<noteq> []" for fragment q url
    by (auto simp: default_proxy_name_def proxy_name_from_query_def dest: non_empty_not_Nil query_get_any_not_Nil
        split: option.splits)
  assume "parse_ss_link lib link = Inr p"
  then show ?thesis
    unfolding parse_ss_link_def Let_def
    by (clarsimp simp only: rbind_Inr parsed_Inr split_beta sum.inject)
      (simp add: proxy_keeps proxy_base_is nm)
qed

lemma ssr_link_is: "parse_ssr_link lib link = Inr p \<Longrightarrow> proxy_is ''ssr'' p"
proof -
  have nm: "(case non_empty x of Some n \<Rightarrow> n | None \<Rightarrow> ''SSR-'' @ server) \<noteq> []" for x server
    by (auto dest: non_empty_not_Nil split: option.splits)
  assume "parse_ssr_link lib link = Inr p"
  then show ?thesis
    unfolding parse_ssr_link_def Let_def
    by (clarsimp simp only: rbind_Inr split_beta sum.inject)
      (simp add: proxy_keeps proxy_base_is nm)
qed

lemma vmess_proxy_is: "vmess_proxy value = Inr p \<Longrightarrow> proxy_is ''vmess'' p"
proof -
  have nm: "(case json_str_any value keys of None \<Rightarrow> ''VMess'' | Some n \<Rightarrow> n) \<noteq> []" for keys
    by (auto dest: json_str_not_Nil split: option.splits)
  have i: "proxy_is kind (case x of None \<Rightarrow> q | Some n \<Rightarrow> put_i64 ''alterId'' n q) = proxy_is kind q"
    "proxy_is kind (case y of None \<Rightarrow> q | Some z \<Rightarrow> put_string_sequence ''alpn'' (f z) q) = proxy_is kind q" for kind x q y f
    by (simp_all add: proxy_keeps split: option.split)
  assume "vmess_proxy value = Inr p"
  then show ?thesis
    unfolding vmess_proxy_def Let_def
    by (clarsimp simp only: rbind_Inr sum.inject) (simp add: proxy_keeps proxy_base_is nm i)
qed

lemma vmess_link_is: "parse_vmess_link lib link = Inr p \<Longrightarrow> proxy_is ''vmess'' p"
  unfolding parse_vmess_link_def by (elim rbind_Inr [THEN iffD1, elim_format] exE conjE)
    (simp add: vmess_proxy_is split: sum.split_asm)

definition PROXY_KINDS :: "string list" where
  "PROXY_KINDS = [''vless'', ''trojan'', ''ss'', ''ssr'', ''vmess'', ''hysteria2'', ''hysteria'', ''tuic'', ''http'', ''socks5'']"

lemma link_is: "parse_subscription_link lib link = Inr (Some p) \<Longrightarrow> \<exists>kind \<in> set PROXY_KINDS. proxy_is kind p"
  unfolding parse_subscription_link_def Let_def rbind_Inr
  by (simp only: rbind_Inr sum.inject option.inject split: if_split_asm)
    (auto simp: PROXY_KINDS_def dest: url_links_are ss_link_is ssr_link_is vmess_link_is)

subsection \<open>Names\<close>

fun rename_from :: "(string \<Rightarrow> nat) \<Rightarrow> string list \<Rightarrow> string list" where
  "rename_from c [] = []"
| "rename_from c (n # ns) =
    (if 0 < c n then n @ '' '' @ decimal (c n + 1) else n) # rename_from (c(n := c n + 1)) ns"

text \<open>The name a proxy gets from how many before it have its name.\<close>

definition name_number :: "nat \<Rightarrow> string \<Rightarrow> string" where
  "name_number k nm = (if k = 0 then nm else nm @ '' '' @ decimal (k + 1))"

definition renamed :: "string list \<Rightarrow> string list" where
  "renamed ns = map (\<lambda>i. name_number (count_list (take i ns) (ns ! i)) (ns ! i)) [0..<length ns]"

lemma length_rename [simp]: "length (rename_from c ns) = length ns"
  by (induction ns arbitrary: c) simp_all

lemma rename_from_nth:
  "i < length ns \<Longrightarrow> rename_from c ns ! i = name_number (c (ns ! i) + count_list (take i ns) (ns ! i)) (ns ! i)"
proof (induction ns arbitrary: c i)
  case (Cons n ns)
  then show ?case by (cases i) (simp_all add: name_number_def)
qed simp

lemma rename_from_renamed: "rename_from (\<lambda>_. 0) ns = renamed ns"
  by (rule nth_equalityI) (simp_all add: renamed_def rename_from_nth)

lemma get_string_put: "get_string (put_string k v p) k = Some v"
  by (simp add: get_string_def)

lemma dedup_from_names:
  "map (\<lambda>p. get_string p ''name'') ps = map Some ns \<Longrightarrow>
     map (\<lambda>p. get_string p ''name'') (dedup_names_from c ps) = map Some (rename_from c ns)"
proof (induction ps arbitrary: c ns)
  case (Cons p ps)
  then obtain n ns' where "ns = n # ns'" "get_string p ''name'' = Some n"
    "map (\<lambda>p. get_string p ''name'') ps = map Some ns'" by (cases ns) auto
  then show ?case using Cons.IH [of ns'] by (simp add: get_string_put)
qed simp

lemma dedup_from_other:
  "length (dedup_names_from c ps) = length ps \<and>
   (i < length ps \<longrightarrow> k \<noteq> ''name'' \<longrightarrow> get_key (dedup_names_from c ps ! i) k = get_key (ps ! i) k)"
proof (induction ps arbitrary: c i)
  case (Cons p ps)
  then show ?case by (cases i) (simp_all split: option.split)
qed simp

lemma append_sep_eq:
  "c \<notin> set a \<Longrightarrow> c \<notin> set b \<Longrightarrow> x @ c # a = y @ c # b \<Longrightarrow> x = y \<and> a = b"
proof -
  assume a: "c \<notin> set a" "c \<notin> set b" "x @ c # a = y @ c # b"
  then have "rev a @ c # rev x = rev b @ c # rev y" by (metis append_Cons append_Nil append_assoc rev.simps(2) rev_append)
  moreover have "takeWhile (\<lambda>z. z \<noteq> c) (rev a @ c # rev x) = rev a" "takeWhile (\<lambda>z. z \<noteq> c) (rev b @ c # rev y) = rev b"
    using a(1,2) by (auto simp: takeWhile_append)
  ultimately have "a = b" by simp
  then show ?thesis using a(3) by simp
qed

lemma decimal_no_space: "CHR '' '' \<notin> set (decimal n)"
  using decimal_digits [of n] by auto

lemma decimal_inject: "a \<le> u128_max \<Longrightarrow> b \<le> u128_max \<Longrightarrow> decimal a = decimal b \<longleftrightarrow> a = b"
  using parse_u128_decimal by (metis option.inject)

lemma renamed_distinct:
  assumes "\<forall>a \<in> set ns. \<forall>b \<in> set ns. \<forall>k. a \<noteq> b @ '' '' @ decimal k" "length ns < u128_max"
  shows "distinct (renamed ns)"
proof -
  have "name_number (count_list (take i ns) (ns ! i)) (ns ! i) \<noteq> name_number (count_list (take j ns) (ns ! j)) (ns ! j)"
    if ij: "i < j" "j < length ns" for i j
  proof
    let ?x = "ns ! i" let ?y = "ns ! j" let ?k = "count_list (take i ns) ?x" let ?l = "count_list (take j ns) ?y"
    assume eq: "name_number ?k ?x = name_number ?l ?y"
    have mem: "?x \<in> set ns" "?y \<in> set ns" using ij by simp_all
    have kl: "?k + 1 \<le> u128_max" "?l + 1 \<le> u128_max"
      using count_le_length [of "take i ns" ?x] count_le_length [of "take j ns" ?y] ij assms(2) by simp_all
    have "?x = ?y \<and> (?k = 0 \<longleftrightarrow> ?l = 0) \<and> (?k \<noteq> 0 \<longrightarrow> ?k = ?l)"
    proof (cases "?k = 0 \<or> ?l = 0")
      case True
      then show ?thesis using eq assms(1) mem by (auto simp: name_number_def eq_commute [of "_ @ _"] split: if_splits)
    next
      case False
      then have "?x @ CHR '' '' # decimal (?k + 1) = ?y @ CHR '' '' # decimal (?l + 1)" using eq by (simp add: name_number_def)
      from append_sep_eq [OF decimal_no_space decimal_no_space this] have "?x = ?y" "decimal (?k + 1) = decimal (?l + 1)" by auto
      then show ?thesis using decimal_inject [OF kl] False by simp
    qed
    then have k: "?x = ?y" "?k = ?l" by auto
    have "take j ns = take i ns @ ?x # drop (Suc i) (take j ns)"
      using ij by (metis Cons_nth_drop_Suc add.commute append_take_drop_id length_take less_imp_le_nat min.absorb2
          min.strict_order_iff nth_take order_less_le_trans take_take)
    then have "?l = ?k + 1 + count_list (drop (Suc i) (take j ns)) ?x"
      using k(1) by (metis add.assoc add.commute count_list.simps(2) count_list_append plus_1_eq_Suc)
    then show False using k(2) by simp
  qed
  then show ?thesis
    by (simp add: renamed_def distinct_conv_nth) (metis nat_neq_iff)
qed

subsection \<open>The profile of a subscription\<close>

lemma map_filter_all: "map f xs = map Some ys \<Longrightarrow> List.map_filter f xs = ys"
  by (induction xs arbitrary: ys) (auto simp: map_filter_simps)

lemma map_filter_map: "List.map_filter f (map g xs) = List.map_filter (f \<circ> g) xs"
  by (simp add: map_filter_def filter_map comp_def)

lemma map_filter_all_Some: "List.map_filter Some xs = xs"
  by (induction xs) (simp_all add: map_filter_simps)

lemma map_filter_append: "List.map_filter f (xs @ ys) = List.map_filter f xs @ List.map_filter f ys"
  by (simp add: map_filter_def)

lemma proxy_is_named: "proxy_is kind p \<Longrightarrow> \<exists>nm. get_string p ''name'' = Some nm"
  by (auto simp: proxy_is_def get_string_def)

lemma all_named: "\<forall>p \<in> set ps. \<exists>kind. proxy_is kind p \<Longrightarrow> \<exists>ns. map (\<lambda>p. get_string p ''name'') ps = map Some ns"
proof (induction ps)
  case (Cons p ps)
  obtain ns where "map (\<lambda>p. get_string p ''name'') ps = map Some ns" using Cons by auto
  moreover obtain nm where "get_string p ''name'' = Some nm" using Cons.prems proxy_is_named [of _ p] by auto
  ultimately show ?case
    by (intro exI [of _ "nm # ns"]) simp
qed simp

lemma subscription_root_recognised:
  assumes "map (\<lambda>p. get_string p ''name'') ps = map Some ns" "ps \<noteq> []"
  shows "looks_like_generated_proxy_subscription (proxy_subscription_root ps)"
proof -
  let ?qs = "dedup_proxy_names ps"
  have names: "map (\<lambda>p. get_string p ''name'') ?qs = map Some (renamed ns)"
    unfolding dedup_proxy_names_def using dedup_from_names [OF assms(1)] by (simp add: rename_from_renamed)
  then have f: "List.map_filter (\<lambda>p. get_string p ''name'') ?qs = renamed ns" by (rule map_filter_all)
  have "length ?qs = length (renamed ns)" using names by (metis length_map)
  moreover have "length ?qs = length ps" by (simp add: dedup_proxy_names_def dedup_from_other)
  ultimately show ?thesis using assms(2) f
    by (auto simp: looks_like_generated_proxy_subscription_def proxy_subscription_root_def Let_def get_string_def
        get_string_list_def map_filter_map map_filter_all_Some map_filter_append map_filter_simps comp_def)
qed

lemma subscription_root_keys:
  "get_key (proxy_subscription_root ps) ''rules'' = Some (string_sequence DEFAULT_PROXY_SUBSCRIPTION_RULES)"
  "get_key (proxy_subscription_root ps) ''proxies'' = Some (YSequence (map YMapping (dedup_proxy_names ps)))"
  "k \<in> {''ipv6'', ''dns'', ''paws'', ''tun''} \<Longrightarrow> get_key (proxy_subscription_root ps) k = None"
  by (auto simp: proxy_subscription_root_def Let_def string_sequence_def)

lemma subscription_root_settings:
  "vpn_options_from_mapping ip_net (proxy_subscription_root ps) = Inr vpn_options_default"
  "controller_access_from_mapping (proxy_subscription_root ps) = Inr controller_access_default"
  "network_ports_from_mapping (proxy_subscription_root ps) = Inr network_port_config_default"
  by (simp_all add: vpn_options_from_mapping_def read_ipv6_def read_dns_def read_paws_def read_tun_def optional_mapping_def
      subscription_root_keys complete_options_def vpn_options_default_def controller_access_from_mapping_def
      network_ports_from_mapping_def)

subsection \<open>The lines of a subscription\<close>

text \<open>The proxies of the lines that are links, and the errors of the others.\<close>

definition good_links :: "link_lib \<Rightarrow> string \<Rightarrow> mapping list" where
  "good_links lib content = List.map_filter (\<lambda>line. case parse_subscription_link lib line of Inr x \<Rightarrow> x | Inl _ \<Rightarrow> None)
     (link_lines content)"

definition bad_links :: "link_lib \<Rightarrow> string \<Rightarrow> paws_error list" where
  "bad_links lib content = List.map_filter (\<lambda>line. case parse_subscription_link lib line of Inl e \<Rightarrow> Some e | Inr _ \<Rightarrow> None)
     (link_lines content)"

lemma parse_links_spec:
  "parse_links lib lines ps err =
    (ps @ List.map_filter (\<lambda>line. case parse_subscription_link lib line of Inr x \<Rightarrow> x | Inl _ \<Rightarrow> None) lines,
     case err of Some e \<Rightarrow> Some e
     | None \<Rightarrow> (case List.map_filter (\<lambda>line. case parse_subscription_link lib line of Inl e \<Rightarrow> Some e | Inr _ \<Rightarrow> None) lines of
         [] \<Rightarrow> None | e # _ \<Rightarrow> Some e))"
  by (induction lines arbitrary: ps err) (auto simp: map_filter_simps split: sum.splits option.splits)

lemma links_to_yaml_spec:
  "subscription_links_to_yaml lib content =
    (if good_links lib content \<noteq> []
     then rbind (proxy_subscription_yaml (ll_yaml lib) (good_links lib content)) (\<lambda>text. Inr (Some text))
     else if bad_links lib content \<noteq> [] then Inl (hd (bad_links lib content)) else Inr None)"
  by (simp add: subscription_links_to_yaml_def parse_links_spec good_links_def bad_links_def split: list.split)

lemma good_links_are: "p \<in> set (good_links lib content) \<Longrightarrow> \<exists>kind \<in> set PROXY_KINDS. proxy_is kind p"
proof -
  assume "p \<in> set (good_links lib content)"
  then obtain line where "parse_subscription_link lib line = Inr (Some p)"
    by (auto simp: good_links_def map_filter_def split: sum.splits)
  then show ?thesis by (rule link_is)
qed

lemma links_to_yaml_root:
  assumes "yaml_codec_ok (ll_yaml lib)" "subscription_links_to_yaml lib content = Inr (Some text)"
  shows "good_links lib content \<noteq> [] \<and> yl_print (ll_yaml lib) (YMapping (proxy_subscription_root (good_links lib content))) = Inr text \<and>
    yl_parse (ll_yaml lib) text = Inr (YMapping (proxy_subscription_root (good_links lib content)))"
proof -
  let ?root = "YMapping (proxy_subscription_root (good_links lib content))"
  have "good_links lib content \<noteq> []" "yl_print (ll_yaml lib) ?root = Inr text"
    using assms(2) by (auto simp: links_to_yaml_spec proxy_subscription_yaml_def split: if_splits sum.splits)
  moreover have "prints_back (ll_yaml lib) ?root" using assms(1) by (simp add: yaml_codec_ok_def)
  ultimately show ?thesis by (auto simp: prints_back_def)
qed

subsection \<open>The normal form of a profile\<close>

definition normal_profile :: "yaml_io \<Rightarrow> string \<Rightarrow> bool" where
  "normal_profile io text \<longleftrightarrow> (\<exists>m. yl_parse io text = Inr (YMapping m) \<and> yl_print io (YMapping m) = Inr text) \<and>
     validate_profile_app_config (yl_parse io) (yl_ip_net io) text = Inr ()"

lemma validate_cong:
  "parse a = parse b \<Longrightarrow> validate_profile_app_config parse ip_net a = validate_profile_app_config parse ip_net b"
  by (simp add: validate_profile_app_config_def vpn_options_from_yaml_def controller_access_from_yaml_def
      network_ports_from_yaml_def with_root_def)

lemma normalize_yaml_normal:
  assumes "yaml_codec_ok io" "normalize_yaml io raw = Inr text"
  shows "normal_profile io text"
proof -
  obtain m where m: "yl_parse io raw = Inr (YMapping m)" "yl_print io (YMapping m) = Inr text"
    "validate_profile_app_config (yl_parse io) (yl_ip_net io) raw = Inr ()"
    using assms(2) by (auto simp: normalize_yaml_def rbind_Inr split: sum.splits yaml.splits)
  moreover have "prints_back io (YMapping m)" using assms(1) by (simp add: yaml_codec_ok_def)
  ultimately have "yl_parse io text = Inr (YMapping m)" by (auto simp: prints_back_def)
  then show ?thesis using m validate_cong [of "yl_parse io" "text" raw] by (auto simp: normal_profile_def)
qed

lemma normal_is_fixed: "normal_profile io text \<Longrightarrow> normalize_yaml io text = Inr text"
  by (auto simp: normal_profile_def normalize_yaml_def)

lemma subscription_normal:
  assumes "yaml_codec_ok (ll_yaml lib)" "subscription_links_to_yaml lib content = Inr (Some text)"
  shows "normal_profile (ll_yaml lib) text"
  using links_to_yaml_root [OF assms]
  by (auto simp: normal_profile_def validate_profile_app_config_def vpn_options_from_yaml_def controller_access_from_yaml_def
      network_ports_from_yaml_def with_root_def subscription_root_settings)

lemma first_subscription_from:
  "first_subscription lib cs = Inr (Some text) \<Longrightarrow> \<exists>c \<in> set cs. subscription_links_to_yaml lib c = Inr (Some text)"
  by (induction cs) (auto simp: rbind_Inr split: option.splits)

lemma normalize_content_cases:
  assumes "normalize_profile_content lib raw = Inr text"
  shows "normalize_yaml (ll_yaml lib) raw = Inr text \<or>
    (\<exists>c \<in> set (subscription_candidates lib raw). subscription_links_to_yaml lib c = Inr (Some text))"
  using assms first_subscription_from
  by (fastforce simp: normalize_profile_content_def rbind_Inr split: sum.splits option.splits)

subsection \<open>User information\<close>

lemma split_once_char: "c \<notin> set a \<Longrightarrow> split_once [c] (a @ c # b) = Some (a, b)"
proof (induction a)
  case Nil
  then show ?case by (simp add: split_once.simps [of "[c]" "c # b"])
next
  case (Cons x a)
  then show ?case by (auto simp: split_once.simps [of "[c]" "x # a @ c # b"])
qed

lemma parse_u64_decimal: "n < 2 ^ 64 \<Longrightarrow> parse_u64 (decimal n) = Some n"
  by (simp add: parse_u64_def parse_u128_decimal u128_max_def)

lemma printable_digit: "c \<in> set ''0123456789'' \<Longrightarrow> printable c"
  by (auto simp: printable_def)

lemma trim_decimal: "str_trim (decimal n) = decimal n"
proof (rule str_trim_id)
  have "hd (decimal n) \<in> set (decimal n)" by simp
  then show "printable (hd (decimal n))" using decimal_digits [of n] printable_digit by blast
  show "printable (last (decimal n))" using last_decimal printable_digit by blast
qed simp

definition userinfo_header :: "nat \<Rightarrow> nat \<Rightarrow> nat \<Rightarrow> nat \<Rightarrow> string" where
  "userinfo_header u d t e = ''upload='' @ decimal u @ '';download='' @ decimal d @ '';total='' @ decimal t @ '';expire='' @ decimal e"

lemma userinfo_read_back:
  assumes "u < 2 ^ 64" "d < 2 ^ 64" "t < 2 ^ 64" "e < 2 ^ 64"
  shows "parse_subscription_userinfo (userinfo_header u d t e) =
    Some \<lparr>ui_upload_bytes = u, ui_download_bytes = d, ui_total_bytes = Some t,
      ui_expire_at = (if 0 < e then Some (decimal e) else None)\<rparr>"
proof -
  have semi: "CHR '';'' \<notin> set (decimal n)" for n using decimal_digits [of n] by auto
  have "split_on (CHR '';'') (userinfo_header u d t e) =
      [''upload='' @ decimal u, ''download='' @ decimal d, ''total='' @ decimal t, ''expire='' @ decimal e]"
    using split_on_append [of "CHR '';''" "''upload='' @ decimal u" "''download='' @ decimal d @ '';total='' @ decimal t @ '';expire='' @ decimal e"]
      split_on_append [of "CHR '';''" "''download='' @ decimal d" "''total='' @ decimal t @ '';expire='' @ decimal e"]
      split_on_append [of "CHR '';''" "''total='' @ decimal t" "''expire='' @ decimal e"]
      split_on_free [of "CHR '';''" "''expire='' @ decimal e"] semi
    by (simp add: userinfo_header_def)
  moreover have "split_once ''='' (''upload='' @ decimal n) = Some (''upload'', decimal n)"
    "split_once ''='' (''download='' @ decimal n) = Some (''download'', decimal n)"
    "split_once ''='' (''total='' @ decimal n) = Some (''total'', decimal n)"
    "split_once ''='' (''expire='' @ decimal n) = Some (''expire'', decimal n)" for n
    using split_once_char [of "CHR ''=''" "''upload''" "decimal n"] split_once_char [of "CHR ''=''" "''download''" "decimal n"]
      split_once_char [of "CHR ''=''" "''total''" "decimal n"] split_once_char [of "CHR ''=''" "''expire''" "decimal n"] by simp_all
  moreover have "str_trim k = k \<and> to_ascii_lowercase k = k" if "k \<in> set [''upload'', ''download'', ''total'', ''expire'']" for k
    using that by (auto simp: str_trim_id printable_def to_ascii_lowercase_def ascii_lower_def)
  ultimately show ?thesis using assms
    by (simp add: parse_subscription_userinfo_def userinfo_part_def trim_decimal parse_u64_decimal)
qed

subsection \<open>Samples\<close>

definition sample_links :: link_lib where
  "sample_links = \<lparr>ll_url = \<lambda>_. Inr \<lparr>url_scheme = ''socks'', url_username = [], url_password = None,
       url_host_str = Some ''h'', url_port_number = Some 1080, url_fragment = None, url_query_pairs = []\<rparr>,
     ll_form = \<lambda>_. [], ll_percent = id, ll_base64 = \<lambda>_. None, ll_base64_url = \<lambda>_. None,
     ll_json = \<lambda>_. Inl ''none'', ll_yaml = sample_io\<rparr>"

lemma sample_good_links: "good_links sample_links ''socks://x'' \<noteq> [] \<and> length (good_links sample_links ''socks://x'') = 1"
proof -
  have "str_trim ''socks://x'' = ''socks://x''" by (simp add: str_trim_id printable_def)
  then have l: "link_lines ''socks://x'' = [''socks://x'']"
    by (simp add: link_lines_def str_lines_def is_subscription_comment_line_def strip_prefix_def)
  have s: "link_scheme ''socks://x'' = ''socks''"
    using split_once_char [of "CHR '':''" "''socks''" "''//x''"] by (simp add: link_scheme_def)
  have "\<exists>p. parse_subscription_link sample_links ''socks://x'' = Inr (Some p)"
    unfolding parse_subscription_link_def s Let_def
    by (simp add: to_ascii_lowercase_def ascii_lower_def parse_socks5_link_def parsed_def sample_links_def url_proxy_def
        url_host_def url_port_def Let_def)
  then show ?thesis by (auto simp: good_links_def l map_filter_simps)
qed

definition sample_subscription :: string where
  "sample_subscription = replicate (to_nat (YMapping [])) (CHR ''a'')"

lemma sample_normalizes: "\<exists>written. normalize_profile_content sample_links sample_subscription = Inr written"
proof -
  have "controller_access_from_mapping [] = Inr controller_access_default"
    "network_ports_from_mapping [] = Inr network_port_config_default"
    by (simp_all add: controller_access_from_mapping_def network_ports_from_mapping_def optional_mapping_def)
  then show ?thesis
    by (simp add: normalize_profile_content_def normalize_yaml_def sample_subscription_def sample_links_def sample_io_def
        validate_profile_app_config_def vpn_options_from_yaml_def controller_access_from_yaml_def
        network_ports_from_yaml_def with_root_def empty_profile_options)
qed

subsection \<open>Properties\<close>

text \<open>
  C37. The lines of a subscription that are links of a known kind become, in their order, the
  proxies of one profile; comments, empty lines and unknown schemes count for nothing, and lines
  that do not parse are left out as long as one line does. Only when no line gives a proxy is the
  first error reported. Each proxy has a name, one of ten types, a server and a port, whatever
  else its link asks for, and rendering recognises the profile as a generated one, with the
  default rules.
\<close>

theorem subscription_becomes_profile:
  assumes "yaml_codec_ok (ll_yaml lib)"
  shows "(good_links lib content = [] \<longrightarrow> subscription_links_to_yaml lib content =
      (case bad_links lib content of [] \<Rightarrow> Inr None | e # _ \<Rightarrow> Inl e)) \<and>
    (good_links lib content \<noteq> [] \<longrightarrow> (\<exists>written root ps. subscription_links_to_yaml lib content = Inr (Some written) \<and>
      yl_parse (ll_yaml lib) written = Inr (YMapping root) \<and> looks_like_generated_proxy_subscription root \<and>
      get_key root ''rules'' = Some (string_sequence DEFAULT_PROXY_SUBSCRIPTION_RULES) \<and>
      get_key root ''proxies'' = Some (YSequence (map YMapping ps)) \<and> length ps = length (good_links lib content) \<and>
      (\<forall>i < length ps. \<forall>k. k \<noteq> ''name'' \<longrightarrow> get_key (ps ! i) k = get_key (good_links lib content ! i) k) \<and>
      (\<forall>p \<in> set (good_links lib content). \<exists>kind \<in> set PROXY_KINDS. proxy_is kind p)))"
proof (intro conjI impI)
  let ?good = "good_links lib content"
  let ?root = "proxy_subscription_root ?good"
  show "subscription_links_to_yaml lib content = (case bad_links lib content of [] \<Rightarrow> Inr None | e # _ \<Rightarrow> Inl e)"
    if "?good = []" using that by (simp add: links_to_yaml_spec split: list.split)
  assume good: "?good \<noteq> []"
  obtain ns where "map (\<lambda>p. get_string p ''name'') ?good = map Some ns"
    using all_named [of ?good] good_links_are by blast
  then have look: "looks_like_generated_proxy_subscription ?root" using good by (rule subscription_root_recognised)
  have "prints_back (ll_yaml lib) (YMapping ?root)" using assms by (simp add: yaml_codec_ok_def)
  then obtain written where w: "subscription_links_to_yaml lib content = Inr (Some written)"
    "yl_parse (ll_yaml lib) written = Inr (YMapping ?root)"
    using good by (auto simp: prints_back_def links_to_yaml_spec proxy_subscription_yaml_def)
  let ?ps = "dedup_proxy_names ?good"
  have "length ?ps = length ?good \<and> (\<forall>i < length ?ps. \<forall>k. k \<noteq> ''name'' \<longrightarrow> get_key (?ps ! i) k = get_key (?good ! i) k)"
    unfolding dedup_proxy_names_def using dedup_from_other [of "\<lambda>_. 0" ?good] by auto
  then show "\<exists>written root ps. subscription_links_to_yaml lib content = Inr (Some written) \<and>
      yl_parse (ll_yaml lib) written = Inr (YMapping root) \<and> looks_like_generated_proxy_subscription root \<and>
      get_key root ''rules'' = Some (string_sequence DEFAULT_PROXY_SUBSCRIPTION_RULES) \<and>
      get_key root ''proxies'' = Some (YSequence (map YMapping ps)) \<and> length ps = length ?good \<and>
      (\<forall>i < length ps. \<forall>k. k \<noteq> ''name'' \<longrightarrow> get_key (ps ! i) k = get_key (?good ! i) k) \<and>
      (\<forall>p \<in> set ?good. \<exists>kind \<in> set PROXY_KINDS. proxy_is kind p)"
    using w look subscription_root_keys(1,2) [of ?good] good_links_are [of _ lib content]
    by (intro exI [of _ written] exI [of _ ?root] exI [of _ ?ps]) blast
qed

theorem subscription_becomes_profile_witness:
  "good_links sample_links ''socks://x'' \<noteq> [] \<and>
   (\<exists>written root ps. subscription_links_to_yaml sample_links ''socks://x'' = Inr (Some written) \<and>
      yl_parse (ll_yaml sample_links) written = Inr (YMapping root) \<and> looks_like_generated_proxy_subscription root \<and>
      get_key root ''proxies'' = Some (YSequence (map YMapping ps)) \<and> length ps = 1)"
proof -
  have "yaml_codec_ok (ll_yaml sample_links)" using sample_io_ok by (simp add: sample_links_def)
  from subscription_becomes_profile [OF this, of "''socks://x''"] sample_good_links show ?thesis by fastforce
qed

text \<open>
  C38. A proxy whose name was used by k proxies before it, k greater than zero, is renamed by
  appending a space and k + 1; the others keep their names. The names of the profile are then all
  different, provided that no proxy has the name of another followed by a space and a number; the
  proxies A, A and A 2 give two proxies named A 2.
\<close>

theorem proxy_names_numbered:
  assumes "map (\<lambda>p. get_string p ''name'') proxies = map Some ns" "length ns < u128_max"
  shows "map (\<lambda>p. get_string p ''name'') (dedup_proxy_names proxies) = map Some (renamed ns) \<and>
    ((\<forall>a \<in> set ns. \<forall>b \<in> set ns. \<forall>k. a \<noteq> b @ '' '' @ decimal k) \<longrightarrow> distinct (renamed ns)) \<and>
    renamed [''A'', ''A'', ''A 2''] = [''A'', ''A 2'', ''A 2'']"
proof (intro conjI impI)
  show "map (\<lambda>p. get_string p ''name'') (dedup_proxy_names proxies) = map Some (renamed ns)"
    unfolding dedup_proxy_names_def using dedup_from_names [OF assms(1)] by (simp add: rename_from_renamed)
  show "distinct (renamed ns)" if "\<forall>a \<in> set ns. \<forall>b \<in> set ns. \<forall>k. a \<noteq> b @ '' '' @ decimal k"
    using that assms(2) by (rule renamed_distinct)
  show "renamed [''A'', ''A'', ''A 2''] = [''A'', ''A 2'', ''A 2'']"
    by (simp add: rename_from_renamed [symmetric] decimal.simps digit_chars)
qed

theorem proxy_names_numbered_witness:
  "map (\<lambda>p. get_string p ''name'') (dedup_proxy_names [proxy_base ''A'' ''ss'' ''h'' 1, proxy_base ''A'' ''ss'' ''h'' 2]) =
     map Some (renamed [''A'', ''A'']) \<and> distinct (renamed [''A'', ''A''])"
proof -
  have n: "map (\<lambda>p. get_string p ''name'') [proxy_base ''A'' ''ss'' ''h'' 1, proxy_base ''A'' ''ss'' ''h'' 2] = map Some [''A'', ''A'']"
    by (simp add: proxy_base_def get_string_def put_i64_def)
  have "length [''A'', ''A''] < u128_max" by (simp add: u128_max_def)
  from proxy_names_numbered [OF n this] show ?thesis by auto
qed

text \<open>
  C39. Whatever is imported, YAML, a list of links or an encoded list, the text that is stored is
  in normal form: it parses as a mapping, it is what the YAML library prints for that mapping, and
  its VPN options, ports and controller access can be read. Normalising it again changes nothing.
\<close>

theorem imported_profile_normal:
  assumes "yaml_codec_ok (ll_yaml lib)" "normalize_profile_content lib raw = Inr written"
  shows "(\<exists>m. yl_parse (ll_yaml lib) written = Inr (YMapping m) \<and> yl_print (ll_yaml lib) (YMapping m) = Inr written) \<and>
    validate_profile_app_config (yl_parse (ll_yaml lib)) (yl_ip_net (ll_yaml lib)) written = Inr () \<and>
    normalize_profile_content lib written = Inr written"
proof -
  have "normal_profile (ll_yaml lib) written"
    using normalize_content_cases [OF assms(2)] normalize_yaml_normal [OF assms(1)] subscription_normal [OF assms(1)] by blast
  moreover from this have "normalize_yaml (ll_yaml lib) written = Inr written" by (rule normal_is_fixed)
  ultimately show ?thesis by (simp add: normal_profile_def normalize_profile_content_def)
qed

theorem imported_profile_normal_witness:
  "\<exists>written. normalize_profile_content sample_links sample_subscription = Inr written \<and>
     normalize_profile_content sample_links written = Inr written"
proof -
  have ok: "yaml_codec_ok (ll_yaml sample_links)" using sample_io_ok by (simp add: sample_links_def)
  obtain written where "normalize_profile_content sample_links sample_subscription = Inr written"
    using sample_normalizes by blast
  with imported_profile_normal [OF ok this] show ?thesis by blast
qed

end
