(* ===== verification/RuntimeProperties.thy ===== *)
theory RuntimeProperties
  imports RuntimeYaml SettingsProperties
begin

text \<open>
  What the text an engine is started with says, whatever the profile held: where the engine listens and
  who may control it, which rules come first, which name servers it asks and where its providers store
  their files.
\<close>

subsection \<open>Deduplicated rules\<close>

lemma dedup_from_others: "filter (\<lambda>r. \<not> is_match_rule r) (dedup_rules_from b rs) = filter (\<lambda>r. \<not> is_match_rule r) rs"
  by (induction rs arbitrary: b) simp_all

lemma dedup_from_matches:
  "filter is_match_rule (dedup_rules_from b rs) = (if b then [] else take 1 (filter is_match_rule rs))"
  by (induction rs arbitrary: b) simp_all

lemma dedup_idem: "dedup_rules (dedup_rules rs) = dedup_rules rs"
proof -
  have t: "dedup_rules_from True rs = filter (\<lambda>r. \<not> is_match_rule r) rs" for rs
    by (induction rs) simp_all
  have "dedup_rules_from False (dedup_rules_from False rs) = dedup_rules_from False rs" for rs
    by (induction rs) (simp_all add: t)
  then show ?thesis by (simp add: dedup_rules_def)
qed

subsection \<open>What a stage of rendering touches\<close>

lemma get_fold_remove: "get_key (fold remove_key ks m) k = (if k \<in> set ks then None else get_key m k)"
  by (induction ks arbitrary: m) auto

definition RENDERED_SECTIONS :: "string list" where
  "RENDERED_SECTIONS = [''geox-url'', ''geodata'', ''dns'', ''tun'', ''rules'', ''proxy-providers'', ''rule-providers'']"

lemma get_patches:
  "k \<noteq> ''geox-url'' \<Longrightarrow> get_key (patch_geox_url root) k = get_key root k"
  "k \<noteq> ''dns'' \<Longrightarrow> get_key (patch_dns lib opts root) k = get_key root k"
  "k \<noteq> ''tun'' \<Longrightarrow> get_key (patch_tun opts root) k = get_key root k"
  "k \<noteq> ''rules'' \<Longrightarrow> get_key (merge_rules extra root) k = get_key root k"
  "k \<noteq> ''rules'' \<Longrightarrow> get_key (upgrade_legacy_generated_subscription_rules root) k = get_key root k"
  by (simp_all add: patch_geox_url_def patch_dns_def patch_tun_def merge_rules_def
      upgrade_legacy_generated_subscription_rules_def Let_def)

lemma get_geodata:
  "patch_geodata_paths sr root d = (d', Inr r) \<Longrightarrow> k \<noteq> ''geodata'' \<Longrightarrow> get_key r k = get_key root k"
  by (auto simp: patch_geodata_paths_def Let_def split: prod.splits sum.splits)

lemma get_prune:
  "prune_unavailable_default_subscription_rules sr root d = (d', r) \<Longrightarrow> k \<noteq> ''rules'' \<Longrightarrow> get_key r k = get_key root k"
  by (auto simp: prune_unavailable_default_subscription_rules_def Let_def
      split: option.splits yaml.splits if_splits prod.splits)

lemma get_provider_kind:
  "rewrite_provider_kind h key cd ld b root d = (d', Inr r) \<Longrightarrow> k \<noteq> key \<Longrightarrow> get_key r k = get_key root k"
  by (auto simp: rewrite_provider_kind_def split: option.splits yaml.splits prod.splits sum.splits)

lemma get_provider_paths:
  "rewrite_provider_paths h sr i root d = (d', Inr r) \<Longrightarrow> k \<noteq> ''proxy-providers'' \<Longrightarrow> k \<noteq> ''rule-providers'' \<Longrightarrow>
     get_key r k = get_key root k"
  unfolding rewrite_provider_paths_def
  by (auto simp: get_provider_kind split: prod.splits sum.splits)

text \<open>The stages of a successful rendering.\<close>

lemma render_root_stages:
  assumes "render_root lib sr i lines mode opts root d = (d', Inr r)"
  obtains access ports r1 r2 r3 r4 d1 d2 where "controller_access_from_mapping root = Inr access"
    "network_ports_from_mapping root = Inr ports"
    "patch_controller_access access (controller_port ports) (patch_scalars mode opts ports root) = Inr r1"
    "patch_geodata_paths sr (patch_geox_url r1) d = (d1, Inr r2)"
    "prune_unavailable_default_subscription_rules sr (upgrade_legacy_generated_subscription_rules r2) d1 = (d2, r3)"
    "rewrite_provider_paths (rl_hash lib) sr i (patch_tun opts (patch_dns lib opts r3)) d2 = (d', Inr r4)"
    "r = merge_rules lines r4"
  using assms unfolding render_root_def Let_def by (auto split: prod.splits sum.splits intro: that)

lemma render_root_frame:
  assumes "render_root lib sr i lines mode opts root d = (d', Inr r)"
  obtains access ports r1 where "controller_access_from_mapping root = Inr access"
    "network_ports_from_mapping root = Inr ports"
    "patch_controller_access access (controller_port ports) (patch_scalars mode opts ports root) = Inr r1"
    "\<And>k. k \<notin> set RENDERED_SECTIONS \<Longrightarrow> get_key r k = get_key r1 k"
proof -
  obtain access ports r1 r2 r3 r4 d1 d2 where s: "controller_access_from_mapping root = Inr access"
    "network_ports_from_mapping root = Inr ports"
    "patch_controller_access access (controller_port ports) (patch_scalars mode opts ports root) = Inr r1"
    "patch_geodata_paths sr (patch_geox_url r1) d = (d1, Inr r2)"
    "prune_unavailable_default_subscription_rules sr (upgrade_legacy_generated_subscription_rules r2) d1 = (d2, r3)"
    "rewrite_provider_paths (rl_hash lib) sr i (patch_tun opts (patch_dns lib opts r3)) d2 = (d', Inr r4)"
    "r = merge_rules lines r4"
    by (rule render_root_stages [OF assms]) (rule that)
  show ?thesis
  proof (rule that [OF s(1-3)])
    fix k
    assume "k \<notin> set RENDERED_SECTIONS"
    then show "get_key r k = get_key r1 k"
      using get_provider_paths [OF s(6), of k] get_prune [OF s(5), of k] get_geodata [OF s(4), of k]
      by (simp add: RENDERED_SECTIONS_def get_patches s(7))
  qed
qed

lemma get_scalars:
  "k \<in> set APP_MANAGED_KEYS \<Longrightarrow> get_key (patch_scalars mode opts ports root) k =
     (if k = ''mixed-port'' then Some (YNumber (PosInt (unat (mixed_port ports)))) else None)"
proof -
  assume k: "k \<in> set APP_MANAGED_KEYS"
  then have "k \<noteq> ''mode''" "k \<noteq> ''ipv6''" "k \<noteq> ''log-level''" "k \<noteq> ''tcp-connect-timeout''"
    by (auto simp: APP_MANAGED_KEYS_def)
  moreover have "get_key (put_i64 ''tcp-connect-timeout'' n m) k = get_key m k" if "k \<noteq> ''tcp-connect-timeout''" for n m
    using that by (simp add: put_i64_def)
  ultimately show ?thesis
    using k by (simp add: patch_scalars_def sanitize_app_managed_config_def get_fold_remove Let_def)
qed

lemma get_controller:
  assumes "patch_controller_access access port root = Inr r"
  shows "get_key r ''external-controller'' = Some (YString (controller_addr
      (if ca_allow_lan access then CONTROLLER_LAN_HOST else CONTROLLER_LOOPBACK_HOST) port))"
    "get_key r ''secret'' = (if ca_allow_lan access then map_option YString (ca_secret access) else None)"
    "ca_allow_lan access \<Longrightarrow> \<exists>sec. ca_secret access = Some sec \<and> controller_secret_is_valid sec"
    "k \<noteq> ''external-controller'' \<Longrightarrow> k \<noteq> ''secret'' \<Longrightarrow> get_key r k = get_key root k"
  using assms by (auto simp: patch_controller_access_def split: if_splits option.splits)

lemma render_controller:
  assumes "render_root lib sr i lines mode opts root d = (d', Inr r)"
  obtains access ports where "controller_access_from_mapping root = Inr access" "network_ports_from_mapping root = Inr ports"
    "get_key r ''external-controller'' = Some (YString (controller_addr
      (if ca_allow_lan access then CONTROLLER_LAN_HOST else CONTROLLER_LOOPBACK_HOST) (controller_port ports)))"
    "get_key r ''secret'' = (if ca_allow_lan access then map_option YString (ca_secret access) else None)"
    "ca_allow_lan access \<longrightarrow> (\<exists>sec. ca_secret access = Some sec \<and> controller_secret_is_valid sec)"
    "get_key r ''mixed-port'' = Some (YNumber (PosInt (unat (mixed_port ports))))"
    "\<forall>k \<in> set APP_MANAGED_KEYS - {''mixed-port'', ''external-controller'', ''secret''}. get_key r k = None"
  using assms
proof (rule render_root_frame)
  fix access ports r1
  assume a: "controller_access_from_mapping root = Inr access" "network_ports_from_mapping root = Inr ports"
    "patch_controller_access access (controller_port ports) (patch_scalars mode opts ports root) = Inr r1"
    "\<And>k. k \<notin> set RENDERED_SECTIONS \<Longrightarrow> get_key r k = get_key r1 k"
  have "k \<notin> set RENDERED_SECTIONS" if "k \<in> set APP_MANAGED_KEYS" for k
    using that by (auto simp: APP_MANAGED_KEYS_def RENDERED_SECTIONS_def)
  then have m: "get_key r k = get_key r1 k" if "k \<in> set APP_MANAGED_KEYS" for k using that a(4) by blast
  have in_keys: "''external-controller'' \<in> set APP_MANAGED_KEYS" "''secret'' \<in> set APP_MANAGED_KEYS"
    "''mixed-port'' \<in> set APP_MANAGED_KEYS" by (simp_all add: APP_MANAGED_KEYS_def)
  note c = get_controller [OF a(3)]
  show thesis
    by (rule that [OF a(1,2)])
      (use m in_keys c in \<open>auto simp: get_scalars\<close>)
qed

subsection \<open>Rules and DNS of a rendering\<close>

definition profile_rules :: "mapping \<Rightarrow> yaml list" where
  "profile_rules root = (case Option.bind (get_key root ''rules'') yaml_as_sequence of None \<Rightarrow> [] | Some rs \<Rightarrow> rs)"

lemma upgrade_other:
  "length (profile_rules root) \<noteq> 1 \<Longrightarrow> upgrade_legacy_generated_subscription_rules root = root"
  by (auto simp: upgrade_legacy_generated_subscription_rules_def profile_rules_def split: option.splits list.splits)

lemma prune_other:
  "length (profile_rules root) \<noteq> 3 \<Longrightarrow> prune_unavailable_default_subscription_rules sr root d = (d, root)"
  by (auto simp: prune_unavailable_default_subscription_rules_def profile_rules_def DEFAULT_PROXY_SUBSCRIPTION_RULES_def
      split: option.splits yaml.splits)

lemma get_scalars_other:
  "k \<notin> set APP_MANAGED_KEYS \<Longrightarrow> k \<notin> {''mode'', ''ipv6'', ''log-level'', ''tcp-connect-timeout''} \<Longrightarrow>
     get_key (patch_scalars mode opts ports root) k = get_key root k"
  by (auto simp: patch_scalars_def sanitize_app_managed_config_def get_fold_remove Let_def put_i64_def APP_MANAGED_KEYS_def)

lemma get_controller_other:
  "patch_controller_access access port root = Inr r \<Longrightarrow> k \<notin> set APP_MANAGED_KEYS \<Longrightarrow> get_key r k = get_key root k"
  using get_controller(4) by (auto simp: APP_MANAGED_KEYS_def)

definition RENDERED_SCALARS :: "string list" where
  "RENDERED_SCALARS = [''mode'', ''ipv6'', ''log-level'', ''tcp-connect-timeout'']"

lemma render_root_kept:
  assumes "render_root lib sr i lines mode opts root d = (d', Inr r)"
    "k \<notin> set APP_MANAGED_KEYS" "k \<notin> set RENDERED_SCALARS" "k \<notin> set RENDERED_SECTIONS"
  shows "get_key r k = get_key root k"
  by (rule render_root_frame [OF assms(1)])
    (use assms(2-4) in \<open>simp add: get_controller_other get_scalars_other RENDERED_SCALARS_def\<close>)

lemma render_root_rules:
  assumes "render_root lib sr i lines mode opts root d = (d', Inr r)" "lines \<noteq> []"
    "length (profile_rules root) \<noteq> 1" "length (profile_rules root) \<noteq> 3"
  shows "get_key r ''rules'' = Some (YSequence (dedup_rules (map YString lines @ profile_rules root)))"
proof -
  obtain access ports r1 r2 r3 r4 d1 d2 where s: "controller_access_from_mapping root = Inr access"
    "network_ports_from_mapping root = Inr ports"
    "patch_controller_access access (controller_port ports) (patch_scalars mode opts ports root) = Inr r1"
    "patch_geodata_paths sr (patch_geox_url r1) d = (d1, Inr r2)"
    "prune_unavailable_default_subscription_rules sr (upgrade_legacy_generated_subscription_rules r2) d1 = (d2, r3)"
    "rewrite_provider_paths (rl_hash lib) sr i (patch_tun opts (patch_dns lib opts r3)) d2 = (d', Inr r4)"
    "r = merge_rules lines r4"
    by (rule render_root_stages [OF assms(1)]) (rule that)
  have "get_key r2 ''rules'' = get_key root ''rules''"
    using get_geodata [OF s(4), of "''rules''"] get_controller_other [OF s(3), of "''rules''"]
      get_scalars_other [of "''rules''" mode opts ports root]
    by (simp add: get_patches APP_MANAGED_KEYS_def)
  then have pr: "profile_rules r2 = profile_rules root" by (simp add: profile_rules_def)
  then have "r3 = r2" using s(5) assms(3,4) by (simp add: upgrade_other prune_other)
  then have "get_key r4 ''rules'' = get_key r2 ''rules''"
    using get_provider_paths [OF s(6), of "''rules''"] by (simp add: get_patches)
  then have "profile_rules r4 = profile_rules root" using pr by (simp add: profile_rules_def)
  then show ?thesis using assms(2) by (simp add: s(7) merge_rules_def Let_def profile_rules_def)
qed

lemma own_listener_port: "is_own_listener None server \<Longrightarrow> is_own_listener p server"
proof (cases "yaml_as_str server")
  case (Some t)
  define e where "e = (case strip_prefix ''udp://'' t of Some e \<Rightarrow> e
    | None \<Rightarrow> (case strip_prefix ''tcp://'' t of Some e \<Rightarrow> e | None \<Rightarrow> t))"
  assume "is_own_listener None server"
  then show ?thesis
    unfolding is_own_listener_def Some option.case Let_def e_def [symmetric]
    by (cases "rsplit_once (CHR '':'') e") (auto split: option.splits)
qed (simp add: is_own_listener_def)

text \<open>What the section \<open>dns\<close> of a rendering has.\<close>

definition OWN_ENDPOINTS :: "yaml list" where
  "OWN_ENDPOINTS = concat (map (\<lambda>scheme. map (\<lambda>host. YString (scheme @ host @ '':1053''))
     [''127.0.0.1'', ''localhost'', ''[::1]'', ''0.0.0.0'']) [[], ''udp://'', ''tcp://''])"

definition dns_has_no_loop :: "mapping \<Rightarrow> bool" where
  "dns_has_no_loop dns \<longleftrightarrow> get_key dns ''listen'' = Some (YString ''127.0.0.1:1053'') \<and>
     (\<forall>servers. get_key dns ''proxy-server-nameserver'' = Some (YSequence servers) \<longrightarrow>
        servers \<noteq> [] \<and> (\<forall>server \<in> set servers. \<not> is_own_listener None server \<and> server \<notin> set OWN_ENDPOINTS))"

lemma own_endpoints: "server \<in> set OWN_ENDPOINTS \<Longrightarrow> is_own_listener None server"
proof -
  have "parse_u16 ''1053'' = Some 1053" by (simp add: parse_u16_def parse_u128_def u128_max_def)
  then have "list_all (is_own_listener None) OWN_ENDPOINTS"
    by (simp add: OWN_ENDPOINTS_def is_own_listener_def strip_prefix_def rsplit_once_def Let_def)
  then show "server \<in> set OWN_ENDPOINTS \<Longrightarrow> ?thesis" by (simp add: list_all_iff)
qed

lemma drop_own_listener_spec:
  "get_key (drop_own_listener dns) ''proxy-server-nameserver'' = Some (YSequence servers) \<Longrightarrow>
     servers \<noteq> [] \<and> (\<forall>server \<in> set servers. \<not> is_own_listener None server)"
proof -
  have no: "\<not> is_own_listener None server" if "\<not> is_own_listener p server" for p server
    using that own_listener_port by blast
  show "get_key (drop_own_listener dns) ''proxy-server-nameserver'' = Some (YSequence servers) \<Longrightarrow> ?thesis"
    by (auto simp: drop_own_listener_def Let_def no split: option.splits yaml.splits if_splits)
qed

lemma patch_dns_section:
  "\<exists>dns. get_key (patch_dns lib opts root) ''dns'' = Some (YMapping dns) \<and> dns_has_no_loop dns \<and>
     get_key dns ''nameserver'' = Some (string_sequence (dns_servers opts))"
proof -
  let ?d = "section_of root ''dns''"
  have keys: "''listen'' \<notin> set APP_MANAGED_DNS_KEYS" "''nameserver'' \<notin> set APP_MANAGED_DNS_KEYS"
    "''proxy-server-nameserver'' \<notin> set APP_MANAGED_DNS_KEYS" by (simp_all add: APP_MANAGED_DNS_KEYS_def)
  obtain dns where d: "get_key (patch_dns lib opts root) ''dns'' = Some (YMapping dns)"
    "get_key dns ''listen'' = Some (YString ''127.0.0.1:1053'')"
    "get_key dns ''nameserver'' = Some (string_sequence (dns_servers opts))"
    "get_key dns ''proxy-server-nameserver'' = get_key (drop_own_listener ?d) ''proxy-server-nameserver''"
    using keys by (simp add: patch_dns_def Let_def remove_app_managed_dns_fields_def get_fold_remove)
  then show ?thesis using drop_own_listener_spec [of ?d] own_endpoints by (fastforce simp: dns_has_no_loop_def)
qed

lemma render_root_dns:
  assumes "render_root lib sr i lines mode opts root d = (d', Inr r)"
  shows "\<exists>dns. get_key r ''dns'' = Some (YMapping dns) \<and> dns_has_no_loop dns \<and>
     get_key dns ''nameserver'' = Some (string_sequence (dns_servers opts))"
proof -
  obtain access ports r1 r2 r3 r4 d1 d2 where s: "controller_access_from_mapping root = Inr access"
    "network_ports_from_mapping root = Inr ports"
    "patch_controller_access access (controller_port ports) (patch_scalars mode opts ports root) = Inr r1"
    "patch_geodata_paths sr (patch_geox_url r1) d = (d1, Inr r2)"
    "prune_unavailable_default_subscription_rules sr (upgrade_legacy_generated_subscription_rules r2) d1 = (d2, r3)"
    "rewrite_provider_paths (rl_hash lib) sr i (patch_tun opts (patch_dns lib opts r3)) d2 = (d', Inr r4)"
    "r = merge_rules lines r4"
    by (rule render_root_stages [OF assms]) (rule that)
  have "get_key r ''dns'' = get_key (patch_dns lib opts r3) ''dns''"
    using get_provider_paths [OF s(6), of "''dns''"] by (simp add: s(7) get_patches)
  then show ?thesis using patch_dns_section by simp
qed

subsection \<open>Provider files\<close>

definition plain_file_name :: "string \<Rightarrow> bool" where
  "plain_file_name f \<longleftrightarrow> f \<noteq> [] \<and> f \<notin> {''.'', ''..''} \<and> CHR ''/'' \<notin> set f"

lemma sanitized_no_slash: "CHR ''/'' \<notin> set (trim_dots (concat (map sanitize_char nm)))"
proof -
  have "CHR ''/'' \<notin> set (sanitize_char c)" for c
    by (auto simp: sanitize_char_def is_ascii_alphanumeric_def Let_def)
  then have "CHR ''/'' \<notin> set (concat (map sanitize_char nm))" by simp
  then show ?thesis unfolding trim_dots_def by (metis set_dropWhileD set_rev)
qed

lemma hex_digits_no_slash: "CHR ''/'' \<notin> set (hex_digits k n)"
proof (induction k arbitrary: n)
  case (Suc k)
  have "hex_digit (n mod 16) \<in> set ''0123456789abcdef''"
    unfolding hex_digit_def by (rule nth_mem) simp
  then have "hex_digit (n mod 16) \<noteq> CHR ''/''" by auto
  then show ?case using Suc [of "n div 16"] by auto
qed simp

lemma provider_file_plain: "plain_file_name (provider_cache_file_name h nm)"
proof -
  have "length (provider_cache_file_name h nm) > 2" by (simp add: provider_cache_file_name_def Let_def)
  then have "provider_cache_file_name h nm \<notin> {[], ''.'', ''..''}" by auto
  moreover have "CHR ''/'' \<notin> set (provider_cache_file_name h nm)"
    using sanitized_no_slash [of nm] hex_digits_no_slash by (auto simp: provider_cache_file_name_def Let_def)
  ultimately show ?thesis by (simp add: plain_file_name_def)
qed

text \<open>Where a rewritten provider stores its file: in its directory, or nowhere when it is inline.\<close>

definition provider_stays_in :: "string \<Rightarrow> bool \<Rightarrow> mapping \<Rightarrow> bool" where
  "provider_stays_in cache_dir trim_inline p \<longleftrightarrow>
     (\<exists>f. plain_file_name f \<and> get_key p ''path'' = Some (YString (join cache_dir f))) \<or>
     (trim_inline \<and> provider_type_is p ''inline'' \<and> get_key p ''path'' = None)"

lemma rewrite_providers_step:
  assumes "rewrite_providers h cd ld b ((nm, provider) # ps) d = (d', Inr qs)"
  shows "\<exists>provider' d1 qs'. qs = (nm, provider') # qs' \<and> rewrite_providers h cd ld b ps d1 = (d', Inr qs') \<and>
    (\<forall>n p. nm = YString n \<and> provider' = YMapping p \<longrightarrow> provider_stays_in cd b p)"
proof (cases "\<exists>m q. nm = YString m \<and> provider = YMapping q")
  case True
  then obtain m q where c: "nm = YString m" "provider = YMapping q" by blast
  show ?thesis
  proof (cases "b \<and> provider_type_is q ''inline''")
    case True
    then show ?thesis using assms c
      by (auto simp: provider_stays_in_def provider_type_is_def split: prod.splits sum.splits)
  next
    case False
    let ?f = "provider_cache_file_name h m"
    obtain d1 where m: "migrate_cache (join ld ?f) (join cd ?f) d = (d1, Inr ())"
      using assms c False by (auto simp: Let_def split: prod.splits sum.splits)
    have "provider_stays_in cd b (insert_key ''path'' (YString (join cd ?f)) q)"
      using provider_file_plain [of h m] by (auto simp: provider_stays_in_def)
    then show ?thesis using assms c False m by (auto simp: Let_def split: prod.splits sum.splits)
  qed
next
  case False
  then show ?thesis using assms
    by (cases nm; cases provider) (auto simp: Let_def split: prod.splits sum.splits)
qed

lemma rewritten_providers_stay:
  "rewrite_providers h cd ld b ps d = (d', Inr qs) \<Longrightarrow> (YString n, YMapping p) \<in> set qs \<Longrightarrow> provider_stays_in cd b p"
proof (induction ps arbitrary: d qs)
  case (Cons e ps)
  obtain nm provider where e: "e = (nm, provider)" by (cases e)
  with rewrite_providers_step [of h cd ld b nm provider ps d d' qs] Cons.prems(1)
  obtain provider' d1 qs' where s: "qs = (nm, provider') # qs'" "rewrite_providers h cd ld b ps d1 = (d', Inr qs')"
    "\<forall>n p. nm = YString n \<and> provider' = YMapping p \<longrightarrow> provider_stays_in cd b p" by auto
  then show ?case using Cons.IH [OF s(2)] Cons.prems(2) by auto
qed simp

lemma rewrite_kind_stays:
  assumes "rewrite_provider_kind h key cd ld b root d = (d', Inr r)" "get_key r key = Some (YMapping ps)"
    "(YString n, YMapping p) \<in> set ps"
  shows "provider_stays_in cd b p"
  using assms rewritten_providers_stay
  by (fastforce simp: rewrite_provider_kind_def split: option.splits yaml.splits prod.splits sum.splits)

lemma rewrite_paths_stay:
  assumes "rewrite_provider_paths h sr i root d = (d', Inr r)"
    "get_key r kind = Some (YMapping ps)" "(YString n, YMapping p) \<in> set ps"
    "kind = ''proxy-providers'' \<or> kind = ''rule-providers''"
  shows "provider_stays_in (join (join sr (if kind = ''rule-providers'' then ''runtime/providers/rule''
    else ''runtime/providers/proxy'')) i) (kind = ''rule-providers'') p"
proof -
  obtain r1 d1 where r: "rewrite_provider_kind h ''proxy-providers'' (join (join sr ''runtime/providers/proxy'') i)
      (join (join sr ''providers/proxy'') i) False root d = (d1, Inr r1)"
    "rewrite_provider_kind h ''rule-providers'' (join (join sr ''runtime/providers/rule'') i)
      (join (join sr ''providers/rule'') i) True r1 d1 = (d', Inr r)"
    using assms(1) by (auto simp: rewrite_provider_paths_def split: prod.splits sum.splits)
  have "get_key r ''proxy-providers'' = get_key r1 ''proxy-providers''" using get_provider_kind [OF r(2)] by simp
  with assms(4) show ?thesis
  proof (elim disjE)
    assume k: "kind = ''proxy-providers''" "get_key r ''proxy-providers'' = get_key r1 ''proxy-providers''"
    then have "get_key r1 ''proxy-providers'' = Some (YMapping ps)" using assms(2) by simp
    from rewrite_kind_stays [OF r(1) this assms(3)] show ?thesis by (simp add: k(1))
  next
    assume k: "kind = ''rule-providers''"
    then show ?thesis using rewrite_kind_stays [OF r(2) _ assms(3)] assms(2) by simp
  qed
qed

subsection \<open>The rendered text\<close>

lemma render_read_back:
  assumes "yaml_codec_ok io" "readable io i s d" "effective_root io i s d = Some root"
    "render_runtime_yaml io lib i mode opts s d = (d', Inr text)"
  shows "\<exists>v r. yl_parse io text = Inr v \<and> yaml_as_mapping v = Some r \<and>
    render_root lib (st_root s) i (enabled_rule_lines i s) mode opts root d = (d', Inr r)"
proof -
  obtain tx v0 root0 where raw: "raw_yaml io i s d = (d, Inr tx)" "yl_parse io tx = Inr v0"
    "yaml_as_mapping v0 = Some root0" "effective_root io i s d = Some root0"
    by (rule readable_raw [OF assms(1,2)]) (rule that)
  have "root0 = root" using raw(4) assms(3) by simp
  with raw assms(4) obtain r where r: "render_root lib (st_root s) i (enabled_rule_lines i s) mode opts root d = (d', Inr r)"
    "yl_print io (set_mapping r v0) = Inr text"
    by (auto simp: render_runtime_yaml_def split: prod.splits sum.splits)
  have "yl_parse io text = Inr (set_mapping r v0)"
    using assms(1) r(2) by (auto simp: yaml_codec_ok_def prints_back_def) (metis sum.inject(2))
  then show ?thesis using r(1) by simp
qed

definition sample_lib :: render_lib where
  "sample_lib = \<lparr>rl_hash = (\<lambda>_. 0), rl_url_domain = (\<lambda>_. None)\<rparr>"

lemma sample_render:
  "\<exists>d' text. render_runtime_yaml sample_io lib ''p'' mode vpn_options_default yaml_store (yaml_disk []) = (d', Inr text)"
proof -
  obtain tx v0 where raw: "raw_yaml sample_io ''p'' yaml_store (yaml_disk []) = (yaml_disk [], Inr tx)"
    "yl_parse sample_io tx = Inr v0" "yaml_as_mapping v0 = Some []"
    by (rule readable_raw [OF sample_io_ok yaml_sample(1)]) (use yaml_sample(2) in auto)
  have f: "next_fault (yaml_disk []) = (None, yaml_disk [])" by (simp add: next_fault_def yaml_disk_def)
  have "controller_access_from_mapping [] = Inr controller_access_default"
    "network_ports_from_mapping [] = Inr network_port_config_default"
    by (simp_all add: controller_access_from_mapping_def network_ports_from_mapping_def optional_mapping_def)
  moreover have none: "get_key (patch_scalars mode opts ports []) k = None"
    if "k \<in> {''rules'', ''proxy-providers'', ''rule-providers''}" for k opts ports
    using that get_scalars_other [of k mode opts ports "[]"] by (auto simp: APP_MANAGED_KEYS_def)
  ultimately have "\<exists>r. render_root lib sr i lines mode vpn_options_default [] (yaml_disk []) = (yaml_disk [], Inr r)" for sr i lines
    by (simp add: render_root_def patch_controller_access_def controller_access_default_def patch_geodata_paths_def
        create_dir_all_def f Let_def prune_unavailable_default_subscription_rules_def get_patches
        upgrade_legacy_generated_subscription_rules_def rewrite_provider_paths_def rewrite_provider_kind_def)
  then obtain r where "render_root lib (st_root yaml_store) ''p'' (enabled_rule_lines ''p'' yaml_store) mode
      vpn_options_default [] (yaml_disk []) = (yaml_disk [], Inr r)" by blast
  then show ?thesis using raw by (simp add: render_runtime_yaml_def sample_io_def)
qed

subsection \<open>Properties\<close>

text \<open>
  C33. Whatever the profile holds, the text an engine is started with, read back, has its
  controller on the loopback address, or on all addresses exactly when the profile allows access
  from the LAN and has a valid secret, which the text then holds; the mixed port is the configured
  one, and every other setting the application manages (other listeners, authentication, external
  UI and so on) is gone.
\<close>

theorem rendered_controller_guarded:
  assumes "yaml_codec_ok io" "readable io i s d" "effective_root io i s d = Some root"
    and "render_runtime_yaml io lib i mode opts s d = (d', Inr written)"
  shows "\<exists>v r access ports. yl_parse io written = Inr v \<and> yaml_as_mapping v = Some r \<and>
    controller_access_from_mapping root = Inr access \<and> network_ports_from_mapping root = Inr ports \<and>
    get_key r ''external-controller'' = Some (YString (controller_addr
      (if ca_allow_lan access then CONTROLLER_LAN_HOST else CONTROLLER_LOOPBACK_HOST) (controller_port ports))) \<and>
    get_key r ''secret'' = (if ca_allow_lan access then map_option YString (ca_secret access) else None) \<and>
    (ca_allow_lan access \<longrightarrow> (\<exists>sec. ca_secret access = Some sec \<and> controller_secret_is_valid sec)) \<and>
    get_key r ''mixed-port'' = Some (YNumber (PosInt (unat (mixed_port ports)))) \<and>
    (\<forall>k \<in> set APP_MANAGED_KEYS - {''mixed-port'', ''external-controller'', ''secret''}. get_key r k = None)"
proof -
  obtain v r where r: "yl_parse io written = Inr v" "yaml_as_mapping v = Some r"
    "render_root lib (st_root s) i (enabled_rule_lines i s) mode opts root d = (d', Inr r)"
    using render_read_back [OF assms] by blast
  show ?thesis by (rule render_controller [OF r(3)]) (use r(1,2) in blast)
qed

theorem rendered_controller_guarded_witness:
  "\<exists>d' written v r. render_runtime_yaml sample_io sample_lib ''p'' Global vpn_options_default yaml_store (yaml_disk []) =
      (d', Inr written) \<and> yl_parse sample_io written = Inr v \<and> yaml_as_mapping v = Some r \<and>
    get_key r ''external-controller'' = Some (YString (controller_addr CONTROLLER_LOOPBACK_HOST
      (controller_port network_port_config_default))) \<and> get_key r ''secret'' = None"
proof -
  obtain d' written where w: "render_runtime_yaml sample_io sample_lib ''p'' Global vpn_options_default yaml_store (yaml_disk []) =
      (d', Inr written)" using sample_render by blast
  have d: "controller_access_from_mapping [] = Inr controller_access_default" "\<not> ca_allow_lan controller_access_default"
    "network_ports_from_mapping [] = Inr network_port_config_default"
    by (simp_all add: controller_access_from_mapping_def network_ports_from_mapping_def optional_mapping_def
        controller_access_default_def)
  from rendered_controller_guarded [OF sample_io_ok yaml_sample w] w show ?thesis by (auto simp: d)
qed





text \<open>
  C36. However a profile names its proxy and rule providers, each provider that rendering gives a
  path has a file directly in the cache directory of that profile: its name is not empty, not . or
  .., and has no slash. An inline rule provider has no path.
\<close>

theorem provider_files_stay_in_cache:
  assumes "rewrite_provider_paths hash store_root i root d = (d', Inr r)"
    and "get_key r kind = Some (YMapping ps)" "(YString n, YMapping p) \<in> set ps"
    and "kind = ''proxy-providers'' \<or> kind = ''rule-providers''"
  shows "(\<exists>f. plain_file_name f \<and> get_key p ''path'' = Some (YString
        (join (join (join store_root (if kind = ''rule-providers'' then ''runtime/providers/rule'' else ''runtime/providers/proxy'')) i) f))) \<or>
    (kind = ''rule-providers'' \<and> provider_type_is p ''inline'' \<and> get_key p ''path'' = None)"
  using rewrite_paths_stay [OF assms] by (auto simp: provider_stays_in_def)

theorem provider_files_stay_in_cache_witness:
  "\<exists>d' r ps p f. rewrite_provider_paths (\<lambda>_. 7) ''/r'' ''p'' [(YString ''rule-providers'',
      YMapping [(YString ''../x'', YMapping [])])] (yaml_disk []) = (d', Inr r) \<and>
    get_key r ''rule-providers'' = Some (YMapping ps) \<and> (YString ''../x'', YMapping p) \<in> set ps \<and> plain_file_name f \<and>
    get_key p ''path'' = Some (YString (join (join (join ''/r'' ''runtime/providers/rule'') ''p'') f))"
proof -
  let ?f = "provider_cache_file_name (\<lambda>_. 7) ''../x''"
  let ?p = "[(YString ''path'', YString (join (join (join ''/r'' ''runtime/providers/rule'') ''p'') ?f))]"
  let ?ps = "[(YString ''../x'', YMapping ?p)]"
  have f: "next_fault (yaml_disk []) = (None, yaml_disk [])" by (simp add: next_fault_def yaml_disk_def)
  have none: "dk_files (yaml_disk []) (join (join (join ''/r'' a) ''p'') ?f) = None"
    if "a = ''runtime/providers/rule'' \<or> a = ''providers/rule''" for a
    using that by (auto simp: yaml_disk_def join_def raw_path_of_def)
  have keys: "get_key [(YString ''rule-providers'', YMapping [(YString ''../x'', YMapping [])])] ''proxy-providers'' = None"
    by (simp add: get_key_def value_key_def)
  have r: "rewrite_provider_paths (\<lambda>_. 7) ''/r'' ''p'' [(YString ''rule-providers'',
      YMapping [(YString ''../x'', YMapping [])])] (yaml_disk []) =
      (yaml_disk [], Inr [(YString ''rule-providers'', YMapping ?ps)])"
    by (simp add: rewrite_provider_paths_def rewrite_provider_kind_def keys create_dir_all_def f migrate_cache_def
        path_exists_def none provider_type_is_def insert_key_def get_key_def value_key_def)
  have k: "get_key [(YString ''rule-providers'', YMapping ?ps)] ''rule-providers'' = Some (YMapping ?ps)"
    by (simp add: get_key_def value_key_def)
  have not_inline: "\<not> provider_type_is ?p ''inline''" by (simp add: provider_type_is_def get_key_def value_key_def)
  from provider_files_stay_in_cache [OF r k, of "''../x''" ?p] not_inline r k show ?thesis by auto
qed

end
