(* ===== verification/ImportPipeline.thy ===== *)
theory ImportPipeline
  imports SubscriptionProperties RuntimeProperties StoreReach
begin

text \<open>
  From what a user imports to what an engine runs: the store keeps the normal form, its settings can be
  read, and its runtime configuration can be rendered.
\<close>

subsection \<open>Rendering succeeds\<close>

lemma fault_free [simp]: "dk_faults d = [] \<Longrightarrow> next_fault d = (None, d)"
  by (simp add: next_fault_def)

lemma set_file_faults [simp]: "dk_faults (set_file p c d) = dk_faults d"
  by (simp add: set_file_def)

lemma migrate_succeeds:
  "dk_faults d = [] \<Longrightarrow> \<exists>d'. migrate_cache legacy path d = (d', Inr ()) \<and> dk_faults d' = []"
  by (cases "dk_files d path"; cases "dk_files d legacy") (simp_all add: migrate_cache_def path_exists_def copy_file_def)

lemma rewrite_providers_succeeds:
  "dk_faults d = [] \<Longrightarrow> \<exists>d' qs. rewrite_providers h cd ld b ps d = (d', Inr qs) \<and> dk_faults d' = []"
proof (induction ps arbitrary: d)
  case (Cons e ps)
  obtain nm provider where e: "e = (nm, provider)" by (cases e)
  note IH = Cons.IH [OF Cons.prems]
  show ?case
  proof (cases "\<exists>m q. nm = YString m \<and> provider = YMapping q \<and> \<not> (b \<and> provider_type_is q ''inline'')")
    case True
    then obtain m q where c: "nm = YString m" "provider = YMapping q" "\<not> (b \<and> provider_type_is q ''inline'')" by blast
    let ?f = "provider_cache_file_name h m"
    obtain d1 where m: "migrate_cache (join ld ?f) (join cd ?f) d = (d1, Inr ())" "dk_faults d1 = []"
      using migrate_succeeds [OF Cons.prems] by blast
    from Cons.IH [OF m(2)] show ?thesis using c m(1) by (auto simp: e Let_def)
  next
    case False
    then show ?thesis using IH by (cases nm; cases provider) (auto simp: e Let_def)
  qed
qed simp

lemma rewrite_kind_succeeds:
  assumes "dk_faults d = []"
  shows "\<exists>d' r. rewrite_provider_kind h key cd ld b root d = (d', Inr r) \<and> dk_faults d' = []"
proof (cases "\<exists>ps. get_key root key = Some (YMapping ps)")
  case True
  then obtain ps where ps: "get_key root key = Some (YMapping ps)" by blast
  obtain d' qs where "rewrite_providers h cd ld b ps d = (d', Inr qs)" "dk_faults d' = []"
    using rewrite_providers_succeeds [OF assms] by blast
  then show ?thesis using assms ps by (simp add: rewrite_provider_kind_def create_dir_all_def)
next
  case False
  then show ?thesis using assms by (auto simp: rewrite_provider_kind_def split: option.split yaml.split)
qed

lemma rewrite_paths_succeeds:
  assumes "dk_faults d = []"
  shows "\<exists>d' r. rewrite_provider_paths h sr i root d = (d', Inr r) \<and> dk_faults d' = []"
proof -
  obtain d1 r1 where "rewrite_provider_kind h ''proxy-providers'' (join (join sr ''runtime/providers/proxy'') i)
      (join (join sr ''providers/proxy'') i) False root d = (d1, Inr r1)" "dk_faults d1 = []"
    using rewrite_kind_succeeds [OF assms] by blast
  then show ?thesis using rewrite_kind_succeeds [of d1] by (fastforce simp: rewrite_provider_paths_def)
qed

lemma prune_keeps_faults:
  "prune_unavailable_default_subscription_rules sr root d = (d', r) \<Longrightarrow> dk_faults d = [] \<Longrightarrow> dk_faults d' = []"
  by (auto simp: prune_unavailable_default_subscription_rules_def file_has_content_def Let_def
      split: option.splits yaml.splits if_splits)

text \<open>An access configuration that was read has a valid secret when it opens the controller to the LAN.\<close>

lemma read_access_patches:
  assumes "controller_access_from_mapping root = Inr access"
  shows "\<exists>r. patch_controller_access access port m = Inr r"
proof -
  have "ca_allow_lan access \<longrightarrow> (\<exists>sec. ca_secret access = Some sec \<and> controller_secret_is_valid sec)"
  proof (cases "optional_mapping root ''paws''")
    case (Inr paws)
    show ?thesis
    proof (cases paws)
      case None
      then show ?thesis using assms Inr by (auto simp: controller_access_from_mapping_def controller_access_default_def)
    next
      case (Some pw)
      obtain al secret where f: "aliased_field pw ''controller-allow-lan'' ''controllerAllowLan'' strict_bool = Inr al"
        "aliased_field pw ''controller-secret'' ''controllerSecret'' strict_string = Inr secret"
        using assms Inr Some
        by (cases "aliased_field pw ''controller-allow-lan'' ''controllerAllowLan'' strict_bool";
            cases "aliased_field pw ''controller-secret'' ''controllerSecret'' strict_string")
          (simp_all add: controller_access_from_mapping_def Let_def)
      show ?thesis using assms Inr Some f
        by (cases secret) (auto simp: controller_access_from_mapping_def Let_def split: if_splits)
    qed
  qed (use assms in \<open>simp add: controller_access_from_mapping_def\<close>)
  then show ?thesis by (auto simp: patch_controller_access_def)
qed

lemma render_root_succeeds:
  assumes "dk_faults d = []" "controller_access_from_mapping root = Inr access" "network_ports_from_mapping root = Inr ports"
  shows "\<exists>d' r. render_root lib sr i lines mode opts root d = (d', Inr r)"
proof -
  obtain r1 where r1: "patch_controller_access access (controller_port ports) (patch_scalars mode opts ports root) = Inr r1"
    using read_access_patches [OF assms(2)] by blast
  obtain r2 where r2: "patch_geodata_paths sr (patch_geox_url r1) d = (d, Inr r2)"
    using assms(1) by (auto simp: patch_geodata_paths_def create_dir_all_def Let_def)
  obtain d3 r3 where r3: "prune_unavailable_default_subscription_rules sr (upgrade_legacy_generated_subscription_rules r2) d = (d3, r3)"
    by (cases "prune_unavailable_default_subscription_rules sr (upgrade_legacy_generated_subscription_rules r2) d")
  obtain d4 r4 where "rewrite_provider_paths (rl_hash lib) sr i (patch_tun opts (patch_dns lib opts r3)) d3 = (d4, Inr r4)"
    using rewrite_paths_succeeds [OF prune_keeps_faults [OF r3 assms(1)]] by blast
  then show ?thesis using assms(2,3) r1 r2 r3 by (simp add: render_root_def)
qed

lemma render_succeeds:
  assumes "yaml_codec_ok io" "readable io i s d" "effective_root io i s d = Some root"
    "controller_access_from_mapping root = Inr access" "network_ports_from_mapping root = Inr ports"
  shows "\<exists>d' written. render_runtime_yaml io lib i mode opts s d = (d', Inr written)"
proof -
  obtain tx v0 where raw: "raw_yaml io i s d = (d, Inr tx)" "yl_parse io tx = Inr v0" "yaml_as_mapping v0 = Some root"
    by (rule readable_raw [OF assms(1,2)]) (use assms(3) in auto)
  have "dk_faults d = []" using assms(2) by (simp add: readable_def)
  from render_root_succeeds [OF this assms(4,5)] obtain d' r where
    r: "render_root lib (st_root s) i (enabled_rule_lines i s) mode opts root d = (d', Inr r)" by blast
  obtain written where "yl_print io (set_mapping r v0) = Inr written"
    using assms(1) by (auto simp: yaml_codec_ok_def prints_back_def)
  then show ?thesis using raw r by (simp add: render_runtime_yaml_def)
qed

subsection \<open>What an import stores\<close>

text \<open>What the YAML library prints is UTF-8.\<close>

definition prints_utf8 :: "yaml_io \<Rightarrow> bool" where
  "prints_utf8 io \<longleftrightarrow> (\<forall>v t. yl_print io v = Inr t \<longrightarrow> utf8_valid (str_bytes t))"

lemma import_stores:
  fixes s :: "'y store"
  assumes "import_profile_content_with_subscription_metadata ext ck nm src raw url info meta s d = (s', d', Inr i)"
  obtains written p where "ext_normalize ext raw = Inr written" "map_of (st_profiles s') i = Some p"
    "pd_raw_yaml_path p = raw_path_of i" "pd_user_overrides p = []" "st_root s' = st_root s"
    "dk_files d' (join (st_root s) (raw_path_of i)) = Some (str_bytes written)"
proof -
  have s: "st_initialization_error s = None"
    using assms by (auto simp: import_profile_content_with_subscription_metadata_def available_def ensure_available_def
        refuse_def split: option.splits)
  obtain written where w: "ext_normalize ext raw = Inr written"
    using assms s by (auto simp: import_profile_content_with_subscription_metadata_def available_def ensure_available_def
        refuse_def Let_def split: sum.splits)
  define j where "j = next_id ''profile'' ck 0 0"
  define doc :: "'y profile_document" where "doc = \<lparr>pd_id = j, pd_name = nm, pd_source = src, pd_raw_yaml_path = raw_path_of j,
    pd_user_overrides = [], pd_yaml_backup_path = Some (backup_path_of j), pd_subscription_url = url,
    pd_updated_at = Some (now_string ck 1), pd_last_refresh_at = None, pd_last_refresh_error = None,
    pd_selected_proxies = [], pd_upload_bytes = 0, pd_download_bytes = 0,
    pd_subscription_user_info = (case info of None \<Rightarrow> ext_user_info_comment ext raw | x \<Rightarrow> x),
    pd_subscription_metadata = merge_subscription_metadata meta (ext_metadata_comment ext raw)\<rparr>"
  define staged where "staged = (if st_active (put_profile j doc s) = None
    then (put_profile j doc s)\<lparr>st_active := Some j\<rparr> else put_profile j doc s)"
  let ?writes = "[(join (st_root s) (raw_path_of j), str_bytes written), (join (st_root s) (backup_path_of j), str_bytes written)]"
  have c: "commit_staged_with_files ext s d staged ?writes j = (s', d', Inr i)"
    using assms unfolding import_profile_content_with_subscription_metadata_def available_def ensure_available_def s w
      option.case sum.case Let_def doc_def staged_def j_def .
  then have i: "i = j" "s' = staged"
    and f: "commit_files (index_path (st_root staged)) (encoded_index ext staged) ?writes d = (d', Inr ())"
    by (auto simp: commit_staged_with_files_def split: prod.splits sum.splits)
  have st: "map_of (st_profiles staged) j = Some doc" "st_root staged = st_root s"
    by (simp_all add: staged_def put_profile_def)
  have ne: "raw_path_of j \<noteq> backup_path_of j" "join (st_root s) (raw_path_of j) \<noteq> index_path (st_root s)"
    by (simp_all add: raw_path_of_def backup_path_of_def index_path_def)
  obtain content where "dk_files d' = (fold (\<lambda>(p, c) m. m(p \<mapsto> c)) ?writes (dk_files d))(index_path (st_root staged) \<mapsto> content)"
    by (rule commit_files_Inr [OF f]) (rule that)
  then have "dk_files d' (join (st_root s) (raw_path_of j)) = Some (str_bytes written)"
    using ne st(2) by simp
  then show ?thesis using that [OF w, of doc] st i by (simp add: doc_def)
qed

lemma import_readable:
  assumes "codec_ok ext" "yaml_codec_ok (ll_yaml lib)" "prints_utf8 (ll_yaml lib)"
    "ext_normalize ext = normalize_profile_content lib" "store_inv ext s d"
    "import_profile_content_with_subscription_metadata ext ck nm src raw url info meta s d = (s', d', Inr i)" "dk_faults d' = []"
  obtains root opts access ports where "readable (ll_yaml lib) i s' d'" "effective_root (ll_yaml lib) i s' d' = Some root"
    "vpn_options_from_mapping (yl_ip_net (ll_yaml lib)) root = Inr opts" "controller_access_from_mapping root = Inr access"
    "network_ports_from_mapping root = Inr ports"
proof -
  let ?io = "ll_yaml lib"
  obtain written p where w: "ext_normalize ext raw = Inr written" "map_of (st_profiles s') i = Some p"
    "pd_raw_yaml_path p = raw_path_of i" "pd_user_overrides p = []" "st_root s' = st_root s"
    "dk_files d' (join (st_root s) (raw_path_of i)) = Some (str_bytes written)"
    by (rule import_stores [OF assms(6)]) (rule that)
  have "normal_profile ?io written"
    using normalize_content_cases [of lib raw written] w(1) assms(4) normalize_yaml_normal [OF assms(2)]
      subscription_normal [OF assms(2)] by auto
  then obtain root where m: "yl_parse ?io written = Inr (YMapping root)" "yl_print ?io (YMapping root) = Inr written"
    and v: "validate_profile_app_config (yl_parse ?io) (yl_ip_net ?io) written = Inr ()" by (auto simp: normal_profile_def)
  have "utf8_valid (str_bytes written)" using assms(3) m(2) by (auto simp: prints_utf8_def)
  then have fv: "file_value ?io s' d' p = Some (YMapping root)"
    using w m(1) by (simp add: file_value_def from_utf8_def)
  have "store_step ext (s, d) (s', d')" by (rule store_step.Import [OF assms(6)]) simp
  then have "store_ok s' (dk_files d')" using store_step_inv [OF assms(1) _ assms(5)] by (simp add: store_inv_def)
  then have readable: "readable ?io i s' d'" using assms(7) w(2,4) fv by (simp add: readable_def)
  have root: "effective_root ?io i s' d' = Some root"
    using w(2,4) fv by (simp add: effective_root_def overlay_root_def)
  obtain opts access ports where "vpn_options_from_mapping (yl_ip_net ?io) root = Inr opts"
    "controller_access_from_mapping root = Inr access" "network_ports_from_mapping root = Inr ports"
    using v m(1) by (auto simp: validate_profile_app_config_def vpn_options_from_yaml_def controller_access_from_yaml_def
        network_ports_from_yaml_def with_root_def rbind_Inr)
  then show ?thesis by (rule that [OF readable root])
qed

subsection \<open>A sample import\<close>

lemma sample_prints_utf8: "prints_utf8 sample_io"
proof -
  have "utf8_valid (str_bytes (replicate n (CHR ''a'')))" for n by (induction n) (simp_all add: str_bytes_def)
  then show ?thesis by (simp add: prints_utf8_def sample_io_def)
qed

definition yaml_empty_store :: "yaml store" where
  "yaml_empty_store = \<lparr>st_root = ''r'', st_initialization_error = None, st_active = None, st_profiles = [], st_rules = []\<rparr>"

definition pipeline_ext :: "yaml store_index list \<Rightarrow> yaml ext" where
  "pipeline_ext table = (table_ext table)\<lparr>ext_normalize := normalize_profile_content sample_links\<rparr>"

lemma pipeline_ext_ok: "codec_ok (pipeline_ext table)"
  using table_ext_ok [of table] by (simp add: codec_ok_def pipeline_ext_def)

lemma pipeline_import:
  obtains table s' d' i where "import_profile_content_with_subscription_metadata (pipeline_ext table) sample_clock ''n'' ''local''
      sample_subscription None None None yaml_empty_store sample_disk = (s', d', Inr i)" "dk_faults d' = []"
    "store_inv (pipeline_ext table) yaml_empty_store sample_disk"
proof -
  obtain written where w: "normalize_profile_content sample_links sample_subscription = Inr written"
    using sample_normalizes by blast
  let ?i = "next_id ''profile'' sample_clock 0 0"
  define doc :: "yaml profile_document" where "doc = \<lparr>pd_id = ?i, pd_name = ''n'', pd_source = ''local'',
    pd_raw_yaml_path = raw_path_of ?i, pd_user_overrides = [], pd_yaml_backup_path = Some (backup_path_of ?i),
    pd_subscription_url = None, pd_updated_at = Some (now_string sample_clock (Suc 0)), pd_last_refresh_at = None,
    pd_last_refresh_error = None, pd_selected_proxies = [], pd_upload_bytes = 0, pd_download_bytes = 0,
    pd_subscription_user_info = None, pd_subscription_metadata = None\<rparr>"
  define staged where "staged = (put_profile ?i doc yaml_empty_store)\<lparr>st_active := Some ?i\<rparr>"
  let ?ext = "pipeline_ext [store_index_of yaml_empty_store, store_index_of staged]"
  have ext: "ext_user_info_comment ?ext t = None" "ext_metadata_comment ?ext t = None"
    "ext_normalize ?ext = normalize_profile_content sample_links" for t
    by (simp_all add: pipeline_ext_def table_ext_def)
  have e: "\<exists>b. encoded_index ?ext staged = Inr b"
    by (simp add: encoded_index_def ensure_available_def staged_def put_profile_def yaml_empty_store_def pipeline_ext_def
        table_ext_def store_index_of_def)
  have "\<exists>d'. import_profile_content_with_subscription_metadata ?ext sample_clock ''n'' ''local''
      sample_subscription None None None yaml_empty_store sample_disk = (staged, d', Inr ?i) \<and> dk_faults d' = []"
  proof -
    have av: "ensure_available yaml_empty_store = Inr ()" by (simp add: ensure_available_def yaml_empty_store_def)
    have m: "merge_subscription_metadata None None = None" by (simp add: merge_subscription_metadata_def)
    have none: "st_active (put_profile ?i doc yaml_empty_store) = None" by (simp add: put_profile_def yaml_empty_store_def)
    show ?thesis using e
      by (auto simp: import_profile_content_with_subscription_metadata_def available_def av ext m w doc_def [symmetric] none
          staged_def [symmetric] Let_def commit_staged_with_files_def commit_files_def read_file_def next_fault_def
          sample_disk_def atomic_write_def set_file_def save_index_def)
  qed
  moreover have "store_inv ?ext yaml_empty_store sample_disk"
    by (simp add: store_inv_def store_ok_def yaml_empty_store_def index_current_def sample_disk_def index_path_def
        join_def pipeline_ext_def table_ext_def)
  ultimately show ?thesis using that by blast
qed

subsection \<open>Properties\<close>

text \<open>
  C40. A profile that was imported, from YAML or from any form of proxy list, can always be
  started: the store that imported it, with the normal form of this library, can read the profile
  back, its VPN options are readable, and as long as no system call fails its runtime
  configuration can be rendered for every mode and all options. The store and the YAML library
  must read back what they write, and what the YAML library prints must be UTF-8.
\<close>

theorem imported_profile_runs:
  assumes "codec_ok ext" "yaml_codec_ok (ll_yaml lib)" "prints_utf8 (ll_yaml lib)"
    and "ext_normalize ext = normalize_profile_content lib" "store_inv ext s d"
    and "import_profile_content_with_subscription_metadata ext ck nm src raw url info meta s d = (s', d', Inr i)"
    and "dk_faults d' = []"
  shows "readable (ll_yaml lib) i s' d' \<and> (\<exists>opts. vpn_options_for_profile (ll_yaml lib) i s' d' = (d', Inr opts)) \<and>
    (\<forall>rlib mode opts. \<exists>d'' written. render_runtime_yaml (ll_yaml lib) rlib i mode opts s' d' = (d'', Inr written))"
proof -
  obtain root opts access ports where r: "readable (ll_yaml lib) i s' d'" "effective_root (ll_yaml lib) i s' d' = Some root"
    "vpn_options_from_mapping (yl_ip_net (ll_yaml lib)) root = Inr opts" "controller_access_from_mapping root = Inr access"
    "network_ports_from_mapping root = Inr ports"
    by (rule import_readable [OF assms]) (rule that)
  moreover have "vpn_options_for_profile (ll_yaml lib) i s' d' = (d', Inr opts)"
    using settings_of_root(1) [OF assms(2) r(1,2)] r(3) by simp
  ultimately show ?thesis using render_succeeds [OF assms(2) r(1,2,4,5)] by blast
qed

theorem imported_profile_runs_witness:
  "\<exists>s' d' i. readable sample_io i s' d' \<and> (\<exists>opts. vpn_options_for_profile sample_io i s' d' = (d', Inr opts)) \<and>
    (\<exists>d'' written. render_runtime_yaml sample_io sample_lib i Rule vpn_options_default s' d' = (d'', Inr written))"
proof -
  obtain table s' d' i where imp: "import_profile_content_with_subscription_metadata (pipeline_ext table) sample_clock ''n'' ''local''
      sample_subscription None None None yaml_empty_store sample_disk = (s', d', Inr i)" "dk_faults d' = []"
    and inv: "store_inv (pipeline_ext table) yaml_empty_store sample_disk" by (rule pipeline_import) (rule that)
  have "codec_ok (pipeline_ext table)" by (rule pipeline_ext_ok)
  moreover have "yaml_codec_ok (ll_yaml sample_links)" "prints_utf8 (ll_yaml sample_links)"
    using sample_io_ok sample_prints_utf8 by (simp_all add: sample_links_def)
  moreover have "ext_normalize (pipeline_ext table) = normalize_profile_content sample_links" by (simp add: pipeline_ext_def)
  ultimately have "readable (ll_yaml sample_links) i s' d' \<and>
      (\<exists>opts. vpn_options_for_profile (ll_yaml sample_links) i s' d' = (d', Inr opts)) \<and>
      (\<forall>rlib mode opts. \<exists>d'' written. render_runtime_yaml (ll_yaml sample_links) rlib i mode opts s' d' = (d'', Inr written))"
    using imported_profile_runs [OF _ _ _ _ inv imp] by blast
  moreover have "ll_yaml sample_links = sample_io" by (simp add: sample_links_def)
  ultimately show ?thesis by (simp only:) blast
qed

end
