(* ===== verification/UdpPacket.thy ===== *)
theory UdpPacket
  imports PawsPrelude
begin

text \<open>
  \<open>crates/paws_vpn/src/packet.rs\<close>: parsing the IPv4/UDP packets the TUN reader hands over, the
  DNS interception test, building the reply packets and their header checksum. The TUN file
  descriptor calls of the same file (\<open>write_tun_packet\<close>, \<open>duplicate_fd\<close>, \<open>set_nonblocking\<close>) are
  system calls and are modelled only by their retry loop. \<open>from_ne_bytes\<close> is little-endian on the
  targets of the repository (aarch64, x86_64).
\<close>

type_synonym udp_view = "u32 \<times> u16 \<times> u32 \<times> u16 \<times> byte list"

definition ne32 :: "byte \<Rightarrow> byte \<Rightarrow> byte \<Rightarrow> byte \<Rightarrow> u32" where
  "ne32 a b c d = word_of_nat (le_nat [a, b, c, d])"

definition ne32_bytes :: "u32 \<Rightarrow> byte list" where
  "ne32_bytes w = le_bytes 4 (unat w)"

definition parse_udp_packet :: "byte list \<Rightarrow> udp_view option" where
  "parse_udp_packet ip =
    (if length ip < 28 \<or> drop_bit 4 (ip ! 0) \<noteq> 4 \<or> ip ! 9 \<noteq> 17 then None
     else let ihl = unat (ip ! 0 AND 0x0f) * 4 in
     if ihl < 20 \<or> length ip < ihl + 8 then None
     else let total_len = unat (be16 (ip ! 2) (ip ! 3)) in
     if total_len < ihl + 8 \<or> total_len > length ip then None
     else let fragment_field = be16 (ip ! 6) (ip ! 7) in
     if fragment_field AND 0x3fff \<noteq> 0 then None
     else let src_ip = ne32 (ip ! 12) (ip ! 13) (ip ! 14) (ip ! 15);
              dst_ip = ne32 (ip ! 16) (ip ! 17) (ip ! 18) (ip ! 19);
              src_port = be16 (ip ! ihl) (ip ! (ihl + 1));
              dst_port = be16 (ip ! (ihl + 2)) (ip ! (ihl + 3));
              udp_len = unat (be16 (ip ! (ihl + 4)) (ip ! (ihl + 5))) in
     if udp_len < 8 \<or> ihl + udp_len > total_len then None
     else let start = ihl + 8; endp = ihl + udp_len in
     if start \<le> endp then Some (src_ip, src_port, dst_ip, dst_port, slice start endp ip) else None)"

definition tun_dns_query_from_packet :: "bool \<Rightarrow> byte list \<Rightarrow> udp_view option" where
  "tun_dns_query_from_packet dns_hijacking ip =
    (if \<not> dns_hijacking then None
     else case parse_udp_packet ip of None \<Rightarrow> None
       | Some (si, sp, di, dp, payload) \<Rightarrow>
           if dp = 53 then Some (si, sp, di, dp, payload) else None)"

text \<open>The loop of \<open>ip_checksum\<close> over the header two bytes at a time, on a \<open>u32\<close> accumulator.\<close>

fun cksum_sum :: "byte list \<Rightarrow> u32 \<Rightarrow> u32" where
  "cksum_sum [] acc = acc"
| "cksum_sum [a] acc = acc + push_bit 8 (ucast a)"
| "cksum_sum (a # b # rest) acc = cksum_sum rest (acc + (push_bit 8 (ucast a) OR ucast b))"

lemma unat_low16: "unat (s AND 0xffff :: u32) = unat s mod 65536"
proof -
  have "(s AND 0xffff) = take_bit 16 s"
    by (simp add: take_bit_eq_mask mask_eq_exp_minus_1)
  then have "unat (s AND 0xffff) = take_bit 16 (unat s)"
    by (simp only: unsigned_take_bit_eq)
  then show ?thesis by (simp only: take_bit_eq_mod) simp
qed

lemma unat_high16: "unat (drop_bit 16 s :: u32) = unat s div 65536"
  by (simp add: drop_bit_eq_div unat_div_distrib)

lemma unat_u32_less [simp]: "unat (w :: u32) < 4294967296"
proof -
  have "unat w < 2 ^ LENGTH(32)" by (rule unsigned_less)
  then show ?thesis by simp
qed

lemma unat_fold_step:
  "unat ((s AND 0xffff) + drop_bit 16 s :: u32) = unat s mod 65536 + unat s div 65536"
proof -
  have "unat s div 65536 < 65536"
    using unat_u32_less [of s] by (simp add: less_mult_imp_div_less)
  then have "unat s mod 65536 + unat s div 65536 < 4294967296"
    using mod_less_divisor [of 65536 "unat s"] by linarith
  then show ?thesis by (simp add: unat_word_ariths unat_low16 unat_high16)
qed

function cksum_fold :: "u32 \<Rightarrow> u32" where
  "cksum_fold s = (if drop_bit 16 s \<noteq> 0 then cksum_fold ((s AND 0xffff) + drop_bit 16 s) else s)"
  by pat_completeness auto
termination
proof (relation "measure unat")
  fix s :: u32
  assume "drop_bit 16 s \<noteq> 0"
  then have "unat s div 65536 \<noteq> 0" by (metis unat_high16 unat_eq_zero)
  then have "0 < unat s div 65536" by simp
  then have "unat s mod 65536 + unat s div 65536 < unat s"
    using mult_div_mod_eq [of 65536 "unat s"] by linarith
  then show "((s AND 0xffff) + drop_bit 16 s, s) \<in> measure unat"
    by (simp only: in_measure unat_fold_step)
qed simp

declare cksum_fold.simps [simp del]

definition ip_checksum :: "byte list \<Rightarrow> u16" where
  "ip_checksum header = ucast (NOT (cksum_fold (cksum_sum header 0)))"

definition build_udp_packet :: "u32 \<Rightarrow> u16 \<Rightarrow> u32 \<Rightarrow> u16 \<Rightarrow> byte list \<Rightarrow> byte list" where
  "build_udp_packet src_ip src_port dst_ip dst_port payload =
    (let udp_len = 8 + length payload;
         total_len = 20 + udp_len;
         packet = replicate total_len 0;
         packet = packet[0 := 0x45];
         packet = copy_at 2 (be16_bytes (word_of_nat total_len)) packet;
         packet = packet[6 := 0x40];
         packet = packet[8 := 64];
         packet = packet[9 := 17];
         packet = copy_at 12 (ne32_bytes src_ip) packet;
         packet = copy_at 16 (ne32_bytes dst_ip) packet;
         checksum = ip_checksum (take 20 packet);
         packet = copy_at 10 (be16_bytes checksum) packet;
         packet = copy_at 20 (be16_bytes src_port) packet;
         packet = copy_at 22 (be16_bytes dst_port) packet;
         packet = copy_at 24 (be16_bytes (word_of_nat udp_len)) packet;
         packet = copy_at 28 payload packet
     in packet)"

text \<open>
  \<open>write_tun_packet\<close>: \<open>written\<close> is the sequence of results of \<open>write(2)\<close>, a negative one with
  whether \<open>errno\<close> is \<open>EAGAIN\<close>; the loop consumes at most four of them. The result carries the
  number of attempts.
\<close>

fun write_tun_loop :: "nat \<Rightarrow> (int \<times> bool) list \<Rightarrow> nat \<Rightarrow> (bool \<times> nat) option" where
  "write_tun_loop retries [] n = None"
| "write_tun_loop retries ((written, eagain) # rs) n =
     (if written \<ge> 0 then Some (True, Suc n)
      else if eagain \<and> retries < 3 then write_tun_loop (Suc retries) rs (Suc n)
      else Some (False, Suc n))"

definition write_tun_packet :: "(int \<times> bool) list \<Rightarrow> (bool \<times> nat) option" where
  "write_tun_packet results = write_tun_loop 0 results 0"

subsection \<open>The header checksum\<close>

text \<open>The 16-bit words of a header as natural numbers, as the checksum adds them.\<close>

fun words_sum :: "byte list \<Rightarrow> nat" where
  "words_sum [] = 0"
| "words_sum [a] = unat a * 256"
| "words_sum (a # b # rest) = unat a * 256 + unat b + words_sum rest"

lemma unat_ucast_byte: "unat (ucast (b :: byte) :: u32) = unat b"
proof -
  have "unat b < 4294967296" using unat_byte_less [of b] by linarith
  then show ?thesis by (simp add: unsigned_ucast_eq take_bit_nat_eq_self_iff)
qed

lemma unat_pair: "unat (push_bit 8 (ucast (a :: byte)) OR ucast (b :: byte) :: u32) = unat a * 256 + unat b"
proof -
  have disj: "\<not> bit (push_bit 8 (ucast a) :: u32) n \<or> \<not> bit (ucast b :: u32) n" for n
    by (auto simp: bit_push_bit_iff bit_ucast_iff dest: bit_imp_le_length)
  have "(push_bit 8 (ucast a) OR ucast b :: u32) = push_bit 8 (ucast a) + ucast b"
    using disj by (simp add: disjunctive_add)
  moreover have "unat (push_bit 8 (ucast a) :: u32) = unat a * 256"
  proof -
    have "(push_bit 8 (ucast a) :: u32) = ucast a * 256" by (simp add: push_bit_eq_mult)
    moreover have "unat (ucast a :: u32) = unat a" by (rule unat_ucast_byte)
    moreover have "unat a * 256 < 4294967296" using unat_byte_less [of a] by linarith
    ultimately show ?thesis by (simp add: unat_word_ariths)
  qed
  moreover have "unat (ucast b :: u32) = unat b" by (rule unat_ucast_byte)
  moreover have "unat a * 256 + unat b < 4294967296"
    using unat_byte_less [of a] unat_byte_less [of b] by linarith
  ultimately show ?thesis by (simp add: unat_word_ariths)
qed

lemma unat_single: "unat (push_bit 8 (ucast (a :: byte)) :: u32) = unat a * 256"
  using unat_pair [of a 0] by simp

lemma words_sum_bound: "words_sum h \<le> 65535 * length h"
proof (induction h rule: words_sum.induct)
  case (2 a)
  have "unat a * 256 \<le> 65535" using unat_byte_less [of a] by linarith
  then show ?case by simp
next
  case (3 a b rest)
  have "unat a * 256 + unat b \<le> 65535" using unat_byte_less [of a] unat_byte_less [of b] by linarith
  then show ?case using "3.IH" by simp
qed simp

lemma unat_cksum_sum:
  assumes "unat acc + words_sum h < 4294967296"
  shows "unat (cksum_sum h acc) = unat acc + words_sum h"
  using assms
proof (induction h acc rule: cksum_sum.induct)
  case (2 a acc)
  then show ?case by (simp add: unat_word_ariths unat_single)
next
  case (3 a b rest acc)
  have step: "unat (acc + (push_bit 8 (ucast a) OR ucast b)) = unat acc + (unat a * 256 + unat b)"
    using "3.prems" by (simp add: unat_word_ariths unat_pair)
  show ?case using "3.IH" "3.prems" step by simp
qed simp

lemma cksum_fold_props:
  "unat (cksum_fold s) < 65536 \<and> unat (cksum_fold s) mod 65535 = unat s mod 65535
   \<and> (unat (cksum_fold s) = 0 \<longleftrightarrow> unat s = 0)"
proof (induction s rule: cksum_fold.induct)
  case (1 s)
  show ?case
  proof (cases "drop_bit 16 s = 0")
    case True
    then have "unat s div 65536 = 0" by (metis unat_high16 unat_0)
    then have "unat s < 65536" by (simp add: div_eq_0_iff)
    with True show ?thesis by (simp add: cksum_fold.simps [of s])
  next
    case False
    let ?t = "(s AND 0xffff) + drop_bit 16 s"
    have t: "unat ?t = unat s mod 65536 + unat s div 65536" by (rule unat_fold_step)
    have dm: "unat s = 65536 * (unat s div 65536) + unat s mod 65536" by simp
    have "unat s = unat ?t + 65535 * (unat s div 65536)" using dm t by linarith
    then have m: "unat s mod 65535 = unat ?t mod 65535" by (metis mod_mult_self2)
    have z: "unat ?t = 0 \<longleftrightarrow> unat s = 0" using dm t by (metis add_is_0 mult_is_0 div_0 mod_0)
    have "cksum_fold s = cksum_fold ?t" using False by (simp add: cksum_fold.simps [of s])
    with "1.IH" [OF False] m z show ?thesis by simp
  qed
qed

lemma unat_ip_checksum:
  "unat (ip_checksum h) = 65535 - unat (cksum_fold (cksum_sum h 0))"
proof -
  let ?f = "cksum_fold (cksum_sum h 0)"
  have f: "unat ?f < 65536" using cksum_fold_props by blast
  have "ucast (NOT ?f) = NOT (ucast ?f :: u16)"
    by (rule bit_word_eqI) (simp add: bit_ucast_iff bit_not_iff)
  then have "unat (ip_checksum h) = unat (NOT (ucast ?f :: u16))"
    by (simp add: ip_checksum_def)
  also have "\<dots> = 65535 - unat (ucast ?f :: u16)"
  proof -
    have m1: "(- 1 :: u16) = 65535" by simp
    have "NOT (ucast ?f :: u16) = 65535 - ucast ?f" by (simp add: not_eq_complement)
    moreover have "(ucast ?f :: u16) \<le> 65535"
      using word_order.extremum [of "ucast ?f :: u16"] by (simp only: m1)
    ultimately have "unat (NOT (ucast ?f :: u16)) = unat (65535 :: u16) - unat (ucast ?f :: u16)"
      by (simp only: unat_sub)
    then show ?thesis by simp
  qed
  also have "unat (ucast ?f :: u16) = unat ?f"
    using f by (simp add: unsigned_ucast_eq take_bit_eq_mod)
  finally show ?thesis .
qed

subsection \<open>The packet as a layout\<close>

definition ip_header :: "u16 \<Rightarrow> u16 \<Rightarrow> u32 \<Rightarrow> u32 \<Rightarrow> byte list" where
  "ip_header total_len checksum src_ip dst_ip =
     [0x45, 0] @ be16_bytes total_len @ [0, 0, 0x40, 0, 64, 17] @ be16_bytes checksum
     @ ne32_bytes src_ip @ ne32_bytes dst_ip"

definition udp_header :: "u16 \<Rightarrow> u16 \<Rightarrow> u16 \<Rightarrow> byte list" where
  "udp_header src_port dst_port udp_len =
     be16_bytes src_port @ be16_bytes dst_port @ be16_bytes udp_len @ [0, 0]"

lemma ne32_bytes_eq:
  "ne32_bytes w = [word_of_nat (unat w), word_of_nat (unat w div 256),
     word_of_nat (unat w div 256 div 256), word_of_nat (unat w div 256 div 256 div 256)]"
proof -
  have "(4 :: nat) = Suc (Suc (Suc (Suc 0)))" by simp
  then show ?thesis by (simp only: ne32_bytes_def le_bytes.simps)
qed

lemma length_ne32_bytes [simp]: "length (ne32_bytes w) = 4"
  by (simp add: ne32_bytes_def)

lemma length_ip_header [simp]: "length (ip_header t c s d) = 20"
  by (simp add: ip_header_def)

lemma length_udp_header [simp]: "length (udp_header a b c) = 8"
  by (simp add: udp_header_def)

lemma replicate_28: "replicate (20 + (8 + n)) (0 :: byte) =
  [0,0,0,0,0,0,0,0,0,0,0,0,0,0,0,0,0,0,0,0,0,0,0,0,0,0,0,0] @ replicate n 0"
proof -
  have "replicate (20 + (8 + n)) (0 :: byte) = replicate 28 0 @ replicate n 0"
    by (simp only: replicate_add [symmetric]) simp
  also have "replicate 28 (0 :: byte) = [0,0,0,0,0,0,0,0,0,0,0,0,0,0,0,0,0,0,0,0,0,0,0,0,0,0,0,0]"
    by code_simp
  finally show ?thesis .
qed

lemma header_writes:
  "copy_at 16 (ne32_bytes di) (copy_at 12 (ne32_bytes si)
     ((copy_at 2 (be16_bytes t) (([0,0,0,0,0,0,0,0,0,0,0,0,0,0,0,0,0,0,0,0,0,0,0,0,0,0,0,0] @ r)[0 := 0x45]))
       [6 := 0x40, 8 := 64, 9 := 17]))
   = ip_header t 0 si di @ [0,0,0,0,0,0,0,0] @ r"
  by (simp add: copy_at_def ip_header_def be16_bytes_def ne32_bytes_eq)

lemma checksum_write:
  "copy_at 10 (be16_bytes c) (ip_header t 0 si di @ r) = ip_header t c si di @ r"
  by (simp add: copy_at_def ip_header_def be16_bytes_def)

lemma udp_writes:
  assumes "length h = 20"
  shows "copy_at 28 pl (copy_at 24 (be16_bytes ul) (copy_at 22 (be16_bytes dp)
      (copy_at 20 (be16_bytes sp) (h @ [0,0,0,0,0,0,0,0] @ replicate (length pl) 0))))
    = h @ udp_header sp dp ul @ pl"
  using assms by (simp add: copy_at_def udp_header_def be16_bytes_def)

lemma build_udp_packet_layout:
  "build_udp_packet si sp di dp pl =
     ip_header (word_of_nat (20 + (8 + length pl)))
       (ip_checksum (ip_header (word_of_nat (20 + (8 + length pl))) 0 si di)) si di
     @ udp_header sp dp (word_of_nat (8 + length pl)) @ pl"
  unfolding build_udp_packet_def Let_def replicate_28 header_writes
  by (simp only: checksum_write udp_writes length_ip_header take_append take_all [OF eq_imp_le, OF length_ip_header]
      order_refl diff_self_eq_0 take0 append_Nil2 append.right_neutral)

subsection \<open>Parsing a built packet\<close>

lemma ne32_ne32_bytes:
  "ne32 (ne32_bytes w ! 0) (ne32_bytes w ! 1) (ne32_bytes w ! 2) (ne32_bytes w ! 3) = w"
proof -
  have "[ne32_bytes w ! 0, ne32_bytes w ! 1, ne32_bytes w ! 2, ne32_bytes w ! 3] = le_bytes 4 (unat w)"
    unfolding ne32_bytes_def [symmetric] by (simp add: ne32_bytes_eq)
  then have "ne32 (ne32_bytes w ! 0) (ne32_bytes w ! 1) (ne32_bytes w ! 2) (ne32_bytes w ! 3)
      = word_of_nat (le_nat (le_bytes 4 (unat w)))"
    unfolding ne32_def by (simp only:)
  also have "le_nat (le_bytes 4 (unat w)) = unat w"
    using unat_u32_less [of w] by simp
  finally show ?thesis by simp
qed

lemma ip_header_nth:
  "ip_header t c s d ! 0 = 0x45" "ip_header t c s d ! 9 = 17"
  "ip_header t c s d ! 2 = be16_bytes t ! 0" "ip_header t c s d ! 3 = be16_bytes t ! Suc 0"
  "ip_header t c s d ! 6 = 0x40" "ip_header t c s d ! 7 = 0"
  "ip_header t c s d ! 12 = ne32_bytes s ! 0" "ip_header t c s d ! 13 = ne32_bytes s ! 1"
  "ip_header t c s d ! 14 = ne32_bytes s ! 2" "ip_header t c s d ! 15 = ne32_bytes s ! 3"
  "ip_header t c s d ! 16 = ne32_bytes d ! 0" "ip_header t c s d ! 17 = ne32_bytes d ! 1"
  "ip_header t c s d ! 18 = ne32_bytes d ! 2" "ip_header t c s d ! 19 = ne32_bytes d ! 3"
  by (simp_all add: ip_header_def be16_bytes_def ne32_bytes_eq)

lemma udp_header_nth:
  "udp_header sp dp ul ! 0 = be16_bytes sp ! 0" "udp_header sp dp ul ! Suc 0 = be16_bytes sp ! Suc 0"
  "udp_header sp dp ul ! 2 = be16_bytes dp ! 0" "udp_header sp dp ul ! 3 = be16_bytes dp ! Suc 0"
  "udp_header sp dp ul ! 4 = be16_bytes ul ! 0" "udp_header sp dp ul ! 5 = be16_bytes ul ! Suc 0"
  by (simp_all add: udp_header_def be16_bytes_def)

lemma parse_layout:
  assumes "length pl \<le> 65507"
  shows "parse_udp_packet (ip_header (word_of_nat (20 + (8 + length pl))) c si di
           @ udp_header sp dp (word_of_nat (8 + length pl)) @ pl) = Some (si, sp, di, dp, pl)"
proof -
  define t where "t = (word_of_nat (20 + (8 + length pl)) :: u16)"
  define ul where "ul = (word_of_nat (8 + length pl) :: u16)"
  define p where "p = ip_header t c si di @ udp_header sp dp ul @ pl"
  have ut: "unat t = 28 + length pl" and uul: "unat ul = 8 + length pl"
    using assms unfolding t_def ul_def unat_u16_of_nat by simp_all
  have len: "length p = 28 + length pl" by (simp add: p_def)
  have h: "p ! k = ip_header t c si di ! k" if "k < 20" for k
    using that by (simp add: p_def nth_append)
  have u: "p ! (20 + k) = udp_header sp dp ul ! k" if "k < 8" for k
    using that by (simp add: p_def nth_append)
  have hs: "p ! 0 = 0x45" "p ! 9 = 17" "be16 (p ! 2) (p ! 3) = t" "be16 (p ! 6) (p ! 7) = 0x4000"
    "ne32 (p ! 12) (p ! 13) (p ! 14) (p ! 15) = si" "ne32 (p ! 16) (p ! 17) (p ! 18) (p ! 19) = di"
    by (simp_all only: h ip_header_nth be16_be16_bytes ne32_ne32_bytes) (simp_all add: be16_def)
  have us: "be16 (p ! 20) (p ! (20 + 1)) = sp" "be16 (p ! (20 + 2)) (p ! (20 + 3)) = dp"
    "be16 (p ! (20 + 4)) (p ! (20 + 5)) = ul"
    using u [of 0] u [of 1] u [of 2] u [of 3] u [of 4] u [of 5]
    by (simp_all add: udp_header_nth be16_be16_bytes)
  have ihl: "unat (p ! 0 AND 0x0f) * 4 = 20" and ver: "drop_bit 4 (p ! 0) = 4" by (simp_all add: hs)
  have frag: "be16 (p ! 6) (p ! 7) AND 0x3fff = 0" by (simp add: hs)
  have pl: "slice (20 + 8) (20 + (8 + length pl)) p = pl" by (simp add: slice_def p_def)
  have "parse_udp_packet p = Some (si, sp, di, dp, pl)"
    unfolding parse_udp_packet_def Let_def ihl hs(3) us ut uul frag hs(5,6) pl
    by (simp add: len ver hs)
  then show ?thesis by (simp only: p_def t_def ul_def)
qed

lemma parse_build_udp_packet:
  "length pl \<le> 65507 \<Longrightarrow>
     parse_udp_packet (build_udp_packet si sp di dp pl) = Some (si, sp, di, dp, pl)"
  by (simp only: build_udp_packet_layout parse_layout)

text \<open>What any accepted packet satisfies: the payload lies inside it and it is not a fragment.\<close>

lemma parse_udp_packet_Some:
  assumes "parse_udp_packet ip = Some (si, sp, di, dp, pl)"
  shows "\<exists>ihl. ihl = unat (ip ! 0 AND 0x0f) * 4 \<and> 20 \<le> ihl
     \<and> ihl + 8 + length pl \<le> unat (be16 (ip ! 2) (ip ! 3)) \<and> unat (be16 (ip ! 2) (ip ! 3)) \<le> length ip
     \<and> pl = take (length pl) (drop (ihl + 8) ip)
     \<and> dp = be16 (ip ! (ihl + 2)) (ip ! (ihl + 3))
     \<and> ip ! 9 = 17 \<and> be16 (ip ! 6) (ip ! 7) AND 0x3fff = 0"
  using assms
  by (auto simp: parse_udp_packet_def Let_def slice_def min_def split: if_splits)

subsection \<open>The checksum of a built packet verifies\<close>

lemma words_sum_append: "even (length xs) \<Longrightarrow> words_sum (xs @ ys) = words_sum xs + words_sum ys"
  by (induction xs rule: words_sum.induct) auto

lemma words_sum_be16_bytes: "words_sum (be16_bytes w) = unat w"
proof -
  have "unat (be16 (be16_bytes w ! 0) (be16_bytes w ! Suc 0)) = unat w"
    by (simp only: be16_be16_bytes)
  then show ?thesis by (simp add: unat_be16 be16_bytes_def)
qed

lemma words_sum_header:
  "words_sum (ip_header t c s d) = words_sum (ip_header t 0 s d) + unat c"
  unfolding ip_header_def by (simp add: words_sum_append words_sum_be16_bytes)

lemma checksum_complement:
  assumes "length h \<le> 1000" "words_sum h' = words_sum h + unat (ip_checksum h)" "length h' \<le> 1000"
  shows "ip_checksum h' = 0"
proof -
  let ?f = "unat (cksum_fold (cksum_sum h 0))" and ?f' = "unat (cksum_fold (cksum_sum h' 0))"
  have s: "unat (cksum_sum h 0) = words_sum h" and s': "unat (cksum_sum h' 0) = words_sum h'"
    using words_sum_bound [of h] words_sum_bound [of h'] assms(1,3)
    by (simp_all add: unat_cksum_sum)
  have f: "?f < 65536" "?f mod 65535 = words_sum h mod 65535" "?f = 0 \<longleftrightarrow> words_sum h = 0"
    using cksum_fold_props [of "cksum_sum h 0"] s by simp_all
  have f': "?f' < 65536" "?f' mod 65535 = words_sum h' mod 65535" "?f' = 0 \<longleftrightarrow> words_sum h' = 0"
    using cksum_fold_props [of "cksum_sum h' 0"] s' by simp_all
  have c: "unat (ip_checksum h) = 65535 - ?f" by (rule unat_ip_checksum)
  have "words_sum h' mod 65535 = (?f + (65535 - ?f)) mod 65535"
    unfolding assms(2) c by (rule mod_add_cong) (use f(2) in auto)
  also have "\<dots> = 0" using f(1) by simp
  finally have "?f' mod 65535 = 0" using f'(2) by simp
  moreover have "?f' \<noteq> 0" using f(3) f'(3) c assms(2) by auto
  ultimately have "\<not> ?f' < 65535" by (metis mod_less)
  then have "?f' = 65535" using f'(1) by linarith
  then have "unat (ip_checksum h') = 0" by (simp add: unat_ip_checksum)
  then show ?thesis by (simp only: unat_eq_zero)
qed

lemma build_udp_packet_checksum:
  "ip_checksum (take 20 (build_udp_packet si sp di dp pl)) = 0"
proof -
  define t :: u16 where "t = word_of_nat (20 + (8 + length pl))"
  have "take 20 (build_udp_packet si sp di dp pl)
      = ip_header t (ip_checksum (ip_header t 0 si di)) si di"
    unfolding build_udp_packet_layout t_def [symmetric] by simp
  moreover have "ip_checksum (ip_header t (ip_checksum (ip_header t 0 si di)) si di) = 0"
    by (rule checksum_complement [of "ip_header t 0 si di"]) (simp_all, rule words_sum_header)
  ultimately show ?thesis by simp
qed

subsection \<open>Further facts\<close>

text \<open>
  A packet accepted by parse_udp_packet is unfragmented UDP and its payload lies inside the total
  length of its header, which lies inside the buffer.
\<close>

lemma udp_parse_inside:
  assumes "parse_udp_packet ip = Some (si, sp, di, dp, payload)"
  shows "\<exists>ihl. 20 \<le> ihl \<and> ihl + 8 + length payload \<le> unat (be16 (ip ! 2) (ip ! 3)) \<and>
     unat (be16 (ip ! 2) (ip ! 3)) \<le> length ip \<and> payload = take (length payload) (drop (ihl + 8) ip) \<and>
     ip ! 9 = 17 \<and> be16 (ip ! 6) (ip ! 7) AND 0x3fff = 0"
  using parse_udp_packet_Some [OF assms] by blast

text \<open>
  The IPv4 header of every packet built by build_udp_packet carries the checksum a receiver
  expects: the ones' complement sum over the header is zero.
\<close>

lemma udp_header_checksum:
  "ip_checksum (take 20 (build_udp_packet src sport dst dport payload)) = 0"
  by (rule build_udp_packet_checksum)

subsection \<open>Properties\<close>

text \<open>
  C22. A reply packet built by build_udp_packet from any payload of at most 65507 bytes is parsed
  back by parse_udp_packet to the same addresses, ports and payload.
\<close>

theorem udp_round_trip:
  assumes "length payload \<le> 65507"
  shows "parse_udp_packet (build_udp_packet src sport dst dport payload) = Some (src, sport, dst, dport, payload)"
  using assms by (rule parse_build_udp_packet)

theorem udp_round_trip_witness:
  "parse_udp_packet (build_udp_packet 16777343 53 33554559 4660 [1, 2, 3]) =
     Some (16777343, 53, 33554559, 4660, [1, 2, 3])"
  using udp_round_trip [of "[1, 2, 3]"] by simp

end
