(* ===== verification/DnsWire.thy ===== *)
theory DnsWire
  imports UdpPacket
begin

text \<open>
  The wire format half of \<open>crates/paws_vpn/src/dns.rs\<close>: queries, names with compression
  pointers, address and CNAME records of a response, the in-place rewriting of a cached response
  and the SERVFAIL replies. Offsets are \<open>usize\<close> values bounded by the packet's length, so they
  are natural numbers; a read the code does not guard is a \<open>Panic\<close>.
\<close>

datatype dns_record_kind = A | Aaaa

fun kind_as_str :: "dns_record_kind \<Rightarrow> string" where
  "kind_as_str A = ''A''"
| "kind_as_str Aaaa = ''AAAA''"

datatype dns_response_code = ServFail

fun response_code :: "dns_response_code \<Rightarrow> byte" where
  "response_code ServFail = 2"

record dns_query =
  dq_name :: string
  dq_question_end :: nat
  dq_kind :: dns_record_kind

datatype ip_addr = V4 byte byte byte byte | V6 "byte list"

datatype dns_answer =
    Address string ip_addr nat
  | Cname string string

subsection \<open>Queries\<close>

text \<open>The label loop of \<open>parse_dns_query\<close>: the labels read so far and the offset of the next.\<close>

function query_labels :: "byte list \<Rightarrow> nat \<Rightarrow> string list \<Rightarrow> (string list \<times> nat) option" where
  "query_labels query offset labels =
    (if offset \<ge> length query then None
     else let len = query ! offset; offset = offset + 1 in
     if len = 0 then Some (labels, offset)
     else if len AND 0xc0 \<noteq> 0 \<or> offset + unat len > length query then None
     else case from_utf8 (slice offset (offset + unat len) query) of None \<Rightarrow> None
       | Some l \<Rightarrow> query_labels query (offset + unat len) (labels @ [l]))"
  by pat_completeness auto
termination
  by (relation "measure (\<lambda>(query, offset, labels). length query - offset)") auto

declare query_labels.simps [simp del]

definition parse_dns_query :: "byte list \<Rightarrow> dns_query option" where
  "parse_dns_query query =
    (if length query < 12 then None
     else if be16 (query ! 4) (query ! 5) = 0 then None
     else case query_labels query 12 [] of None \<Rightarrow> None
       | Some (labels, offset) \<Rightarrow>
     if offset + 4 > length query then None
     else let qtype = be16 (query ! offset) (query ! (offset + 1));
              qclass = be16 (query ! (offset + 2)) (query ! (offset + 3)) in
     if qclass \<noteq> 1 then None
     else case (if qtype = 1 then Some A else if qtype = 28 then Some Aaaa else None) of
         None \<Rightarrow> None
       | Some kind \<Rightarrow> Some \<lparr>dq_name = join_with ''.'' labels, dq_question_end = offset + 4,
                            dq_kind = kind\<rparr>)"

subsection \<open>Names\<close>

text \<open>
  The loop of \<open>read_dns_name\<close>. Each compression pointer spends one of eight jumps, and between
  jumps the position grows: the pair is the termination measure, so no packet, however its
  pointers are arranged, makes the loop run forever.
\<close>

function read_name_loop ::
  "byte list \<Rightarrow> nat \<Rightarrow> nat \<Rightarrow> bool \<Rightarrow> nat \<Rightarrow> string list \<Rightarrow> (string \<times> nat) option" where
  "read_name_loop packet pos next_offset jumped jumps labels =
    (if pos \<ge> length packet then None
     else let len = packet ! pos in
     if len AND 0xc0 = 0xc0 then
       (if pos + 1 \<ge> length packet then None
        else let second = packet ! (pos + 1);
                 ptr = push_bit 8 (unat (len AND 0x3f)) OR unat second in
        if ptr \<ge> length packet then None
        else let next_offset = (if jumped then next_offset else pos + 2);
                 jumps = min (jumps + 1) 255 in
        if jumps > 8 then None
        else read_name_loop packet ptr next_offset True jumps labels)
     else if len AND 0xc0 \<noteq> 0 then None
     else let pos = pos + 1 in
     if len = 0 then Some (join_with ''.'' labels, if jumped then next_offset else pos)
     else if pos + unat len > length packet then None
     else case from_utf8 (slice pos (pos + unat len) packet) of None \<Rightarrow> None
       | Some l \<Rightarrow> read_name_loop packet (pos + unat len) next_offset jumped jumps (labels @ [l]))"
  by pat_completeness auto
termination
proof (relation "measures [\<lambda>(packet, pos, next_offset, jumped, jumps, labels). 9 - jumps,
                           \<lambda>(packet, pos, next_offset, jumped, jumps, labels). length packet - pos]")
qed (auto simp: min_def split: if_splits)

declare read_name_loop.simps [simp del]

definition read_dns_name :: "byte list \<Rightarrow> nat \<Rightarrow> (string \<times> nat) option" where
  "read_dns_name packet offset = read_name_loop packet offset offset False 0 []"

definition parse_dns_question_end :: "byte list \<Rightarrow> nat option outcome" where
  "parse_dns_question_end query =
    (if length query \<le> 5 then Panic
     else if be16 (query ! 4) (query ! 5) = 0 then Ret (Some 12)
     else case read_dns_name query 12 of None \<Rightarrow> Ret None
       | Some (_, offset) \<Rightarrow> Ret (if offset + 4 \<le> length query then Some (offset + 4) else None))"

subsection \<open>Responses\<close>

text \<open>The question loop: the name of the first question and the offset behind the last.\<close>

fun skip_questions :: "byte list \<Rightarrow> nat \<Rightarrow> nat \<Rightarrow> bool \<Rightarrow> string \<Rightarrow> (string \<times> nat) option" where
  "skip_questions response 0 offset first question_name = Some (question_name, offset)"
| "skip_questions response (Suc n) offset first question_name =
    (case read_dns_name response offset of None \<Rightarrow> None
     | Some (name, next_offset) \<Rightarrow>
         if next_offset + 4 > length response then None
         else skip_questions response n (next_offset + 4) False
                (if first then name else question_name))"

definition record_answers :: "byte list \<Rightarrow> string \<Rightarrow> string \<Rightarrow> nat \<Rightarrow> dns_answer list" where
  "record_answers response question_name name next_offset =
    (let record_type = be16 (response ! next_offset) (response ! (next_offset + 1));
         record_class = be16 (response ! (next_offset + 2)) (response ! (next_offset + 3));
         ttl = unat (be32 (response ! (next_offset + 4)) (response ! (next_offset + 5))
                          (response ! (next_offset + 6)) (response ! (next_offset + 7)));
         rdlen = unat (be16 (response ! (next_offset + 8)) (response ! (next_offset + 9)));
         rdata_offset = next_offset + 10;
         host = (if name = [] then question_name else name) in
     if record_class = 1 \<and> record_type = 1 \<and> rdlen = 4 then
       [Address host (V4 (response ! rdata_offset) (response ! (rdata_offset + 1))
                         (response ! (rdata_offset + 2)) (response ! (rdata_offset + 3))) ttl]
     else if record_class = 1 \<and> record_type = 28 \<and> rdlen = 16 then
       [Address host (V6 (slice rdata_offset (rdata_offset + 16) response)) ttl]
     else if record_class = 1 \<and> record_type = 5 then
       (case read_dns_name response rdata_offset of
          Some (target, _) \<Rightarrow> if target = [] then [] else [Cname host target]
        | None \<Rightarrow> [])
     else [])"

fun read_answers :: "byte list \<Rightarrow> string \<Rightarrow> nat \<Rightarrow> nat \<Rightarrow> dns_answer list" where
  "read_answers response question_name 0 offset = []"
| "read_answers response question_name (Suc n) offset =
    (case read_dns_name response offset of None \<Rightarrow> []
     | Some (name, next_offset) \<Rightarrow>
         if next_offset + 10 > length response then []
         else let rdlen = unat (be16 (response ! (next_offset + 8)) (response ! (next_offset + 9)));
                  next_record = next_offset + 10 + rdlen in
         if next_record > length response then []
         else record_answers response question_name name next_offset
              @ read_answers response question_name n next_record)"

text \<open>
  \<open>dns_response_host_for_address\<close>: at most eight steps from an address record's owner back to the
  name that was asked for.
\<close>

fun follow_cnames :: "nat \<Rightarrow> (string \<rightharpoonup> string) \<Rightarrow> string \<Rightarrow> string" where
  "follow_cnames 0 sources current = current"
| "follow_cnames (Suc n) sources current =
    (case sources (to_ascii_lowercase current) of None \<Rightarrow> current
     | Some source \<Rightarrow> follow_cnames n sources source)"

definition dns_response_host_for_address :: "string \<Rightarrow> string \<Rightarrow> (string \<rightharpoonup> string) \<Rightarrow> string" where
  "dns_response_host_for_address host question_name cname_sources =
    (let current = follow_cnames 8 cname_sources (if host = [] then question_name else host) in
     if current = [] then question_name else current)"

fun cname_sources :: "dns_answer list \<Rightarrow> (string \<rightharpoonup> string) \<Rightarrow> (string \<rightharpoonup> string)" where
  "cname_sources [] m = m"
| "cname_sources (Address _ _ _ # rest) m = cname_sources rest m"
| "cname_sources (Cname host target # rest) m =
    cname_sources rest (if host = [] \<or> target = [] then m
                        else m(to_ascii_lowercase target \<mapsto> host))"

definition dns_records_from_answers :: "string \<Rightarrow> dns_answer list \<Rightarrow> (ip_addr \<times> string \<times> nat) list" where
  "dns_records_from_answers question_name answers =
    (let sources = cname_sources answers Map.empty in
     List.map_filter (\<lambda>answer. case answer of
         Address host ip ttl \<Rightarrow>
           Some (ip, dns_response_host_for_address host question_name sources, ttl)
       | Cname _ _ \<Rightarrow> None) answers)"

definition parse_dns_response_records :: "byte list \<Rightarrow> (ip_addr \<times> string \<times> nat) list" where
  "parse_dns_response_records response =
    (if length response < 12 then []
     else let qdcount = unat (be16 (response ! 4) (response ! 5));
              ancount = unat (be16 (response ! 6) (response ! 7)) in
     case skip_questions response qdcount 12 True [] of None \<Rightarrow> []
     | Some (question_name, offset) \<Rightarrow>
         dns_records_from_answers question_name (read_answers response question_name ancount offset))"

subsection \<open>Rewriting a cached response\<close>

definition rewrite_dns_response_question :: "byte list \<Rightarrow> byte list \<Rightarrow> byte list outcome" where
  "rewrite_dns_response_question response query =
    obind (parse_dns_question_end query) (\<lambda>q. case q of None \<Rightarrow> Ret response
     | Some query_question_end \<Rightarrow>
    obind (parse_dns_question_end response) (\<lambda>r. case r of None \<Rightarrow> Ret response
     | Some response_question_end \<Rightarrow>
         if query_question_end \<noteq> response_question_end \<or> query_question_end > length response
         then Ret response
         else if query_question_end > length query then Panic
         else Ret (copy_at 12 (slice 12 query_question_end query) response)))"

fun rewrite_ttl_answers :: "byte list \<Rightarrow> nat \<Rightarrow> nat \<Rightarrow> nat \<Rightarrow> byte list" where
  "rewrite_ttl_answers response ttl 0 offset = response"
| "rewrite_ttl_answers response ttl (Suc n) offset =
    (case read_dns_name response offset of None \<Rightarrow> response
     | Some (_, next_offset) \<Rightarrow>
         if next_offset + 10 > length response then response
         else let response = copy_at (next_offset + 4) (be32_bytes (word_of_nat ttl)) response;
                  rdlen = unat (be16 (response ! (next_offset + 8)) (response ! (next_offset + 9)));
                  next_record = next_offset + 10 + rdlen in
         if next_record > length response then response
         else rewrite_ttl_answers response ttl n next_record)"

definition rewrite_dns_response_ttls :: "byte list \<Rightarrow> nat \<Rightarrow> byte list" where
  "rewrite_dns_response_ttls response ttl =
    (if length response < 12 then response
     else let qdcount = unat (be16 (response ! 4) (response ! 5));
              ancount = unat (be16 (response ! 6) (response ! 7)) in
     case skip_questions response qdcount 12 True [] of None \<Rightarrow> response
     | Some (_, offset) \<Rightarrow> rewrite_ttl_answers response ttl ancount offset)"

subsection \<open>Error replies\<close>

definition build_dns_error_response :: "byte list \<Rightarrow> dns_response_code \<Rightarrow> byte list outcome" where
  "build_dns_error_response query code =
    (if length query < 12 then Ret []
     else obind (parse_dns_question_end query) (\<lambda>q.
       let question_end = (case q of Some e \<Rightarrow> e | None \<Rightarrow> min (length query) 12) in
       if question_end > length query \<or> question_end < 12 then Panic
       else let response = take question_end query;
                response = response[2 := 0x81];
                response = response[3 := 0x80 OR response_code code];
                response = copy_at 6 (be16_bytes 0) response;
                response = copy_at 8 (be16_bytes 0) response;
                response = copy_at 10 (be16_bytes 0) response
            in Ret response))"

definition build_dns_servfail_udp_packet ::
  "u32 \<Rightarrow> u16 \<Rightarrow> u32 \<Rightarrow> u16 \<Rightarrow> byte list \<Rightarrow> byte list option outcome" where
  "build_dns_servfail_udp_packet src_ip src_port dst_ip dst_port query =
    obind (build_dns_error_response query ServFail) (\<lambda>response.
      if response = [] then Ret None
      else Ret (Some (build_udp_packet dst_ip dst_port src_ip src_port response)))"

text \<open>The key of the response cache: the lower-cased name, a zero byte and the record type.\<close>

definition dns_cache_key :: "byte list \<Rightarrow> byte list option" where
  "dns_cache_key query =
    (case parse_dns_query query of None \<Rightarrow> None
     | Some question \<Rightarrow>
         Some (str_bytes (to_ascii_lowercase (dq_name question)) @
               [0, (case dq_kind question of A \<Rightarrow> 1 | Aaaa \<Rightarrow> 28)]))"

subsection \<open>Names stay inside the packet\<close>

lemma query_labels_bound:
  "query_labels query offset labels = Some (ls, e) \<Longrightarrow> offset < e \<and> e \<le> length query"
proof (induction query offset labels rule: query_labels.induct)
  case (1 query offset labels)
  then show ?case
    unfolding query_labels.simps [of query offset labels]
    by (force simp: Let_def split: if_splits option.splits)
qed

lemma read_name_loop_bound:
  "read_name_loop packet pos next_offset jumped jumps labels = Some (name, e) \<Longrightarrow>
     (if jumped then e = next_offset else pos < e \<and> e \<le> length packet)"
proof (induction packet pos next_offset jumped jumps labels rule: read_name_loop.induct)
  case (1 packet pos next_offset jumped jumps labels)
  then show ?case
    unfolding read_name_loop.simps [of packet pos next_offset jumped jumps labels]
    by (force simp: Let_def split: if_splits option.splits)
qed

lemma read_dns_name_bound:
  "read_dns_name packet offset = Some (name, e) \<Longrightarrow> offset < e \<and> e \<le> length packet"
  unfolding read_dns_name_def by (drule read_name_loop_bound) simp

lemma query_labels_read_name_loop:
  "query_labels query offset labels = Some (ls, e) \<Longrightarrow>
     read_name_loop query offset next_offset False jumps labels = Some (join_with ''.'' ls, e)"
proof (induction query offset labels rule: query_labels.induct)
  case (1 query offset labels)
  then show ?case
    unfolding query_labels.simps [of query offset labels]
      read_name_loop.simps [of query offset next_offset False jumps labels]
    by (force simp: Let_def split: if_splits option.splits)
qed

subsection \<open>The two readers of a question agree\<close>

lemma parse_dns_query_Some:
  assumes "parse_dns_query query = Some dq"
  obtains ls e where "query_labels query 12 [] = Some (ls, e)" "dq_name dq = join_with ''.'' ls"
    "dq_question_end dq = e + 4" "e + 4 \<le> length query" "12 < e"
    "be16 (query ! 4) (query ! 5) \<noteq> 0" "12 \<le> length query"
    "be16 (query ! (e + 2)) (query ! (e + 3)) = 1"
    "be16 (query ! e) (query ! (e + 1)) = (case dq_kind dq of A \<Rightarrow> 1 | Aaaa \<Rightarrow> 28)"
proof -
  from assms obtain ls e where q: "query_labels query 12 [] = Some (ls, e)"
    by (auto simp: parse_dns_query_def split: if_splits option.splits)
  have "12 < e" using query_labels_bound [OF q] by simp
  with q assms show ?thesis
    by (intro that [of ls e]) (auto simp: parse_dns_query_def Let_def split: if_splits)
qed

lemma query_labels_read_dns_name:
  "query_labels query offset [] = Some (ls, e) \<Longrightarrow>
     read_dns_name query offset = Some (join_with ''.'' ls, e)"
  unfolding read_dns_name_def by (rule query_labels_read_name_loop)

lemma parse_dns_query_question_end:
  assumes "parse_dns_query query = Some dq"
  shows "parse_dns_question_end query = Ret (Some (dq_question_end dq))"
  using assms
  by (rule parse_dns_query_Some) (simp add: parse_dns_question_end_def query_labels_read_dns_name)

lemma parse_dns_question_end_Ret:
  assumes "12 \<le> length query"
  shows "\<exists>q. parse_dns_question_end query = Ret q
     \<and> (\<forall>e. q = Some e \<longrightarrow> 12 \<le> e \<and> e \<le> length query)"
  using assms
  by (auto simp: parse_dns_question_end_def split: option.splits dest: read_dns_name_bound)

subsection \<open>Error replies answer the question they were asked\<close>

lemma query_labels_cong:
  assumes "query_labels q off ls = Some (r, e)" "e \<le> length q'" "\<And>k. off \<le> k \<Longrightarrow> k < e \<Longrightarrow> q' ! k = q ! k"
  shows "query_labels q' off ls = Some (r, e)"
  using assms
proof (induction q off ls rule: query_labels.induct)
  case (1 q off ls)
  have b: "off < e" "e \<le> length q" using query_labels_bound [OF "1.prems"(1)] by simp_all
  have hd: "q' ! off = q ! off" and lt: "off < length q'" "off < length q"
    using "1.prems"(2,3) b by auto
  show ?case
  proof (cases "q ! off = 0")
    case True
    then show ?thesis using "1.prems"(1) hd lt by (simp add: query_labels.simps)
  next
    case False
    define n where "n = unat (q ! off)"
    from "1.prems"(1) False lt obtain l where
        step: "q ! off AND 0xc0 = 0" "off + 1 + n \<le> length q"
          "from_utf8 (slice (off + 1) (off + 1 + n) q) = Some l"
          "query_labels q (off + 1 + n) (ls @ [l]) = Some (r, e)"
      unfolding n_def
      by (subst (asm) query_labels.simps) (auto simp: Let_def split: if_splits option.splits)
    have e: "off + 1 + n < e" using query_labels_bound [OF step(4)] by simp
    have "slice (off + 1) (off + 1 + n) q' = slice (off + 1) (off + 1 + n) q"
      using e "1.prems"(2,3) step(2) by (intro slice_nth_eq) auto
    moreover have "query_labels q' (off + 1 + n) (ls @ [l]) = Some (r, e)"
      using "1.IH" [of "q ! off" "off + 1" l] False step lt "1.prems"(2,3) by (simp add: n_def)
    ultimately show ?thesis
      using step False lt hd e "1.prems"(2)
      by (subst query_labels.simps) (simp add: Let_def n_def)
  qed
qed

lemma parse_dns_query_cong:
  assumes "parse_dns_query q = Some dq" "dq_question_end dq \<le> length q'"
    "\<And>k. 12 \<le> k \<Longrightarrow> k < dq_question_end dq \<Longrightarrow> q' ! k = q ! k" "q' ! 4 = q ! 4" "q' ! 5 = q ! 5"
  shows "parse_dns_query q' = Some dq"
  using assms(1)
proof (rule parse_dns_query_Some)
  fix ls e
  assume q: "query_labels q 12 [] = Some (ls, e)" "dq_name dq = join_with ''.'' ls"
    "dq_question_end dq = e + 4" "e + 4 \<le> length q" "12 < e" "be16 (q ! 4) (q ! 5) \<noteq> 0"
    "12 \<le> length q" "be16 (q ! (e + 2)) (q ! (e + 3)) = 1"
    "be16 (q ! e) (q ! (e + 1)) = (case dq_kind dq of A \<Rightarrow> 1 | Aaaa \<Rightarrow> 28)"
  have "query_labels q' 12 [] = Some (ls, e)"
    using q(1) by (rule query_labels_cong) (use q assms(2,3) in auto)
  moreover have "q' ! e = q ! e" "q' ! (e + 1) = q ! (e + 1)" "q' ! (e + 2) = q ! (e + 2)"
    "q' ! (e + 3) = q ! (e + 3)" using assms(3) q(3,5) by simp_all
  ultimately show ?thesis
    using q assms(2,4,5) by (cases dq; cases "dq_kind dq") (auto simp: parse_dns_query_def Let_def)
qed

lemma build_dns_error_response_spec:
  assumes "12 \<le> length query"
  shows "\<exists>r. build_dns_error_response query code = Ret r
    \<and> 12 \<le> length r \<and> length r \<le> length query
    \<and> (\<forall>k < length r. k \<notin> {2, 3} \<union> {6..11} \<longrightarrow> r ! k = query ! k)
    \<and> r ! 2 = 0x81 \<and> r ! 3 = 0x82 \<and> (\<forall>k \<in> {6..11}. r ! k = 0)
    \<and> (\<forall>e. parse_dns_question_end query = Ret (Some e) \<longrightarrow> length r = e)"
proof -
  from parse_dns_question_end_Ret [OF assms] obtain q where
    q: "parse_dns_question_end query = Ret q" "\<And>e. q = Some e \<Longrightarrow> 12 \<le> e \<and> e \<le> length query" by blast
  define e where "e = (case q of Some e \<Rightarrow> e | None \<Rightarrow> min (length query) 12)"
  have e: "12 \<le> e" "e \<le> length query" "\<And>e'. q = Some e' \<Longrightarrow> e' = e"
    using q(2) assms by (auto simp: e_def split: option.splits)
  define r where "r = copy_at 10 (be16_bytes 0) (copy_at 8 (be16_bytes 0) (copy_at 6 (be16_bytes 0)
      (((take e query)[2 := 0x81])[3 := 0x80 OR response_code code])))"
  have b: "build_dns_error_response query code = Ret r"
    using assms e by (simp add: build_dns_error_response_def q(1) e_def [symmetric] r_def Let_def)
  have len: "length r = e" using e by (simp add: r_def)
  have code: "0x80 OR response_code code = 0x82" by (cases code) simp
  have z: "be16_bytes 0 = [0, 0]" by (simp add: be16_bytes_def)
  have nth: "r ! k = (if 6 \<le> k \<and> k \<le> 11 then 0 else if k = 3 then 0x82 else if k = 2 then 0x81
                      else query ! k)" if "k < e" for k
    using that e unfolding r_def code z
    by (auto simp: nth_copy_at nth_list_update nth_Cons')
  show ?thesis
    by (rule exI [of _ r]) (use b len e q(1) nth in auto)
qed

lemma build_dns_error_response_no_panic: "build_dns_error_response query code \<noteq> Panic"
proof (cases "length query < 12")
  case True
  then show ?thesis by (simp add: build_dns_error_response_def)
next
  case False
  then show ?thesis using build_dns_error_response_spec [of query code] by auto
qed

lemma build_dns_error_response_question:
  assumes "parse_dns_query query = Some dq"
  shows "\<exists>r. build_dns_error_response query code = Ret r \<and> parse_dns_query r = Some dq
     \<and> take 2 r = take 2 query"
proof -
  have len: "12 \<le> length query" using assms by (auto simp: parse_dns_query_def split: if_splits)
  obtain r where r: "build_dns_error_response query code = Ret r" "12 \<le> length r"
      "length r \<le> length query"
      "\<And>k. k < length r \<Longrightarrow> k \<notin> {2, 3} \<union> {6..11} \<Longrightarrow> r ! k = query ! k"
      "\<And>e. parse_dns_question_end query = Ret (Some e) \<Longrightarrow> length r = e"
    using build_dns_error_response_spec [OF len, of code] by blast
  have e: "length r = dq_question_end dq"
    using r(5) parse_dns_query_question_end [OF assms] by blast
  have "parse_dns_query r = Some dq"
    using assms by (rule parse_dns_query_cong) (use r e in auto)
  moreover have "take 2 r = take 2 query"
    using r(2-4) by (intro nth_equalityI) auto
  ultimately show ?thesis using r(1) by blast
qed

subsection \<open>Rewriting keeps the shape of the response\<close>

lemma rewrite_ttl_answers_length [simp]:
  "length (rewrite_ttl_answers response ttl n offset) = length response"
proof (induction n arbitrary: response offset)
  case (Suc n)
  then show ?case by (auto simp: Let_def split: option.splits)
qed simp

lemma length_rewrite_dns_response_ttls [simp]:
  "length (rewrite_dns_response_ttls response ttl) = length response"
  by (auto simp: rewrite_dns_response_ttls_def Let_def split: option.splits)

lemma rewrite_ttl_answers_prefix:
  "k < offset \<Longrightarrow> rewrite_ttl_answers response ttl n offset ! k = response ! k"
proof (induction n arbitrary: response offset)
  case (Suc n)
  show ?case
  proof (cases "read_dns_name response offset")
    case None
    then show ?thesis by simp
  next
    case (Some r)
    obtain name e where r: "r = (name, e)" by (cases r)
    have "offset < e" using Some r read_dns_name_bound by blast
    then show ?thesis using Some r Suc by (simp add: Let_def nth_copy_at)
  qed
qed simp

lemma skip_questions_bound:
  "skip_questions response n offset first qn = Some (name, e) \<Longrightarrow>
     offset \<le> e \<and> (offset \<le> length response \<longrightarrow> e \<le> length response)"
  by (induction n arbitrary: offset first qn)
    (fastforce split: option.splits if_splits dest: read_dns_name_bound)+

lemma rewrite_dns_response_ttls_header:
  "k < 12 \<Longrightarrow> rewrite_dns_response_ttls response ttl ! k = response ! k"
  by (auto simp: rewrite_dns_response_ttls_def Let_def split: option.splits
      intro!: rewrite_ttl_answers_prefix dest: skip_questions_bound)

text \<open>The answer section starts behind the questions, which the rewriting leaves alone.\<close>

lemma rewrite_dns_response_ttls_question:
  assumes "12 \<le> length response"
    "skip_questions response (unat (be16 (response ! 4) (response ! 5))) 12 True [] = Some (qn, offset)"
    "k < offset"
  shows "rewrite_dns_response_ttls response ttl ! k = response ! k"
  using assms by (simp add: rewrite_dns_response_ttls_def rewrite_ttl_answers_prefix)

lemma rewrite_dns_response_question_spec:
  assumes "12 \<le> length response" "12 \<le> length query"
  shows "\<exists>r. rewrite_dns_response_question response query = Ret r \<and> length r = length response
    \<and> take 12 r = take 12 response
    \<and> (\<forall>e. parse_dns_question_end query = Ret (Some e) \<longrightarrow>
          parse_dns_question_end response = Ret (Some e) \<longrightarrow>
          slice 12 e r = slice 12 e query \<and> drop e r = drop e response)"
proof -
  obtain q where q: "parse_dns_question_end query = Ret q"
      "\<And>e. q = Some e \<Longrightarrow> 12 \<le> e \<and> e \<le> length query"
    using parse_dns_question_end_Ret [OF assms(2)] by blast
  obtain p where p: "parse_dns_question_end response = Ret p"
      "\<And>e. p = Some e \<Longrightarrow> 12 \<le> e \<and> e \<le> length response"
    using parse_dns_question_end_Ret [OF assms(1)] by blast
  show ?thesis
  proof (cases "q \<noteq> None \<and> q = p")
    case False
    then show ?thesis
      using q p by (auto simp: rewrite_dns_response_question_def split: option.splits)
  next
    case True
    then obtain e where e: "q = Some e" "p = Some e" by auto
    have b: "12 \<le> e" "e \<le> length query" "e \<le> length response" using q(2) p(2) e by blast+
    define r where "r = copy_at 12 (slice 12 e query) response"
    have ls: "length (slice 12 e query) = e - 12" using b by simp
    have fit: "12 + length (slice 12 e query) = e" using ls b by simp
    have "rewrite_dns_response_question response query = Ret r"
      using b by (simp add: rewrite_dns_response_question_def q(1) p(1) e r_def)
    moreover have "length r = length response" using fit b by (simp add: r_def)
    moreover have "take 12 r = take 12 response"
      using b by (simp add: r_def copy_at_def)
    moreover have "slice 12 e r = slice 12 e query"
      using slice_copy_at_same [of 12 "slice 12 e query" response] fit b by (simp add: r_def)
    moreover have "drop e r = drop e response"
      using b fit ls by (simp add: r_def copy_at_def)
    ultimately show ?thesis using q(1) e by (intro exI [of _ r]) simp
  qed
qed

subsection \<open>Encoding a question and reading it back\<close>

text \<open>A reference encoder for the questions of RFC 1035, against which the parser is checked.\<close>

definition encode_labels :: "byte list list \<Rightarrow> byte list" where
  "encode_labels ls = concat (map (\<lambda>l. word_of_nat (length l) # l) ls)"

definition kind_code :: "dns_record_kind \<Rightarrow> u16" where
  "kind_code k = (case k of A \<Rightarrow> 1 | Aaaa \<Rightarrow> 28)"

definition encode_question :: "byte list list \<Rightarrow> dns_record_kind \<Rightarrow> byte list" where
  "encode_question ls kind = encode_labels ls @ [0] @ be16_bytes (kind_code kind) @ be16_bytes 1"

definition label_ok :: "byte list \<Rightarrow> bool" where
  "label_ok l \<longleftrightarrow> l \<noteq> [] \<and> length l \<le> 63 \<and> utf8_valid l"

lemma small_length_byte:
  assumes "n \<le> 63"
  shows "(word_of_nat n :: byte) AND 0xc0 = 0" and "unat (word_of_nat n :: byte) = n"
proof -
  show "unat (word_of_nat n :: byte) = n" using assms by (simp add: unat_byte_of_nat)
  have "n AND 0xc0 = 0"
  proof (rule bit_eqI)
    fix k
    have "n < 2 ^ 6" using assms by simp
    then have "take_bit 6 n = n" by (simp only: take_bit_nat_eq_self_iff)
    then have "bit n k \<Longrightarrow> k < 6" by (metis bit_take_bit_iff)
    moreover have "bit (0xc0 :: nat) k \<Longrightarrow> 6 \<le> k"
    proof -
      assume b: "bit (0xc0 :: nat) k"
      have "(0xc0 :: nat) = push_bit 6 3" by (simp add: push_bit_eq_mult)
      then have "bit (push_bit 6 (3 :: nat)) k" using b by simp
      then show "6 \<le> k" by (simp only: bit_push_bit_iff_nat)
    qed
    ultimately have "\<not> (bit n k \<and> bit (0xc0 :: nat) k)" by (meson not_le)
    then show "bit (n AND 0xc0) k = bit 0 k"
      by (simp only: bit_and_iff bit_0_eq bot_apply bot_bool_def)
  qed
  then have "(word_of_nat (n AND 0xc0) :: byte) = 0" by simp
  then show "(word_of_nat n :: byte) AND 0xc0 = 0" by (simp add: of_nat_and_eq)
qed

lemma query_labels_encode:
  assumes "\<forall>l \<in> set ls. label_ok l"
  shows "query_labels (pre @ encode_labels ls @ 0 # rest) (length pre) acc
     = Some (acc @ map bytes_str ls, length pre + length (encode_labels ls) + 1)"
  using assms
proof (induction ls arbitrary: pre acc)
  case Nil
  then show ?case by (simp add: query_labels.simps encode_labels_def)
next
  case (Cons l ls)
  define n where "n = length l"
  have l: "n \<noteq> 0" "n \<le> 63" "utf8_valid l" using Cons.prems by (auto simp: label_ok_def n_def)
  define q where "q = pre @ encode_labels (l # ls) @ 0 # rest"
  have q: "q = (pre @ [word_of_nat n] @ l) @ encode_labels ls @ 0 # rest"
    by (simp add: q_def encode_labels_def n_def)
  have hd: "q ! length pre = word_of_nat n" and lt: "length pre + 1 + n < length q"
    by (simp_all add: q n_def nth_append)
  have nz: "(word_of_nat n :: byte) \<noteq> 0" using small_length_byte(2) [OF l(2)] l(1) by auto
  have sl: "slice (length pre + 1) (length pre + 1 + n) q = l"
    by (simp add: slice_def q n_def)
  have "query_labels q (length pre) acc = query_labels q (length pre + 1 + n) (acc @ [bytes_str l])"
    using lt nz l(3) by (subst query_labels.simps)
      (simp add: Let_def hd small_length_byte [OF l(2)] sl sl [simplified] from_utf8_def
        del: of_nat_eq_0_iff)
  also have "\<dots> = Some (acc @ map bytes_str (l # ls),
      length pre + 1 + n + length (encode_labels ls) + 1)"
    using Cons.IH [of "pre @ [word_of_nat n] @ l" "acc @ [bytes_str l]"] Cons.prems
    by (simp add: q n_def)
  also have "length pre + 1 + n + length (encode_labels ls) + 1
      = length pre + length (encode_labels (l # ls)) + 1"
    by (simp add: encode_labels_def n_def)
  finally show ?case by (simp only: q_def)
qed

lemma parse_encoded_question:
  assumes "length header = 12" "be16 (header ! 4) (header ! 5) \<noteq> 0" "\<forall>l \<in> set ls. label_ok l"
  shows "parse_dns_query (header @ encode_question ls kind @ rest)
    = Some \<lparr>dq_name = join_with ''.'' (map bytes_str ls),
            dq_question_end = 12 + length (encode_question ls kind), dq_kind = kind\<rparr>"
proof -
  define q where "q = header @ encode_question ls kind @ rest"
  define e where "e = 12 + length (encode_labels ls) + 1"
  define ab where "ab = be16_bytes (kind_code kind) @ be16_bytes 1"
  have tail: "q = (header @ encode_labels ls @ [0]) @ ab @ rest"
    by (simp add: q_def encode_question_def ab_def)
  have lab: "length ab = 4" by (simp add: ab_def)
  have len: "e + 4 \<le> length q" using assms(1) lab by (simp add: tail e_def)
  have nth: "q ! (e + k) = (be16_bytes (kind_code kind) @ be16_bytes 1) ! k" if "k < 4" for k
    using that assms(1) lab unfolding ab_def [symmetric] by (simp add: tail e_def nth_append)
  have "q = header @ encode_labels ls @ 0 # (be16_bytes (kind_code kind) @ be16_bytes 1 @ rest)"
    by (simp add: q_def encode_question_def)
  then have labels: "query_labels q 12 [] = Some (map bytes_str ls, e)"
    using query_labels_encode [OF assms(3), of header _ "[]"] assms(1) by (simp add: e_def)
  have t: "be16 (q ! e) (q ! (e + 1)) = kind_code kind" and c: "be16 (q ! (e + 2)) (q ! (e + 3)) = 1"
    using nth [of 0] nth [of 1] nth [of 2] nth [of 3] be16_be16_bytes [of "kind_code kind"]
      be16_be16_bytes [of 1] by (simp_all add: nth_append)
  have qd: "be16 (q ! 4) (q ! 5) \<noteq> 0" using assms(1,2) by (simp add: q_def nth_append)
  have "parse_dns_query q = Some \<lparr>dq_name = join_with ''.'' (map bytes_str ls),
            dq_question_end = e + 4, dq_kind = kind\<rparr>"
    unfolding parse_dns_query_def labels option.case prod.case Let_def t c using qd len
    by (cases kind) (auto simp: kind_code_def e_def)
  moreover have "e + 4 = 12 + length (encode_question ls kind)"
    by (simp add: e_def encode_question_def)
  ultimately show ?thesis by (simp add: q_def)
qed

subsection \<open>The cache key\<close>

lemma dns_cache_key_eq_iff:
  assumes "parse_dns_query p = Some dp" "parse_dns_query q = Some dq"
  shows "dns_cache_key p = dns_cache_key q \<longleftrightarrow>
     eq_ignore_ascii_case (dq_name dp) (dq_name dq) \<and> dq_kind dp = dq_kind dq"
proof -
  have inj: "str_bytes a = str_bytes b \<longleftrightarrow> a = b" for a b by (metis bytes_str_str_bytes)
  show ?thesis
    using assms by (cases "dq_kind dp"; cases "dq_kind dq")
      (simp_all add: dns_cache_key_def eq_ignore_ascii_case_def inj)
qed

text \<open>
  Joining labels with dots forgets where a label ends when a label itself contains a dot, so two
  different names on the wire can share a key: \<open>a.b\<close> as one label and as two.
\<close>

definition dotted_query :: "byte list list \<Rightarrow> byte list" where
  "dotted_query ls = [0, 1, 1, 0, 0, 1, 0, 0, 0, 0, 0, 0] @ encode_question ls A"

lemma dotted_query_key:
  assumes "\<forall>l \<in> set ls. label_ok l"
  shows "dns_cache_key (dotted_query ls)
    = Some (str_bytes (to_ascii_lowercase (join_with ''.'' (map bytes_str ls))) @ [0, 1])"
  using parse_encoded_question [OF _ _ assms, of "[0, 1, 1, 0, 0, 1, 0, 0, 0, 0, 0, 0]" A "[]"]
  by (simp add: dotted_query_def dns_cache_key_def be16_def)

lemma dns_cache_key_None: "parse_dns_query query = None \<longleftrightarrow> dns_cache_key query = None"
  by (simp add: dns_cache_key_def split: option.splits)

subsection \<open>CNAME chains\<close>

lemma follow_cnames_root:
  "sources (to_ascii_lowercase current) = None \<Longrightarrow> follow_cnames n sources current = current"
  by (cases n) simp_all

lemma follow_cnames_step:
  "sources (to_ascii_lowercase current) = Some s \<Longrightarrow>
     follow_cnames (Suc n) sources current = follow_cnames n sources s"
  by simp

subsection \<open>Rounds of the name loop\<close>

text \<open>
  The loop as it is written, with a bound on its rounds: \<open>None\<close> says that the bound was too small.
\<close>

fun read_name_rounds ::
  "nat \<Rightarrow> byte list \<Rightarrow> nat \<Rightarrow> nat \<Rightarrow> bool \<Rightarrow> nat \<Rightarrow> string list \<Rightarrow> (string \<times> nat) option option" where
  "read_name_rounds 0 packet pos next_offset jumped jumps labels = None"
| "read_name_rounds (Suc rounds) packet pos next_offset jumped jumps labels =
    (if pos \<ge> length packet then Some None
     else let len = packet ! pos in
     if len AND 0xc0 = 0xc0 then
       (if pos + 1 \<ge> length packet then Some None
        else let ptr = push_bit 8 (unat (len AND 0x3f)) OR unat (packet ! (pos + 1)) in
        if ptr \<ge> length packet then Some None
        else let jumps = min (jumps + 1) 255 in
        if jumps > 8 then Some None
        else read_name_rounds rounds packet ptr (if jumped then next_offset else pos + 2) True jumps labels)
     else if len AND 0xc0 \<noteq> 0 then Some None
     else if len = 0 then Some (Some (join_with ''.'' labels, if jumped then next_offset else pos + 1))
     else if pos + 1 + unat len > length packet then Some None
     else case from_utf8 (slice (pos + 1) (pos + 1 + unat len) packet) of None \<Rightarrow> Some None
       | Some l \<Rightarrow> read_name_rounds rounds packet (pos + 1 + unat len) next_offset jumped jumps (labels @ [l]))"

lemma read_name_rounds_enough:
  "jumps \<le> 8 \<Longrightarrow> (8 - jumps) * (length packet + 1) + (length packet - pos) < rounds \<Longrightarrow>
     read_name_rounds rounds packet pos next_offset jumped jumps labels =
       Some (read_name_loop packet pos next_offset jumped jumps labels)"
proof (induction rounds arbitrary: pos next_offset jumped jumps labels)
  case (Suc rounds)
  let ?len = "packet ! pos" let ?L = "length packet"
  let ?ptr = "push_bit 8 (unat (?len AND 0x3f)) OR unat (packet ! (pos + 1))"
  have jump: "read_name_rounds rounds packet p n True (jumps + 1) labels = Some (read_name_loop packet p n True (jumps + 1) labels)"
    if "pos < ?L" "\<not> 8 < jumps + 1" for p n
  proof (rule Suc.IH)
    have "(8 - jumps) * (?L + 1) = (8 - (jumps + 1)) * (?L + 1) + (?L + 1)"
      using that(2) by (metis Suc_diff_Suc Suc_eq_plus1 add.commute mult_Suc not_less_eq)
    then show "(8 - (jumps + 1)) * (?L + 1) + (?L - p) < rounds" using Suc.prems(2) by linarith
  qed (use that in simp)
  have label: "read_name_rounds rounds packet p next_offset jumped jumps ls = Some (read_name_loop packet p next_offset jumped jumps ls)"
    if "pos < p" "pos < ?L" for p ls
    using that Suc.prems by (intro Suc.IH) auto
  show ?case
    unfolding read_name_rounds.simps read_name_loop.simps [of packet pos next_offset jumped jumps labels]
    using jump label Suc.prems(1)
    by (auto simp: Let_def min_def split: option.splits)
qed simp

subsection \<open>Further facts\<close>

text \<open>
  Two different wire names share a cache key when a label contains a dot: the one label a.b and
  the two labels a and b, so that a cached response for one name is served for the other (its
  question is not rewritten when the encodings differ in length).
\<close>

lemma dotted_labels_collide:
  "dotted_query [[97, 46, 98]] \<noteq> dotted_query [[97], [98]] \<and>
   dns_cache_key (dotted_query [[97, 46, 98]]) = dns_cache_key (dotted_query [[97], [98]])"
proof
  show "dotted_query [[97, 46, 98]] \<noteq> dotted_query [[97], [98]]"
    by (simp add: dotted_query_def encode_question_def encode_labels_def)
  show "dns_cache_key (dotted_query [[97, 46, 98]]) = dns_cache_key (dotted_query [[97], [98]])"
  proof -
    have "join_with ''.'' (map bytes_str [[97, 46, 98]]) = join_with ''.'' (map bytes_str [[97], [98]])"
      by code_simp
    then show ?thesis
      using dotted_query_key [of "[[97, 46, 98]]"] dotted_query_key [of "[[97], [98]]"]
      by (simp only: label_ok_def) simp
  qed
qed

text \<open>
  The SERVFAIL reply to a query that parses keeps the query's identifier and question, says
  SERVFAIL and has no answer, authority or additional records; building an error reply never
  panics on any input.
\<close>

lemma servfail_reply:
  "build_dns_error_response query code \<noteq> Panic \<and>
   (\<forall>dq. parse_dns_query query = Some dq \<longrightarrow>
      (\<exists>r. build_dns_error_response query code = Ret r \<and> parse_dns_query r = Some dq \<and>
         take 2 r = take 2 query \<and> r ! 3 = 0x82 \<and> (\<forall>k \<in> {6..11}. r ! k = 0)))"
proof (intro conjI allI impI)
  fix dq
  assume dq: "parse_dns_query query = Some dq"
  then have "12 \<le> length query" by (auto simp: parse_dns_query_def split: if_splits)
  from build_dns_error_response_spec [OF this, of code] build_dns_error_response_question [OF dq, of code]
  show "\<exists>r. build_dns_error_response query code = Ret r \<and> parse_dns_query r = Some dq \<and>
      take 2 r = take 2 query \<and> r ! 3 = 0x82 \<and> (\<forall>k \<in> {6..11}. r ! k = 0)" by auto
qed (rule build_dns_error_response_no_panic)

text \<open>
  Two queries share a cache key exactly when their names are equal up to ASCII case and they ask
  for the same record type.
\<close>

lemma dns_cache_key_iff:
  assumes "parse_dns_query p = Some dp" "parse_dns_query q = Some dq"
  shows "dns_cache_key p = dns_cache_key q \<longleftrightarrow>
     eq_ignore_ascii_case (dq_name dp) (dq_name dq) \<and> dq_kind dp = dq_kind dq"
  using assms by (rule dns_cache_key_eq_iff)

subsection \<open>Properties\<close>

text \<open>
  C23. parse_dns_query reads back the name, the type and the end of the question of every query in
  the RFC 1035 encoding with labels of 1 to 63 bytes of UTF-8, whatever follows the question.
\<close>

theorem dns_question_round_trip:
  assumes "length header = 12" "be16 (header ! 4) (header ! 5) \<noteq> 0" "\<forall>l \<in> set ls. label_ok l"
  shows "parse_dns_query (header @ encode_question ls kind @ rest)
    = Some \<lparr>dq_name = join_with ''.'' (map bytes_str ls),
            dq_question_end = 12 + length (encode_question ls kind), dq_kind = kind\<rparr>"
  using assms by (rule parse_encoded_question)

theorem dns_question_round_trip_witness:
  "parse_dns_query ([0, 1, 1, 0, 0, 1, 0, 0, 0, 0, 0, 0] @ encode_question [[97], [98, 99]] A @ [])
    = Some \<lparr>dq_name = join_with ''.'' (map bytes_str [[97], [98, 99]]),
            dq_question_end = 12 + length (encode_question [[97], [98, 99]] A), dq_kind = A\<rparr>"
  by (rule dns_question_round_trip) (simp_all add: be16_def label_ok_def)

text \<open>
  C32. Reading a name out of a DNS packet ends on every packet and every offset, compression
  pointers arranged in a cycle included, within nine rounds for each byte of the packet and nine
  more: the loop as it is written, run for that many rounds, has returned. A name that is returned
  ends behind its start and inside the packet.
\<close>

theorem dns_names_terminate:
  "read_name_rounds (9 * (length packet + 1)) packet offset offset False 0 [] = Some (read_dns_name packet offset) \<and>
   (case read_dns_name packet offset of None \<Rightarrow> True | Some (name, e) \<Rightarrow> offset < e \<and> e \<le> length packet)"
proof
  show "read_name_rounds (9 * (length packet + 1)) packet offset offset False 0 [] = Some (read_dns_name packet offset)"
    unfolding read_dns_name_def by (rule read_name_rounds_enough) simp_all
qed (use read_dns_name_bound [of packet offset] in \<open>auto split: option.splits\<close>)

end
