(* ===== verification/DnsCache.thy ===== *)
theory DnsCache
  imports DnsWire
begin

text \<open>
  The stateful half of \<open>crates/paws_vpn/src/dns.rs\<close>: the table from addresses back to the host
  names that resolved to them (\<open>DnsTable\<close>), the cache of DNS responses (\<open>DnsResponseCache\<close>), the
  handler that uses both (\<open>handle_dns_query\<close>), and the list of recent queries of \<open>SharedStats\<close>
  in \<open>lib.rs\<close>. A map behind a mutex is the association list it holds between two critical
  sections, so every operation is one atomic step; the instants an operation reads from
  \<open>monotonic_ms\<close> are its arguments, in milliseconds. What the resolver answers is an argument of the
  handler.

  Both stores are instances of one interface, the locale \<open>expiring_store\<close>: the operation that
  inserts prunes what has expired, makes room by dropping the entry that would expire first, and
  then writes; the locale proves once that such a store never outgrows its capacity.
\<close>

subsection \<open>The interface of a bounded store with deadlines\<close>

definition make_room ::
  "(nat \<Rightarrow> ('k \<times> 'v) list \<Rightarrow> ('k \<times> 'v) list) \<Rightarrow> (('k \<times> 'v) list \<Rightarrow> ('k \<times> 'v) list) \<Rightarrow> nat \<Rightarrow>
   nat \<Rightarrow> 'k \<Rightarrow> ('k \<times> 'v) list \<Rightarrow> ('k \<times> 'v) list" where
  "make_room prune evict capacity now k m =
    (let m = prune now m in
     if map_of m k = None \<and> capacity \<le> length m then evict m else m)"

locale expiring_store =
  fixes prune :: "nat \<Rightarrow> ('k \<times> 'v) list \<Rightarrow> ('k \<times> 'v) list"
    and evict :: "('k \<times> 'v) list \<Rightarrow> ('k \<times> 'v) list"
    and deadline :: "'v \<Rightarrow> nat"
    and capacity :: nat
  assumes prune_ok: "amap_ok m \<Longrightarrow> amap_ok (prune now m)"
    and prune_length: "length (prune now m) \<le> length m"
    and prune_keys: "fst ` set (prune now m) \<subseteq> fst ` set m"
    and evict_earliest: "m \<noteq> [] \<Longrightarrow> \<exists>k v. (k, v) \<in> set m \<and> evict m = amap_del k m \<and>
          (\<forall>(k', v') \<in> set m. deadline v \<le> deadline v')"
    and capacity_pos: "0 < capacity"
begin

lemma evict_length: "m \<noteq> [] \<Longrightarrow> length (evict m) < length m"
  using evict_earliest [of m] length_amap_del_less by (force simp: image_iff)

lemma evict_ok: "amap_ok m \<Longrightarrow> m \<noteq> [] \<Longrightarrow> amap_ok (evict m)"
  using evict_earliest [of m] by auto

lemma make_room_ok:
  assumes "amap_ok m"
  shows "amap_ok (make_room prune evict capacity now k m)"
proof -
  have "length (prune now m) \<ge> capacity \<Longrightarrow> prune now m \<noteq> []" using capacity_pos by auto
  then show ?thesis
    using prune_ok [OF assms] evict_ok by (auto simp: make_room_def Let_def)
qed

lemma put_within_capacity:
  assumes "length m \<le> capacity"
  shows "length (amap_put k v (make_room prune evict capacity now k m)) \<le> capacity"
proof -
  let ?p = "prune now m"
  have p: "length ?p \<le> capacity" using prune_length [of now m] assms by linarith
  show ?thesis
  proof (cases "map_of ?p k = None \<and> capacity \<le> length ?p")
    case True
    then have "?p \<noteq> []" using capacity_pos by auto
    then have "length (evict ?p) < length ?p" by (rule evict_length)
    with True p show ?thesis by (auto simp: make_room_def length_amap_put)
  next
    case False
    then have "map_of ?p k \<noteq> None \<or> length ?p < capacity" by auto
    then show ?thesis
      using False p by (auto simp: make_room_def Let_def length_amap_put map_of_eq_None_iff)
  qed
qed

lemma make_room_victim:
  assumes "amap_ok m" "map_of (prune now m) k' = Some v'"
    and "map_of (make_room prune evict capacity now k m) k' = None"
  shows "map_of (prune now m) k = None \<and> (\<forall>(j, w) \<in> set (prune now m). deadline v' \<le> deadline w)"
proof -
  let ?p = "prune now m"
  have full: "map_of ?p k = None \<and> capacity \<le> length ?p"
    using assms by (auto simp: make_room_def Let_def split: if_splits)
  then have "?p \<noteq> []" using capacity_pos by auto
  then obtain a b where ab: "(a, b) \<in> set ?p" "evict ?p = amap_del a ?p"
    "\<forall>(j, w) \<in> set ?p. deadline b \<le> deadline w"
    using evict_earliest by blast
  have "k' = a" using assms full ab(2) by (auto simp: make_room_def split: if_splits)
  moreover have "map_of ?p a = Some b"
    using ab(1) prune_ok [OF assms(1)] by (simp add: amap_ok_def)
  ultimately show ?thesis using full ab(3) assms(2) by auto
qed

end

subsection \<open>The table of resolved addresses\<close>

definition DNS_TABLE_MAX_RECORDS :: nat where "DNS_TABLE_MAX_RECORDS = 1024"
definition DNS_TABLE_MAX_HOSTS_PER_IP :: nat where "DNS_TABLE_MAX_HOSTS_PER_IP = 16"

record dns_table_record =
  dtr_host :: string
  dtr_expires_at_ms :: nat

type_synonym dns_table = "(ip_addr \<times> dns_table_record list) list"

definition prune_expired_dns_table_records :: "nat \<Rightarrow> dns_table \<Rightarrow> dns_table" where
  "prune_expired_dns_table_records now records =
    filter (\<lambda>(ip, candidates). candidates \<noteq> [])
      (map (\<lambda>(ip, candidates). (ip, filter (\<lambda>r. now < dtr_expires_at_ms r) candidates)) records)"

definition earliest_deadline :: "dns_table_record list \<Rightarrow> nat" where
  "earliest_deadline candidates =
    (case min_by_key dtr_expires_at_ms candidates of None \<Rightarrow> u64_max | Some r \<Rightarrow> dtr_expires_at_ms r)"

definition evict_earliest_dns_table_record :: "dns_table \<Rightarrow> dns_table" where
  "evict_earliest_dns_table_record records =
    (case min_by_key (\<lambda>(ip, candidates). earliest_deadline candidates) records of
       None \<Rightarrow> records
     | Some (ip, _) \<Rightarrow> amap_del ip records)"

fun refresh_host :: "string \<Rightarrow> nat \<Rightarrow> dns_table_record list \<Rightarrow> dns_table_record list option" where
  "refresh_host host expires_at_ms [] = None"
| "refresh_host host expires_at_ms (r # rs) =
    (if eq_ignore_ascii_case (dtr_host r) host
     then Some (\<lparr>dtr_host = host, dtr_expires_at_ms = expires_at_ms\<rparr> # rs)
     else map_option ((#) r) (refresh_host host expires_at_ms rs))"

definition remove_earliest_host :: "dns_table_record list \<Rightarrow> dns_table_record list" where
  "remove_earliest_host candidates =
    (case min_by_key (\<lambda>i. dtr_expires_at_ms (candidates ! i)) [0..<length candidates] of
       None \<Rightarrow> candidates
     | Some index \<Rightarrow> take index candidates @ drop (Suc index) candidates)"

definition put_host :: "string \<Rightarrow> nat \<Rightarrow> dns_table_record list \<Rightarrow> dns_table_record list" where
  "put_host host expires_at_ms candidates =
    (case refresh_host host expires_at_ms candidates of
       Some refreshed \<Rightarrow> refreshed
     | None \<Rightarrow>
         (if DNS_TABLE_MAX_HOSTS_PER_IP \<le> length candidates then remove_earliest_host candidates
          else candidates)
         @ [\<lparr>dtr_host = host, dtr_expires_at_ms = expires_at_ms\<rparr>])"

definition table_ttl_ms :: "nat \<Rightarrow> nat" where
  "table_ttl_ms ttl = clamp 1 3600 ttl * 1000"

text \<open>
  \<open>DnsTable::insert\<close> reads the clock twice, first to prune (\<open>now\<close>) and then for the new deadline
  (\<open>now'\<close>).
\<close>

definition dns_table_insert :: "nat \<Rightarrow> nat \<Rightarrow> ip_addr \<Rightarrow> string \<Rightarrow> nat \<Rightarrow> dns_table \<Rightarrow> dns_table" where
  "dns_table_insert now now' ip host ttl records =
    (let records = make_room prune_expired_dns_table_records evict_earliest_dns_table_record
                     DNS_TABLE_MAX_RECORDS now ip records;
         expires_at_ms = sat_add64 now' (table_ttl_ms ttl);
         candidates = (case map_of records ip of None \<Rightarrow> [] | Some c \<Rightarrow> c) in
     amap_put ip (put_host host expires_at_ms candidates) records)"

definition dns_table_lookup :: "nat \<Rightarrow> ip_addr \<Rightarrow> dns_table \<Rightarrow> dns_table \<times> string option" where
  "dns_table_lookup now ip records =
    (let records = prune_expired_dns_table_records now records in
     (records,
      case map_of records ip of None \<Rightarrow> None
      | Some candidates \<Rightarrow>
          if length candidates = 1 then Some (dtr_host (candidates ! 0)) else None))"

definition dns_table_has_candidates :: "nat \<Rightarrow> ip_addr \<Rightarrow> dns_table \<Rightarrow> dns_table \<times> bool" where
  "dns_table_has_candidates now ip records =
    (let records = prune_expired_dns_table_records now records in
     (records, case map_of records ip of None \<Rightarrow> False | Some candidates \<Rightarrow> candidates \<noteq> []))"

definition dns_table_clear :: "dns_table \<Rightarrow> dns_table" where
  "dns_table_clear records = []"

text \<open>
  The abstract view: the names an address stands for at an instant. The invariant bounds the table
  and keeps the names of an address distinct up to ASCII case.
\<close>

definition live_hosts :: "nat \<Rightarrow> dns_table \<Rightarrow> ip_addr \<Rightarrow> string list" where
  "live_hosts now records ip =
    (case map_of records ip of None \<Rightarrow> []
     | Some c \<Rightarrow> map dtr_host (filter (\<lambda>r. now < dtr_expires_at_ms r) c))"

definition hosts_ok :: "dns_table_record list \<Rightarrow> bool" where
  "hosts_ok c \<longleftrightarrow> length c \<le> DNS_TABLE_MAX_HOSTS_PER_IP \<and>
     distinct (map (\<lambda>r. to_ascii_lowercase (dtr_host r)) c)"

definition dns_table_inv :: "dns_table \<Rightarrow> bool" where
  "dns_table_inv records \<longleftrightarrow> amap_ok records \<and> length records \<le> DNS_TABLE_MAX_RECORDS \<and>
     (\<forall>(ip, c) \<in> set records. c \<noteq> [] \<and> hosts_ok c)"

lemma filter_map_pair:
  "filter (\<lambda>(k, v). Q v) (map (\<lambda>(k, v). (k, f v)) m) = map (\<lambda>(k, v). (k, f v)) (filter (\<lambda>(k, v). Q (f v)) m)"
  by (induction m) auto

lemma amap_ok_map_snd: "amap_ok (map (\<lambda>(k, v). (k, f v)) m) \<longleftrightarrow> amap_ok m"
proof -
  have "map fst (map (\<lambda>(k, v). (k, f v)) m) = map fst m" by (induction m) auto
  then show ?thesis by (simp only: amap_ok_def)
qed

lemma map_of_map_snd: "map_of (map (\<lambda>(k, v). (k, f v)) m) k = map_option f (map_of m k)"
  by (induction m) auto

lemma map_of_prune_table:
  assumes "amap_ok records"
  shows "map_of (prune_expired_dns_table_records now records) ip =
     (case map_of records ip of None \<Rightarrow> None
      | Some c \<Rightarrow> let c = filter (\<lambda>r. now < dtr_expires_at_ms r) c in if c = [] then None else Some c)"
proof -
  let ?m = "map (\<lambda>(ip, c). (ip, filter (\<lambda>r. now < dtr_expires_at_ms r) c)) records"
  have "amap_ok ?m" using assms by (simp add: amap_ok_map_snd)
  from map_of_filter_val [OF this, of "\<lambda>c. c \<noteq> []" ip]
  have "map_of (filter (\<lambda>(ip, c). c \<noteq> []) ?m) ip =
      (case map_of ?m ip of None \<Rightarrow> None | Some v \<Rightarrow> if v \<noteq> [] then Some v else None)"
    by (simp only: case_prod_unfold)
  then show ?thesis
    unfolding prune_expired_dns_table_records_def
    by (cases "map_of records ip") (simp_all add: map_of_map_snd)
qed

lemma amap_ok_prune_table:
  "amap_ok records \<Longrightarrow> amap_ok (prune_expired_dns_table_records now records)"
  unfolding prune_expired_dns_table_records_def by (intro amap_ok_filter) (simp add: amap_ok_map_snd)

lemma length_prune_table: "length (prune_expired_dns_table_records now records) \<le> length records"
  unfolding prune_expired_dns_table_records_def
  by (rule order_trans [OF length_filter_le]) simp

lemma evict_table_earliest:
  assumes "m \<noteq> []"
  shows "\<exists>k v. (k, v) \<in> set m \<and> evict_earliest_dns_table_record m = amap_del k m \<and>
          (\<forall>(k', v') \<in> set m. earliest_deadline v \<le> earliest_deadline v')"
proof -
  obtain k v where kv: "min_by_key (\<lambda>(ip, c). earliest_deadline c) m = Some (k, v)"
    using assms by (metis min_by_key_None not_None_eq surj_pair)
  from min_by_key_Some [OF kv] show ?thesis
    by (intro exI [of _ k] exI [of _ v]) (auto simp: evict_earliest_dns_table_record_def kv)
qed

interpretation table_store: expiring_store prune_expired_dns_table_records
  evict_earliest_dns_table_record earliest_deadline DNS_TABLE_MAX_RECORDS
proof unfold_locales
  show "fst ` set (prune_expired_dns_table_records now m) \<subseteq> fst ` set m" for now m
    by (force simp: prune_expired_dns_table_records_def)
qed (auto simp: amap_ok_prune_table length_prune_table DNS_TABLE_MAX_RECORDS_def
      intro: evict_table_earliest)

lemma live_hosts_prune_table:
  "amap_ok records \<Longrightarrow>
     live_hosts now (prune_expired_dns_table_records now records) = live_hosts now records"
  by (rule ext) (auto simp: live_hosts_def map_of_prune_table Let_def split: option.splits)

lemma hosts_ok_filter: "hosts_ok c \<Longrightarrow> hosts_ok (filter P c)"
  by (auto simp: hosts_ok_def distinct_map_filter intro: order_trans [OF length_filter_le])

lemma dns_table_inv_prune:
  assumes "dns_table_inv records"
  shows "dns_table_inv (prune_expired_dns_table_records now records)"
proof -
  have "length (prune_expired_dns_table_records now records) \<le> DNS_TABLE_MAX_RECORDS"
    using assms length_prune_table [of now records] by (simp add: dns_table_inv_def)
  moreover have "\<forall>(ip, c) \<in> set (prune_expired_dns_table_records now records). c \<noteq> [] \<and> hosts_ok c"
    using assms by (force simp: dns_table_inv_def prune_expired_dns_table_records_def
        intro: hosts_ok_filter)
  ultimately show ?thesis
    using assms by (simp add: dns_table_inv_def amap_ok_prune_table)
qed

lemma set_make_room_table:
  "set (make_room prune_expired_dns_table_records evict_earliest_dns_table_record cap now ip records)
     \<subseteq> set (prune_expired_dns_table_records now records)"
  by (auto simp: make_room_def evict_earliest_dns_table_record_def amap_del_def Let_def
      split: if_splits option.splits)

lemma refresh_host_None:
  "refresh_host host e c = None \<longleftrightarrow> (\<forall>r \<in> set c. \<not> eq_ignore_ascii_case (dtr_host r) host)"
  by (induction c) auto

lemma refresh_host_Some:
  "refresh_host host e c = Some c' \<Longrightarrow> length c' = length c \<and>
     map (\<lambda>r. to_ascii_lowercase (dtr_host r)) c' = map (\<lambda>r. to_ascii_lowercase (dtr_host r)) c \<and>
     \<lparr>dtr_host = host, dtr_expires_at_ms = e\<rparr> \<in> set c'"
  by (induction c arbitrary: c') (auto simp: eq_ignore_ascii_case_def split: if_splits)

lemma remove_earliest_host_sublist:
  assumes "c \<noteq> []"
  shows "\<exists>a r b. c = a @ r # b \<and> remove_earliest_host c = a @ b \<and>
           (\<forall>r' \<in> set c. dtr_expires_at_ms r \<le> dtr_expires_at_ms r')"
proof -
  obtain i where i: "min_by_key (\<lambda>i. dtr_expires_at_ms (c ! i)) [0..<length c] = Some i"
    using assms by (metis min_by_key_None not_None_eq upt_eq_Nil_conv le_zero_eq length_0_conv)
  from min_by_key_Some [OF i] have lt: "i < length c"
    and least: "\<forall>j < length c. dtr_expires_at_ms (c ! i) \<le> dtr_expires_at_ms (c ! j)" by auto
  then have "c = take i c @ c ! i # drop (Suc i) c" by (simp add: id_take_nth_drop)
  moreover have "remove_earliest_host c = take i c @ drop (Suc i) c"
    by (simp add: remove_earliest_host_def i)
  ultimately show ?thesis using least by (metis in_set_conv_nth)
qed

lemma put_host_nonempty: "put_host host e c \<noteq> []"
  by (auto simp: put_host_def split: option.splits dest: refresh_host_Some)

lemma put_host_present: "\<lparr>dtr_host = host, dtr_expires_at_ms = e\<rparr> \<in> set (put_host host e c)"
  by (auto simp: put_host_def split: option.splits dest: refresh_host_Some)

lemma hosts_ok_put_host:
  assumes "hosts_ok c"
  shows "hosts_ok (put_host host e c)"
proof (cases "refresh_host host e c")
  case (Some c')
  then show ?thesis using refresh_host_Some [OF Some] assms by (simp add: put_host_def hosts_ok_def)
next
  case None
  then have new: "to_ascii_lowercase host \<notin> (\<lambda>r. to_ascii_lowercase (dtr_host r)) ` set c"
    by (auto simp: refresh_host_None eq_ignore_ascii_case_def)
  show ?thesis
  proof (cases "DNS_TABLE_MAX_HOSTS_PER_IP \<le> length c")
    case True
    then have "c \<noteq> []" by (auto simp: DNS_TABLE_MAX_HOSTS_PER_IP_def)
    then obtain a r b where ab: "c = a @ r # b" "remove_earliest_host c = a @ b"
      using remove_earliest_host_sublist by blast
    have "put_host host e c = a @ b @ [\<lparr>dtr_host = host, dtr_expires_at_ms = e\<rparr>]"
      using True None ab(2) by (simp add: put_host_def)
    then show ?thesis using assms new by (auto simp: hosts_ok_def ab(1))
  next
    case False
    then show ?thesis using assms new None by (auto simp: put_host_def hosts_ok_def)
  qed
qed

lemma dns_table_inv_insert:
  assumes "dns_table_inv records"
  shows "dns_table_inv (dns_table_insert now now' ip host ttl records)"
proof -
  let ?m = "make_room prune_expired_dns_table_records evict_earliest_dns_table_record
              DNS_TABLE_MAX_RECORDS now ip records"
  let ?c = "case map_of ?m ip of None \<Rightarrow> [] | Some c \<Rightarrow> c"
  let ?new = "put_host host (sat_add64 now' (table_ttl_ms ttl)) ?c"
  have inv': "dns_table_inv (prune_expired_dns_table_records now records)"
    using assms by (rule dns_table_inv_prune)
  have entries: "(i, c) \<in> set ?m \<Longrightarrow> c \<noteq> [] \<and> hosts_ok c" for i c
    using inv' set_make_room_table by (fastforce simp: dns_table_inv_def)
  have "hosts_ok ?c"
    using entries by (auto simp: hosts_ok_def DNS_TABLE_MAX_HOSTS_PER_IP_def split: option.splits
        dest: map_of_SomeD)
  then have "hosts_ok ?new" and "?new \<noteq> []" by (auto simp: hosts_ok_put_host put_host_nonempty)
  moreover have "\<forall>(i, c) \<in> set ?m. c \<noteq> [] \<and> hosts_ok c" using entries by fast
  ultimately have "\<forall>(i, c) \<in> set (amap_put ip ?new ?m). c \<noteq> [] \<and> hosts_ok c"
    by (intro amap_put_all) simp_all
  moreover have "length (amap_put ip ?new ?m) \<le> DNS_TABLE_MAX_RECORDS"
    using assms by (intro table_store.put_within_capacity) (simp add: dns_table_inv_def)
  moreover have "amap_ok (amap_put ip ?new ?m)"
    using assms by (intro amap_ok_put table_store.make_room_ok) (simp add: dns_table_inv_def)
  ultimately show ?thesis
    unfolding dns_table_insert_def Let_def dns_table_inv_def by simp
qed

lemma dns_table_lookup_live:
  assumes "dns_table_inv records"
  shows "snd (dns_table_lookup now ip records) =
      (case live_hosts now records ip of [h] \<Rightarrow> Some h | _ \<Rightarrow> None)"
proof -
  have ok: "amap_ok records" using assms by (simp add: dns_table_inv_def)
  show ?thesis
  proof (cases "map_of records ip")
    case None
    then show ?thesis by (simp add: dns_table_lookup_def live_hosts_def map_of_prune_table ok Let_def)
  next
    case (Some c)
    then show ?thesis
      by (cases "filter (\<lambda>r. now < dtr_expires_at_ms r) c" rule: remdups_adj.cases)
         (simp_all add: dns_table_lookup_def live_hosts_def map_of_prune_table ok Let_def)
  qed
qed

lemma dns_table_has_candidates_live:
  assumes "dns_table_inv records"
  shows "snd (dns_table_has_candidates now ip records) \<longleftrightarrow> live_hosts now records ip \<noteq> []"
  using assms by (auto simp: dns_table_has_candidates_def live_hosts_def dns_table_inv_def
      map_of_prune_table Let_def split: option.splits)

lemma dns_table_lookup_state:
  assumes "dns_table_inv records"
  shows "dns_table_inv (fst (dns_table_lookup now ip records))"
    and "live_hosts now (fst (dns_table_lookup now ip records)) = live_hosts now records"
  using assms dns_table_inv_prune [OF assms] live_hosts_prune_table [of records now]
  by (simp_all add: dns_table_lookup_def Let_def dns_table_inv_def)

text \<open>What an insertion makes of the names an address stands for.\<close>

lemma map_of_insert_fresh:
  assumes "dns_table_inv records" "live_hosts now records ip = []"
  shows "map_of (dns_table_insert now now' ip host ttl records) ip =
    Some [\<lparr>dtr_host = host, dtr_expires_at_ms = sat_add64 now' (table_ttl_ms ttl)\<rparr>]"
proof -
  have ok: "amap_ok records" using assms by (simp add: dns_table_inv_def)
  let ?p = "prune_expired_dns_table_records now records"
  let ?m = "make_room prune_expired_dns_table_records evict_earliest_dns_table_record
              DNS_TABLE_MAX_RECORDS now ip records"
  have none: "map_of ?p ip = None"
    using assms(2) by (auto simp: live_hosts_def map_of_prune_table ok Let_def filter_empty_conv
        split: option.splits)
  moreover have "fst ` set ?m \<subseteq> fst ` set ?p" using set_make_room_table by (rule image_mono)
  ultimately have m: "map_of ?m ip = None" by (auto simp: map_of_eq_None_iff)
  then show ?thesis
    by (simp add: dns_table_insert_def Let_def put_host_def DNS_TABLE_MAX_HOSTS_PER_IP_def)
qed

lemma dns_table_insert_lookup_ttl:
  assumes "dns_table_inv records" "live_hosts now records ip = []"
  shows "snd (dns_table_lookup t ip (dns_table_insert now now' ip host ttl records)) =
     (if t < sat_add64 now' (table_ttl_ms ttl) then Some host else None)"
  unfolding dns_table_lookup_live [OF dns_table_inv_insert [OF assms(1)]]
  by (simp add: live_hosts_def map_of_insert_fresh [OF assms])

lemma live_hosts_insert_ambiguous:
  assumes inv: "dns_table_inv records"
    and other: "h \<in> set (live_hosts t records ip)" "\<not> eq_ignore_ascii_case h host"
    and room: "length (live_hosts now records ip) < DNS_TABLE_MAX_HOSTS_PER_IP"
    and time: "now \<le> t" "t < sat_add64 now' (table_ttl_ms ttl)"
  shows "h \<in> set (live_hosts t (dns_table_insert now now' ip host ttl records) ip)"
    and "host \<in> set (live_hosts t (dns_table_insert now now' ip host ttl records) ip)"
proof -
  have ok: "amap_ok records" using inv by (simp add: dns_table_inv_def)
  let ?e = "sat_add64 now' (table_ttl_ms ttl)"
  obtain c where "map_of records ip = Some c"
    using other(1) by (cases "map_of records ip") (simp_all add: live_hosts_def)
  moreover from this other(1) obtain r where "r \<in> set c" "dtr_host r = h" "t < dtr_expires_at_ms r"
    by (auto simp: live_hosts_def)
  ultimately have c: "map_of records ip = Some c" "r \<in> set c" "dtr_host r = h"
    "t < dtr_expires_at_ms r" by simp_all
  let ?c = "filter (\<lambda>r. now < dtr_expires_at_ms r) c"
  have rc: "r \<in> set ?c" using c time by simp
  then have "map_of (prune_expired_dns_table_records now records) ip = Some ?c"
    using c(1) by (auto simp: map_of_prune_table ok Let_def filter_empty_conv)
  then have new: "map_of (dns_table_insert now now' ip host ttl records) ip = Some (put_host host ?e ?c)"
    by (simp add: dns_table_insert_def make_room_def Let_def)
  have len: "length ?c < DNS_TABLE_MAX_HOSTS_PER_IP" using room c(1) by (simp add: live_hosts_def)
  have keep: "refresh_host host ?e xs = Some ys \<Longrightarrow> r \<in> set xs \<Longrightarrow> r \<in> set ys" for xs ys
    using other(2) c(3) by (induction xs arbitrary: ys) (auto split: if_splits)
  have "r \<in> set (put_host host ?e ?c)"
    using rc len keep by (auto simp: put_host_def split: option.splits)
  with new c(3,4) show "h \<in> set (live_hosts t (dns_table_insert now now' ip host ttl records) ip)"
    by (auto simp: live_hosts_def)
  have "\<lparr>dtr_host = host, dtr_expires_at_ms = ?e\<rparr> \<in> set (put_host host ?e ?c)"
    by (rule put_host_present)
  with new time show "host \<in> set (live_hosts t (dns_table_insert now now' ip host ttl records) ip)"
    by (force simp: live_hosts_def)
qed

subsection \<open>The response cache\<close>

definition DNS_CACHE_MAX_TTL :: nat where "DNS_CACHE_MAX_TTL = 300"
definition DNS_CACHE_MAX_RECORDS :: nat where "DNS_CACHE_MAX_RECORDS = 512"

record cache_record =
  cr_response :: "byte list"
  cr_expires_at_ms :: nat

type_synonym dns_cache = "(byte list \<times> cache_record) list"

definition prune_expired_dns_cache_records :: "nat \<Rightarrow> dns_cache \<Rightarrow> dns_cache" where
  "prune_expired_dns_cache_records now records =
    filter (\<lambda>p. now < cr_expires_at_ms (snd p)) records"

definition evict_earliest_dns_cache_record :: "dns_cache \<Rightarrow> dns_cache" where
  "evict_earliest_dns_cache_record records =
    (case min_by_key (\<lambda>(key, r). cr_expires_at_ms r) records of
       None \<Rightarrow> records
     | Some (key, _) \<Rightarrow> amap_del key records)"

definition least_ttl :: "(ip_addr \<times> string \<times> nat) list \<Rightarrow> nat" where
  "least_ttl records =
    (case min_by_key (\<lambda>t. t) (map (\<lambda>(ip, host, ttl). ttl) records) of None \<Rightarrow> 0 | Some t \<Rightarrow> t)"

definition cache_ttl_ms :: "(ip_addr \<times> string \<times> nat) list \<Rightarrow> nat" where
  "cache_ttl_ms records = clamp 1 DNS_CACHE_MAX_TTL (least_ttl records) * 1000"

definition dns_cache_insert ::
  "nat \<Rightarrow> nat \<Rightarrow> byte list \<Rightarrow> byte list \<Rightarrow> (ip_addr \<times> string \<times> nat) list \<Rightarrow> dns_cache \<Rightarrow> dns_cache" where
  "dns_cache_insert now now' query response records cache =
    (if records = [] then cache
     else case dns_cache_key query of None \<Rightarrow> cache
     | Some key \<Rightarrow>
         amap_put key \<lparr>cr_response = response,
                       cr_expires_at_ms = sat_add64 now' (cache_ttl_ms records)\<rparr>
           (make_room prune_expired_dns_cache_records evict_earliest_dns_cache_record
              DNS_CACHE_MAX_RECORDS now key cache))"

definition dns_cache_lookup :: "nat \<Rightarrow> byte list \<Rightarrow> dns_cache \<Rightarrow> (dns_cache \<times> byte list option) outcome" where
  "dns_cache_lookup now query cache =
    (case dns_cache_key query of None \<Rightarrow> Ret (cache, None)
     | Some key \<Rightarrow>
    (case map_of cache key of None \<Rightarrow> Ret (cache, None)
     | Some r \<Rightarrow>
         if cr_expires_at_ms r \<le> now then Ret (amap_del key cache, None)
         else
           let response = cr_response r;
               response = (if 2 \<le> length response \<and> 2 \<le> length query
                           then copy_at 0 (slice 0 2 query) response else response) in
           obind (rewrite_dns_response_question response query) (\<lambda>response.
             let remaining_ttl = sat_add64 (cr_expires_at_ms r - now) 999 div 1000 in
             Ret (cache, Some (rewrite_dns_response_ttls response
                                 (clamp 1 4294967295 remaining_ttl))))))"

definition dns_cache_clear :: "dns_cache \<Rightarrow> dns_cache" where
  "dns_cache_clear cache = []"

definition dns_cache_inv :: "dns_cache \<Rightarrow> bool" where
  "dns_cache_inv cache \<longleftrightarrow> amap_ok cache \<and> length cache \<le> DNS_CACHE_MAX_RECORDS \<and>
     (\<forall>(key, r) \<in> set cache. 12 \<le> length (cr_response r))"

lemma evict_cache_earliest:
  assumes "m \<noteq> []"
  shows "\<exists>k v. (k, v) \<in> set m \<and> evict_earliest_dns_cache_record m = amap_del k m \<and>
          (\<forall>(k', v') \<in> set m. cr_expires_at_ms v \<le> cr_expires_at_ms v')"
proof -
  obtain k v where kv: "min_by_key (\<lambda>(key, r). cr_expires_at_ms r) m = Some (k, v)"
    using assms by (metis min_by_key_None not_None_eq surj_pair)
  from min_by_key_Some [OF kv] show ?thesis
    by (intro exI [of _ k] exI [of _ v]) (auto simp: evict_earliest_dns_cache_record_def kv)
qed

interpretation cache_store: expiring_store prune_expired_dns_cache_records
  evict_earliest_dns_cache_record cr_expires_at_ms DNS_CACHE_MAX_RECORDS
proof unfold_locales
  show "fst ` set (prune_expired_dns_cache_records now m) \<subseteq> fst ` set m" for now m
    by (auto simp: prune_expired_dns_cache_records_def)
qed (auto simp: prune_expired_dns_cache_records_def DNS_CACHE_MAX_RECORDS_def
      intro: evict_cache_earliest)

lemma set_make_room_cache:
  "set (make_room prune_expired_dns_cache_records evict_earliest_dns_cache_record cap now key m)
     \<subseteq> set m"
  by (auto simp: make_room_def evict_earliest_dns_cache_record_def amap_del_def Let_def
      prune_expired_dns_cache_records_def split: if_splits option.splits)

lemma dns_cache_inv_insert:
  assumes "dns_cache_inv cache" "records = [] \<or> 12 \<le> length response"
  shows "dns_cache_inv (dns_cache_insert now now' query response records cache)"
proof (cases "dns_cache_key query")
  case None
  then show ?thesis using assms by (simp add: dns_cache_insert_def)
next
  case (Some key)
  let ?m = "make_room prune_expired_dns_cache_records evict_earliest_dns_cache_record
              DNS_CACHE_MAX_RECORDS now key cache"
  show ?thesis
  proof (cases "records = []")
    case True
    then show ?thesis using assms by (simp add: dns_cache_insert_def)
  next
    case False
    let ?new = "\<lparr>cr_response = response, cr_expires_at_ms = sat_add64 now' (cache_ttl_ms records)\<rparr>"
    have "\<forall>(k, r) \<in> set ?m. 12 \<le> length (cr_response r)"
      using assms(1) set_make_room_cache unfolding dns_cache_inv_def by fast
    then have "\<forall>(k, r) \<in> set (amap_put key ?new ?m). 12 \<le> length (cr_response r)"
      using False assms(2) by (intro amap_put_all) simp_all
    moreover have "length (amap_put key ?new ?m) \<le> DNS_CACHE_MAX_RECORDS"
      using assms by (intro cache_store.put_within_capacity) (simp add: dns_cache_inv_def)
    moreover have "amap_ok (amap_put key ?new ?m)"
      using assms by (intro amap_ok_put cache_store.make_room_ok) (simp add: dns_cache_inv_def)
    ultimately show ?thesis using Some False by (simp add: dns_cache_insert_def dns_cache_inv_def)
  qed
qed

lemma map_of_cache_insert:
  assumes "dns_cache_key query = Some key" "records \<noteq> []"
  shows "map_of (dns_cache_insert now now' query response records cache) key =
    Some \<lparr>cr_response = response, cr_expires_at_ms = sat_add64 now' (cache_ttl_ms records)\<rparr>"
  using assms by (simp add: dns_cache_insert_def)

lemma dns_cache_key_length: "dns_cache_key query = Some key \<Longrightarrow> 12 \<le> length query"
  by (auto simp: dns_cache_key_def parse_dns_query_def split: option.splits if_splits)

text \<open>A hit: the stored response under the asker's transaction id and question.\<close>

lemma dns_cache_lookup_hit:
  assumes "dns_cache_key query = Some key" "map_of cache key = Some r"
    and "now < cr_expires_at_ms r" "12 \<le> length (cr_response r)"
  shows "\<exists>response. dns_cache_lookup now query cache = Ret (cache, Some response)
     \<and> length response = length (cr_response r) \<and> take 2 response = take 2 query
     \<and> slice 2 12 response = slice 2 12 (cr_response r)"
proof -
  have q: "12 \<le> length query" using assms(1) by (rule dns_cache_key_length)
  define r0 where "r0 = copy_at 0 (slice 0 2 query) (cr_response r)"
  have l2: "length (slice 0 2 query) = 2" using q by simp
  have r0: "length r0 = length (cr_response r)" "take 2 r0 = take 2 query"
    "slice 2 12 r0 = slice 2 12 (cr_response r)"
    using q assms(4) l2 by (simp_all add: r0_def copy_at_def slice_def numeral_2_eq_2)
  obtain r1 where r1: "rewrite_dns_response_question r0 query = Ret r1" "length r1 = length r0"
      "take 12 r1 = take 12 r0"
    using rewrite_dns_response_question_spec [of r0 query] q assms(4) r0 by auto
  define ttl where "ttl = clamp 1 4294967295 (sat_add64 (cr_expires_at_ms r - now) 999 div 1000)"
  define r2 where "r2 = rewrite_dns_response_ttls r1 ttl"
  have len: "length r2 = length (cr_response r)" by (simp add: r2_def r1 r0)
  have t12: "take 12 r2 = take 12 r1"
    using len r1(2) r0(1) assms(4)
    by (intro nth_equalityI) (simp_all add: r2_def rewrite_dns_response_ttls_header)
  have "take 2 r2 = take 2 (take 12 r2)" by simp
  also have "\<dots> = take 2 query" unfolding t12 r1(3) using r0(2) by simp
  finally have "take 2 r2 = take 2 query" .
  moreover have "slice 2 12 r2 = slice 2 12 (cr_response r)"
  proof -
    have "slice 2 12 xs = drop 2 (take 12 xs)" for xs :: "byte list"
      by (simp add: slice_def drop_take)
    then show ?thesis using t12 r1(3) r0(3) by simp
  qed
  moreover have "dns_cache_lookup now query cache = Ret (cache, Some r2)"
    using assms q r1(1) by (simp add: dns_cache_lookup_def r0_def [symmetric] ttl_def r2_def Let_def)
  ultimately show ?thesis using len by blast
qed

lemma dns_cache_lookup_cases:
  assumes "dns_cache_inv cache"
  obtains
    (miss) "dns_cache_lookup now query cache = Ret (cache, None)"
  | (expired) key r where "dns_cache_key query = Some key" "map_of cache key = Some r"
      "cr_expires_at_ms r \<le> now" "dns_cache_lookup now query cache = Ret (amap_del key cache, None)"
  | (hit) key r response where "dns_cache_key query = Some key" "map_of cache key = Some r"
      "now < cr_expires_at_ms r" "dns_cache_lookup now query cache = Ret (cache, Some response)"
      "length response = length (cr_response r)" "take 2 response = take 2 query"
      "slice 2 12 response = slice 2 12 (cr_response r)"
proof (cases "dns_cache_key query")
  case None
  then show ?thesis by (intro miss) (simp add: dns_cache_lookup_def)
next
  case (Some key)
  show ?thesis
  proof (cases "map_of cache key")
    case None
    then show ?thesis using Some by (intro miss) (simp add: dns_cache_lookup_def)
  next
    case r: (Some r)
    show ?thesis
    proof (cases "cr_expires_at_ms r \<le> now")
      case True
      then show ?thesis using Some r by (intro expired) (simp_all add: dns_cache_lookup_def)
    next
      case False
      have "12 \<le> length (cr_response r)"
        using assms r by (auto simp: dns_cache_inv_def dest!: map_of_SomeD)
      with False Some r show ?thesis
        using dns_cache_lookup_hit [of query key cache r now] hit by (metis not_le)
    qed
  qed
qed

lemma dns_cache_inv_lookup:
  assumes "dns_cache_inv cache" "dns_cache_lookup now query cache = Ret (cache', x)"
  shows "dns_cache_inv cache'"
  using assms(1)
proof (cases rule: dns_cache_lookup_cases [of cache now query])
  case (expired key r)
  have "length (amap_del key cache) \<le> length cache" by (simp add: amap_del_def)
  moreover have "set (amap_del key cache) \<subseteq> set cache" by (auto simp: amap_del_def)
  ultimately show ?thesis using assms expired(4) unfolding dns_cache_inv_def by auto
qed (use assms in auto)

subsection \<open>Recent queries and counters\<close>

definition DNS_RECENT_QUERY_LIMIT :: nat where "DNS_RECENT_QUERY_LIMIT = 16"

record dns_query_summary =
  qs_name :: string
  qs_record_type :: string
  qs_count :: nat

definition same_query :: "string \<Rightarrow> string \<Rightarrow> dns_query_summary \<Rightarrow> bool" where
  "same_query name record_type q \<longleftrightarrow>
     eq_ignore_ascii_case (qs_name q) name \<and> qs_record_type q = record_type"

fun take_first :: "('a \<Rightarrow> bool) \<Rightarrow> 'a list \<Rightarrow> ('a \<times> 'a list) option" where
  "take_first P [] = None"
| "take_first P (x # xs) =
     (if P x then Some (x, xs) else map_option (\<lambda>(y, ys). (y, x # ys)) (take_first P xs))"

definition record_dns_query :: "string \<Rightarrow> string \<Rightarrow> dns_query_summary list \<Rightarrow> dns_query_summary list" where
  "record_dns_query name record_type queries =
    take DNS_RECENT_QUERY_LIMIT
      (case take_first (same_query name record_type) queries of
         Some (q, rest) \<Rightarrow> q\<lparr>qs_name := name, qs_count := sat_add64 (qs_count q) 1\<rparr> # rest
       | None \<Rightarrow> \<lparr>qs_name = name, qs_record_type = record_type, qs_count = 1\<rparr> # queries)"

definition query_key :: "dns_query_summary \<Rightarrow> string \<times> string" where
  "query_key q = (to_ascii_lowercase (qs_name q), qs_record_type q)"

definition recent_inv :: "dns_query_summary list \<Rightarrow> bool" where
  "recent_inv queries \<longleftrightarrow> length queries \<le> DNS_RECENT_QUERY_LIMIT \<and> distinct (map query_key queries)"

text \<open>How often a query has been counted, 0 for one that is not listed.\<close>

definition query_count :: "string \<Rightarrow> string \<Rightarrow> dns_query_summary list \<Rightarrow> nat" where
  "query_count name record_type queries =
    (case take_first (same_query name record_type) queries of None \<Rightarrow> 0 | Some (q, _) \<Rightarrow> qs_count q)"

lemma same_query_key: "same_query name ty q \<longleftrightarrow> query_key q = (to_ascii_lowercase name, ty)"
  by (auto simp: same_query_def query_key_def eq_ignore_ascii_case_def)

lemma take_first_None: "take_first P xs = None \<longleftrightarrow> (\<forall>x \<in> set xs. \<not> P x)"
  by (induction xs) auto

lemma take_first_Some: "take_first P xs = Some (x, rest) \<Longrightarrow>
    P x \<and> (\<exists>a b. xs = a @ x # b \<and> rest = a @ b \<and> (\<forall>y \<in> set a. \<not> P y))"
proof (induction xs arbitrary: rest)
  case (Cons y ys)
  show ?case
  proof (cases "P y")
    case True
    then show ?thesis using Cons.prems
      by (intro conjI exI [of _ "[]"] exI [of _ rest]) auto
  next
    case False
    then obtain r where r: "take_first P ys = Some (x, r)" "rest = y # r"
      using Cons.prems by auto
    from Cons.IH [OF r(1)] False r(2) show ?thesis
      by (metis append_Cons set_ConsD)
  qed
qed simp

lemma recent_inv_record:
  assumes "recent_inv queries"
  shows "recent_inv (record_dns_query name ty queries)"
proof (cases "take_first (same_query name ty) queries")
  case None
  then have "(to_ascii_lowercase name, ty) \<notin> query_key ` set queries"
    by (auto simp: take_first_None same_query_key)
  then have "distinct (map query_key (\<lparr>qs_name = name, qs_record_type = ty, qs_count = 1\<rparr> # queries))"
    using assms by (simp add: recent_inv_def query_key_def)
  then show ?thesis
    using None unfolding recent_inv_def record_dns_query_def
    by (simp del: list.map distinct.simps add: distinct_map take_map [symmetric] distinct_take)
next
  case (Some p)
  obtain q rest where p: "p = (q, rest)" by (cases p)
  from take_first_Some [OF Some [unfolded p]] obtain a b where
    ab: "same_query name ty q" "queries = a @ q # b" "rest = a @ b" by blast
  let ?q = "q\<lparr>qs_name := name, qs_count := sat_add64 (qs_count q) 1\<rparr>"
  have "query_key ?q = query_key q" using ab(1) by (simp add: same_query_key query_key_def)
  then have "distinct (map query_key (?q # rest))"
    using assms unfolding recent_inv_def ab(2,3) by auto
  moreover have "length (?q # rest) = length queries" by (simp add: ab)
  ultimately show ?thesis
    using assms Some p by (simp add: recent_inv_def record_dns_query_def)
qed

lemma record_dns_query_front:
  "\<exists>q rest. record_dns_query name ty queries = q # rest \<and> qs_name q = name \<and>
     query_key q = (to_ascii_lowercase name, ty) \<and>
     qs_count q = sat_add64 (query_count name ty queries) 1"
proof (cases "take_first (same_query name ty) queries")
  case None
  then show ?thesis
    by (simp add: record_dns_query_def query_count_def query_key_def DNS_RECENT_QUERY_LIMIT_def
        sat_add64_def u64_max_def)
next
  case (Some p)
  obtain q rest where p: "p = (q, rest)" by (cases p)
  have "same_query name ty q" using take_first_Some [OF Some [unfolded p]] by simp
  then show ?thesis
    using Some p by (simp add: record_dns_query_def query_count_def query_key_def same_query_key
        DNS_RECENT_QUERY_LIMIT_def)
qed

subsection \<open>Answering a query\<close>

text \<open>
  The worker's DNS state: both stores, the counters the DNS path changes (64-bit atomics, which wrap
  around), and the packets sent to the egress queue, oldest first.
\<close>

record dns_state =
  ds_table :: dns_table
  ds_cache :: dns_cache
  ds_hits :: u64
  ds_misses :: u64
  ds_replies :: "byte list list"

definition insert_all :: "nat \<Rightarrow> (ip_addr \<times> string \<times> nat) list \<Rightarrow> dns_table \<Rightarrow> dns_table" where
  "insert_all now records table =
    fold (\<lambda>(ip, host, ttl). dns_table_insert now now ip host ttl) records table"

text \<open>
  \<open>handle_dns_query\<close> up to its await on the resolver (\<open>True\<close>: the query is answered), and from the
  resolver's answer on. Other handlers may run in between, so the two parts take their states
  separately; the clock is read once per part.
\<close>

definition dns_query_begin ::
  "nat \<Rightarrow> u32 \<Rightarrow> u16 \<Rightarrow> u32 \<Rightarrow> u16 \<Rightarrow> byte list \<Rightarrow> dns_state \<Rightarrow> (dns_state \<times> bool) outcome" where
  "dns_query_begin now src_ip src_port dst_ip dst_port query s =
    obind (dns_cache_lookup now query (ds_cache s)) (\<lambda>(cache, r).
      case r of
        Some response \<Rightarrow>
          Ret (s\<lparr>ds_cache := cache, ds_hits := ds_hits s + 1,
                 ds_table := insert_all now (parse_dns_response_records response) (ds_table s),
                 ds_replies := ds_replies s @
                   [build_udp_packet dst_ip dst_port src_ip src_port response]\<rparr>, True)
      | None \<Rightarrow>
          Ret (s\<lparr>ds_cache := cache,
                 ds_misses := (if dns_cache_key query \<noteq> None then ds_misses s + 1 else ds_misses s)\<rparr>,
               False))"

definition dns_query_finish ::
  "nat \<Rightarrow> byte list option \<Rightarrow> u32 \<Rightarrow> u16 \<Rightarrow> u32 \<Rightarrow> u16 \<Rightarrow> byte list \<Rightarrow> dns_state \<Rightarrow> dns_state outcome" where
  "dns_query_finish now answer src_ip src_port dst_ip dst_port query s =
    obind (case answer of Some response \<Rightarrow> Ret response
           | None \<Rightarrow> build_dns_error_response query ServFail) (\<lambda>response.
      let response_records = parse_dns_response_records response in
      Ret (s\<lparr>ds_cache := dns_cache_insert now now query response response_records (ds_cache s),
             ds_table := insert_all now response_records (ds_table s),
             ds_replies := ds_replies s @
               [build_udp_packet dst_ip dst_port src_ip src_port response]\<rparr>))"

definition handle_dns_query ::
  "(byte list \<Rightarrow> byte list option) \<Rightarrow> nat \<Rightarrow> nat \<Rightarrow> u32 \<Rightarrow> u16 \<Rightarrow> u32 \<Rightarrow> u16 \<Rightarrow> byte list \<Rightarrow> dns_state \<Rightarrow>
   dns_state outcome" where
  "handle_dns_query resolve now now' src_ip src_port dst_ip dst_port query s =
    obind (dns_query_begin now src_ip src_port dst_ip dst_port query s) (\<lambda>(s, answered).
      if answered then Ret s
      else dns_query_finish now' (resolve query) src_ip src_port dst_ip dst_port query s)"

definition dns_state_inv :: "dns_state \<Rightarrow> bool" where
  "dns_state_inv s \<longleftrightarrow> dns_table_inv (ds_table s) \<and> dns_cache_inv (ds_cache s)"

lemma dns_table_inv_insert_all:
  "dns_table_inv table \<Longrightarrow> dns_table_inv (insert_all now records table)"
  unfolding insert_all_def
  by (induction records arbitrary: table) (auto simp: dns_table_inv_insert)

lemma parse_dns_response_records_length:
  "parse_dns_response_records response = [] \<or> 12 \<le> length response"
  by (simp add: parse_dns_response_records_def)

lemma dns_query_begin_ok:
  assumes "dns_state_inv s"
  shows "\<exists>s' answered. dns_query_begin now src_ip src_port dst_ip dst_port query s = Ret (s', answered) \<and>
     dns_state_inv s' \<and> length (ds_replies s') = length (ds_replies s) + (if answered then 1 else 0)"
proof -
  have inv: "dns_cache_inv (ds_cache s)" using assms by (simp add: dns_state_inv_def)
  show ?thesis
  proof (cases rule: dns_cache_lookup_cases [OF inv, of now query])
    case 1
    then show ?thesis using assms by (auto simp: dns_query_begin_def dns_state_inv_def)
  next
    case (2 key r)
    then show ?thesis
      using assms dns_cache_inv_lookup [OF inv 2(4)] by (auto simp: dns_query_begin_def dns_state_inv_def)
  next
    case (3 key r response)
    then show ?thesis
      using assms by (auto simp: dns_query_begin_def dns_state_inv_def dns_table_inv_insert_all)
  qed
qed

lemma dns_query_finish_ok:
  assumes "dns_state_inv s"
  shows "\<exists>s'. dns_query_finish now answer src_ip src_port dst_ip dst_port query s = Ret s' \<and>
     dns_state_inv s' \<and> length (ds_replies s') = length (ds_replies s) + 1"
proof -
  obtain response where r: "(case answer of Some response \<Rightarrow> Ret response
           | None \<Rightarrow> build_dns_error_response query ServFail) = Ret response"
    using build_dns_error_response_no_panic [of query ServFail]
    by (cases answer; cases "build_dns_error_response query ServFail") auto
  have "dns_cache_inv (dns_cache_insert now now query response
          (parse_dns_response_records response) (ds_cache s))"
    using assms parse_dns_response_records_length
    by (intro dns_cache_inv_insert) (auto simp: dns_state_inv_def)
  then show ?thesis
    using assms by (simp add: dns_query_finish_def r Let_def dns_state_inv_def dns_table_inv_insert_all)
qed

lemma handle_dns_query_ok:
  assumes "dns_state_inv s"
  shows "\<exists>s'. handle_dns_query resolve now now' src_ip src_port dst_ip dst_port query s = Ret s' \<and>
     dns_state_inv s' \<and> length (ds_replies s') = length (ds_replies s) + 1"
proof -
  obtain s1 answered where s1:
    "dns_query_begin now src_ip src_port dst_ip dst_port query s = Ret (s1, answered)" "dns_state_inv s1"
    "length (ds_replies s1) = length (ds_replies s) + (if answered then 1 else 0)"
    using dns_query_begin_ok [OF assms] by blast
  show ?thesis
    using s1 dns_query_finish_ok [OF s1(2), of now' "resolve query" src_ip src_port dst_ip dst_port query]
    by (cases answered) (auto simp: handle_dns_query_def)
qed

subsection \<open>Further facts\<close>

text \<open>
  A live cache entry answers a query with the same key with the query's own identifier, the cached
  flags and counts, and the same length; an entry at its deadline is dropped and not served.
\<close>

lemma dns_cache_hit:
  assumes "dns_cache_inv cache" "dns_cache_key query = Some key" "map_of cache key = Some r"
  shows "if now < cr_expires_at_ms r
     then \<exists>response. dns_cache_lookup now query cache = Ret (cache, Some response) \<and>
       length response = length (cr_response r) \<and> take 2 response = take 2 query \<and>
       slice 2 12 response = slice 2 12 (cr_response r)
     else dns_cache_lookup now query cache = Ret (amap_del key cache, None)"
proof (cases "now < cr_expires_at_ms r")
  case True
  have "12 \<le> length (cr_response r)"
    using assms(1,3) by (auto simp: dns_cache_inv_def dest: map_of_SomeD)
  then show ?thesis using dns_cache_lookup_hit [OF assms(2,3) True] True by simp
qed (use assms in \<open>simp add: dns_cache_lookup_def\<close>)

text \<open>
  Handling a DNS query, whatever the resolver does, never panics, sends exactly one reply packet,
  and keeps the bounds of the address table and of the response cache.
\<close>

lemma dns_query_answered_once:
  assumes "dns_state_inv s"
  shows "\<exists>s'. handle_dns_query resolve now now' src_ip src_port dst_ip dst_port query s = Ret s' \<and>
     dns_state_inv s' \<and> length (ds_replies s') = length (ds_replies s) + 1"
  using assms by (rule handle_dns_query_ok)

text \<open>
  A name inserted for an address without live names is what lookup returns until its TTL, clamped
  to between one second and one hour, has passed, and not afterwards; the table stays within 1024
  addresses and 16 names each, all different up to case.
\<close>

lemma dns_table_insert_spec:
  assumes "dns_table_inv records" "live_hosts now records ip = []"
  shows "dns_table_inv (dns_table_insert now now' ip host ttl records) \<and>
     snd (dns_table_lookup t ip (dns_table_insert now now' ip host ttl records)) =
       (if t < sat_add64 now' (clamp 1 3600 ttl * 1000) then Some host else None)"
  using dns_table_inv_insert [OF assms(1)] dns_table_insert_lookup_ttl [OF assms]
  by (simp add: table_ttl_ms_def)

subsection \<open>Properties\<close>



end
