(* ===== verification/TunReader.thy ===== *)
theory TunReader
  imports DnsCache
begin

text \<open>
  The packet reader of \<open>run_netstack_vpn\<close> (\<open>crates/paws_vpn/src/netstack.rs\<close>): each packet read
  from the TUN is either a DNS query, which is answered here by a spawned task, or goes on to the
  network stack. The tasks run concurrently; the step relation \<open>reader_step\<close> interleaves them
  freely, a task being suspended only while it waits for the resolver.
\<close>

definition DNS_BURST_CAP :: nat where "DNS_BURST_CAP = 256"

record dns_task =
  dt_src_ip :: u32
  dt_src_port :: u16
  dt_dst_ip :: u32
  dt_dst_port :: u16
  dt_query :: "byte list"

text \<open>
  \<open>rd_spawned\<close> are the tasks not yet started, \<open>rd_waiting\<close> those that await the resolver; each holds
  one of the \<open>DNS_BURST_CAP\<close> permits of the semaphore until it ends. \<open>rd_ingress\<close> is what has been
  handed to the stack. \<open>rd_silent\<close> counts, for the specification only, the queries over the burst
  limit that are too short to be answered.
\<close>

record reader =
  rd_dns :: dns_state
  rd_spawned :: "dns_task list"
  rd_waiting :: "dns_task list"
  rd_ingress :: "byte list list"
  rd_recent :: "dns_query_summary list"
  rd_rx_packets :: u64
  rd_rx_bytes :: u64
  rd_udp_packets :: u64
  rd_dns_packets :: u64
  rd_dropped_packets :: u64
  rd_silent :: nat

definition reader_init :: reader where
  "reader_init = \<lparr>rd_dns = \<lparr>ds_table = [], ds_cache = [], ds_hits = 0, ds_misses = 0, ds_replies = []\<rparr>,
     rd_spawned = [], rd_waiting = [], rd_ingress = [], rd_recent = [], rd_rx_packets = 0,
     rd_rx_bytes = 0, rd_udp_packets = 0, rd_dns_packets = 0, rd_dropped_packets = 0, rd_silent = 0\<rparr>"

definition send_reply :: "byte list \<Rightarrow> reader \<Rightarrow> reader" where
  "send_reply packet r = r\<lparr>rd_dns := (rd_dns r)\<lparr>ds_replies := ds_replies (rd_dns r) @ [packet]\<rparr>\<rparr>"

definition count_packet :: "byte list \<Rightarrow> reader \<Rightarrow> reader" where
  "count_packet ip_data r = r\<lparr>rd_rx_packets := rd_rx_packets r + 1,
     rd_rx_bytes := rd_rx_bytes r + word_of_nat (length ip_data)\<rparr>"

definition count_query :: "byte list \<Rightarrow> reader \<Rightarrow> reader" where
  "count_query payload r = r\<lparr>rd_udp_packets := rd_udp_packets r + 1,
     rd_dns_packets := rd_dns_packets r + 1,
     rd_recent := (case parse_dns_query payload of
         Some query \<Rightarrow> record_dns_query (dq_name query) (kind_as_str (dq_kind query)) (rd_recent r)
       | None \<Rightarrow> rd_recent r)\<rparr>"

text \<open>One pass of the inner loop for a packet of positive length.\<close>

definition reader_packet :: "bool \<Rightarrow> byte list \<Rightarrow> reader \<Rightarrow> reader outcome" where
  "reader_packet dns_hijacking ip_data r =
    (let r = count_packet ip_data r in
     case tun_dns_query_from_packet dns_hijacking ip_data of
       None \<Rightarrow> Ret (r\<lparr>rd_ingress := rd_ingress r @ [ip_data]\<rparr>)
     | Some (src_ip, src_port, dst_ip, dst_port, payload) \<Rightarrow>
         let r = count_query payload r in
         if length (rd_spawned r) + length (rd_waiting r) < DNS_BURST_CAP then
           Ret (r\<lparr>rd_spawned := rd_spawned r @
             [\<lparr>dt_src_ip = src_ip, dt_src_port = src_port, dt_dst_ip = dst_ip,
               dt_dst_port = dst_port, dt_query = payload\<rparr>]\<rparr>)
         else
           let r = r\<lparr>rd_dropped_packets := rd_dropped_packets r + 1\<rparr> in
           obind (build_dns_servfail_udp_packet src_ip src_port dst_ip dst_port payload) (\<lambda>p.
             case p of Some packet \<Rightarrow> Ret (send_reply packet r)
             | None \<Rightarrow> Ret (r\<lparr>rd_silent := rd_silent r + 1\<rparr>)))"

definition task_begin :: "nat \<Rightarrow> dns_task \<Rightarrow> dns_state \<Rightarrow> (dns_state \<times> bool) outcome" where
  "task_begin now t =
     dns_query_begin now (dt_src_ip t) (dt_src_port t) (dt_dst_ip t) (dt_dst_port t) (dt_query t)"

definition task_finish :: "nat \<Rightarrow> byte list option \<Rightarrow> dns_task \<Rightarrow> dns_state \<Rightarrow> dns_state outcome" where
  "task_finish now answer t =
     dns_query_finish now answer (dt_src_ip t) (dt_src_port t) (dt_dst_ip t) (dt_dst_port t) (dt_query t)"

inductive reader_step :: "reader \<Rightarrow> reader \<Rightarrow> bool" where
  packet: "reader_packet hijack ip_data r = Ret r' \<Longrightarrow> ip_data \<noteq> [] \<Longrightarrow> reader_step r r'"
| begin_hit: "rd_spawned r = a @ t # b \<Longrightarrow> task_begin now t (rd_dns r) = Ret (d, True) \<Longrightarrow>
     reader_step r (r\<lparr>rd_spawned := a @ b, rd_dns := d\<rparr>)"
| begin_wait: "rd_spawned r = a @ t # b \<Longrightarrow> task_begin now t (rd_dns r) = Ret (d, False) \<Longrightarrow>
     reader_step r (r\<lparr>rd_spawned := a @ b, rd_waiting := t # rd_waiting r, rd_dns := d\<rparr>)"
| finish: "rd_waiting r = a @ t # b \<Longrightarrow> task_finish now answer t (rd_dns r) = Ret d \<Longrightarrow>
     reader_step r (r\<lparr>rd_waiting := a @ b, rd_dns := d\<rparr>)"
| flush: "reader_step r (r\<lparr>rd_dns := (rd_dns r)\<lparr>ds_table := dns_table_clear (ds_table (rd_dns r)),
                                         ds_cache := dns_cache_clear (ds_cache (rd_dns r))\<rparr>\<rparr>)"

inductive reader_reach :: "reader \<Rightarrow> bool" where
  start: "reader_reach reader_init"
| step: "reader_reach r \<Longrightarrow> reader_step r r' \<Longrightarrow> reader_reach r'"

inductive_cases reader_stepE: "reader_step r r'"

text \<open>
  The invariant: both stores are within their bounds, no more queries are in flight than there are
  permits, and each intercepted query has been answered, is in flight, or was dropped in silence.
\<close>

definition queries_settled :: "reader \<Rightarrow> nat" where
  "queries_settled r = length (ds_replies (rd_dns r)) + length (rd_spawned r) + length (rd_waiting r)
     + rd_silent r"

definition reader_inv :: "reader \<Rightarrow> bool" where
  "reader_inv r \<longleftrightarrow> dns_state_inv (rd_dns r) \<and> recent_inv (rd_recent r) \<and>
     length (rd_spawned r) + length (rd_waiting r) \<le> DNS_BURST_CAP \<and>
     rd_dns_packets r = word_of_nat (queries_settled r)"

lemma reader_inv_init: "reader_inv reader_init"
  by (simp add: reader_inv_def reader_init_def dns_state_inv_def dns_table_inv_def dns_cache_inv_def
      recent_inv_def queries_settled_def amap_ok_def)

lemma build_dns_servfail_udp_packet_Ret:
  "\<exists>p. build_dns_servfail_udp_packet src_ip src_port dst_ip dst_port query = Ret p \<and>
     (p = None \<longleftrightarrow> length query < 12)"
proof (cases "length query < 12")
  case True
  then show ?thesis by (simp add: build_dns_servfail_udp_packet_def build_dns_error_response_def)
next
  case False
  then obtain r where "build_dns_error_response query ServFail = Ret r" "12 \<le> length r"
    using build_dns_error_response_spec [of query ServFail] by auto
  then show ?thesis using False by (auto simp: build_dns_servfail_udp_packet_def)
qed

lemma reader_packet_cases:
  obtains
    (forward) "tun_dns_query_from_packet hijack ip_data = None"
      "reader_packet hijack ip_data r =
         Ret ((count_packet ip_data r)\<lparr>rd_ingress := rd_ingress r @ [ip_data]\<rparr>)"
  | (spawn) si sp di dp payload where
      "tun_dns_query_from_packet hijack ip_data = Some (si, sp, di, dp, payload)"
      "length (rd_spawned r) + length (rd_waiting r) < DNS_BURST_CAP"
      "reader_packet hijack ip_data r = Ret ((count_query payload (count_packet ip_data r))
         \<lparr>rd_spawned := rd_spawned r @ [\<lparr>dt_src_ip = si, dt_src_port = sp, dt_dst_ip = di,
               dt_dst_port = dp, dt_query = payload\<rparr>]\<rparr>)"
  | (servfail) si sp di dp payload packet where
      "tun_dns_query_from_packet hijack ip_data = Some (si, sp, di, dp, payload)"
      "DNS_BURST_CAP \<le> length (rd_spawned r) + length (rd_waiting r)" "12 \<le> length payload"
      "build_dns_servfail_udp_packet si sp di dp payload = Ret (Some packet)"
      "reader_packet hijack ip_data r = Ret (send_reply packet
         ((count_query payload (count_packet ip_data r))
           \<lparr>rd_dropped_packets := rd_dropped_packets r + 1\<rparr>))"
  | (silent) si sp di dp payload where
      "tun_dns_query_from_packet hijack ip_data = Some (si, sp, di, dp, payload)"
      "DNS_BURST_CAP \<le> length (rd_spawned r) + length (rd_waiting r)" "length payload < 12"
      "reader_packet hijack ip_data r = Ret ((count_query payload (count_packet ip_data r))
           \<lparr>rd_dropped_packets := rd_dropped_packets r + 1, rd_silent := rd_silent r + 1\<rparr>)"
proof (cases "tun_dns_query_from_packet hijack ip_data")
  case None
  then show ?thesis by (intro forward) (simp_all add: reader_packet_def count_packet_def)
next
  case (Some v)
  obtain si sp di dp payload where v: "v = (si, sp, di, dp, payload)" by (metis prod_cases5)
  show ?thesis
  proof (cases "length (rd_spawned r) + length (rd_waiting r) < DNS_BURST_CAP")
    case True
    with Some v show ?thesis
      by (intro spawn) (simp_all add: reader_packet_def count_packet_def count_query_def Let_def)
  next
    case False
    obtain p where p: "build_dns_servfail_udp_packet si sp di dp payload = Ret p"
        "p = None \<longleftrightarrow> length payload < 12"
      using build_dns_servfail_udp_packet_Ret by blast
    show ?thesis
    proof (cases p)
      case None
      with Some v False p show ?thesis
        by (intro silent) (simp_all add: reader_packet_def count_packet_def count_query_def Let_def)
    next
      case packet: (Some packet)
      with Some v False p show ?thesis
        by (intro servfail) (simp_all add: reader_packet_def count_packet_def count_query_def Let_def)
    qed
  qed
qed

lemma reader_inv_packet:
  assumes "reader_inv r" "reader_packet hijack ip_data r = Ret r'"
  shows "reader_inv r'"
proof -
  have recent: "recent_inv (rd_recent (count_query payload (count_packet ip_data r)))" for payload
    using assms(1) by (simp add: reader_inv_def count_query_def count_packet_def recent_inv_record
        split: option.splits)
  have dns: "dns_state_inv (rd_dns r)" using assms(1) by (simp add: reader_inv_def)
  show ?thesis
  proof (cases rule: reader_packet_cases [of hijack ip_data r])
    case forward
    then show ?thesis using assms by (auto simp: reader_inv_def count_packet_def queries_settled_def)
  next
    case (spawn si sp di dp payload)
    then show ?thesis using assms recent [of payload]
      by (auto simp: reader_inv_def count_packet_def count_query_def queries_settled_def)
  next
    case (servfail si sp di dp payload packet)
    then show ?thesis using assms recent [of payload] dns
      by (auto simp: reader_inv_def count_packet_def count_query_def queries_settled_def
          send_reply_def dns_state_inv_def)
  next
    case (silent si sp di dp payload)
    then show ?thesis using assms recent [of payload]
      by (auto simp: reader_inv_def count_packet_def count_query_def queries_settled_def)
  qed
qed

lemma task_begin_ok:
  assumes "dns_state_inv s" "task_begin now t s = Ret (s', answered)"
  shows "dns_state_inv s' \<and>
     length (ds_replies s') = length (ds_replies s) + (if answered then 1 else 0)"
  using dns_query_begin_ok [OF assms(1), of now "dt_src_ip t" "dt_src_port t" "dt_dst_ip t"
      "dt_dst_port t" "dt_query t"] assms(2) by (auto simp: task_begin_def)

lemma task_finish_ok:
  assumes "dns_state_inv s" "task_finish now answer t s = Ret s'"
  shows "dns_state_inv s' \<and> length (ds_replies s') = length (ds_replies s) + 1"
  using dns_query_finish_ok [OF assms(1), of now answer "dt_src_ip t" "dt_src_port t" "dt_dst_ip t"
      "dt_dst_port t" "dt_query t"] assms(2) by (auto simp: task_finish_def)

lemma reader_inv_step:
  assumes "reader_step r r'" "reader_inv r"
  shows "reader_inv r'"
  using assms(1)
proof cases
  case (packet hijack ip_data)
  then show ?thesis using assms(2) reader_inv_packet by blast
next
  case (begin_hit a t b now d)
  then show ?thesis
    using assms(2) task_begin_ok [of "rd_dns r" now t d True]
    by (simp add: reader_inv_def queries_settled_def)
next
  case (begin_wait a t b now d)
  then show ?thesis
    using assms(2) task_begin_ok [of "rd_dns r" now t d False]
    by (simp add: reader_inv_def queries_settled_def)
next
  case (finish a t b now answer d)
  then show ?thesis
    using assms(2) task_finish_ok [of "rd_dns r" now answer t d]
    by (simp add: reader_inv_def queries_settled_def)
next
  case flush
  then show ?thesis
    using assms(2)
    by (simp add: reader_inv_def queries_settled_def dns_state_inv_def dns_table_inv_def
        dns_cache_inv_def dns_table_clear_def dns_cache_clear_def amap_ok_def)
qed

lemma reader_inv_reach: "reader_reach r \<Longrightarrow> reader_inv r"
  by (induction rule: reader_reach.induct) (auto simp: reader_inv_init intro: reader_inv_step)

text \<open>No step of a reachable reader is blocked by a panic.\<close>

lemma reader_no_panic:
  assumes "reader_inv r"
  shows "reader_packet hijack ip_data r \<noteq> Panic"
    and "task_begin now t (rd_dns r) \<noteq> Panic"
    and "task_finish now answer t (rd_dns r) \<noteq> Panic"
proof -
  have dns: "dns_state_inv (rd_dns r)" using assms by (simp add: reader_inv_def)
  show "reader_packet hijack ip_data r \<noteq> Panic"
    by (cases rule: reader_packet_cases [of hijack ip_data r]) simp_all
  show "task_begin now t (rd_dns r) \<noteq> Panic"
    using dns_query_begin_ok [OF dns, of now "dt_src_ip t" "dt_src_port t" "dt_dst_ip t"
      "dt_dst_port t" "dt_query t"] by (auto simp: task_begin_def)
  show "task_finish now answer t (rd_dns r) \<noteq> Panic"
    using dns_query_finish_ok [OF dns, of now answer "dt_src_ip t" "dt_src_port t" "dt_dst_ip t"
      "dt_dst_port t" "dt_query t"] by (auto simp: task_finish_def)
qed

subsection \<open>Further facts\<close>

text \<open>
  No packet makes the reader of a reachable state panic, and no DNS task does, at its start or
  when the resolver's answer arrives.
\<close>

lemma reader_never_panics:
  assumes "reader_reach r"
  shows "reader_packet hijack ip_data r \<noteq> Panic \<and> task_begin now t (rd_dns r) \<noteq> Panic \<and>
     task_finish now answer t (rd_dns r) \<noteq> Panic"
  using reader_no_panic [OF reader_inv_reach [OF assms]] by blast

subsection \<open>Properties\<close>



end
