(* ===== verification/PlatformIpc.thy ===== *)
theory PlatformIpc
  imports PawsModel
begin

text \<open>
  The shared memory protocol of \<open>crates/paws_core/src/platform_ipc.rs\<close> between the UI process and
  the VPN extension: a region header, one lane per process with two slots, and frames whose header is
  written after the payload. The state is the bytes of the region; each call of \<open>read_memory\<close> and
  \<open>write_memory\<close> is atomic, and the two processes interleave between calls, so a reader takes a list
  of the region's contents at the instants of its reads. The socket that wakes the peer carries no
  data and is not modelled; the JSON form of an envelope is a parameter of \<open>read_lane\<close>.
\<close>

subsection \<open>Layout\<close>

definition REGION_SIZE :: nat where "REGION_SIZE = 8 * 1024 * 1024"
definition REGION_HEADER_SIZE :: nat where "REGION_HEADER_SIZE = 4096"
definition UI_LANE_SIZE :: nat where "UI_LANE_SIZE = 1024 * 1024"
definition FRAME_HEADER_SIZE :: nat where "FRAME_HEADER_SIZE = 32"
definition FRAME_MAGIC :: nat where "FRAME_MAGIC = 0x50415753"
definition PROTOCOL_VERSION :: nat where "PROTOCOL_VERSION = 2"
definition SLOT_COUNT :: nat where "SLOT_COUNT = 2"
definition REGION_MAGIC :: "byte list" where
  "REGION_MAGIC = str_bytes (''PAWSIPC'' @ [CHR 0x00])"

datatype platform_role = Ui | Vpn

definition lane_layout :: "platform_role \<Rightarrow> nat \<times> nat" where
  "lane_layout role = (case role of
     Ui \<Rightarrow> (REGION_HEADER_SIZE, UI_LANE_SIZE div SLOT_COUNT)
   | Vpn \<Rightarrow> (let offset = REGION_HEADER_SIZE + UI_LANE_SIZE in
             (offset, (REGION_SIZE - offset) div SLOT_COUNT)))"

datatype ipc_error =
    LockPoisoned
  | InvalidHeader
  | FrameTooLarge nat nat
  | Serialize string
  | Memory string
  | Notification string

type_synonym 'a ipc = "ipc_error + 'a"

definition ibind :: "'a ipc \<Rightarrow> ('a \<Rightarrow> 'b ipc) \<Rightarrow> 'b ipc" where
  "ibind m f = (case m of Inl e \<Rightarrow> Inl e | Inr a \<Rightarrow> f a)"

lemma ibind_simps [simp]: "ibind (Inl e) f = Inl e" "ibind (Inr a) f = f a"
  by (simp_all add: ibind_def)

text \<open>An access outside the mapping is an error; \<open>lane_access\<close> below shows that none is made.\<close>

definition read_memory :: "nat \<Rightarrow> nat \<Rightarrow> byte list \<Rightarrow> byte list ipc" where
  "read_memory offset len m =
    (if offset + len \<le> length m then Inr (slice offset (offset + len) m)
     else Inl (Memory ''out of range''))"

definition write_memory :: "nat \<Rightarrow> byte list \<Rightarrow> byte list \<Rightarrow> byte list ipc" where
  "write_memory offset data m =
    (if offset + length data \<le> length m then Inr (copy_at offset data m)
     else Inl (Memory ''out of range''))"

subsection \<open>Frames\<close>

text \<open>A 32-bit FNV hash.\<close>

definition checksum :: "byte list \<Rightarrow> u32" where
  "checksum bytes = fold (\<lambda>b hash. (hash * 0x01000193) XOR ucast b) bytes 0x811c9dc5"

definition frame_header :: "nat \<Rightarrow> byte list \<Rightarrow> byte list" where
  "frame_header generation content =
    (let header = replicate FRAME_HEADER_SIZE 0;
         header = copy_at 0 (le_bytes 4 FRAME_MAGIC) header;
         header = copy_at 4 (le_bytes 4 PROTOCOL_VERSION) header;
         header = copy_at 8 (le_bytes 8 generation) header;
         header = copy_at 16 (le_bytes 4 (length content)) header;
         header = copy_at 20 (le_bytes 4 (unat (checksum content))) header
     in copy_at 24 (le_bytes 4 (unat (checksum (take 24 header)))) header)"

record frame_info =
  fh_generation :: nat
  fh_content_length :: nat
  fh_content_checksum :: u32

definition parse_header :: "byte list \<Rightarrow> nat \<Rightarrow> frame_info option" where
  "parse_header bytes slot_size =
    (if length bytes \<noteq> FRAME_HEADER_SIZE
        \<or> le_nat (slice 0 4 bytes) \<noteq> FRAME_MAGIC
        \<or> le_nat (slice 4 8 bytes) \<noteq> PROTOCOL_VERSION
        \<or> le_nat (slice 24 28 bytes) \<noteq> unat (checksum (take 24 bytes))
     then None
     else let content_length = le_nat (slice 16 20 bytes) in
       if content_length > slot_size - FRAME_HEADER_SIZE then None
       else Some \<lparr>fh_generation = le_nat (slice 8 16 bytes), fh_content_length = content_length,
                  fh_content_checksum = word_of_nat (le_nat (slice 20 24 bytes))\<rparr>)"

text \<open>\<open>write_frame\<close> writes the payload, then the header: \<open>write_content\<close> is the region in between.\<close>

definition slot_offset :: "platform_role \<Rightarrow> nat \<Rightarrow> nat" where
  "slot_offset role index = fst (lane_layout role) + index * snd (lane_layout role)"

definition write_content :: "platform_role \<Rightarrow> nat \<Rightarrow> byte list \<Rightarrow> byte list \<Rightarrow> byte list ipc" where
  "write_content role generation content m =
    (let maximum = snd (lane_layout role) - FRAME_HEADER_SIZE in
     if length content > maximum then Inl (FrameTooLarge (length content) maximum)
     else write_memory (slot_offset role (generation mod SLOT_COUNT) + FRAME_HEADER_SIZE) content m)"

definition write_frame :: "platform_role \<Rightarrow> nat \<Rightarrow> byte list \<Rightarrow> byte list \<Rightarrow> byte list ipc" where
  "write_frame role generation content m =
    ibind (write_content role generation content m) (\<lambda>m.
      write_memory (slot_offset role (generation mod SLOT_COUNT)) (frame_header generation content) m)"

text \<open>The contents of the region at the three reads of one attempt of \<open>read_frame\<close>.\<close>

type_synonym attempt = "byte list \<times> byte list \<times> byte list"

fun read_frame :: "nat \<Rightarrow> nat \<Rightarrow> attempt list \<Rightarrow> (nat \<times> byte list) option ipc" where
  "read_frame offset slot_size [] = Inr None"
| "read_frame offset slot_size ((m1, m2, m3) # rest) =
    ibind (read_memory offset FRAME_HEADER_SIZE m1) (\<lambda>first.
      case parse_header first slot_size of
        None \<Rightarrow> read_frame offset slot_size rest
      | Some header \<Rightarrow>
          ibind (read_memory (offset + FRAME_HEADER_SIZE) (fh_content_length header) m2) (\<lambda>content.
          ibind (read_memory offset FRAME_HEADER_SIZE m3) (\<lambda>second.
            if first = second \<and> checksum content = fh_content_checksum header
            then Inr (Some (fh_generation header, content))
            else read_frame offset slot_size rest)))"

text \<open>The newer of the frames of both slots; a tie keeps the first slot's.\<close>

definition newer :: "(nat \<times> byte list) option \<Rightarrow> (nat \<times> byte list) option \<Rightarrow> (nat \<times> byte list) option" where
  "newer a b = (case b of None \<Rightarrow> a
     | Some (g, c) \<Rightarrow> (case a of None \<Rightarrow> b | Some (g', c') \<Rightarrow> if g > g' then b else a))"

definition read_lane ::
  "(byte list \<Rightarrow> string + 'e) \<Rightarrow> platform_role \<Rightarrow> attempt list \<Rightarrow> attempt list \<Rightarrow> 'e option ipc" where
  "read_lane decode role attempts0 attempts1 =
    (let slot_size = snd (lane_layout role) in
     ibind (read_frame (slot_offset role 0) slot_size attempts0) (\<lambda>f0.
     ibind (read_frame (slot_offset role 1) slot_size attempts1) (\<lambda>f1.
       case newer (newer None f0) f1 of
         None \<Rightarrow> Inr None
       | Some (_, content) \<Rightarrow>
           (case decode content of Inl e \<Rightarrow> Inl (Serialize e) | Inr envelope \<Rightarrow> Inr (Some envelope)))))"

definition latest_generation :: "platform_role \<Rightarrow> byte list \<Rightarrow> nat option ipc" where
  "latest_generation role m =
    (let slot_size = snd (lane_layout role) in
     ibind (read_memory (slot_offset role 0) FRAME_HEADER_SIZE m) (\<lambda>h0.
     ibind (read_memory (slot_offset role 1) FRAME_HEADER_SIZE m) (\<lambda>h1.
       Inr (case (parse_header h0 slot_size, parse_header h1 slot_size) of
           (None, None) \<Rightarrow> None
         | (Some f, None) \<Rightarrow> Some (fh_generation f)
         | (None, Some f) \<Rightarrow> Some (fh_generation f)
         | (Some f, Some f') \<Rightarrow> Some (max (fh_generation f) (fh_generation f'))))))"

definition seed_next_generation :: "platform_role \<Rightarrow> byte list \<Rightarrow> nat ipc" where
  "seed_next_generation role m =
    ibind (latest_generation role m) (\<lambda>latest.
      Inr (sat_add64 (case latest of None \<Rightarrow> 0 | Some g \<Rightarrow> g) 1))"

subsection \<open>The region header\<close>

definition region_header :: "nat \<Rightarrow> byte list" where
  "region_header session =
    (let header = replicate 32 0;
         header = copy_at 0 REGION_MAGIC header;
         header = copy_at 8 (le_bytes 4 PROTOCOL_VERSION) header;
         header = copy_at 12 (le_bytes 4 REGION_SIZE) header;
         header = copy_at 16 (le_bytes 8 session) header
     in copy_at 24 (le_bytes 4 (unat (checksum (take 24 header)))) header)"

definition initialize_region :: "nat \<Rightarrow> byte list \<Rightarrow> byte list ipc" where
  "initialize_region session m = write_memory 0 (region_header session) m"

definition validate_region :: "byte list \<Rightarrow> unit ipc" where
  "validate_region m =
    ibind (read_memory 0 32 m) (\<lambda>header.
      if take (length REGION_MAGIC) header \<noteq> REGION_MAGIC
         \<or> le_nat (slice 8 12 header) \<noteq> PROTOCOL_VERSION
         \<or> le_nat (slice 12 16 header) \<noteq> REGION_SIZE
         \<or> le_nat (slice 24 28 header) \<noteq> unat (checksum (take 24 header))
      then Inl InvalidHeader else Inr ())"

definition region_session :: "byte list \<Rightarrow> nat ipc" where
  "region_session m = ibind (read_memory 0 32 m) (\<lambda>header. Inr (le_nat (slice 16 24 header)))"

text \<open>
  \<open>attach_vpn_raw\<close> after the mapping: the checks, the session of the peer's socket and the first
  generation this process will write.
\<close>

definition attach_vpn :: "byte list \<Rightarrow> (nat \<times> nat) ipc" where
  "attach_vpn m =
    (if length m \<noteq> REGION_SIZE then Inl InvalidHeader
     else ibind (validate_region m) (\<lambda>_.
          ibind (region_session m) (\<lambda>session.
          ibind (seed_next_generation Vpn m) (\<lambda>next. Inr (session, next)))))"

subsection \<open>Publishing\<close>

text \<open>
  What one process holds: the envelope it accumulates and its generation counter. \<open>publish_state\<close>,
  \<open>publish_control\<close> and \<open>publish_telemetry\<close> update the envelope under its lock, take a copy, and
  only then draw a generation, so two publishers can interleave between the two.
\<close>

record ('s, 'c, 't) envelope =
  en_state :: "'s option"
  en_control :: "'c option"
  en_telemetry :: "'t option"

datatype ('s, 'c, 't) publication = PubState 's | PubControl 'c | PubTelemetry 't

definition merge_publication ::
  "('s, 'c, 't) publication \<Rightarrow> ('s, 'c, 't) envelope \<Rightarrow> ('s, 'c, 't) envelope" where
  "merge_publication p e = (case p of
     PubState s \<Rightarrow> e\<lparr>en_state := Some s\<rparr>
   | PubControl c \<Rightarrow> e\<lparr>en_control := Some c\<rparr>
   | PubTelemetry t \<Rightarrow> e\<lparr>en_telemetry := Some t\<rparr>)"

record ('s, 'c, 't) publisher =
  pb_role :: platform_role
  pb_published :: "('s, 'c, 't) envelope"
  pb_next :: nat

text \<open>The critical section of the envelope lock, and the rest of a publication.\<close>

definition publish_prepare ::
  "('s, 'c, 't) publication \<Rightarrow> ('s, 'c, 't) publisher \<Rightarrow> ('s, 'c, 't) publisher \<times> ('s, 'c, 't) envelope" where
  "publish_prepare p b =
    (let e = merge_publication p (pb_published b) in (b\<lparr>pb_published := e\<rparr>, e))"

definition publish_envelope ::
  "(('s, 'c, 't) envelope \<Rightarrow> string + byte list) \<Rightarrow> ('s, 'c, 't) envelope \<Rightarrow> ('s, 'c, 't) publisher \<Rightarrow>
   byte list \<Rightarrow> ('s, 'c, 't) publisher \<times> byte list ipc" where
  "publish_envelope encode e b m =
    (case encode e of Inl err \<Rightarrow> (b, Inl (Serialize err))
     | Inr content \<Rightarrow> (b\<lparr>pb_next := pb_next b + 1\<rparr>, write_frame (pb_role b) (pb_next b) content m))"

subsection \<open>Headers are read as they were written\<close>

lemmas size_defs = REGION_SIZE_def REGION_HEADER_SIZE_def UI_LANE_SIZE_def FRAME_HEADER_SIZE_def
  SLOT_COUNT_def

lemma slice_copy_at_after [byte_simps]:
  assumes "i + length ys \<le> length xs" "b \<le> i"
  shows "slice a b (copy_at i ys xs) = slice a b xs"
  using assms by (intro slice_nth_eq) (auto simp: nth_copy_at)

lemma slice_copy_at_before [byte_simps]:
  assumes "i + length ys \<le> length xs" "i + length ys \<le> a" "b \<le> length xs"
  shows "slice a b (copy_at i ys xs) = slice a b xs"
proof (cases "a \<le> b")
  case True
  then show ?thesis using assms by (intro slice_nth_eq) (auto simp: nth_copy_at)
next
  case False
  then show ?thesis by (simp add: slice_def)
qed

lemma slice_copy_at_exact [byte_simps]:
  "i + length ys \<le> length xs \<Longrightarrow> j = i + length ys \<Longrightarrow> slice i j (copy_at i ys xs) = ys"
  by (simp add: slice_copy_at_same)

lemma take_copy_at_after [byte_simps]:
  "i + length ys \<le> length xs \<Longrightarrow> k \<le> i \<Longrightarrow> take k (copy_at i ys xs) = take k xs"
  by (simp add: copy_at_def min_def)

lemma length_frame_header [simp]: "length (frame_header g c) = FRAME_HEADER_SIZE"
  by (simp add: frame_header_def Let_def size_defs)

lemma unat_u32_lt: "unat (w :: u32) < 4294967296"
proof -
  have "unat w < 2 ^ LENGTH(32)" by (rule unsigned_less)
  then show ?thesis by simp
qed

lemma parse_frame_header:
  assumes "g < 2 ^ 64" "length c \<le> slot_size - FRAME_HEADER_SIZE" "slot_size \<le> 2 ^ 32"
  shows "parse_header (frame_header g c) slot_size =
    Some \<lparr>fh_generation = g, fh_content_length = length c, fh_content_checksum = checksum c\<rparr>"
proof -
  define h where "h = copy_at 20 (le_bytes 4 (unat (checksum c))) (copy_at 16 (le_bytes 4 (length c))
    (copy_at 8 (le_bytes 8 g) (copy_at 4 (le_bytes 4 PROTOCOL_VERSION)
      (copy_at 0 (le_bytes 4 FRAME_MAGIC) (replicate FRAME_HEADER_SIZE 0)))))"
  have lh: "length h = 32" by (simp add: h_def size_defs)
  have f: "frame_header g c = copy_at 24 (le_bytes 4 (unat (checksum (take 24 h)))) h"
    by (simp add: frame_header_def h_def Let_def)
  have len: "length c < 4294967296" using assms(2,3) by (simp add: size_defs)
  have parts: "slice 0 4 (frame_header g c) = le_bytes 4 FRAME_MAGIC"
    "slice 4 8 (frame_header g c) = le_bytes 4 PROTOCOL_VERSION"
    "slice 8 16 (frame_header g c) = le_bytes 8 g"
    "slice 16 20 (frame_header g c) = le_bytes 4 (length c)"
    "slice 20 24 (frame_header g c) = le_bytes 4 (unat (checksum c))"
    "slice 24 28 (frame_header g c) = le_bytes 4 (unat (checksum (take 24 (frame_header g c))))"
    unfolding f using lh by (simp_all add: byte_simps) (simp_all add: h_def byte_simps size_defs)
  have le4: "unat (w :: u32) mod 4294967296 = unat w" for w
    using unat_u32_lt [of w] by (rule mod_less)
  show ?thesis
    using assms len
    by (simp add: parse_header_def parts le4 FRAME_MAGIC_def PROTOCOL_VERSION_def)
qed

lemma length_region_header [simp]: "length (region_header session) = 32"
  by (simp add: region_header_def Let_def REGION_MAGIC_def)

lemma region_header_parts:
  "take (length REGION_MAGIC) (region_header session) = REGION_MAGIC"
  "slice 8 12 (region_header session) = le_bytes 4 PROTOCOL_VERSION"
  "slice 12 16 (region_header session) = le_bytes 4 REGION_SIZE"
  "slice 16 24 (region_header session) = le_bytes 8 session"
  "slice 24 28 (region_header session) =
     le_bytes 4 (unat (checksum (take 24 (region_header session))))"
proof -
  define h where "h = copy_at 16 (le_bytes 8 session) (copy_at 12 (le_bytes 4 REGION_SIZE)
    (copy_at 8 (le_bytes 4 PROTOCOL_VERSION) (copy_at 0 REGION_MAGIC (replicate 32 0))))"
  have lm: "length REGION_MAGIC = 8" by (simp add: REGION_MAGIC_def)
  have lh: "length h = 32" by (simp add: h_def lm)
  have f: "region_header session = copy_at 24 (le_bytes 4 (unat (checksum (take 24 h)))) h"
    by (simp add: region_header_def h_def Let_def)
  have "take 8 h = REGION_MAGIC"
    using lm by (simp add: h_def byte_simps) (simp add: copy_at_def)
  then show "take (length REGION_MAGIC) (region_header session) = REGION_MAGIC"
    unfolding f lm using lh by (simp add: byte_simps)
  show "slice 8 12 (region_header session) = le_bytes 4 PROTOCOL_VERSION"
    "slice 12 16 (region_header session) = le_bytes 4 REGION_SIZE"
    "slice 16 24 (region_header session) = le_bytes 8 session"
    "slice 24 28 (region_header session) =
       le_bytes 4 (unat (checksum (take 24 (region_header session))))"
    unfolding f using lh by (simp_all add: byte_simps) (simp_all add: h_def byte_simps lm)
qed

lemma initialize_validate:
  assumes "length m = REGION_SIZE"
  shows "\<exists>m'. initialize_region session m = Inr m' \<and> validate_region m' = Inr () \<and>
     region_session m' = Inr (session mod 2 ^ 64)"
proof -
  define m' where "m' = copy_at 0 (region_header session) m"
  have len: "32 \<le> length m" using assms by (simp add: REGION_SIZE_def)
  have l': "32 \<le> length m'" using len by (simp add: m'_def)
  have h: "slice 0 32 m' = region_header session"
    using len unfolding m'_def by (intro slice_copy_at_exact) simp_all
  have le4: "unat (w :: u32) mod 4294967296 = unat w" for w
    using unat_u32_lt [of w] by (rule mod_less)
  have "initialize_region session m = Inr m'"
    using len by (simp add: initialize_region_def write_memory_def m'_def)
  moreover have "validate_region m' = Inr ()"
    using l' by (simp add: validate_region_def read_memory_def h region_header_parts le4
        PROTOCOL_VERSION_def REGION_SIZE_def)
  moreover have "region_session m' = Inr (session mod 2 ^ 64)"
    using l' by (simp add: region_session_def read_memory_def h region_header_parts)
  ultimately show ?thesis by blast
qed

subsection \<open>Slots and lanes do not overlap\<close>

lemma slot_bounds:
  assumes "i < 2"
  shows "slot_offset role i + snd (lane_layout role) \<le> REGION_SIZE"
    and "REGION_HEADER_SIZE \<le> slot_offset role i" and "FRAME_HEADER_SIZE \<le> snd (lane_layout role)"
    and "snd (lane_layout role) \<le> 2 ^ 32"
  using assms by (cases role; simp add: slot_offset_def lane_layout_def size_defs Let_def)+

lemma slots_disjoint:
  assumes "i < 2" "j < 2" "(role, i) \<noteq> (role', j)"
  shows "slot_offset role i + snd (lane_layout role) \<le> slot_offset role' j \<or>
         slot_offset role' j + snd (lane_layout role') \<le> slot_offset role i"
proof -
  have "i = 0 \<or> i = 1" "j = 0 \<or> j = 1" using assms by auto
  then show ?thesis
    using assms(3) by (cases role; cases role') (auto simp: slot_offset_def lane_layout_def size_defs Let_def)
qed

definition slot_bytes :: "platform_role \<Rightarrow> nat \<Rightarrow> byte list \<Rightarrow> byte list" where
  "slot_bytes role i m = slice (slot_offset role i) (slot_offset role i + snd (lane_layout role)) m"

definition fits :: "platform_role \<Rightarrow> byte list \<Rightarrow> bool" where
  "fits role content \<longleftrightarrow> length content + FRAME_HEADER_SIZE \<le> snd (lane_layout role)"

text \<open>No access of the protocol leaves the mapping.\<close>

lemma lane_access:
  assumes "length m = REGION_SIZE" "i < 2" "len + a \<le> snd (lane_layout role)"
  shows "read_memory (slot_offset role i + a) len m =
      Inr (slice (slot_offset role i + a) (slot_offset role i + a + len) m)"
    and "length data = len \<Longrightarrow> write_memory (slot_offset role i + a) data m =
      Inr (copy_at (slot_offset role i + a) data m)"
proof -
  have b: "slot_offset role i + a + len \<le> length m" using slot_bounds(1) [OF assms(2), of role] assms by linarith
  show "read_memory (slot_offset role i + a) len m =
      Inr (slice (slot_offset role i + a) (slot_offset role i + a + len) m)"
    using b by (simp add: read_memory_def)
  show "length data = len \<Longrightarrow> write_memory (slot_offset role i + a) data m =
      Inr (copy_at (slot_offset role i + a) data m)"
    using b by (simp add: write_memory_def)
qed

lemma slot_bytes_other:
  assumes "length m = REGION_SIZE" "i < 2" "j < 2" "(role, i) \<noteq> (role', j)"
    and "length data + a \<le> snd (lane_layout role)"
  shows "slot_bytes role' j (copy_at (slot_offset role i + a) data m) = slot_bytes role' j m"
proof -
  have b: "slot_offset role i + a + length data \<le> length m"
    using slot_bounds(1) [OF assms(2), of role] assms(1,5) by linarith
  have e: "slot_offset role' j + snd (lane_layout role') \<le> length m"
    using slot_bounds(1) [OF assms(3), of role'] assms(1) by simp
  from slots_disjoint [OF assms(2,3,4)] show ?thesis
  proof
    assume "slot_offset role i + snd (lane_layout role) \<le> slot_offset role' j"
    then show ?thesis unfolding slot_bytes_def using b e assms(5) by (intro slice_copy_at_before) auto
  next
    assume "slot_offset role' j + snd (lane_layout role') \<le> slot_offset role i"
    then show ?thesis unfolding slot_bytes_def using b by (intro slice_copy_at_after) auto
  qed
qed

subsection \<open>The frame a slot holds\<close>

definition slot_header :: "platform_role \<Rightarrow> nat \<Rightarrow> byte list \<Rightarrow> byte list" where
  "slot_header role i m = slice (slot_offset role i) (slot_offset role i + FRAME_HEADER_SIZE) m"

definition slot_content :: "platform_role \<Rightarrow> nat \<Rightarrow> nat \<Rightarrow> byte list \<Rightarrow> byte list" where
  "slot_content role i len m =
    slice (slot_offset role i + FRAME_HEADER_SIZE) (slot_offset role i + FRAME_HEADER_SIZE + len) m"

definition holds :: "platform_role \<Rightarrow> nat \<Rightarrow> byte list \<Rightarrow> nat \<Rightarrow> byte list \<Rightarrow> bool" where
  "holds role i m g c \<longleftrightarrow> slot_header role i m = frame_header g c \<and> slot_content role i (length c) m = c"

definition older :: "platform_role \<Rightarrow> nat \<Rightarrow> byte list \<Rightarrow> nat \<Rightarrow> bool" where
  "older role i m g = (case parse_header (slot_header role i m) (snd (lane_layout role)) of
     None \<Rightarrow> True | Some f \<Rightarrow> fh_generation f < g)"

text \<open>The lane's newest frame is number \<open>g\<close> with payload \<open>c\<close>, and the other slot is older.\<close>

definition lane_at :: "platform_role \<Rightarrow> byte list \<Rightarrow> nat \<Rightarrow> byte list \<Rightarrow> bool" where
  "lane_at role m g c \<longleftrightarrow> length m = REGION_SIZE \<and> fits role c \<and> g < 2 ^ 64 \<and>
     holds role (g mod 2) m g c \<and> older role (Suc g mod 2) m g"

lemma slot_header_bytes:
  "slot_bytes role i m = slot_bytes role i m' \<Longrightarrow> slot_header role i m = slot_header role i m'"
proof -
  have "32 \<le> snd (lane_layout role)" using slot_bounds(3) [of 0 role] by (simp add: size_defs)
  then have "slot_header role i m = take 32 (slot_bytes role i m)" for m
    by (simp add: slot_header_def slot_bytes_def slice_def size_defs min_def)
  then show "slot_bytes role i m = slot_bytes role i m' \<Longrightarrow> ?thesis" by simp
qed

lemma slot_content_bytes:
  assumes "len + FRAME_HEADER_SIZE \<le> snd (lane_layout role)"
    and "slot_bytes role i m = slot_bytes role i m'"
  shows "slot_content role i len m = slot_content role i len m'"
proof -
  have "slot_content role i len m = take len (drop 32 (slot_bytes role i m))" for m
    using assms(1) by (simp add: slot_content_def slot_bytes_def slice_def size_defs drop_take min_def
        add.commute)
  then show ?thesis using assms(2) by simp
qed

lemma holds_bytes:
  "fits role c \<Longrightarrow> slot_bytes role i m = slot_bytes role i m' \<Longrightarrow> holds role i m g c = holds role i m' g c"
  using slot_header_bytes [of role i m m'] slot_content_bytes [of "length c" role i m m']
  by (simp add: holds_def fits_def)

lemma older_bytes:
  "slot_bytes role i m = slot_bytes role i m' \<Longrightarrow> older role i m g = older role i m' g"
  using slot_header_bytes [of role i m m'] by (simp add: older_def)

lemma header_read:
  assumes "length m = REGION_SIZE" "i < 2"
  shows "read_memory (slot_offset role i) FRAME_HEADER_SIZE m = Inr (slot_header role i m)"
  using lane_access(1) [of m i FRAME_HEADER_SIZE 0 role] slot_bounds(3) [OF assms(2), of role] assms
  by (simp add: slot_header_def)

lemma content_read:
  assumes "length m = REGION_SIZE" "i < 2" "len + FRAME_HEADER_SIZE \<le> snd (lane_layout role)"
  shows "read_memory (slot_offset role i + FRAME_HEADER_SIZE) len m = Inr (slot_content role i len m)"
  using lane_access(1) [of m i len FRAME_HEADER_SIZE role] assms by (simp add: slot_content_def)

lemma write_content_effect:
  assumes "length m = REGION_SIZE" "fits role c"
  obtains m' where "write_content role g c m = Inr m'" "length m' = REGION_SIZE"
    "slot_header role (g mod 2) m' = slot_header role (g mod 2) m"
    "slot_content role (g mod 2) (length c) m' = c"
    "\<And>role' j. j < 2 \<Longrightarrow> (role', j) \<noteq> (role, g mod 2) \<Longrightarrow>
       slot_bytes role' j m' = slot_bytes role' j m"
proof -
  let ?i = "g mod 2" and ?o = "slot_offset role (g mod 2) + FRAME_HEADER_SIZE"
  have i: "?i < 2" by simp
  have f: "length c + FRAME_HEADER_SIZE \<le> snd (lane_layout role)" using assms(2) by (simp add: fits_def)
  have b: "?o + length c \<le> length m" using slot_bounds(1) [OF i, of role] f assms(1) by linarith
  show ?thesis
  proof (rule that)
    show "write_content role g c m = Inr (copy_at ?o c m)"
      using b f by (simp add: write_content_def write_memory_def SLOT_COUNT_def Let_def)
    show "length (copy_at ?o c m) = REGION_SIZE" using b assms(1) by simp
    show "slot_header role ?i (copy_at ?o c m) = slot_header role ?i m"
      unfolding slot_header_def using b by (intro slice_copy_at_after) auto
    show "slot_content role ?i (length c) (copy_at ?o c m) = c"
      unfolding slot_content_def using b by (intro slice_copy_at_exact) auto
    show "slot_bytes role' j (copy_at ?o c m) = slot_bytes role' j m"
      if "j < 2" "(role', j) \<noteq> (role, ?i)" for role' j
      using that f by (intro slot_bytes_other [OF assms(1) i]) auto
  qed
qed

lemma write_frame_effect:
  assumes "length m = REGION_SIZE" "fits role c" "write_content role g c m = Inr m1"
    and "length m1 = REGION_SIZE" "slot_content role (g mod 2) (length c) m1 = c"
  obtains m' where "write_frame role g c m = Inr m'" "length m' = REGION_SIZE"
    "holds role (g mod 2) m' g c"
    "\<And>role' j. j < 2 \<Longrightarrow> (role', j) \<noteq> (role, g mod 2) \<Longrightarrow>
       slot_bytes role' j m' = slot_bytes role' j m1"
proof -
  let ?i = "g mod 2" and ?o = "slot_offset role (g mod 2)"
  let ?m = "copy_at ?o (frame_header g c) m1"
  have i: "?i < 2" by simp
  have f: "length c + FRAME_HEADER_SIZE \<le> snd (lane_layout role)" using assms(2) by (simp add: fits_def)
  have b: "?o + snd (lane_layout role) \<le> length m1" using slot_bounds(1) [OF i, of role] assms(4) by simp
  have b': "?o + length (frame_header g c) \<le> length m1" using b f by simp
  show ?thesis
  proof (rule that)
    show "write_frame role g c m = Inr ?m"
      using assms(3) b' by (simp add: write_frame_def write_memory_def SLOT_COUNT_def)
    show "length ?m = REGION_SIZE" using b' assms(4) by simp
    have "slot_header role ?i ?m = frame_header g c"
      unfolding slot_header_def using b' by (intro slice_copy_at_exact) auto
    moreover have "slot_content role ?i (length c) ?m = slot_content role ?i (length c) m1"
      unfolding slot_content_def using b b' f by (intro slice_copy_at_before) auto
    ultimately show "holds role ?i ?m g c" using assms(5) by (simp add: holds_def)
    show "slot_bytes role' j ?m = slot_bytes role' j m1"
      if "j < 2" "(role', j) \<noteq> (role, ?i)" for role' j
      using that f slot_bytes_other [OF assms(4) i that(1), of role role' "frame_header g c" 0]
      by auto
  qed
qed

lemma holds_parse:
  assumes "holds role i m g c" "fits role c" "g < 2 ^ 64" "i < 2"
  shows "parse_header (slot_header role i m) (snd (lane_layout role)) =
    Some \<lparr>fh_generation = g, fh_content_length = length c, fh_content_checksum = checksum c\<rparr>"
  using assms slot_bounds(4) [OF assms(4), of role]
  by (simp add: holds_def fits_def parse_frame_header)

lemma read_frame_holds:
  assumes "holds role i m1 g c" "holds role i m2 g c" "holds role i m3 g c" "fits role c" "g < 2 ^ 64"
    and "length m1 = REGION_SIZE" "length m2 = REGION_SIZE" "length m3 = REGION_SIZE" "i < 2"
  shows "read_frame (slot_offset role i) (snd (lane_layout role)) ((m1, m2, m3) # rest) =
     Inr (Some (g, c))"
proof -
  have "slot_header role i m1 = slot_header role i m3" "slot_content role i (length c) m2 = c"
    using assms by (simp_all add: holds_def)
  then show ?thesis
    using assms holds_parse [OF assms(1,4,5,9)] by (simp add: header_read content_read fits_def)
qed

lemma other_slot: "i < 2 \<Longrightarrow> i \<noteq> g mod 2 \<Longrightarrow> i = Suc g mod (2 :: nat)"
  by (cases "even g") (auto simp: mod2_eq_if)

text \<open>A publication moves the lane to the next frame and leaves the other lane alone.\<close>

lemma write_frame_lane:
  assumes "lane_at role m g c" "fits role c'" "Suc g < 2 ^ 64"
  shows "\<exists>m'. write_frame role (Suc g) c' m = Inr m' \<and> lane_at role m' (Suc g) c' \<and>
     (\<forall>role' j. role' \<noteq> role \<longrightarrow> j < 2 \<longrightarrow> slot_bytes role' j m' = slot_bytes role' j m)"
proof -
  have len: "length m = REGION_SIZE" using assms by (simp add: lane_at_def)
  obtain m1 where m1: "write_content role (Suc g) c' m = Inr m1" "length m1 = REGION_SIZE"
      "slot_content role (Suc g mod 2) (length c') m1 = c'"
      "\<And>role' j. j < 2 \<Longrightarrow> (role', j) \<noteq> (role, Suc g mod 2) \<Longrightarrow>
         slot_bytes role' j m1 = slot_bytes role' j m"
    using write_content_effect [OF len assms(2), of "Suc g"] by metis
  obtain m' where m': "write_frame role (Suc g) c' m = Inr m'" "length m' = REGION_SIZE"
      "holds role (Suc g mod 2) m' (Suc g) c'"
      "\<And>role' j. j < 2 \<Longrightarrow> (role', j) \<noteq> (role, Suc g mod 2) \<Longrightarrow>
         slot_bytes role' j m' = slot_bytes role' j m1"
    using write_frame_effect [OF len assms(2) m1(1-3)] by metis
  have ne: "g mod 2 \<noteq> Suc g mod 2" by (cases "even g") (auto simp: mod2_eq_if)
  have "slot_bytes role (g mod 2) m' = slot_bytes role (g mod 2) m"
    using m1(4) m'(4) ne by simp
  then have "holds role (g mod 2) m' g c"
    using assms(1) holds_bytes by (metis lane_at_def)
  then have "older role (Suc (Suc g) mod 2) m' (Suc g)"
    using assms(1) holds_parse [of role "g mod 2" m' g c] by (simp add: lane_at_def older_def)
  then have "lane_at role m' (Suc g) c'" using m' assms(2,3) by (simp add: lane_at_def)
  moreover have "slot_bytes role' j m' = slot_bytes role' j m" if "role' \<noteq> role" "j < 2" for role' j
    using that m1(4) m'(4) by simp
  ultimately show ?thesis using m'(1) by blast
qed

subsection \<open>Reading while the peer writes\<close>

text \<open>
  The reader's snapshots while frame \<open>Suc g\<close> is written: the region before, with the new payload, or
  with the new header. The snapshots of an attempt are in the order of the writer's steps as far as
  it matters: once the new header is visible, so is the new payload.
\<close>

definition write_stages :: "platform_role \<Rightarrow> nat \<Rightarrow> byte list \<Rightarrow> byte list \<Rightarrow> byte list list" where
  "write_stages role g c m =
    (case write_content role g c m of Inl _ \<Rightarrow> [m]
     | Inr m1 \<Rightarrow> (case write_frame role g c m of Inl _ \<Rightarrow> [m, m1] | Inr m2 \<Rightarrow> [m, m1, m2]))"

definition ordered_attempts :: "byte list list \<Rightarrow> attempt list \<Rightarrow> bool" where
  "ordered_attempts stages attempts \<longleftrightarrow> (\<forall>(x, y, z) \<in> set attempts.
     \<exists>i \<le> length stages - 1. \<exists>j \<le> length stages - 1. \<exists>k \<le> length stages - 1.
       i \<le> j \<and> j \<le> k \<and> x = stages ! i \<and> y = stages ! j \<and> z = stages ! k)"

lemma read_frame_during_write:
  assumes stages: "stages = [m0, m1, m2]" "ordered_attempts stages attempts"
    and len: "length m0 = REGION_SIZE" "length m1 = REGION_SIZE" "length m2 = REGION_SIZE" "i < 2"
    and old: "older role i m0 g" "slot_header role i m1 = slot_header role i m0"
    and new: "holds role i m2 g' c'" "fits role c'" "g' < 2 ^ 64"
  shows "\<exists>r. read_frame (slot_offset role i) (snd (lane_layout role)) attempts = Inr r \<and>
     (\<forall>k x. r = Some (k, x) \<longrightarrow> k < g \<or> (k = g' \<and> x = c'))"
  using stages(2)
proof (induction attempts)
  case (Cons a attempts)
  obtain x y z where a: "a = (x, y, z)" by (cases a) auto
  have rest: "ordered_attempts stages attempts" and "\<exists>i \<le> 2. \<exists>j \<le> 2. \<exists>k \<le> 2.
       i \<le> j \<and> j \<le> k \<and> x = stages ! i \<and> y = stages ! j \<and> z = stages ! k"
    using Cons.prems by (simp_all add: ordered_attempts_def a stages(1) numeral_2_eq_2)
  then obtain p q where pq: "p \<le> q" "q \<le> 2" "x = stages ! p" "y = stages ! q"
    and z: "\<exists>r \<le> 2. z = stages ! r" by blast
  have lens: "length x = REGION_SIZE" "length y = REGION_SIZE" "length z = REGION_SIZE"
    using pq z len by (auto simp: stages(1) nth_Cons' le_Suc_eq numeral_2_eq_2)
  let ?hx = "slot_header role i x"
  have cases: "p = 2 \<and> y = m2 \<or> ?hx = slot_header role i m0"
    using pq old by (auto simp: stages(1) nth_Cons' numeral_2_eq_2 le_Suc_eq)
  have px: "p = 2 \<Longrightarrow> x = m2" using pq by (simp add: stages(1))
  show ?case
  proof (cases "parse_header ?hx (snd (lane_layout role))")
    case None
    then show ?thesis using Cons.IH [OF rest] lens len(4) by (simp add: a header_read)
  next
    case (Some f)
    have fl: "fh_content_length f + FRAME_HEADER_SIZE \<le> snd (lane_layout role)"
      using Some slot_bounds(3) [OF len(4), of role]
      by (auto simp: parse_header_def Let_def split: if_splits)
    have good: "fh_generation f < g \<or>
        (fh_generation f = g' \<and> slot_content role i (fh_content_length f) y = c')"
      using cases
    proof
      assume "p = 2 \<and> y = m2"
      then show ?thesis
        using Some new holds_parse [OF new(1,2,3) len(4)] px by (auto simp: holds_def)
    next
      assume "?hx = slot_header role i m0"
      then show ?thesis using Some old(1) by (simp add: older_def)
    qed
    show ?thesis
      using Cons.IH [OF rest] lens len(4) Some fl good by (simp add: a header_read content_read)
  qed
qed simp

lemma read_frame_other_slot:
  assumes "ordered_attempts stages attempts" "attempts \<noteq> []" "stages \<noteq> []"
    and "\<forall>m \<in> set stages. holds role i m g c \<and> length m = REGION_SIZE"
    and "fits role c" "g < 2 ^ 64" "i < 2"
  shows "read_frame (slot_offset role i) (snd (lane_layout role)) attempts = Inr (Some (g, c))"
proof -
  obtain x y z rest where a: "attempts = (x, y, z) # rest"
    using assms(2) by (metis list.exhaust prod_cases3)
  have "x \<in> set stages" "y \<in> set stages" "z \<in> set stages"
  proof -
    obtain n where n: "length stages = Suc n" using assms(3) by (cases stages) auto
    then show "x \<in> set stages" "y \<in> set stages" "z \<in> set stages"
      using assms(1) by (auto simp: ordered_attempts_def a)
  qed
  then show ?thesis unfolding a using assms by (intro read_frame_holds) auto
qed

lemma newer_pair:
  assumes "\<forall>k x. r = Some (k, x) \<longrightarrow> k < g \<or> (k = Suc g \<and> x = c')"
  shows "\<exists>k x. newer (newer None (Some (g, c))) r = Some (k, x) \<and> x \<in> {c, c'}"
    and "\<exists>k x. newer (newer None r) (Some (g, c)) = Some (k, x) \<and> x \<in> {c, c'}"
proof -
  show "\<exists>k x. newer (newer None (Some (g, c))) r = Some (k, x) \<and> x \<in> {c, c'}"
    using assms by (cases r) (auto simp: newer_def)
  show "\<exists>k x. newer (newer None r) (Some (g, c)) = Some (k, x) \<and> x \<in> {c, c'}"
    using assms by (cases r) (auto simp: newer_def)
qed

lemma read_lane_during_write_frames:
  assumes lane: "lane_at role m g c" and new: "fits role c'" "Suc g < 2 ^ 64"
    and att: "ordered_attempts (write_stages role (Suc g) c' m) attempts0"
      "ordered_attempts (write_stages role (Suc g) c' m) attempts1" "attempts0 \<noteq> []" "attempts1 \<noteq> []"
  shows "\<exists>x \<in> {c, c'}. read_lane decode role attempts0 attempts1 =
     (case decode x of Inl e \<Rightarrow> Inl (Serialize e) | Inr envelope \<Rightarrow> Inr (Some envelope))"
proof -
  have len: "length m = REGION_SIZE" and fits: "fits role c" and g: "g < 2 ^ 64"
    and hold: "holds role (g mod 2) m g c" and old: "older role (Suc g mod 2) m g"
    using lane by (simp_all add: lane_at_def)
  obtain m1 where m1: "write_content role (Suc g) c' m = Inr m1" "length m1 = REGION_SIZE"
      "slot_header role (Suc g mod 2) m1 = slot_header role (Suc g mod 2) m"
      "slot_content role (Suc g mod 2) (length c') m1 = c'"
      "\<And>role' j. j < 2 \<Longrightarrow> (role', j) \<noteq> (role, Suc g mod 2) \<Longrightarrow>
         slot_bytes role' j m1 = slot_bytes role' j m"
    using write_content_effect [OF len new(1), of "Suc g"] by metis
  obtain m2 where m2: "write_frame role (Suc g) c' m = Inr m2" "length m2 = REGION_SIZE"
      "holds role (Suc g mod 2) m2 (Suc g) c'"
      "\<And>role' j. j < 2 \<Longrightarrow> (role', j) \<noteq> (role, Suc g mod 2) \<Longrightarrow>
         slot_bytes role' j m2 = slot_bytes role' j m1"
    using write_frame_effect [OF len new(1) m1(1,2,4)] by metis
  define stages where "stages = [m, m1, m2]"
  have st: "write_stages role (Suc g) c' m = stages" by (simp add: write_stages_def m1(1) m2(1) stages_def)
  have ne: "g mod 2 \<noteq> Suc g mod 2" by (cases "even g") (auto simp: mod2_eq_if)
  have kept: "slot_bytes role (g mod 2) m1 = slot_bytes role (g mod 2) m"
    "slot_bytes role (g mod 2) m2 = slot_bytes role (g mod 2) m"
    using m1(5) m2(4) ne by simp_all
  have all: "\<forall>x \<in> set stages. holds role (g mod 2) x g c \<and> length x = REGION_SIZE"
    using hold holds_bytes [OF fits kept(1)] holds_bytes [OF fits kept(2)] len m1(2) m2(2)
    by (simp add: stages_def)
  have other: "read_frame (slot_offset role (g mod 2)) (snd (lane_layout role)) a = Inr (Some (g, c))"
    if "ordered_attempts stages a" "a \<noteq> []" for a
    using that all fits g by (intro read_frame_other_slot) (auto simp: stages_def)
  have writing: "\<exists>r. read_frame (slot_offset role (Suc g mod 2)) (snd (lane_layout role)) a = Inr r \<and>
     (\<forall>k x. r = Some (k, x) \<longrightarrow> k < g \<or> (k = Suc g \<and> x = c'))" if "ordered_attempts stages a" for a
    using that len m1 m2 old new by (intro read_frame_during_write [OF stages_def]) simp_all
  show ?thesis
  proof (cases "even g")
    case True
    then have i: "g mod 2 = 0" "Suc g mod 2 = 1" by (simp_all add: mod2_eq_if)
    obtain r where r: "read_frame (slot_offset role 1) (snd (lane_layout role)) attempts1 = Inr r"
        "\<forall>k x. r = Some (k, x) \<longrightarrow> k < g \<or> (k = Suc g \<and> x = c')"
      using writing att(2) i(2) st by metis
    obtain k x where "newer (newer None (Some (g, c))) r = Some (k, x)" "x \<in> {c, c'}"
      using newer_pair(1) [OF r(2)] by blast
    then show ?thesis
      using other [of attempts0] att i(1) st r(1) by (intro bexI [of _ x]) (simp_all add: read_lane_def Let_def)
  next
    case False
    then have i: "g mod 2 = 1" "Suc g mod 2 = 0" by (simp_all add: mod2_eq_if)
    obtain r where r: "read_frame (slot_offset role 0) (snd (lane_layout role)) attempts0 = Inr r"
        "\<forall>k x. r = Some (k, x) \<longrightarrow> k < g \<or> (k = Suc g \<and> x = c')"
      using writing att(1) i(2) st by metis
    obtain k x where "newer (newer None r) (Some (g, c)) = Some (k, x)" "x \<in> {c, c'}"
      using newer_pair(2) [OF r(2)] by blast
    then show ?thesis
      using other [of attempts1] att i(1) st r(1) by (intro bexI [of _ x]) (simp_all add: read_lane_def Let_def)
  qed
qed

text \<open>A lane nobody writes to is read as its newest frame, and a new process continues behind it.\<close>

lemma older_read:
  assumes "older role i m g" "length m = REGION_SIZE" "i < 2"
  shows "\<exists>r. read_frame (slot_offset role i) (snd (lane_layout role)) [(m, m, m)] = Inr r \<and>
     (\<forall>k x. r = Some (k, x) \<longrightarrow> k < g)"
proof (cases "parse_header (slot_header role i m) (snd (lane_layout role))")
  case None
  then show ?thesis using assms by (simp add: header_read)
next
  case (Some f)
  then have "fh_content_length f + FRAME_HEADER_SIZE \<le> snd (lane_layout role)"
    using slot_bounds(3) [OF assms(3), of role] by (auto simp: parse_header_def Let_def split: if_splits)
  then show ?thesis using assms Some by (simp add: header_read content_read older_def)
qed

lemma read_lane_at:
  assumes "lane_at role m g c"
  shows "read_lane decode role [(m, m, m)] [(m, m, m)] =
     (case decode c of Inl e \<Rightarrow> Inl (Serialize e) | Inr envelope \<Rightarrow> Inr (Some envelope))"
proof -
  have len: "length m = REGION_SIZE" and fits: "fits role c" and g: "g < 2 ^ 64"
    and hold: "holds role (g mod 2) m g c" and old: "older role (Suc g mod 2) m g"
    using assms by (simp_all add: lane_at_def)
  have other: "read_frame (slot_offset role (g mod 2)) (snd (lane_layout role)) [(m, m, m)] = Inr (Some (g, c))"
    using len fits g hold by (intro read_frame_holds) auto
  obtain r where r: "read_frame (slot_offset role (Suc g mod 2)) (snd (lane_layout role)) [(m, m, m)] = Inr r"
      "\<forall>k x. r = Some (k, x) \<longrightarrow> k < g"
    using older_read [OF old len] by auto
  show ?thesis
  proof (cases "even g")
    case True
    then have i: "g mod 2 = 0" "Suc g mod 2 = 1" by (simp_all add: mod2_eq_if)
    have "newer (newer None (Some (g, c))) r = Some (g, c)" using r(2) by (cases r) (auto simp: newer_def)
    then show ?thesis using other r(1) unfolding i read_lane_def by (simp add: Let_def)
  next
    case False
    then have i: "g mod 2 = 1" "Suc g mod 2 = 0" by (simp_all add: mod2_eq_if)
    have "newer (newer None r) (Some (g, c)) = Some (g, c)" using r(2) by (cases r) (auto simp: newer_def)
    then show ?thesis using other r(1) unfolding i read_lane_def by (simp add: Let_def)
  qed
qed

lemma latest_generation_at:
  assumes "lane_at role m g c"
  shows "latest_generation role m = Inr (Some g)"
proof -
  have len: "length m = REGION_SIZE" and fits: "fits role c" and g: "g < 2 ^ 64"
    and hold: "holds role (g mod 2) m g c" and old: "older role (Suc g mod 2) m g"
    using assms by (simp_all add: lane_at_def)
  have p: "parse_header (slot_header role (g mod 2) m) (snd (lane_layout role)) =
    Some \<lparr>fh_generation = g, fh_content_length = length c, fh_content_checksum = checksum c\<rparr>"
    using hold fits g by (intro holds_parse) auto
  show ?thesis
  proof (cases "even g")
    case True
    then have i: "g mod 2 = 0" "Suc g mod 2 = 1" by (simp_all add: mod2_eq_if)
    show ?thesis using p old unfolding i
      by (auto simp: latest_generation_def header_read len Let_def older_def split: option.splits)
  next
    case False
    then have i: "g mod 2 = 1" "Suc g mod 2 = 0" by (simp_all add: mod2_eq_if)
    show ?thesis using p old unfolding i
      by (auto simp: latest_generation_def header_read len Let_def older_def split: option.splits)
  qed
qed

subsection \<open>The first frame, and the publishers of one process\<close>

lemma le_nat_zeros: "le_nat (replicate n 0) = 0"
  by (induction n) auto

lemma parse_zero_header: "parse_header (replicate FRAME_HEADER_SIZE 0) slot_size = None"
  by (simp add: parse_header_def slice_def size_defs le_nat_zeros FRAME_MAGIC_def)

definition lane_empty :: "platform_role \<Rightarrow> byte list \<Rightarrow> bool" where
  "lane_empty role m \<longleftrightarrow> length m = REGION_SIZE \<and>
     (\<forall>i < 2. slot_header role i m = replicate FRAME_HEADER_SIZE 0)"

lemma slice_replicate: "j \<le> n \<Longrightarrow> slice i j (replicate n x) = replicate (j - i) x"
  by (simp add: slice_def min_def)

lemma fresh_region_empty:
  assumes "n = REGION_SIZE"
  shows "lane_empty role (replicate n 0)"
proof -
  have "slot_header role i (replicate n 0) = replicate FRAME_HEADER_SIZE 0" if "i < 2" for i
  proof -
    have "slot_offset role i + FRAME_HEADER_SIZE \<le> n"
      using slot_bounds(1,3) [OF that, of role] assms by linarith
    then show ?thesis by (simp only: slot_header_def slice_replicate add_diff_cancel_left')
  qed
  with assms show ?thesis unfolding lane_empty_def length_replicate by blast
qed

lemma write_first_frame:
  assumes "lane_empty role m" "fits role c" "g < 2 ^ 64"
  shows "\<exists>m'. write_frame role g c m = Inr m' \<and> lane_at role m' g c"
proof -
  have len: "length m = REGION_SIZE" using assms by (simp add: lane_empty_def)
  obtain m1 where m1: "write_content role g c m = Inr m1" "length m1 = REGION_SIZE"
      "slot_content role (g mod 2) (length c) m1 = c"
      "\<And>role' j. j < 2 \<Longrightarrow> (role', j) \<noteq> (role, g mod 2) \<Longrightarrow>
         slot_bytes role' j m1 = slot_bytes role' j m"
    using write_content_effect [OF len assms(2), of g] by metis
  obtain m' where m': "write_frame role g c m = Inr m'" "length m' = REGION_SIZE"
      "holds role (g mod 2) m' g c"
      "\<And>role' j. j < 2 \<Longrightarrow> (role', j) \<noteq> (role, g mod 2) \<Longrightarrow>
         slot_bytes role' j m' = slot_bytes role' j m1"
    using write_frame_effect [OF len assms(2) m1(1-3)] by metis
  have ne: "g mod 2 \<noteq> Suc g mod 2" by (cases "even g") (auto simp: mod2_eq_if)
  then have "slot_bytes role (Suc g mod 2) m' = slot_bytes role (Suc g mod 2) m"
    using m1(4) m'(4) by simp
  then have "slot_header role (Suc g mod 2) m' = replicate FRAME_HEADER_SIZE 0"
    using assms(1) slot_header_bytes [of role "Suc g mod 2" m' m] unfolding lane_empty_def by simp
  then have "older role (Suc g mod 2) m' g" by (simp add: older_def parse_zero_header)
  then show ?thesis using m' assms by (auto simp: lane_at_def)
qed

text \<open>
  Two publishers of one process whose envelopes are copied in one order and numbered in the other:
  the older copy becomes the newest frame, without the other publisher's part.
\<close>

lemma publications_reordered:
  assumes lane: "lane_at (pb_role b) m g c" "pb_next b = Suc g" "Suc (Suc g) < 2 ^ 64"
    and e1: "publish_prepare p1 b = (b1, e1)" and e2: "publish_prepare p2 b1 = (b2, e2)"
    and enc: "encode e1 = Inr c1" "encode e2 = Inr c2" "fits (pb_role b) c1" "fits (pb_role b) c2"
  shows "\<exists>b3 m3 b4 m4. publish_envelope encode e2 b2 m = (b3, Inr m3) \<and>
     publish_envelope encode e1 b3 m3 = (b4, Inr m4) \<and> pb_published b4 = e2 \<and>
     lane_at (pb_role b) m4 (Suc (Suc g)) c1"
proof -
  have b: "pb_role b2 = pb_role b" "pb_next b2 = Suc g" "pb_published b2 = e2"
    using e1 e2 lane(2) by (auto simp: publish_prepare_def Let_def)
  obtain m3 where m3: "write_frame (pb_role b) (Suc g) c2 m = Inr m3" "lane_at (pb_role b) m3 (Suc g) c2"
    using write_frame_lane [OF lane(1) enc(4)] lane(3) by fastforce
  obtain m4 where m4: "write_frame (pb_role b) (Suc (Suc g)) c1 m3 = Inr m4"
      "lane_at (pb_role b) m4 (Suc (Suc g)) c1"
    using write_frame_lane [OF m3(2) enc(3)] lane(3) by fastforce
  show ?thesis using b enc m3 m4 by (simp add: publish_envelope_def)
qed

text \<open>
  A payload that is too large still uses up a generation: the next frame then goes to the slot that
  holds the newest one.
\<close>

lemma oversized_publication:
  assumes "encode e = Inr content" "\<not> fits (pb_role b) content"
    "FRAME_HEADER_SIZE \<le> snd (lane_layout (pb_role b))"
  shows "\<exists>err. publish_envelope encode e b m = (b\<lparr>pb_next := pb_next b + 1\<rparr>, Inl err)"
proof -
  have "snd (lane_layout (pb_role b)) - FRAME_HEADER_SIZE < length content"
    using assms(2,3) by (simp add: fits_def)
  then show ?thesis
    using assms(1) by (simp add: publish_envelope_def write_frame_def write_content_def Let_def)
qed

text \<open>A lane in use exists: the first frame on a fresh region.\<close>

lemma small_fits: "length c \<le> 8 \<Longrightarrow> fits Ui c"
  by (simp add: fits_def lane_layout_def size_defs)

lemma some_lane: "length c \<le> 8 \<Longrightarrow> \<exists>m. lane_at Ui m 0 c"
  using write_first_frame [OF fresh_region_empty [OF refl] small_fits, of c 0] by auto

subsection \<open>Further facts\<close>

text \<open>
  Publishing a frame that fits moves the publisher's lane of the shared region to exactly that
  frame, which latest_generation and an undisturbed read_lane then find, and leaves every slot of
  the other lane byte for byte alone.
\<close>

lemma ipc_publish_lane:
  assumes "lane_at role m g c" "fits role c'" "Suc g < 2 ^ 64"
  shows "\<exists>m'. write_frame role (Suc g) c' m = Inr m' \<and> latest_generation role m' = Inr (Some (Suc g)) \<and>
     read_lane decode role [(m', m', m')] [(m', m', m')] =
       (case decode c' of Inl e \<Rightarrow> Inl (Serialize e) | Inr envelope \<Rightarrow> Inr (Some envelope)) \<and>
     (\<forall>role' j. role' \<noteq> role \<longrightarrow> j < 2 \<longrightarrow> slot_bytes role' j m' = slot_bytes role' j m)"
proof -
  obtain m' where m': "write_frame role (Suc g) c' m = Inr m'" "lane_at role m' (Suc g) c'"
    "\<forall>role' j. role' \<noteq> role \<longrightarrow> j < 2 \<longrightarrow> slot_bytes role' j m' = slot_bytes role' j m"
    using write_frame_lane [OF assms] by blast
  then show ?thesis using latest_generation_at [OF m'(2)] read_lane_at [OF m'(2)] by blast
qed

text \<open>
  A region of the protocol's size that was initialised validates and gives back the session it was
  initialised with; one lane never reaches into the other or past the region.
\<close>

lemma ipc_region_round_trip:
  assumes "length m = REGION_SIZE" "session < 2 ^ 64"
  shows "(\<exists>m'. initialize_region session m = Inr m' \<and> validate_region m' = Inr () \<and>
       region_session m' = Inr session) \<and>
     (\<forall>role role' i j. i < 2 \<longrightarrow> j < 2 \<longrightarrow> (role, i) \<noteq> (role', j) \<longrightarrow>
        slot_offset role i + snd (lane_layout role) \<le> REGION_SIZE \<and>
        (slot_offset role i + snd (lane_layout role) \<le> slot_offset role' j \<or>
         slot_offset role' j + snd (lane_layout role') \<le> slot_offset role i))"
  using initialize_validate [OF assms(1), of session] slot_bounds(1) slots_disjoint assms(2)
  by (metis mod_less)

text \<open>
  Two publications of one process whose envelopes are merged in one order and numbered in the
  other lose an update: the newest frame of the lane then holds the older envelope, without the
  second publisher's part, although the publisher's own copy has both.
\<close>

lemma ipc_lost_update:
  assumes "lane_at (pb_role b) m g c" "pb_next b = Suc g" "Suc (Suc g) < 2 ^ 64"
    and "publish_prepare p1 b = (b1, e1)" "publish_prepare p2 b1 = (b2, e2)"
    and "encode e1 = Inr c1" "encode e2 = Inr c2" "fits (pb_role b) c1" "fits (pb_role b) c2"
  shows "\<exists>b3 m3 b4 m4. publish_envelope encode e2 b2 m = (b3, Inr m3) \<and>
     publish_envelope encode e1 b3 m3 = (b4, Inr m4) \<and> pb_published b4 = e2 \<and>
     lane_at (pb_role b) m4 (Suc (Suc g)) c1"
  using assms by (rule publications_reordered)

subsection \<open>Properties\<close>



end
