(* ===== verification/VpnOperation.thy ===== *)
theory VpnOperation
  imports PawsModel
begin

text \<open>
  The VPN command state machine of \<open>crates/paws_ui/src/vpn_operation.rs\<close>: at most one command is
  active, a command whose outcome is unknown blocks further commands, and a recovery stop is stacked
  on top of it and restores it when the stop fails. Every method is a function from the state to its
  result and the new state.
\<close>

record vpn_operation_receipt =
  or_request_id :: string
  or_operation_id :: "string option"
  or_label :: string

record vpn_unconfirmed_operation =
  uo_message :: string
  uo_receipt :: vpn_operation_receipt

datatype vpn_command_action = Start | Stop | Restart | OwnedStop

datatype vpn_operation_phase = AwaitingBridge | Confirming | Unconfirmed

record blocker =
  bl_id :: nat
  bl_action :: vpn_command_action
  bl_owner :: "string option"
  bl_operation :: vpn_unconfirmed_operation

record active_vpn_operation =
  ao_id :: nat
  ao_action :: vpn_command_action
  ao_owner :: "string option"
  ao_phase :: vpn_operation_phase
  ao_unconfirmed :: "vpn_unconfirmed_operation option"
  ao_recovery_from :: "blocker list"

datatype failure_disposition = Stale | Cleared | RecoveryStillBlocked

type_synonym operation_state = "active_vpn_operation option"

definition begin_owned ::
  "nat \<Rightarrow> vpn_command_action \<Rightarrow> string option \<Rightarrow> operation_state \<Rightarrow> operation_state \<times> bool" where
  "begin_owned i action owner s =
    (if i = 0 \<or> s \<noteq> None then (s, False)
     else (Some \<lparr>ao_id = i, ao_action = action, ao_owner = owner, ao_phase = AwaitingBridge,
                 ao_unconfirmed = None, ao_recovery_from = []\<rparr>, True))"

definition begin_op :: "nat \<Rightarrow> vpn_command_action \<Rightarrow> operation_state \<Rightarrow> operation_state \<times> bool" where
  "begin_op i action s = begin_owned i action None s"

definition mark_unconfirmed ::
  "nat \<Rightarrow> vpn_unconfirmed_operation \<Rightarrow> operation_state \<Rightarrow> operation_state \<times> bool" where
  "mark_unconfirmed i unconfirmed s =
    (case s of
       Some a \<Rightarrow>
         if ao_id a = i
         then (Some (a\<lparr>ao_phase := Unconfirmed, ao_unconfirmed := Some unconfirmed\<rparr>), True)
         else (s, False)
     | None \<Rightarrow> (s, False))"

definition begin_confirmation ::
  "nat \<Rightarrow> operation_state \<Rightarrow> operation_state \<times> vpn_unconfirmed_operation option" where
  "begin_confirmation i s =
    (case s of
       Some a \<Rightarrow>
         if ao_id a = i \<and> ao_phase a = Unconfirmed then
           (case ao_unconfirmed a of
              Some operation \<Rightarrow> (Some (a\<lparr>ao_phase := Confirming\<rparr>), Some operation)
            | None \<Rightarrow> (s, None))
         else (s, None)
     | None \<Rightarrow> (s, None))"

definition begin_recovery :: "nat \<Rightarrow> nat \<Rightarrow> operation_state \<Rightarrow> operation_state \<times> bool" where
  "begin_recovery expected_id recovery_id s =
    (if recovery_id = 0 then (s, False)
     else case s of None \<Rightarrow> (s, False)
     | Some previous \<Rightarrow>
         if ao_id previous \<noteq> expected_id \<or> ao_phase previous \<notin> {Unconfirmed, Confirming} then (s, False)
         else case ao_unconfirmed previous of None \<Rightarrow> (s, False)
         | Some operation \<Rightarrow>
             (Some \<lparr>ao_id = recovery_id, ao_action = Stop, ao_owner = None, ao_phase = AwaitingBridge,
                    ao_unconfirmed = None,
                    ao_recovery_from = ao_recovery_from previous @
                      [\<lparr>bl_id = ao_id previous, bl_action = ao_action previous,
                        bl_owner = ao_owner previous, bl_operation = operation\<rparr>]\<rparr>, True))"

definition finish_success :: "nat \<Rightarrow> operation_state \<Rightarrow> operation_state \<times> bool" where
  "finish_success i s =
    (case s of
       Some a \<Rightarrow> if ao_id a = i then (None, True) else (s, False)
     | None \<Rightarrow> (s, False))"

definition finish_failure :: "nat \<Rightarrow> operation_state \<Rightarrow> operation_state \<times> failure_disposition" where
  "finish_failure i s =
    (case s of None \<Rightarrow> (None, Stale)
     | Some failed \<Rightarrow>
         if ao_id failed \<noteq> i then (s, Stale)
         else if ao_recovery_from failed = [] then (None, Cleared)
         else let b = last (ao_recovery_from failed) in
           (Some \<lparr>ao_id = bl_id b, ao_action = bl_action b, ao_owner = bl_owner b,
                  ao_phase = Unconfirmed, ao_unconfirmed = Some (bl_operation b),
                  ao_recovery_from = butlast (ao_recovery_from failed)\<rparr>, RecoveryStillBlocked))"

subsection \<open>The specification: a stack of commands whose outcome is unknown\<close>

text \<open>
  Abstractly the state is the stack of commands without a known outcome, the newest first; a command
  is known by its id, action and owner, and by the receipt under which its outcome can be asked for,
  once it has one.
\<close>

type_synonym command = "nat \<times> vpn_command_action \<times> string option \<times> vpn_unconfirmed_operation option"

definition blocker_command :: "blocker \<Rightarrow> command" where
  "blocker_command b = (bl_id b, bl_action b, bl_owner b, Some (bl_operation b))"

definition open_commands :: "operation_state \<Rightarrow> command list" where
  "open_commands s = (case s of None \<Rightarrow> []
     | Some a \<Rightarrow> (ao_id a, ao_action a, ao_owner a, ao_unconfirmed a)
                # rev (map blocker_command (ao_recovery_from a)))"

definition operation_inv :: "operation_state \<Rightarrow> bool" where
  "operation_inv s = (case s of None \<Rightarrow> True
     | Some a \<Rightarrow> ao_id a \<noteq> 0 \<and> (ao_phase a = AwaitingBridge \<longleftrightarrow> ao_unconfirmed a = None) \<and>
         (\<forall>b \<in> set (ao_recovery_from a). bl_id b \<noteq> 0))"

inductive op_step :: "operation_state \<Rightarrow> operation_state \<Rightarrow> bool" where
  "op_step s (fst (begin_owned i action owner s))"
| "op_step s (fst (mark_unconfirmed i u s))"
| "op_step s (fst (begin_confirmation i s))"
| "op_step s (fst (begin_recovery i r s))"
| "op_step s (fst (finish_success i s))"
| "op_step s (fst (finish_failure i s))"

inductive_cases op_stepE: "op_step s s'"

lemma op_inv_step: "op_step s s' \<Longrightarrow> operation_inv s \<Longrightarrow> operation_inv s'"
proof (induction rule: op_step.induct)
  case (6 s i)
  then show ?case
  proof (cases s)
    case (Some a)
    show ?thesis
    proof (cases "ao_recovery_from a = []")
      case False
      then have "last (ao_recovery_from a) \<in> set (ao_recovery_from a)" by simp
      moreover have "set (butlast (ao_recovery_from a)) \<subseteq> set (ao_recovery_from a)"
        by (auto dest: in_set_butlastD)
      ultimately show ?thesis
        using 6 Some False by (auto simp: finish_failure_def operation_inv_def Let_def)
    qed (use 6 Some in \<open>simp add: finish_failure_def operation_inv_def\<close>)
  qed (simp add: finish_failure_def operation_inv_def)
qed (auto simp: operation_inv_def begin_owned_def mark_unconfirmed_def begin_confirmation_def
      begin_recovery_def finish_success_def split: option.splits)

lemma op_inv_reach: "op_step\<^sup>*\<^sup>* None s \<Longrightarrow> operation_inv s"
proof (induction rule: rtranclp_induct)
  case base
  then show ?case by (simp add: operation_inv_def)
next
  case (step s s')
  then show ?case using op_inv_step by blast
qed

subsection \<open>The operations on the stack\<close>

lemma open_begin:
  "begin_owned i action owner s = (s', True) \<Longrightarrow>
     open_commands s = [] \<and> open_commands s' = [(i, action, owner, None)]"
  by (auto simp: begin_owned_def open_commands_def split: if_splits)

lemma begin_blocked: "s \<noteq> None \<Longrightarrow> begin_owned i action owner s = (s, False)"
  by (simp add: begin_owned_def)

lemma open_recovery:
  "begin_recovery i r s = (s', True) \<Longrightarrow>
     \<exists>c. snd (snd (snd (hd (open_commands s)))) = Some c \<and> fst (hd (open_commands s)) = i \<and>
       open_commands s' = (r, Stop, None, None) # open_commands s"
  by (auto simp: begin_recovery_def open_commands_def blocker_command_def
      split: if_splits option.splits)

lemma open_failure:
  assumes "operation_inv s" "fst (hd (open_commands s)) = i" "s \<noteq> None"
  shows "open_commands (fst (finish_failure i s)) = tl (open_commands s)"
proof -
  obtain a where s: "s = Some a" using assms(3) by (cases s) simp_all
  then have a: "s = Some a" "ao_id a = i" using assms(2) by (simp_all add: open_commands_def)
  show ?thesis
  proof (cases "ao_recovery_from a = []")
    case False
    then obtain bs b where "ao_recovery_from a = bs @ [b]" by (cases "ao_recovery_from a" rule: rev_cases) auto
    then show ?thesis
      using a by (simp add: finish_failure_def open_commands_def Let_def blocker_command_def)
  qed (use a in \<open>simp add: finish_failure_def open_commands_def\<close>)
qed

text \<open>A recovery that fails leaves the command it tried to fence as it was, outcome unknown.\<close>

lemma recovery_failure_restores:
  assumes "begin_recovery i r (Some a) = (s', True)"
  shows "finish_failure r s' = (Some (a\<lparr>ao_phase := Unconfirmed\<rparr>), RecoveryStillBlocked)"
proof -
  obtain u where u: "ao_unconfirmed a = Some u"
    using assms by (cases "ao_unconfirmed a") (simp_all add: begin_recovery_def split: if_splits)
  have id: "ao_id a = i"
    using assms by (cases "ao_id a = i") (simp_all add: begin_recovery_def split: if_splits)
  from assms have "s' = Some \<lparr>ao_id = r, ao_action = Stop, ao_owner = None, ao_phase = AwaitingBridge,
       ao_unconfirmed = None, ao_recovery_from = ao_recovery_from a @
         [\<lparr>bl_id = i, bl_action = ao_action a, bl_owner = ao_owner a, bl_operation = u\<rparr>]\<rparr>"
    by (cases "ao_phase a \<in> {Unconfirmed, Confirming} \<and> r \<noteq> 0")
      (simp_all add: begin_recovery_def id u split: if_splits)
  then show ?thesis using id u by (simp add: finish_failure_def Let_def)
qed

lemma finish_stale:
  assumes "\<And>a. s = Some a \<Longrightarrow> ao_id a \<noteq> i"
  shows "finish_success i s = (s, False) \<and> finish_failure i s = (s, Stale)"
  using assms by (cases s) (auto simp: finish_success_def finish_failure_def)

text \<open>The commands of the stack itself.\<close>

fun stack_begin ::
  "nat \<Rightarrow> vpn_command_action \<Rightarrow> string option \<Rightarrow> command list \<Rightarrow> command list \<times> bool" where
  "stack_begin i action owner cs = (if i = 0 \<or> cs \<noteq> [] then (cs, False) else ([(i, action, owner, None)], True))"

fun stack_mark :: "nat \<Rightarrow> vpn_unconfirmed_operation \<Rightarrow> command list \<Rightarrow> command list \<times> bool" where
  "stack_mark i u [] = ([], False)"
| "stack_mark i u ((j, action, owner, v) # cs) =
    (if j = i then ((j, action, owner, Some u) # cs, True) else ((j, action, owner, v) # cs, False))"

fun stack_recover :: "nat \<Rightarrow> nat \<Rightarrow> command list \<Rightarrow> command list \<times> bool" where
  "stack_recover i r ((j, action, owner, Some u) # cs) =
    (if j = i \<and> r \<noteq> 0 then ((r, Stop, None, None) # (j, action, owner, Some u) # cs, True)
     else ((j, action, owner, Some u) # cs, False))"
| "stack_recover i r cs = (cs, False)"

fun stack_succeed :: "nat \<Rightarrow> command list \<Rightarrow> command list \<times> bool" where
  "stack_succeed i [] = ([], False)"
| "stack_succeed i (c # cs) = (if fst c = i then ([], True) else (c # cs, False))"

fun stack_fail :: "nat \<Rightarrow> command list \<Rightarrow> command list \<times> failure_disposition" where
  "stack_fail i [] = ([], Stale)"
| "stack_fail i (c # cs) =
    (if fst c \<noteq> i then (c # cs, Stale) else (cs, if cs = [] then Cleared else RecoveryStillBlocked))"

lemma open_commands_simps [simp]:
  "open_commands None = []"
  "open_commands (Some a) = (ao_id a, ao_action a, ao_owner a, ao_unconfirmed a) #
     rev (map blocker_command (ao_recovery_from a))"
  by (simp_all add: open_commands_def)

lemma stack_begin_refines: "apfst open_commands (begin_owned i action owner s) = stack_begin i action owner (open_commands s)"
  by (cases s) (simp_all add: begin_owned_def)

lemma stack_mark_refines: "apfst open_commands (mark_unconfirmed i u s) = stack_mark i u (open_commands s)"
  by (cases s) (simp_all add: mark_unconfirmed_def)

lemma stack_confirmation_refines: "open_commands (fst (begin_confirmation i s)) = open_commands s"
  by (cases s) (simp_all add: begin_confirmation_def split: option.splits)

lemma stack_recover_refines:
  assumes "operation_inv s"
  shows "apfst open_commands (begin_recovery i r s) = stack_recover i r (open_commands s)"
proof (cases s)
  case (Some a)
  show ?thesis
  proof (cases "ao_unconfirmed a")
    case None
    then show ?thesis using Some by (simp add: begin_recovery_def)
  next
    case u: (Some u)
    then have "ao_phase a \<in> {Unconfirmed, Confirming}"
      using assms Some by (cases "ao_phase a") (simp_all add: operation_inv_def)
    then show ?thesis using Some u by (auto simp: begin_recovery_def blocker_command_def)
  qed
qed (simp add: begin_recovery_def)

lemma stack_succeed_refines: "apfst open_commands (finish_success i s) = stack_succeed i (open_commands s)"
  by (cases s) (simp_all add: finish_success_def)

lemma stack_fail_refines: "apfst open_commands (finish_failure i s) = stack_fail i (open_commands s)"
proof (cases s)
  case (Some a)
  then show ?thesis
    by (cases "ao_recovery_from a" rule: rev_cases) (auto simp: finish_failure_def Let_def blocker_command_def)
qed (simp add: finish_failure_def)

subsection \<open>Properties\<close>

text \<open>
  C14. In every reachable state the VPN command state behaves as a stack of commands without a
  known outcome: a command starts only on the empty stack, a recovery is pushed only on a command
  that has a receipt, success clears the stack, failure pops one command and leaves the one below
  as it was, and results for other ids change nothing.
\<close>

theorem vpn_operations_refine_stack:
  assumes "op_step\<^sup>*\<^sup>* None s"
  shows "apfst open_commands (begin_owned i action owner s) = stack_begin i action owner (open_commands s) \<and>
    apfst open_commands (mark_unconfirmed i u s) = stack_mark i u (open_commands s) \<and>
    open_commands (fst (begin_confirmation i s)) = open_commands s \<and>
    apfst open_commands (begin_recovery i r s) = stack_recover i r (open_commands s) \<and>
    apfst open_commands (finish_success i s) = stack_succeed i (open_commands s) \<and>
    apfst open_commands (finish_failure i s) = stack_fail i (open_commands s)"
  using op_inv_reach [OF assms]
  by (simp only: stack_begin_refines stack_mark_refines stack_confirmation_refines stack_recover_refines
      stack_succeed_refines stack_fail_refines simp_thms)

theorem vpn_operations_refine_stack_witness:
  "open_commands (fst (begin_owned 1 Start None None)) = [(1, Start, None, None)] \<and>
   snd (finish_failure 2 (fst (begin_owned 1 Start None None))) = Stale"
proof -
  have one: "apfst open_commands (begin_owned 1 Start None None) = ([(1, Start, None, None)], True)"
    using vpn_operations_refine_stack [of None 1 Start None] by simp
  have "op_step\<^sup>*\<^sup>* None (fst (begin_owned 1 Start None None))" by (intro r_into_rtranclp op_step.intros)
  note vpn_operations_refine_stack [OF this, of 2]
  then have "apfst open_commands (finish_failure 2 (fst (begin_owned 1 Start None None))) =
      stack_fail 2 [(1, Start, None, None)]"
    using one by (simp add: apfst_def map_prod_def split: prod.splits)
  then have "snd (finish_failure 2 (fst (begin_owned 1 Start None None))) = Stale"
    by (simp add: apfst_def map_prod_def split: prod.splits)
  then show ?thesis using one by (simp add: apfst_def map_prod_def split: prod.splits)
qed

end
