(* ===== verification/Routing.thy ===== *)
theory Routing
  imports PawsModel
begin

text \<open>
  Outbound selection of \<open>crates/paws_core/src/routing.rs\<close>: whether a target ends at a real proxy,
  and the choice of the outbound of Global mode. The proxies of a running tunnel belong to the proxy
  engine, which is not part of these sources; what the code asks of them, their type, their current
  member and their members, is the argument \<open>tunnel\<close>, a finite map from names.
\<close>

datatype adapter_type =
    AdDirect | AdReject | AdRejectDrop | AdSelector | AdFallback | AdUrlTest | AdLoadBalance | AdRelay
  | AdOther

record proxy_entry =
  pe_adapter_type :: adapter_type
  pe_current :: "string option"
  pe_members :: "string list option"

type_synonym tunnel = "(string \<times> proxy_entry) list"

definition builtin_target :: "string \<Rightarrow> bool" where
  "builtin_target target \<longleftrightarrow> to_ascii_uppercase target \<in> {''DIRECT'', ''REJECT'', ''REJECT-DROP''}"

definition is_reject :: "adapter_type \<Rightarrow> bool" where
  "is_reject a \<longleftrightarrow> a \<in> {AdDirect, AdReject, AdRejectDrop}"

definition is_group :: "adapter_type \<Rightarrow> bool" where
  "is_group a \<longleftrightarrow> a \<in> {AdSelector, AdFallback, AdUrlTest, AdLoadBalance, AdRelay}"

lemma visiting_shrinks:
  assumes "target \<notin> set visiting" "map_of tunnel target = Some p"
  shows "card (fst ` set tunnel - insert target (set visiting)) < card (fst ` set tunnel - set visiting)"
proof (rule psubset_card_mono)
  have "target \<in> fst ` set tunnel" using assms(2) by (force dest: map_of_SomeD)
  then show "fst ` set tunnel - insert target (set visiting) \<subset> fst ` set tunnel - set visiting"
    using assms(1) by auto
qed simp

text \<open>
  \<open>visiting\<close> is the set the code extends before it follows a group and restores afterwards, so a
  call sees the names on the path to it.
\<close>

function target_routes_through_proxy :: "tunnel \<Rightarrow> string \<Rightarrow> string list \<Rightarrow> bool" where
  "target_routes_through_proxy tunnel target visiting =
    (if builtin_target target then False
     else if target \<in> set visiting then False
     else case map_of tunnel target of
       None \<Rightarrow> True
     | Some proxy \<Rightarrow>
         if is_reject (pe_adapter_type proxy) then False
         else if is_group (pe_adapter_type proxy) then
           (case pe_current proxy of
              Some current \<Rightarrow> target_routes_through_proxy tunnel current (target # visiting)
            | None \<Rightarrow>
                (case pe_members proxy of
                   Some members \<Rightarrow> members \<noteq> [] \<and>
                     list_all (\<lambda>member. target_routes_through_proxy tunnel member (target # visiting))
                       members
                 | None \<Rightarrow> False))
         else True)"
  by pat_completeness auto
termination
  by (relation "measure (\<lambda>(tunnel, target, visiting). card (fst ` set tunnel - set visiting))")
    (auto intro: visiting_shrinks)

declare target_routes_through_proxy.simps [simp del]

subsection \<open>The specification: every path ends at a proxy\<close>

text \<open>
  The least predicate that holds of the leaves that are proxies and of the groups whose current
  member, or all of whose members, satisfy it.
\<close>

inductive proxied :: "tunnel \<Rightarrow> string \<Rightarrow> bool" for tunnel where
  unlisted: "\<not> builtin_target x \<Longrightarrow> map_of tunnel x = None \<Longrightarrow> proxied tunnel x"
| leaf: "\<not> builtin_target x \<Longrightarrow> map_of tunnel x = Some p \<Longrightarrow> \<not> is_reject (pe_adapter_type p) \<Longrightarrow>
     \<not> is_group (pe_adapter_type p) \<Longrightarrow> proxied tunnel x"
| selected: "\<not> builtin_target x \<Longrightarrow> map_of tunnel x = Some p \<Longrightarrow> is_group (pe_adapter_type p) \<Longrightarrow>
     pe_current p = Some c \<Longrightarrow> proxied tunnel c \<Longrightarrow> proxied tunnel x"
| members: "\<not> builtin_target x \<Longrightarrow> map_of tunnel x = Some p \<Longrightarrow> is_group (pe_adapter_type p) \<Longrightarrow>
     pe_current p = None \<Longrightarrow> pe_members p = Some ms \<Longrightarrow> ms \<noteq> [] \<Longrightarrow>
     \<forall>m \<in> set ms. proxied tunnel m \<Longrightarrow> proxied tunnel x"

text \<open>The same with a bound on the height of the derivation.\<close>

fun proxied_within :: "nat \<Rightarrow> tunnel \<Rightarrow> string \<Rightarrow> bool" where
  "proxied_within 0 tunnel x \<longleftrightarrow> False"
| "proxied_within (Suc n) tunnel x \<longleftrightarrow> \<not> builtin_target x \<and>
     (case map_of tunnel x of None \<Rightarrow> True
      | Some p \<Rightarrow> \<not> is_reject (pe_adapter_type p) \<and>
          (is_group (pe_adapter_type p) \<longrightarrow>
            (case pe_current p of Some c \<Rightarrow> proxied_within n tunnel c
             | None \<Rightarrow> (case pe_members p of None \<Rightarrow> False
                 | Some ms \<Rightarrow> ms \<noteq> [] \<and> (\<forall>m \<in> set ms. proxied_within n tunnel m)))))"

lemma proxied_within_mono: "proxied_within n tunnel x \<Longrightarrow> n \<le> k \<Longrightarrow> proxied_within k tunnel x"
proof (induction n arbitrary: k x)
  case (Suc n)
  then obtain l where l: "k = Suc l" "n \<le> l" by (cases k) auto
  then show ?case using Suc.prems(1) Suc.IH [of _ l] by (auto split: option.splits)
qed simp

lemma group_not_reject: "is_group a \<Longrightarrow> \<not> is_reject a"
  by (auto simp: is_group_def is_reject_def)

lemma proxied_bounded: "proxied tunnel x \<Longrightarrow> \<exists>n. proxied_within n tunnel x"
proof (induction rule: proxied.induct)
  case (unlisted x)
  then show ?case by (intro exI [of _ 1]) simp
next
  case (leaf x p)
  then show ?case by (intro exI [of _ 1]) simp
next
  case (selected x p c)
  then obtain n where "proxied_within n tunnel c" by blast
  then show ?case using selected by (intro exI [of _ "Suc n"]) (simp add: group_not_reject)
next
  case (members x p ms)
  then obtain h where h: "\<And>m. m \<in> set ms \<Longrightarrow> proxied_within (h m) tunnel m" by metis
  define n where "n = Max (h ` set ms)"
  have "proxied_within n tunnel m" if "m \<in> set ms" for m
  proof (rule proxied_within_mono [OF h [OF that]])
    show "h m \<le> n" unfolding n_def using that by (intro Max_ge) simp_all
  qed
  then show ?case using members.hyps(1-6) by (intro exI [of _ "Suc n"]) (simp add: group_not_reject)
qed

lemma routes_proxied: "target_routes_through_proxy tunnel x visiting \<Longrightarrow> proxied tunnel x"
proof (induction tunnel x visiting rule: target_routes_through_proxy.induct)
  case (1 tunnel target visiting)
  note body = "1.prems" [unfolded target_routes_through_proxy.simps [of tunnel target visiting]]
  have nb: "\<not> builtin_target target" using body by (cases "builtin_target target") simp_all
  have nv: "target \<notin> set visiting" using body nb by (cases "target \<in> set visiting") simp_all
  show ?case
  proof (cases "map_of tunnel target")
    case None
    then show ?thesis using nb by (rule proxied.unlisted [rotated])
  next
    case (Some p)
    have nr: "\<not> is_reject (pe_adapter_type p)" using body nb nv Some by (auto split: if_splits)
    show ?thesis
    proof (cases "is_group (pe_adapter_type p)")
      case False
      then show ?thesis by (rule proxied.leaf [OF nb Some nr])
    next
      case True
      show ?thesis
      proof (cases "pe_current p")
        case c: (Some c)
        then have "target_routes_through_proxy tunnel c (target # visiting)"
          using body nb nv Some nr True by simp
        then have "proxied tunnel c" using "1.IH"(2) nb nv Some nr True c by blast
        then show ?thesis by (rule proxied.selected [OF nb Some True c])
      next
        case None
        then obtain ms where ms: "pe_members p = Some ms" "ms \<noteq> []"
            "\<forall>m \<in> set ms. target_routes_through_proxy tunnel m (target # visiting)"
          using body nb nv Some nr True by (cases "pe_members p") (simp_all add: list_all_iff)
        then have "\<forall>m \<in> set ms. proxied tunnel m" using "1.IH"(1) nb nv Some nr True None by blast
        then show ?thesis by (rule proxied.members [OF nb Some True None ms(1,2)])
      qed
    qed
  qed
qed

text \<open>
  A shortest derivation never meets a name twice on a path, so the visited set does not cut it off.
\<close>

lemma proxied_within_routes:
  "proxied_within (Suc n) tunnel x \<Longrightarrow> \<not> proxied_within n tunnel x \<Longrightarrow>
     \<forall>v \<in> set visiting. \<not> proxied_within (Suc n) tunnel v \<Longrightarrow>
     target_routes_through_proxy tunnel x visiting"
proof (induction n arbitrary: x visiting rule: less_induct)
  case (less n)
  have sub: "target_routes_through_proxy tunnel c (x # visiting)" if c: "proxied_within n tunnel c" for c
  proof -
    define k where "k = (LEAST k. proxied_within k tunnel c)"
    have k: "proxied_within k tunnel c" "k \<le> n"
      unfolding k_def using c by (rule LeastI, rule Least_le)
    then obtain j where j: "k = Suc j" by (cases k) auto
    have "\<not> proxied_within j tunnel c" using j not_less_Least [of j "\<lambda>k. proxied_within k tunnel c"]
      by (simp add: k_def)
    moreover have "\<not> proxied_within (Suc j) tunnel v" if "v \<in> set (x # visiting)" for v
      using that less.prems(2,3) k(2) j proxied_within_mono by (metis le_SucI set_ConsD)
    ultimately show ?thesis using less.IH [of j c "x # visiting"] k j by simp
  qed
  have "x \<notin> set visiting" using less.prems by blast
  then show ?case
    using less.prems(1) sub
    by (auto simp: target_routes_through_proxy.simps [of tunnel x visiting] list_all_iff
        split: option.splits)
qed

lemma target_routes_through_proxy_iff: "target_routes_through_proxy tunnel x [] \<longleftrightarrow> proxied tunnel x"
proof
  assume "proxied tunnel x"
  then obtain m where m: "proxied_within m tunnel x" using proxied_bounded by blast
  define k where "k = (LEAST k. proxied_within k tunnel x)"
  have k: "proxied_within k tunnel x" unfolding k_def using m by (rule LeastI)
  then obtain j where j: "k = Suc j" by (cases k) auto
  have "\<not> proxied_within j tunnel x" using j not_less_Least [of j "\<lambda>k. proxied_within k tunnel x"]
    by (simp add: k_def)
  then show "target_routes_through_proxy tunnel x []" using k j by (intro proxied_within_routes) auto
qed (rule routes_proxied)

subsection \<open>The outbound of Global mode\<close>

definition is_concrete_proxy :: "tunnel \<Rightarrow> string \<Rightarrow> bool" where
  "is_concrete_proxy tunnel target =
    (case map_of tunnel target of
       None \<Rightarrow> True
     | Some proxy \<Rightarrow> \<not> is_reject (pe_adapter_type proxy) \<and> \<not> is_group (pe_adapter_type proxy))"

definition is_valid_target :: "tunnel \<Rightarrow> string list \<Rightarrow> string \<Rightarrow> bool" where
  "is_valid_target tunnel members target \<longleftrightarrow>
     target \<in> set members \<and> is_concrete_proxy tunnel target \<and>
     target_routes_through_proxy tunnel target []"

definition choose_global_target ::
  "tunnel \<Rightarrow> string list \<Rightarrow> string option \<Rightarrow> string option \<Rightarrow> string presult" where
  "choose_global_target tunnel members current required_target =
    (case required_target of
       Some required \<Rightarrow>
         if required = ''DIRECT'' then
           (if ''DIRECT'' \<in> set members then Inr required
            else Inl (Core ''GLOBAL has no built-in DIRECT outbound''))
         else if is_valid_target tunnel members required then Inr required
         else Inl (Core (''Global proxy target is unavailable or not a proxy: '' @ required))
     | None \<Rightarrow>
         (case (case current of Some c \<Rightarrow> if is_valid_target tunnel members c then Some c else None
                | None \<Rightarrow> None) of
            Some c \<Rightarrow> Inr c
          | None \<Rightarrow>
              if ''DIRECT'' \<in> set members then Inr ''DIRECT''
              else (case List.find (is_valid_target tunnel members) members of
                  Some target \<Rightarrow> Inr target
                | None \<Rightarrow> Inl (Core ''Global mode requires at least one proxy node''))))"

text \<open>
  \<open>selection\<close> is how the engine sets the member of GLOBAL, \<open>None\<close> when GLOBAL is not selectable;
  what is current afterwards is read back from the engine.
\<close>

definition ensure_global_proxy_selected ::
  "(string \<Rightarrow> tunnel \<Rightarrow> tunnel) option \<Rightarrow> tunnel \<Rightarrow> string option \<Rightarrow> tunnel \<times> string option presult" where
  "ensure_global_proxy_selected selection tunnel required_target =
    (case map_of tunnel ''GLOBAL'' of
       None \<Rightarrow> (tunnel, Inl (Core ''Global mode has no GLOBAL proxy selector''))
     | Some global \<Rightarrow>
    (case pe_members global of
       None \<Rightarrow>
         (tunnel, if target_routes_through_proxy tunnel ''GLOBAL'' [] then Inr None
                  else Inl (Core ''Global mode requires at least one proxy node''))
     | Some members \<Rightarrow>
    (case choose_global_target tunnel members (pe_current global) required_target of
       Inl e \<Rightarrow> (tunnel, Inl e)
     | Inr target \<Rightarrow>
    (case (if pe_current global = Some target then Some tunnel
           else map_option (\<lambda>set. set target tunnel) selection) of
       None \<Rightarrow> (tunnel, Inl (Core ''GLOBAL outbound is not selectable''))
     | Some tunnel' \<Rightarrow>
         (tunnel', if (case map_of tunnel' ''GLOBAL'' of Some g \<Rightarrow> pe_current g = Some target
                       | None \<Rightarrow> False)
                   then Inr (Some target)
                   else Inl (Core ''GLOBAL selector did not resolve to a proxy node''))))))"

lemma choose_global_target_Inr:
  assumes "choose_global_target tunnel members current required = Inr target"
  shows "target \<in> set members \<and> (target = ''DIRECT'' \<or> is_valid_target tunnel members target) \<and>
     (\<forall>r. required = Some r \<longrightarrow> target = r)"
proof -
  have found: "List.find (is_valid_target tunnel members) members = Some t \<Longrightarrow>
      t \<in> set members \<and> is_valid_target tunnel members t" for t
    by (auto simp: find_Some_iff)
  show ?thesis
    using assms by (auto simp: choose_global_target_def is_valid_target_def
        split: option.splits if_splits dest: found)
qed

lemma ensure_global_proxy_selected_Inr:
  assumes "ensure_global_proxy_selected selection tunnel required = (tunnel', Inr (Some target))"
  obtains global members where "map_of tunnel ''GLOBAL'' = Some global" "pe_members global = Some members"
    "choose_global_target tunnel members (pe_current global) required = Inr target"
    "\<exists>g. map_of tunnel' ''GLOBAL'' = Some g \<and> pe_current g = Some target"
proof -
  obtain global where g: "map_of tunnel ''GLOBAL'' = Some global"
    using assms by (cases "map_of tunnel ''GLOBAL''") (simp_all add: ensure_global_proxy_selected_def)
  obtain members where m: "pe_members global = Some members"
    using assms g by (cases "pe_members global")
      (simp_all add: ensure_global_proxy_selected_def split: if_splits)
  obtain t where t: "choose_global_target tunnel members (pe_current global) required = Inr t"
    using assms g m by (cases "choose_global_target tunnel members (pe_current global) required")
      (simp_all add: ensure_global_proxy_selected_def)
  define s where "s = (if pe_current global = Some t then Some tunnel
           else map_option (\<lambda>set. set t tunnel) selection)"
  have "t = target \<and> (\<exists>g. map_of tunnel' ''GLOBAL'' = Some g \<and> pe_current g = Some target)"
    using assms unfolding ensure_global_proxy_selected_def
    by (simp add: g m t s_def [symmetric] split: option.splits if_splits)
  then show ?thesis using that g m t by blast
qed

text \<open>
  With nothing required and nothing valid selected, DIRECT wins over the proxies the group offers.
\<close>

lemma global_prefers_direct:
  assumes "''DIRECT'' \<in> set members" "\<And>c. current = Some c \<Longrightarrow> \<not> is_valid_target tunnel members c"
  shows "choose_global_target tunnel members current None = Inr ''DIRECT''"
  using assms by (auto simp: choose_global_target_def split: option.splits)

subsection \<open>A sample tunnel\<close>

definition sample_tunnel :: tunnel where
  "sample_tunnel = [(''GLOBAL'', \<lparr>pe_adapter_type = AdSelector, pe_current = None,
     pe_members = Some [''DIRECT'', ''n'']\<rparr>)]"

definition sample_select :: "string \<Rightarrow> tunnel \<Rightarrow> tunnel" where
  "sample_select target = map (\<lambda>(k, e). (k, if k = ''GLOBAL'' then e\<lparr>pe_current := Some target\<rparr> else e))"

lemma sample_selected:
  "ensure_global_proxy_selected (Some sample_select) sample_tunnel (Some ''n'') =
     (sample_select ''n'' sample_tunnel, Inr (Some ''n''))"
  by (simp add: ensure_global_proxy_selected_def sample_tunnel_def sample_select_def choose_global_target_def
      is_valid_target_def is_concrete_proxy_def target_routes_through_proxy.simps builtin_target_def
      to_ascii_uppercase_def ascii_upper_def)

subsection \<open>Further facts\<close>

text \<open>
  With no required target and no valid current member, Global mode takes DIRECT whenever GLOBAL
  offers it, whatever proxies it offers as well; a proxy is chosen only when DIRECT is no member.
\<close>

lemma global_prefers_direct_over_proxies:
  assumes "\<And>c. current = Some c \<Longrightarrow> \<not> is_valid_target tunnel members c"
  shows "choose_global_target tunnel members current None =
     (if ''DIRECT'' \<in> set members then Inr ''DIRECT''
      else case List.find (is_valid_target tunnel members) members of Some t \<Rightarrow> Inr t
        | None \<Rightarrow> Inl (Core ''Global mode requires at least one proxy node''))"
  using assms by (auto simp: choose_global_target_def split: option.splits)

text \<open>
  When Global mode settles on an outbound it is a member of GLOBAL, it is DIRECT or a concrete
  proxy that routes through a proxy, it is the required target when there is one, and the engine
  reports it as the current member of GLOBAL afterwards.
\<close>

lemma global_target_valid:
  assumes "ensure_global_proxy_selected selection tunnel required = (tunnel', Inr (Some target))"
  shows "\<exists>global members. map_of tunnel ''GLOBAL'' = Some global \<and> pe_members global = Some members \<and>
     target \<in> set members \<and> (target = ''DIRECT'' \<or> is_concrete_proxy tunnel target \<and> proxied tunnel target) \<and>
     (\<forall>r. required = Some r \<longrightarrow> target = r) \<and>
     (\<exists>g. map_of tunnel' ''GLOBAL'' = Some g \<and> pe_current g = Some target)"
proof -
  obtain global members where g: "map_of tunnel ''GLOBAL'' = Some global" "pe_members global = Some members"
    "choose_global_target tunnel members (pe_current global) required = Inr target"
    "\<exists>g. map_of tunnel' ''GLOBAL'' = Some g \<and> pe_current g = Some target"
    using ensure_global_proxy_selected_Inr [OF assms] .
  from choose_global_target_Inr [OF g(3)]
  have "target \<in> set members" "target = ''DIRECT'' \<or> is_concrete_proxy tunnel target \<and> proxied tunnel target"
    "\<forall>r. required = Some r \<longrightarrow> target = r"
    by (auto simp: is_valid_target_def target_routes_through_proxy_iff)
  then show ?thesis using g by blast
qed

subsection \<open>Properties\<close>

text \<open>
  C21. The recursive check whether a target ends at a proxy, cut off by its visited set, decides
  exactly the least predicate: every path through selected members, or through all members of an
  unselected group, ends at an outbound that is neither DIRECT nor REJECT.
\<close>

theorem routes_through_proxy_iff: "target_routes_through_proxy tunnel x [] \<longleftrightarrow> proxied tunnel x"
  by (rule target_routes_through_proxy_iff)

end
