(* ===== verification/ProxyGrid.thy ===== *)
theory ProxyGrid
  imports PawsModel "HOL-Library.Char_ord" "HOL-Library.List_Lexorder" "HOL-Library.Product_Lexorder"
begin

text \<open>
  The rows of the proxy page and the name of the node traffic leaves by: \<open>crates/paws_ui/src/
  proxy_grid.rs\<close> and \<open>proxy_filter.rs\<close>. Strings compare byte by byte, as in Rust; the stable sort of
  the code is \<open>sort_key\<close>.
\<close>

record proxy_group_header_row =
  hr_name :: string
  hr_group_type :: string
  hr_selected :: "string option"
  hr_fixed :: "string option"
  hr_member_count :: nat
  hr_expanded :: bool
  hr_selectable :: bool

record proxy_group_member_row =
  mr_group :: string
  mr_group_type :: string
  mr_name :: string
  mr_proxy_type :: string
  mr_delay_ms :: "nat option"
  mr_selected :: bool
  mr_automatic :: bool
  mr_pinned :: bool
  mr_subgroup :: bool
  mr_selectable :: bool

datatype proxy_group_row = Section | Group proxy_group_header_row | Member proxy_group_member_row

definition str_matches :: "string \<Rightarrow> string \<Rightarrow> bool" where
  "str_matches value needle \<longleftrightarrow> str_contains (to_ascii_lowercase value) needle"

definition matches_proxy_query :: "proxy_item \<Rightarrow> string \<Rightarrow> bool" where
  "matches_proxy_query proxy query =
    (let query = to_ascii_lowercase (str_trim query) in
     query = [] \<or> str_matches (pi_name proxy) query \<or> str_matches (pi_proxy_type proxy) query
     \<or> (pi_selected proxy \<and>
        query \<in> {''selected'', map char_of [229 :: nat, 183, 178, 233, 128, 137],
                  map char_of [229 :: nat, 189, 147, 229, 137, 141]})
     \<or> (case pi_delay_ms proxy of None \<Rightarrow> False | Some d \<Rightarrow> str_contains (decimal d) query))"

text \<open>The ASCII letters and digits of a type name, in lower case.\<close>

definition type_key :: "string \<Rightarrow> string" where
  "type_key s = to_ascii_lowercase (filter is_ascii_alphanumeric s)"

definition selectable_group_type :: "string \<Rightarrow> bool" where
  "selectable_group_type group_type \<longleftrightarrow>
     type_key group_type \<in> {''select'', ''selector'', ''urltest'', ''fallback''}"

definition is_global_subscription_node :: "proxy_item \<Rightarrow> string list \<Rightarrow> bool" where
  "is_global_subscription_node proxy group_names \<longleftrightarrow>
     pi_name proxy \<notin> set group_names \<and>
     type_key (pi_proxy_type proxy) \<notin> {''direct'', ''reject'', ''rejectdrop''}"

definition selected_member :: "proxy_group \<Rightarrow> string option" where
  "selected_member grp =
    (case pg_selected grp of Some s \<Rightarrow> Some s
     | None \<Rightarrow> map_option pi_name (List.find pi_selected (pg_proxies grp)))"

definition proxy_member_row ::
  "proxy_group \<Rightarrow> proxy_item \<Rightarrow> string option \<Rightarrow> bool \<Rightarrow> bool \<Rightarrow> proxy_group_member_row" where
  "proxy_member_row grp proxy selected selectable subgroup = \<lparr>
     mr_group = pg_name grp, mr_group_type = pg_group_type grp, mr_name = pi_name proxy,
     mr_proxy_type = pi_proxy_type proxy, mr_delay_ms = pi_delay_ms proxy,
     mr_selected = (selected = Some (pi_name proxy)), mr_automatic = (pg_fixed grp \<noteq> None),
     mr_pinned = (pg_fixed grp = Some (pi_name proxy)), mr_subgroup = subgroup,
     mr_selectable = selectable\<rparr>"

definition is_global :: "proxy_group \<Rightarrow> bool" where
  "is_global grp \<longleftrightarrow> eq_ignore_ascii_case (pg_name grp) ''GLOBAL''"

definition visible_members :: "proxy_group \<Rightarrow> string list \<Rightarrow> proxy_item list" where
  "visible_members grp group_names =
    (if is_global grp then
       (let nodes = filter (\<lambda>p. is_global_subscription_node p group_names) (pg_proxies grp) in
        if nodes = [] then filter (\<lambda>p. pi_name p = ''DIRECT'') (pg_proxies grp) else nodes)
     else pg_proxies grp)"

definition group_rows ::
  "string list \<Rightarrow> string \<Rightarrow> string option \<Rightarrow> proxy_group \<Rightarrow> proxy_group_row list" where
  "group_rows group_names query expanded_group grp =
    (let members = visible_members grp group_names;
         selected = (case selected_member grp of None \<Rightarrow> None
           | Some s \<Rightarrow> if \<not> is_global grp \<or> s \<in> pi_name ` set members then Some s else None);
         group_matches = (query = [] \<or> str_matches (pg_name grp) query
           \<or> str_matches (pg_group_type grp) query
           \<or> (case selected of None \<Rightarrow> False | Some s \<Rightarrow> str_matches s query));
         matching = filter (\<lambda>p. group_matches \<or> matches_proxy_query p query) members in
     if \<not> group_matches \<and> matching = [] then []
     else
       let expanded = (expanded_group = Some (pg_name grp) \<or> (query \<noteq> [] \<and> matching \<noteq> []));
           selectable = selectable_group_type (pg_group_type grp) in
       Group \<lparr>hr_name = pg_name grp, hr_group_type = pg_group_type grp, hr_selected = selected,
              hr_fixed = pg_fixed grp, hr_member_count = length members, hr_expanded = expanded,
              hr_selectable = selectable\<rparr>
       # (if expanded then
            map (\<lambda>p. Member (proxy_member_row grp p selected selectable
                              (pi_name p \<in> set group_names))) matching
          else []))"

definition grouped_proxy_rows ::
  "proxy_group list \<Rightarrow> string \<Rightarrow> string option \<Rightarrow> proxy_group_row list" where
  "grouped_proxy_rows groups query expanded_group =
    (let query = to_ascii_lowercase (str_trim query);
         group_names = map pg_name groups;
         visible_groups = sort_key (\<lambda>g. (\<not> is_global g, to_ascii_lowercase (pg_name g))) groups in
     concat (map (group_rows group_names query expanded_group) visible_groups))"

definition proxy_group_summary :: "proxy_group list \<Rightarrow> nat \<times> nat" where
  "proxy_group_summary groups =
    fold (\<lambda>g (n, m). (n + 1, m + length (pg_proxies g))) (filter (\<lambda>g. \<not> is_global g) groups) (0, 0)"

subsection \<open>Following the selection\<close>

definition find_group :: "proxy_group list \<Rightarrow> string \<Rightarrow> proxy_group option" where
  "find_group groups name = List.find (\<lambda>g. pg_name g = name) groups"

lemma find_group_Some: "find_group groups name = Some g \<Longrightarrow> pg_name g = name \<and> g \<in> set groups"
  by (auto simp: find_group_def find_Some_iff)

text \<open>The loop of \<open>effective_group_leaf\<close>: the current group, by name, and the names seen before.\<close>

function leaf_loop :: "proxy_group list \<Rightarrow> string \<Rightarrow> string list \<Rightarrow> string option" where
  "leaf_loop groups name visited =
    (case find_group groups name of
       None \<Rightarrow> None
     | Some grp \<Rightarrow>
         if pg_name grp \<in> set visited then None
         else (case selected_member grp of
             None \<Rightarrow> None
           | Some selected \<Rightarrow>
               if find_group groups selected = None then Some selected
               else leaf_loop groups selected (pg_name grp # visited)))"
  by pat_completeness auto
termination
proof (relation "measure (\<lambda>(groups, name, visited). card (pg_name ` set groups - set visited))")
  fix groups :: "proxy_group list" and name visited grp selected
  assume "find_group groups name = Some grp" "pg_name grp \<notin> set visited"
  moreover from this have "pg_name grp \<in> pg_name ` set groups" using find_group_Some by blast
  ultimately have "pg_name ` set groups - set (pg_name grp # visited) \<subset> pg_name ` set groups - set visited"
    by auto
  then show "((groups, selected, pg_name grp # visited), groups, name, visited)
      \<in> measure (\<lambda>(groups, name, visited). card (pg_name ` set groups - set visited))"
    by (simp add: psubset_card_mono)
qed simp

declare leaf_loop.simps [simp del]

definition effective_group_leaf :: "proxy_group list \<Rightarrow> string \<Rightarrow> string option" where
  "effective_group_leaf groups root = leaf_loop groups root []"

definition primary_selected_group_leaf :: "proxy_group list \<Rightarrow> string option" where
  "primary_selected_group_leaf groups =
    (let visible_groups = filter (\<lambda>g. \<not> is_global g) groups in
     case (case List.find (\<lambda>g. eq_ignore_ascii_case (pg_name g) ''Proxy'' \<and> selected_member g \<noteq> None)
                  visible_groups of
             Some g \<Rightarrow> Some g
           | None \<Rightarrow> List.find (\<lambda>g. selected_member g \<noteq> None) visible_groups) of
       None \<Rightarrow> None
     | Some primary \<Rightarrow> effective_group_leaf groups (pg_name primary))"

text \<open>The specification: the end of the chain of selections.\<close>

inductive leaf_of :: "proxy_group list \<Rightarrow> string \<Rightarrow> string \<Rightarrow> bool" for groups where
  here: "find_group groups name = Some g \<Longrightarrow> selected_member g = Some leaf \<Longrightarrow>
     find_group groups leaf = None \<Longrightarrow> leaf_of groups name leaf"
| there: "find_group groups name = Some g \<Longrightarrow> selected_member g = Some next \<Longrightarrow>
     leaf_of groups next leaf \<Longrightarrow> leaf_of groups name leaf"

fun leaf_within :: "nat \<Rightarrow> proxy_group list \<Rightarrow> string \<Rightarrow> string \<Rightarrow> bool" where
  "leaf_within 0 groups name leaf \<longleftrightarrow> False"
| "leaf_within (Suc n) groups name leaf \<longleftrightarrow>
     (case find_group groups name of None \<Rightarrow> False
      | Some g \<Rightarrow> (case selected_member g of None \<Rightarrow> False
          | Some s \<Rightarrow> if find_group groups s = None then leaf = s else leaf_within n groups s leaf))"

lemma leaf_of_within: "leaf_of groups name leaf \<Longrightarrow> \<exists>n. leaf_within n groups name leaf"
proof (induction rule: leaf_of.induct)
  case (here name g leaf)
  then show ?case by (intro exI [of _ 1]) simp
next
  case (there name g "next" leaf)
  then obtain n where "leaf_within n groups next leaf" by blast
  moreover from this have "find_group groups next \<noteq> None" by (cases n) (auto split: option.splits)
  ultimately show ?case using there.hyps(1,2) by (intro exI [of _ "Suc n"]) auto
qed

lemma leaf_within_mono: "leaf_within n groups name leaf \<Longrightarrow> n \<le> k \<Longrightarrow> leaf_within k groups name leaf"
proof (induction n arbitrary: k name)
  case (Suc n)
  then obtain l where "k = Suc l" "n \<le> l" by (cases k) auto
  then show ?case using Suc.prems(1) Suc.IH [of _ l] by (auto split: option.splits if_splits)
qed simp

lemma leaf_loop_of: "leaf_loop groups name visited = Some leaf \<Longrightarrow> leaf_of groups name leaf"
proof (induction groups name visited rule: leaf_loop.induct)
  case (1 groups name visited)
  note body = "1.prems" [unfolded leaf_loop.simps [of groups name visited]]
  obtain g where g1: "find_group groups name = Some g" using body by (cases "find_group groups name") simp_all
  have g2: "pg_name g \<notin> set visited" using body g1 by (cases "pg_name g \<in> set visited") simp_all
  obtain s where "selected_member g = Some s" using body g1 g2 by (cases "selected_member g") simp_all
  note g = g1 this g2
  show ?case
  proof (cases "find_group groups s")
    case None
    then show ?thesis using body g by (intro leaf_of.here [of groups name g leaf]) simp_all
  next
    case (Some g')
    then have "leaf_loop groups s (pg_name g # visited) = Some leaf"
      using body g by simp
    then have "leaf_of groups s leaf" using "1.IH" g Some by simp
    then show ?thesis by (rule leaf_of.there [OF g(1,2)])
  qed
qed

lemma leaf_within_loop:
  "leaf_within (Suc n) groups name leaf \<Longrightarrow> \<not> leaf_within n groups name leaf \<Longrightarrow>
     \<forall>v \<in> set visited. \<not> leaf_within (Suc n) groups v leaf \<Longrightarrow>
     leaf_loop groups name visited = Some leaf"
proof (induction n arbitrary: name visited)
  case 0
  have "name \<notin> set visited" using 0 by blast
  then show ?case using 0
    by (auto simp: leaf_loop.simps [of groups name visited] dest: find_group_Some
        split: option.splits if_splits)
next
  case (Suc n)
  obtain g s where g: "find_group groups name = Some g" "selected_member g = Some s" "pg_name g = name"
    using Suc.prems(1) find_group_Some by (fastforce split: option.splits)
  have nv: "name \<notin> set visited" using Suc.prems by blast
  show ?case
  proof (cases "find_group groups s")
    case None
    then show ?thesis using Suc.prems(1) g nv by (simp add: leaf_loop.simps [of groups name visited])
  next
    case (Some g')
    have "leaf_within (Suc n) groups s leaf" "\<not> leaf_within n groups s leaf"
      using Suc.prems(1,2) g Some by simp_all
    moreover have "\<forall>v \<in> set (name # visited). \<not> leaf_within (Suc n) groups v leaf"
      using Suc.prems(2,3) leaf_within_mono [of "Suc n" groups _ leaf "Suc (Suc n)"] by auto
    ultimately have "leaf_loop groups s (name # visited) = Some leaf" by (rule Suc.IH)
    then show ?thesis using g nv Some by (simp add: leaf_loop.simps [of groups name visited])
  qed
qed

lemma effective_group_leaf_iff: "effective_group_leaf groups root = Some leaf \<longleftrightarrow> leaf_of groups root leaf"
proof
  assume "leaf_of groups root leaf"
  then obtain m where m: "leaf_within m groups root leaf" using leaf_of_within by blast
  define k where "k = (LEAST k. leaf_within k groups root leaf)"
  have k: "leaf_within k groups root leaf" unfolding k_def using m by (rule LeastI)
  then obtain j where j: "k = Suc j" by (cases k) auto
  have "\<not> leaf_within j groups root leaf" using j not_less_Least [of j "\<lambda>k. leaf_within k groups root leaf"]
    by (simp add: k_def)
  then show "effective_group_leaf groups root = Some leaf"
    unfolding effective_group_leaf_def using k j by (intro leaf_within_loop) auto
qed (simp add: effective_group_leaf_def leaf_loop_of)

lemma leaf_not_group: "leaf_of groups name leaf \<Longrightarrow> find_group groups leaf = None"
  by (induction rule: leaf_of.induct)

subsection \<open>The rows\<close>

text \<open>Without a query every group has exactly one header, GLOBAL first, then by name.\<close>

definition header_names :: "proxy_group_row list \<Rightarrow> string list" where
  "header_names rows = List.map_filter (\<lambda>r. case r of Group h \<Rightarrow> Some (hr_name h) | _ \<Rightarrow> None) rows"

lemma header_names_append: "header_names (a @ b) = header_names a @ header_names b"
  by (simp add: header_names_def map_filter_def)

lemma header_names_members: "header_names (map (\<lambda>p. Member (f p)) ps) = []"
  by (simp add: header_names_def map_filter_def)

lemma header_names_group_rows: "header_names (group_rows names [] expanded g) = [pg_name g]"
  using header_names_members
  by (simp add: group_rows_def Let_def header_names_def map_filter_def)

lemma header_names_concat:
  "header_names (concat (map (group_rows names [] expanded) gs)) = map pg_name gs"
  by (induction gs) (simp_all add: header_names_append header_names_group_rows, simp add: header_names_def map_filter_def)

lemma grouped_proxy_rows_headers:
  "header_names (grouped_proxy_rows groups [] expanded) =
     map pg_name (sort_key (\<lambda>g. (\<not> is_global g, to_ascii_lowercase (pg_name g))) groups)"
  by (simp add: grouped_proxy_rows_def Let_def header_names_concat to_ascii_lowercase_def)

subsection \<open>Further facts\<close>

text \<open>
  Without a query the proxy page shows exactly one header per group, GLOBAL first and the rest by
  lower-case name, in a stable order.
\<close>

lemma grid_headers_complete:
  "header_names (grouped_proxy_rows groups [] expanded) =
     map pg_name (sort_key (\<lambda>g. (\<not> is_global g, to_ascii_lowercase (pg_name g))) groups)"
  by (rule grouped_proxy_rows_headers)

text \<open>
  Following the selected members of nested groups with a visited set finds exactly the end of the
  chain of selections, and nothing when the chain is cyclic or ends in a group without a
  selection.
\<close>

lemma effective_leaf_iff: "effective_group_leaf groups root = Some leaf \<longleftrightarrow> leaf_of groups root leaf"
  by (rule effective_group_leaf_iff)

end
