(* ===== verification/SettingsDraft.thy ===== *)
theory SettingsDraft
  imports PawsModel
begin

text \<open>
  The settings draft of \<open>crates/paws_ui/src/settings_draft.rs\<close>: the values the user edits, the
  baseline they were taken from, a newer baseline that arrived meanwhile, and the section being
  saved. The UI thread owns the draft, so every method is a function of it.
\<close>

record dns_draft =
  dd_servers :: string
  dd_fallbacks :: string
  dd_policy :: string

record vpn_draft =
  vd_engine :: string
  vd_trusted :: string
  vd_blocked :: string
  vd_system_proxy :: bool
  vd_dns_hijacking :: bool
  vd_allow_bypass :: bool
  vd_stack :: string

record network_draft =
  nd_mixed_port :: string
  nd_controller_port :: string
  nd_mixed_enabled :: bool
  nd_controller_enabled :: bool
  nd_allow_lan :: bool

record settings_values =
  sv_dns :: dns_draft
  sv_vpn :: vpn_draft
  sv_network :: network_draft

record settings_baseline =
  sb_profile_id :: "string option"
  sb_revision :: nat
  sb_values :: settings_values

datatype settings_section = Dns | SVpn | Network

record settings_draft =
  sd_baseline :: settings_baseline
  sd_values :: settings_values
  sd_incoming :: "settings_baseline option"
  sd_pending :: "settings_section option"
  sd_error :: "string option"

definition draft_new :: "settings_baseline \<Rightarrow> settings_draft" where
  "draft_new baseline = \<lparr>sd_baseline = baseline, sd_values = sb_values baseline, sd_incoming = None,
     sd_pending = None, sd_error = None\<rparr>"

definition dirty :: "settings_section \<Rightarrow> settings_draft \<Rightarrow> bool" where
  "dirty section d = (case section of
     Dns \<Rightarrow> sv_dns (sd_values d) \<noteq> sv_dns (sb_values (sd_baseline d))
   | SVpn \<Rightarrow> sv_vpn (sd_values d) \<noteq> sv_vpn (sb_values (sd_baseline d))
   | Network \<Rightarrow> sv_network (sd_values d) \<noteq> sv_network (sb_values (sd_baseline d)))"

definition observe :: "settings_baseline \<Rightarrow> settings_draft \<Rightarrow> settings_draft" where
  "observe b d =
    (if sb_revision b < sb_revision (sd_baseline d)
        \<or> (case sd_incoming d of None \<Rightarrow> False | Some i \<Rightarrow> sb_revision b < sb_revision i) then d
     else if b = sd_baseline d then d\<lparr>sd_incoming := None\<rparr>
     else if sd_pending d \<noteq> None \<or> sd_values d \<noteq> sb_values (sd_baseline d)
     then d\<lparr>sd_incoming := Some b\<rparr>
     else draft_new b)"

definition reload :: "settings_draft \<Rightarrow> settings_draft" where
  "reload d =
    (if sd_pending d \<noteq> None then d
     else case sd_incoming d of None \<Rightarrow> d | Some i \<Rightarrow> draft_new i)"

definition begin_save ::
  "settings_section \<Rightarrow> settings_draft \<Rightarrow> settings_draft \<times> (string \<times> nat \<times> settings_values) option" where
  "begin_save section d =
    (if sd_pending d \<noteq> None \<or> sd_incoming d \<noteq> None \<or> \<not> dirty section d then (d, None)
     else case sb_profile_id (sd_baseline d) of None \<Rightarrow> (d, None)
     | Some profile_id \<Rightarrow>
         (d\<lparr>sd_pending := Some section, sd_error := None\<rparr>,
          Some (profile_id, sb_revision (sd_baseline d), sd_values d)))"

definition finish_save :: "settings_section \<Rightarrow> settings_baseline \<Rightarrow> settings_draft \<Rightarrow> settings_draft" where
  "finish_save section b d =
    (let d = d\<lparr>sd_pending := None\<rparr> in
     if sb_profile_id b \<noteq> sb_profile_id (sd_baseline d) then d\<lparr>sd_incoming := Some b\<rparr>
     else
       let values = sd_values d;
           values = (if section = Dns \<or> \<not> dirty Dns d
                     then values\<lparr>sv_dns := sv_dns (sb_values b)\<rparr> else values);
           values = (if section = SVpn \<or> \<not> dirty SVpn d
                     then values\<lparr>sv_vpn := sv_vpn (sb_values b)\<rparr> else values);
           values = (if section = Network \<or> \<not> dirty Network d
                     then values\<lparr>sv_network := sv_network (sb_values b)\<rparr> else values);
           newer = (case sd_incoming d of None \<Rightarrow> None
             | Some i \<Rightarrow> if sb_revision i > sb_revision b then Some i else None) in
       d\<lparr>sd_values := values, sd_baseline := b, sd_incoming := newer, sd_error := None\<rparr>)"

definition fail_save :: "string \<Rightarrow> settings_draft \<Rightarrow> settings_draft" where
  "fail_save err d = d\<lparr>sd_pending := None, sd_error := Some err\<rparr>"

subsection \<open>Edits survive\<close>

definition section_value :: "settings_section \<Rightarrow> settings_values \<Rightarrow> dns_draft option \<times> vpn_draft option \<times> network_draft option" where
  "section_value section v = (case section of
     Dns \<Rightarrow> (Some (sv_dns v), None, None)
   | SVpn \<Rightarrow> (None, Some (sv_vpn v), None)
   | Network \<Rightarrow> (None, None, Some (sv_network v)))"

lemma dirty_section:
  "dirty section d \<longleftrightarrow> section_value section (sd_values d) \<noteq> section_value section (sb_values (sd_baseline d))"
  by (cases "section") (simp_all add: dirty_def section_value_def)

lemma observe_keeps_edits:
  assumes "sd_pending d \<noteq> None \<or> dirty section d"
  shows "sd_values (observe b d) = sd_values d" "sd_baseline (observe b d) = sd_baseline d"
    "sd_pending (observe b d) = sd_pending d"
proof -
  have "sd_pending d \<noteq> None \<or> sd_values d \<noteq> sb_values (sd_baseline d)"
    using assms by (cases "section") (auto simp: dirty_def)
  then show "sd_values (observe b d) = sd_values d" "sd_baseline (observe b d) = sd_baseline d"
    "sd_pending (observe b d) = sd_pending d"
    by (auto simp: observe_def)
qed

lemma finish_sections:
  assumes "sb_profile_id b = sb_profile_id (sd_baseline d)"
  shows "section_value other (sd_values (finish_save section b d)) =
    (if other = section \<or> \<not> dirty other d then section_value other (sb_values b)
     else section_value other (sd_values d))"
  using assms by (cases other; cases "section") (simp_all add: finish_save_def section_value_def dirty_def Let_def)

lemma finish_foreign:
  assumes "sb_profile_id b \<noteq> sb_profile_id (sd_baseline d)"
  shows "sd_values (finish_save section b d) = sd_values d"
    "sd_baseline (finish_save section b d) = sd_baseline d"
    "sd_incoming (finish_save section b d) = Some b"
  using assms by (simp_all add: finish_save_def)

lemma begin_save_Some:
  assumes "begin_save section d = (d', Some (profile, revision, values))"
  shows "sd_pending d = None \<and> sd_incoming d = None \<and> dirty section d \<and>
     sb_profile_id (sd_baseline d) = Some profile \<and> revision = sb_revision (sd_baseline d) \<and>
     values = sd_values d \<and> d' = d\<lparr>sd_pending := Some section, sd_error := None\<rparr>"
  using assms by (auto simp: begin_save_def split: if_splits option.splits)

subsection \<open>A sample draft\<close>

definition sample_base :: settings_baseline where
  "sample_base = \<lparr>sb_profile_id = Some ''p'', sb_revision = 1, sb_values = \<lparr>
     sv_dns = \<lparr>dd_servers = ''1.1.1.1'', dd_fallbacks = [], dd_policy = []\<rparr>,
     sv_vpn = \<lparr>vd_engine = ''auto'', vd_trusted = [], vd_blocked = [], vd_system_proxy = False,
       vd_dns_hijacking = True, vd_allow_bypass = False, vd_stack = ''lwip''\<rparr>,
     sv_network = \<lparr>nd_mixed_port = ''7890'', nd_controller_port = ''9090'', nd_mixed_enabled = False,
       nd_controller_enabled = False, nd_allow_lan = False\<rparr>\<rparr>\<rparr>"

definition sample_newer :: settings_baseline where
  "sample_newer = sample_base\<lparr>sb_revision := 2\<rparr>"

definition sample_draft :: settings_draft where
  "sample_draft = (draft_new sample_base)\<lparr>sd_values := (sb_values sample_base)
     \<lparr>sv_dns := \<lparr>dd_servers = ''8.8.8.8'', dd_fallbacks = [], dd_policy = []\<rparr>\<rparr>\<rparr>"

subsection \<open>Properties\<close>

text \<open>
  C31. An edited settings section is never overwritten by what the runtime publishes, by starting
  or failing a save, or by a save of another section finishing; and a save always sends the values
  the user sees with the revision they were based on.
\<close>

theorem settings_edits_survive:
  assumes "dirty section d"
  shows "section_value section (sd_values (observe b d)) = section_value section (sd_values d) \<and>
    section_value section (sd_values (fst (begin_save other d))) = section_value section (sd_values d) \<and>
    section_value section (sd_values (fail_save msg d)) = section_value section (sd_values d) \<and>
    (other \<noteq> section \<longrightarrow>
       section_value section (sd_values (finish_save other b d)) = section_value section (sd_values d)) \<and>
    (\<forall>p r v. snd (begin_save other d) = Some (p, r, v) \<longrightarrow> v = sd_values d \<and> r = sb_revision (sd_baseline d))"
proof (intro conjI impI allI)
  show "section_value section (sd_values (observe b d)) = section_value section (sd_values d)"
    using observe_keeps_edits(1) [of d "section" b] assms by simp
  show "section_value section (sd_values (fst (begin_save other d))) = section_value section (sd_values d)"
    by (simp add: begin_save_def split: option.splits)
  show "section_value section (sd_values (fail_save msg d)) = section_value section (sd_values d)"
    by (simp add: fail_save_def)
  show "section_value section (sd_values (finish_save other b d)) = section_value section (sd_values d)"
    if "other \<noteq> section"
    using that assms finish_sections [of b d "section" other] finish_foreign(1) [of b d other] by metis
  show "v = sd_values d" "r = sb_revision (sd_baseline d)" if "snd (begin_save other d) = Some (p, r, v)" for p r v
    using begin_save_Some [of other d "fst (begin_save other d)" p r v] that by (simp_all add: prod_eq_iff)
qed

theorem settings_edits_survive_witness:
  "section_value Dns (sd_values (observe sample_newer sample_draft)) = section_value Dns (sd_values sample_draft)"
proof -
  have "dirty Dns sample_draft" by (simp add: dirty_def sample_draft_def draft_new_def sample_base_def)
  from settings_edits_survive [OF this] show ?thesis by blast
qed

end
