(* ===== verification/Spec2Isabelle.thy ===== *)
theory Spec2Isabelle
  imports VpnProtocol StoreReach RuleStore ImportPipeline TunReader TunSession OwnerJournal OwnerLease PlatformIpc VpnOperation Routing
    ProxyGrid SettingsDraft SettingsProperties
begin

text \<open>
  A model of Paws, a proxy and VPN client.
\<close>

end
